(* ===== verification/Prelude.thy ===== *)
theory Prelude
  imports Complex_Main "HOL-Library.Word" "HOL-Library.AList" "HOL-Library.Multiset"
    "HOL-Library.Char_ord" "HOL-Library.List_Lexorder"
begin

text \<open>
  What every component shares: the names of the Go types the model uses, Go's saturating
  time arithmetic, Go maps as association lists with distinct keys, the unspecified order
  in which Go ranges over a map, and the ``last n elements'' of a list, which is what
  every bounded history of the program keeps.
\<close>

unbundle bit_operations_syntax

named_theorems gomap_simps "lookup after update, deletion and filtering of Go maps"
named_theorems time_simps "comparison of saturated durations"

section \<open>Types\<close>

text \<open>
  \<^item> A \<open>time.Time\<close> is an instant in nanoseconds, and \<open>0\<close> is the zero time of \<open>IsZero\<close>;
    a \<open>time.Duration\<close> is a number of nanoseconds.
  \<^item> A \<open>float64\<close> is a rational: the model computes exactly, without rounding, infinities
    and NaN.
  \<^item> \<open>uint64\<close> and \<open>uint32\<close> are words, Go's \<open>int\<close> is an integer, a Go string is the list of
    its bytes.
\<close>

type_synonym gtime = int
type_synonym duration = int
type_synonym float64 = rat
type_synonym uint64 = "64 word"
type_synonym uint32 = "32 word"

text \<open>
  Where a \<open>float64\<close> is read from a file and checked, the values that are no numbers matter:
  every comparison with \<open>NaN\<close> is false.
\<close>

datatype special_float = Finite float64 | PosInf | NegInf | NaN

fun special_less :: "special_float \<Rightarrow> special_float \<Rightarrow> bool" where
  "special_less (Finite a) (Finite b) = (a < b)"
| "special_less NaN _ = False"
| "special_less _ NaN = False"
| "special_less PosInf _ = False"
| "special_less _ NegInf = False"
| "special_less _ PosInf = True"
| "special_less NegInf _ = True"

fun special_le :: "special_float \<Rightarrow> special_float \<Rightarrow> bool" where
  "special_le (Finite a) (Finite b) = (a \<le> b)"
| "special_le NaN _ = False"
| "special_le _ NaN = False"
| "special_le _ PosInf = True"
| "special_le NegInf _ = True"
| "special_le _ _ = False"

text \<open>A number times and over such a value.\<close>

definition infinite_of :: "float64 \<Rightarrow> special_float" where
  "infinite_of a = (if a = 0 then NaN else if 0 < a then PosInf else NegInf)"

fun special_times :: "float64 \<Rightarrow> special_float \<Rightarrow> special_float" where
  "special_times a (Finite b) = Finite (a * b)"
| "special_times a PosInf = infinite_of a"
| "special_times a NegInf = infinite_of (- a)"
| "special_times a NaN = NaN"

fun special_over :: "float64 \<Rightarrow> special_float \<Rightarrow> special_float" where
  "special_over a (Finite b) = (if b = 0 then infinite_of a else Finite (a / b))"
| "special_over a NaN = NaN"
| "special_over a _ = Finite 0"

definition millisecond :: duration where
  "millisecond = 1000000"

definition second :: duration where
  "second = 1000000000"

definition minute :: duration where
  "minute = 60 * second"

definition is_zero :: "gtime \<Rightarrow> bool" where
  "is_zero t \<longleftrightarrow> t = 0"

section \<open>Time arithmetic\<close>

text \<open>\<open>t.Sub(u)\<close> saturates at the bounds of \<open>int64\<close>.\<close>

definition max_duration :: duration where
  "max_duration = 2 ^ 63 - 1"

definition min_duration :: duration where
  "min_duration = - (2 ^ 63)"

definition time_sub :: "gtime \<Rightarrow> gtime \<Rightarrow> duration" where
  "time_sub t u = max min_duration (min max_duration (t - u))"

definition is_duration :: "duration \<Rightarrow> bool" where
  "is_duration d \<longleftrightarrow> min_duration \<le> d \<and> d \<le> max_duration"

definition seconds :: "duration \<Rightarrow> float64" where
  "seconds d = of_int d / of_int second"

text \<open>
  Against a duration a configuration can hold, a saturated difference compares as the
  exact one does. The lower bound is strict where the comparison is with the least
  duration.
\<close>

lemma time_sub_ge [time_simps]:
  "min_duration < d \<Longrightarrow> d \<le> max_duration \<Longrightarrow> d \<le> time_sub t u \<longleftrightarrow> d \<le> t - u"
  by (auto simp: time_sub_def)

lemma time_sub_less [time_simps]:
  "min_duration < d \<Longrightarrow> d \<le> max_duration \<Longrightarrow> time_sub t u < d \<longleftrightarrow> t - u < d"
  by (auto simp: time_sub_def)

lemma time_sub_le [time_simps]:
  "min_duration \<le> d \<Longrightarrow> d < max_duration \<Longrightarrow> time_sub t u \<le> d \<longleftrightarrow> t - u \<le> d"
  by (auto simp: time_sub_def)

lemma time_sub_gt [time_simps]:
  "min_duration \<le> d \<Longrightarrow> d < max_duration \<Longrightarrow> d < time_sub t u \<longleftrightarrow> d < t - u"
  by (auto simp: time_sub_def)

lemma time_sub_self [simp]: "time_sub t t = 0"
  by (simp add: time_sub_def min_duration_def max_duration_def)

lemma time_sub_mono: "t \<le> t' \<Longrightarrow> time_sub t u \<le> time_sub t' u"
  by (auto simp: time_sub_def)

lemma time_sub_antimono: "u \<le> u' \<Longrightarrow> time_sub t u' \<le> time_sub t u"
  by (auto simp: time_sub_def)

lemma time_sub_pos_iff: "0 < time_sub t u \<longleftrightarrow> u < t"
  by (auto simp: time_sub_def min_duration_def max_duration_def)

lemma seconds_pos_iff [simp]: "0 < seconds d \<longleftrightarrow> 0 < d"
  by (simp add: seconds_def second_def zero_less_divide_iff)

lemma seconds_nonneg_iff [simp]: "0 \<le> seconds d \<longleftrightarrow> 0 \<le> d"
  by (simp add: seconds_def second_def zero_le_divide_iff)

lemma seconds_le_0_iff [simp]: "seconds d \<le> 0 \<longleftrightarrow> d \<le> 0"
  by (metis not_le seconds_pos_iff)

lemma seconds_eq_0_iff [simp]: "seconds d = 0 \<longleftrightarrow> d = 0"
  by (simp add: seconds_def second_def)

section \<open>Go maps\<close>

text \<open>
  A Go map is an association list with distinct keys (\<open>wf_map\<close>): \<open>map_of\<close> reads it,
  \<open>AList.update\<close> stores, \<open>AList.delete\<close> removes. A read of an absent key gives the zero
  value of the element type, which \<open>mget\<close> takes as its first argument.
\<close>

type_synonym ('k, 'v) gomap = "('k \<times> 'v) list"

definition wf_map :: "('k, 'v) gomap \<Rightarrow> bool" where
  "wf_map m \<longleftrightarrow> distinct (map fst m)"

definition mget :: "'v \<Rightarrow> ('k, 'v) gomap \<Rightarrow> 'k \<Rightarrow> 'v" where
  "mget z m k = (case map_of m k of None \<Rightarrow> z | Some v \<Rightarrow> v)"

definition mkeys :: "('k, 'v) gomap \<Rightarrow> 'k list" where
  "mkeys m = map fst m"

definition mfilter :: "('k \<Rightarrow> 'v \<Rightarrow> bool) \<Rightarrow> ('k, 'v) gomap \<Rightarrow> ('k, 'v) gomap" where
  "mfilter P m = filter (\<lambda>(k, v). P k v) m"

lemma wf_map_Nil [simp]: "wf_map []"
  by (simp add: wf_map_def)

lemma wf_map_update [simp, intro]: "wf_map m \<Longrightarrow> wf_map (AList.update k v m)"
  by (simp add: wf_map_def distinct_update)

lemma wf_map_delete [simp, intro]: "wf_map m \<Longrightarrow> wf_map (AList.delete k m)"
  by (simp add: wf_map_def distinct_delete)

lemma wf_map_mfilter [simp, intro]: "wf_map m \<Longrightarrow> wf_map (mfilter P m)"
  by (simp add: wf_map_def mfilter_def distinct_map_filter)

lemma map_of_update [gomap_simps]: "map_of (AList.update k v m) = (map_of m)(k \<mapsto> v)"
  by (rule update_conv')

lemma map_of_delete [gomap_simps]: "map_of (AList.delete k m) = (map_of m)(k := None)"
  by (rule delete_conv')

lemma map_of_mfilter [gomap_simps]:
  assumes "wf_map m"
  shows "map_of (mfilter P m) k =
    (case map_of m k of None \<Rightarrow> None | Some v \<Rightarrow> if P k v then Some v else None)"
  using assms
proof (induction m)
  case Nil
  then show ?case by (simp add: mfilter_def)
next
  case (Cons e m)
  obtain k' v' where e: "e = (k', v')" by (cases e)
  from Cons.prems e have wf: "wf_map m" and new: "map_of m k' = None"
    by (auto simp: wf_map_def map_of_eq_None_iff)
  show ?case
    using Cons.IH[OF wf] new e by (auto simp: mfilter_def)
qed

lemma in_mkeys_iff: "k \<in> set (mkeys m) \<longleftrightarrow> map_of m k \<noteq> None"
  by (simp add: mkeys_def map_of_eq_None_iff)

lemma distinct_mkeys: "wf_map m \<Longrightarrow> distinct (mkeys m)"
  by (simp add: wf_map_def mkeys_def)

lemma in_set_iff_map_of: "wf_map m \<Longrightarrow> (k, v) \<in> set m \<longleftrightarrow> map_of m k = Some v"
  by (simp add: wf_map_def)

lemma mget_Some [simp]: "map_of m k = Some v \<Longrightarrow> mget z m k = v"
  by (simp add: mget_def)

lemma mget_None [simp]: "map_of m k = None \<Longrightarrow> mget z m k = z"
  by (simp add: mget_def)

lemma mget_update: "mget z (AList.update k v m) k' = (if k' = k then v else mget z m k')"
  by (simp add: mget_def gomap_simps)

lemma mget_False_iff: "mget False m k \<longleftrightarrow> map_of m k = Some True"
  by (simp add: mget_def split: option.splits)

section \<open>The order of a range over a map\<close>

text \<open>
  Go leaves the order of \<open>for k, v := range m\<close> open. An operation whose effect may depend
  on it takes the order as an argument: a function that rearranges the list of keys
  without losing or repeating one. Its properties hold for every such order.
\<close>

type_synonym 'k range_order = "'k list \<Rightarrow> 'k list"

definition is_order :: "'k range_order \<Rightarrow> bool" where
  "is_order ord \<longleftrightarrow> (\<forall>ks. mset (ord ks) = mset ks)"

lemma is_order_mset: "is_order ord \<Longrightarrow> mset (ord ks) = mset ks"
  by (simp add: is_order_def)

lemma is_order_set: "is_order ord \<Longrightarrow> set (ord ks) = set ks"
  by (metis is_order_mset set_mset_mset)

lemma is_order_length: "is_order ord \<Longrightarrow> length (ord ks) = length ks"
  by (metis is_order_mset size_mset)

lemma is_order_distinct: "is_order ord \<Longrightarrow> distinct (ord ks) \<longleftrightarrow> distinct ks"
  by (metis is_order_mset mset_eq_imp_distinct_iff)

lemma is_order_id [simp]: "is_order (\<lambda>ks. ks)"
  by (simp add: is_order_def)

lemma is_order_rev [simp]: "is_order rev"
  by (simp add: is_order_def)

section \<open>The last elements of a list\<close>

definition last_n :: "nat \<Rightarrow> 'a list \<Rightarrow> 'a list" where
  "last_n n xs = drop (length xs - n) xs"

lemma length_last_n [simp]: "length (last_n n xs) = min n (length xs)"
  by (simp add: last_n_def)

lemma last_n_all: "length xs \<le> n \<Longrightarrow> last_n n xs = xs"
  by (simp add: last_n_def)

lemma set_last_n: "set (last_n n xs) \<subseteq> set xs"
  by (simp add: last_n_def set_drop_subset)

lemma last_n_snoc: "0 < n \<Longrightarrow> last_n n (xs @ [x]) = last_n (n - 1) xs @ [x]"
  by (cases n) (auto simp: last_n_def)

lemma last_n_append_last_n: "last_n n (last_n n xs @ ys) = last_n n (xs @ ys)"
proof (cases "n \<le> length xs")
  case True
  then show ?thesis by (simp add: last_n_def add.commute)
next
  case False
  then show ?thesis by (simp add: last_n_def)
qed

lemma last_n_0 [simp]: "last_n 0 xs = []"
  by (simp add: last_n_def)

lemma last_last_n: "0 < n \<Longrightarrow> xs \<noteq> [] \<Longrightarrow> last (last_n n xs) = last xs"
  by (simp add: last_n_def)

section \<open>Loops with an accumulator\<close>

lemma foldl_invariant:
  assumes "P acc" and "\<And>acc x. x \<in> set xs \<Longrightarrow> P acc \<Longrightarrow> P (f acc x)"
  shows "P (foldl f acc xs)"
  using assms by (induction xs arbitrary: acc) auto

section \<open>Mapping and filtering at once\<close>

lemma map_filter_Some: "set (List.map_filter f xs) = {y. \<exists>x \<in> set xs. f x = Some y}"
  by (induction xs) (auto simp: List.map_filter_simps split: option.splits)

lemma distinct_map_filter_Some:
  assumes "distinct xs" and "\<And>x y z. f x = Some z \<Longrightarrow> f y = Some z \<Longrightarrow> x = y"
  shows "distinct (List.map_filter f xs)"
  using assms(1)
proof (induction xs)
  case Nil
  then show ?case by (simp add: List.map_filter_simps)
next
  case (Cons x xs)
  then have new: "x \<notin> set xs" and IH: "distinct (List.map_filter f xs)" by simp_all
  show ?case
  proof (cases "f x")
    case None
    with IH show ?thesis by (simp add: List.map_filter_simps)
  next
    case (Some z)
    have "z \<notin> set (List.map_filter f xs)"
    proof
      assume "z \<in> set (List.map_filter f xs)"
      then obtain y where "y \<in> set xs" "f y = Some z" by (auto simp: map_filter_Some)
      with assms(2)[OF Some] new show False by blast
    qed
    with IH Some show ?thesis by (simp add: List.map_filter_simps)
  qed
qed

lemma mset_map_filter:
  "mset xs = mset ys \<Longrightarrow> mset (List.map_filter f xs) = mset (List.map_filter f ys)"
  by (simp add: List.map_filter_def mset_map mset_filter flip: mset_map mset_filter) (simp add: mset_map mset_filter)

lemma map_filter_keys:
  assumes "wf_map m"
  shows "List.map_filter (\<lambda>i. map_option f (map_of m i)) (mkeys m) = map (\<lambda>(i, e). f e) m"
proof -
  have "List.map_filter (\<lambda>i. map_option f (map_of m i)) (map fst xs) = map (\<lambda>(i, e). f e) xs" if "set xs \<subseteq> set m" for xs
    using that
  proof (induction xs)
    case Nil
    then show ?case by (simp add: List.map_filter_simps)
  next
    case (Cons x xs)
    obtain i e where x: "x = (i, e)" by (cases x)
    have "map_of m i = Some e" using Cons.prems x assms in_set_iff_map_of[of m i e] by simp
    then show ?case using Cons x by (simp add: List.map_filter_simps)
  qed
  then show ?thesis by (simp add: mkeys_def)
qed

lemma map_filter_in_map: "(\<And>k. k \<in> set ks \<Longrightarrow> f k \<noteq> None) \<Longrightarrow> List.map_filter f ks = map (the \<circ> f) ks"
  by (induction ks) (auto simp: map_filter_simps split: option.splits)

end
