(* ===== verification/Bounded_Log.thy ===== *)
theory Bounded_Log
  imports Prelude
begin

text \<open>
  The contract of a bounded history: pushing a value appends it and keeps the newest
  \<open>cap\<close> values, oldest first. The metric histories of the store, the log view of the
  interface and the alert history of the engine each implement it in their own way; what
  their readers rely on is proved here once.
\<close>

locale bounded_log =
  fixes new_log :: 'b
    and push :: "'b \<Rightarrow> 'a \<Rightarrow> 'b"
    and contents :: "'b \<Rightarrow> 'a list"
    and cap :: nat
    and invar :: "'b \<Rightarrow> bool"
  assumes contents_new: "contents new_log = []"
    and invar_new: "invar new_log"
    and invar_push: "invar b \<Longrightarrow> invar (push b x)"
    and contents_push: "invar b \<Longrightarrow> contents (push b x) = last_n cap (contents b @ [x])"
begin

lemma invar_pushes: "invar b \<Longrightarrow> invar (foldl push b xs)"
  by (induction xs arbitrary: b) (auto intro: invar_push)

lemma contents_pushes:
  "invar b \<Longrightarrow> length (contents b) \<le> cap \<Longrightarrow>
   contents (foldl push b xs) = last_n cap (contents b @ xs)"
proof (induction xs arbitrary: b)
  case Nil
  then show ?case by (simp add: last_n_all)
next
  case (Cons x xs)
  have "contents (foldl push (push b x) xs) = last_n cap (contents (push b x) @ xs)"
    using Cons by (intro Cons.IH) (auto simp: contents_push intro: invar_push)
  then show ?case
    using Cons.prems by (simp add: contents_push last_n_append_last_n)
qed

lemma contents_history: "contents (foldl push new_log xs) = last_n cap xs"
  using contents_pushes[OF invar_new, of xs] by (simp add: contents_new)

lemma length_history: "length (contents (foldl push new_log xs)) = min cap (length xs)"
  by (simp add: contents_history)

lemma newest_last:
  "invar b \<Longrightarrow> 0 < cap \<Longrightarrow> last (contents (push b x)) = x"
  by (simp add: contents_push last_last_n)

lemma history_ignores_past:
  "cap \<le> length ys \<Longrightarrow>
   contents (foldl push new_log (xs @ ys)) = contents (foldl push new_log ys)"
  unfolding contents_history by (simp add: last_n_def)

end

end
