(* ===== verification/Config.thy ===== *)
theory Config
  imports Prelude
begin

text \<open>
  \<open>internal/config/config.go\<close>: the settings, their defaults, the loading of the
  configuration file and its validation. The TOML decoder is a third-party package and a
  parameter of \<open>Load\<close>.
\<close>

section \<open>Settings\<close>

record Level =
  Warn :: float64
  Crit :: float64

record Probes =
  Disabled :: "string list"

record KmsgCfg =
  kmsg_Enabled :: bool
  Replay :: duration

record QMPCfg =
  qmp_Enabled :: bool
  qmp_Interval :: duration
  qmp_Timeout :: duration

record Alerts =
  Mute :: "string list"
  History :: int
  Dedup :: duration
  RaiseAfter :: duration
  ClearAfter :: duration
  ClearRatio :: special_float

record Thresholds =
  th_RunqP99Us :: Level
  th_VCPUExitRate :: Level
  th_GuestMemFreePct :: Level
  th_GuestSwapInKiBs :: Level
  th_MajorFaultRate :: Level
  th_HostMemFreePct :: Level
  th_PSICPUSome :: Level
  th_PSIMemSome :: Level
  th_PSIMemFull :: Level
  th_PSIIOFull :: Level
  th_DiskP99Us :: Level
  th_VMBlockP99Us :: Level
  th_NetDropRate :: Level

record Config =
  cfg_Interval :: duration
  cfg_LogLevel :: string
  cfg_Listen :: string
  cfg_Probes :: Probes
  cfg_Kmsg :: KmsgCfg
  cfg_QMP :: QMPCfg
  cfg_Alerts :: Alerts
  cfg_Thresholds :: Thresholds

definition level :: "float64 \<Rightarrow> float64 \<Rightarrow> Level" where
  "level w c = \<lparr>Warn = w, Crit = c\<rparr>"

definition DefaultAlerts :: Alerts where
  "DefaultAlerts =
     \<lparr>Mute = [], History = 1000, Dedup = minute, RaiseAfter = 3 * second,
      ClearAfter = 10 * second, ClearRatio = Finite (4 / 5)\<rparr>"

definition DefaultThresholds :: Thresholds where
  "DefaultThresholds =
     \<lparr>th_RunqP99Us = level 5000 20000,
      th_VCPUExitRate = level 100000 250000,
      th_GuestMemFreePct = level 10 5,
      th_GuestSwapInKiBs = level 1024 10240,
      th_MajorFaultRate = level 100 1000,
      th_HostMemFreePct = level 10 5,
      th_PSICPUSome = level 50 80,
      th_PSIMemSome = level 10 30,
      th_PSIMemFull = level 5 15,
      th_PSIIOFull = level 10 30,
      th_DiskP99Us = level 50000 200000,
      th_VMBlockP99Us = level 50000 200000,
      th_NetDropRate = level 10 100\<rparr>"

definition Default :: Config where
  "Default =
     \<lparr>cfg_Interval = second,
      cfg_LogLevel = ''info'',
      cfg_Listen = [],
      cfg_Probes = \<lparr>Disabled = []\<rparr>,
      cfg_Kmsg = \<lparr>kmsg_Enabled = True, Replay = 10 * minute\<rparr>,
      cfg_QMP = \<lparr>qmp_Enabled = False, qmp_Interval = 5 * second, qmp_Timeout = 500 * millisecond\<rparr>,
      cfg_Alerts = DefaultAlerts,
      cfg_Thresholds = DefaultThresholds\<rparr>"

section \<open>Loading\<close>

datatype config_error =
    ErrInterval
  | ErrClearRatio
  | ErrHistory
  | ErrDecode string string
  | ErrUnknownKey string string

definition validate :: "Config \<Rightarrow> config_error option" where
  "validate c =
     (if cfg_Interval c < 100 * millisecond then Some ErrInterval
      else if special_le (ClearRatio (cfg_Alerts c)) (Finite 0) \<or> special_less (Finite 1) (ClearRatio (cfg_Alerts c)) then Some ErrClearRatio
      else if History (cfg_Alerts c) < 1 then Some ErrHistory
      else None)"

definition DefaultPath :: string where
  "DefaultPath = ''/etc/hyperview/config.toml''"

text \<open>
  What \<open>toml.DecodeFile\<close> reports: the file does not exist, it cannot be decoded, or the
  configuration with the file's values over the given ones and the keys it did not use.
\<close>

datatype toml_result =
    TomlNotExist Config
  | TomlError string Config
  | TomlDecoded Config "string list"

definition Load :: "(string \<Rightarrow> Config \<Rightarrow> toml_result) \<Rightarrow> string \<Rightarrow> Config \<times> config_error option" where
  "Load decode path =
     (let explicit = (path \<noteq> []);
          file = (if explicit then path else DefaultPath)
      in case decode file Default of
           TomlNotExist cfg \<Rightarrow>
             (if explicit then (cfg, Some (ErrDecode file ''file does not exist'')) else (cfg, None))
         | TomlError e cfg \<Rightarrow> (cfg, Some (ErrDecode file e))
         | TomlDecoded cfg keys \<Rightarrow>
             (case keys of
                k # _ \<Rightarrow> (cfg, Some (ErrUnknownKey file k))
              | [] \<Rightarrow> (cfg, validate cfg)))"

definition ProbeDisabled :: "Config \<Rightarrow> (string, bool) gomap" where
  "ProbeDisabled c = foldl (\<lambda>m f. AList.update f True m) [] (Disabled (cfg_Probes c))"

section \<open>What a loaded configuration guarantees\<close>

definition alerts_ok :: "Alerts \<Rightarrow> bool" where
  "alerts_ok a \<longleftrightarrow> special_less (Finite 0) (ClearRatio a) \<and> special_le (ClearRatio a) (Finite 1) \<and> 1 \<le> History a"

text \<open>What \<open>validate\<close> lets through: both of its comparisons are false of a ratio that is no number.\<close>

definition config_ok :: "Config \<Rightarrow> bool" where
  "config_ok c \<longleftrightarrow> 100 * millisecond \<le> cfg_Interval c \<and> 1 \<le> History (cfg_Alerts c) \<and>
     (alerts_ok (cfg_Alerts c) \<or> ClearRatio (cfg_Alerts c) = NaN)"

lemma validate_None_iff: "validate c = None \<longleftrightarrow> config_ok c"
  by (cases "ClearRatio (cfg_Alerts c)") (auto simp: validate_def config_ok_def alerts_ok_def not_less)

lemma Default_ok: "config_ok Default"
  by (simp add: config_ok_def alerts_ok_def Default_def DefaultAlerts_def millisecond_def second_def)

text \<open>
  A level is ordered when both of its thresholds are enabled only with the critical one
  the worse: larger, or smaller where low values are bad. Zero disables a threshold.
\<close>

definition level_ordered :: "bool \<Rightarrow> Level \<Rightarrow> bool" where
  "level_ordered lower l \<longleftrightarrow> 0 \<le> Warn l \<and> 0 \<le> Crit l \<and>
     (Warn l \<noteq> 0 \<and> Crit l \<noteq> 0 \<longrightarrow> (if lower then Crit l \<le> Warn l else Warn l \<le> Crit l))"

definition thresholds_ordered :: "Thresholds \<Rightarrow> bool" where
  "thresholds_ordered th \<longleftrightarrow>
     level_ordered True (th_GuestMemFreePct th) \<and> level_ordered True (th_HostMemFreePct th) \<and>
     (\<forall>l \<in> set [th_RunqP99Us th, th_VCPUExitRate th, th_GuestSwapInKiBs th, th_MajorFaultRate th,
        th_PSICPUSome th, th_PSIMemSome th, th_PSIMemFull th, th_PSIIOFull th, th_DiskP99Us th,
        th_VMBlockP99Us th, th_NetDropRate th]. level_ordered False l)"

lemma DefaultThresholds_ordered: "thresholds_ordered DefaultThresholds"
  by (simp add: thresholds_ordered_def DefaultThresholds_def level_ordered_def level_def)

end
