(* ===== verification/Engine.thy ===== *)
theory Engine
  imports Bounded_Log Config "HOL-Library.Product_Lexorder"
begin

text \<open>
  \<open>internal/alert/alert.go\<close>: the alert engine. An alert lives in a heap, because the
  engine shares pointers to it: a repeated event is updated in place through the \<open>events\<close>
  map and the same object is an entry of the history. Each critical section of the Go
  code is one definition that returns the new state and the notices to deliver.
\<close>

section \<open>Severities, alerts, samples\<close>

datatype Severity = Info | Warning | Critical

fun sev_num :: "Severity \<Rightarrow> nat" where
  "sev_num Info = 0"
| "sev_num Warning = 1"
| "sev_num Critical = 2"

fun SeverityString :: "Severity \<Rightarrow> string" where
  "SeverityString Info = ''info''"
| "SeverityString Warning = ''warning''"
| "SeverityString Critical = ''critical''"

lemma sev_num_inj: "sev_num a = sev_num b \<Longrightarrow> a = b"
  by (cases a; cases b) auto

instantiation Severity :: linorder
begin

definition less_eq_Severity :: "Severity \<Rightarrow> Severity \<Rightarrow> bool" where
  "less_eq_Severity a b \<longleftrightarrow> sev_num a \<le> sev_num b"

definition less_Severity :: "Severity \<Rightarrow> Severity \<Rightarrow> bool" where
  "less_Severity a b \<longleftrightarrow> sev_num a < sev_num b"

instance
  by standard (auto simp: less_eq_Severity_def less_Severity_def intro: sev_num_inj)

end

lemma Info_le [simp]: "Info \<le> s"
  by (simp add: less_eq_Severity_def)

lemma Info_less_iff [simp]: "Info < s \<longleftrightarrow> s \<noteq> Info"
  by (cases s) (auto simp: less_Severity_def)

lemma not_less_Info [simp]: "\<not> s < Info"
  by (simp add: not_less)

text \<open>The categories are strings; \<open>CatNone\<close> is the empty one, which a zero value has.\<close>

datatype Category =
  CatNone | CatKVM | CatSched | CatMemory | CatIO | CatNet | CatHardware | CatLifecycle | CatKernel

fun CategoryString :: "Category \<Rightarrow> string" where
  "CategoryString CatNone = []"
| "CategoryString CatKVM = ''kvm''"
| "CategoryString CatSched = ''sched''"
| "CategoryString CatMemory = ''memory''"
| "CategoryString CatIO = ''io''"
| "CategoryString CatNet = ''net''"
| "CategoryString CatHardware = ''hardware''"
| "CategoryString CatLifecycle = ''lifecycle''"
| "CategoryString CatKernel = ''kernel''"

text \<open>\<open>KindUnset\<close> is the zero value, the kind of an alert before \<open>Raise\<close> sets it.\<close>

datatype Kind = KindUnset | KindEvent | KindCondition

fun KindString :: "Kind \<Rightarrow> string" where
  "KindString KindUnset = []"
| "KindString KindEvent = ''event''"
| "KindString KindCondition = ''condition''"

record Alert =
  a_ID :: uint64
  a_Key :: string
  a_Rule :: string
  a_Kind :: Kind
  a_Severity :: Severity
  a_Category :: Category
  a_DomainID :: string
  a_DomainName :: string
  a_Subject :: string
  a_Message :: string
  a_Value :: float64
  a_Source :: string
  a_First :: gtime
  a_Last :: gtime
  a_Count :: int
  a_Active :: bool
  a_Resolved :: gtime

datatype Transition = Raised | Repeated | Escalated | Cleared | Summarized

fun TransitionString :: "Transition \<Rightarrow> string" where
  "TransitionString Raised = ''raised''"
| "TransitionString Repeated = ''repeated''"
| "TransitionString Escalated = ''escalated''"
| "TransitionString Cleared = ''resolved''"
| "TransitionString Summarized = ''summary''"

record Sample =
  s_Rule :: string
  s_Category :: Category
  s_DomainID :: string
  s_DomainName :: string
  s_Subject :: string
  s_Value :: float64
  s_Level :: Level
  s_LowerWorse :: bool
  s_Format :: "float64 \<Rightarrow> string"

definition join_key :: "string \<Rightarrow> string \<Rightarrow> string \<Rightarrow> string" where
  "join_key rule domain subject = rule @ ''|'' @ domain @ ''|'' @ subject"

definition sample_key :: "Sample \<Rightarrow> string" where
  "sample_key s = join_key (s_Rule s) (s_DomainID s) (s_Subject s)"

definition over :: "Sample \<Rightarrow> float64 \<Rightarrow> float64 \<Rightarrow> bool" where
  "over s v t = (if t = 0 then False else if s_LowerWorse s then v \<le> t else t \<le> v)"

definition severity :: "Sample \<Rightarrow> float64 \<Rightarrow> Severity" where
  "severity s v =
     (if over s v (Crit (s_Level s)) then Critical
      else if over s v (Warn (s_Level s)) then Warning
      else Info)"

definition clear :: "Sample \<Rightarrow> float64 \<Rightarrow> special_float \<Rightarrow> bool" where
  "clear s v ratio =
     (let t = Warn (s_Level s); t = (if t = 0 then Crit (s_Level s) else t)
      in if s_LowerWorse s then special_less (special_over t ratio) (Finite v) else special_less (Finite v) (special_times t ratio))"

section \<open>Engine state\<close>

type_synonym ref = nat

record condState =
  c_pending :: Severity
  c_pendingAt :: gtime
  c_belowAt :: gtime
  c_alert :: "ref option"
  c_lastSampled :: gtime

definition zero_cond :: condState where
  "zero_cond = \<lparr>c_pending = Info, c_pendingAt = 0, c_belowAt = 0, c_alert = None, c_lastSampled = 0\<rparr>"

text \<open>
  \<open>e_heap\<close> and \<open>e_nextRef\<close> are the memory the pointers of \<open>conds\<close>, \<open>events\<close> and \<open>history\<close>
  refer to; a subscriber is the number it was registered under.
\<close>

record Engine =
  e_cfg :: Alerts
  e_muted :: "(string, bool) gomap"
  e_nextID :: uint64
  e_conds :: "(string, condState) gomap"
  e_events :: "(string, ref) gomap"
  e_history :: "ref list"
  e_subs :: "nat list"
  e_heap :: "ref \<rightharpoonup> Alert"
  e_nextRef :: ref

type_synonym notice = "Alert \<times> Transition"

definition NewEngine :: "Alerts \<Rightarrow> Engine" where
  "NewEngine cfg =
     \<lparr>e_cfg = cfg, e_muted = foldl (\<lambda>m r. AList.update r True m) [] (Mute cfg), e_nextID = 0,
      e_conds = [], e_events = [], e_history = [], e_subs = [], e_heap = Map.empty, e_nextRef = 0\<rparr>"

definition Subscribe :: "nat \<Rightarrow> Engine \<Rightarrow> Engine" where
  "Subscribe fn e = e\<lparr>e_subs := e_subs e @ [fn]\<rparr>"

text \<open>
  The calls \<open>notify\<close> makes: every notice goes to every subscriber, in the order they registered.
  \<open>Raise\<close> and \<open>Evaluate\<close> release the mutex before they notify, so these calls are no part of the
  critical section; the operations return them, and the goroutine that called makes them
  one by one (theory \<open>Program\<close>).
\<close>

definition notify :: "Engine \<Rightarrow> notice list \<Rightarrow> (nat \<times> notice) list" where
  "notify e ns = concat (map (\<lambda>n. map (\<lambda>fn. (fn, n)) (e_subs e)) ns)"

definition is_muted :: "Engine \<Rightarrow> string \<Rightarrow> bool" where
  "is_muted e r = mget False (e_muted e) r"

definition alert_at :: "Engine \<Rightarrow> ref \<Rightarrow> Alert" where
  "alert_at e r = the (e_heap e r)"

definition set_alert :: "ref \<Rightarrow> Alert \<Rightarrow> Engine \<Rightarrow> Engine" where
  "set_alert r a e = e\<lparr>e_heap := (e_heap e)(r \<mapsto> a)\<rparr>"

text \<open>The history keeps the newest \<open>History\<close> alerts.\<close>

definition push_bounded :: "int \<Rightarrow> 'a list \<Rightarrow> 'a \<Rightarrow> 'a list" where
  "push_bounded n h r =
     (let h = h @ [r]; excess = int (length h) - n in if 0 < excess then drop (nat excess) h else h)"

definition pushHistory :: "ref \<Rightarrow> Engine \<Rightarrow> Engine" where
  "pushHistory r e = e\<lparr>e_history := push_bounded (History (e_cfg e)) (e_history e) r\<rparr>"

section \<open>Raise: event alerts\<close>

definition repeat_event :: "ref \<Rightarrow> Alert \<Rightarrow> Engine \<Rightarrow> Engine \<times> notice list" where
  "repeat_event r a e =
     (let old = alert_at e r;
          old = old\<lparr>a_Count := a_Count old + 1, a_Last := a_Last a, a_Message := a_Message a,
                    a_Value := a_Value a,
                    a_Severity := (if a_Severity old < a_Severity a then a_Severity a else a_Severity old)\<rparr>
      in (set_alert r old e, [(old, Repeated)]))"

definition new_event :: "Alert \<Rightarrow> Engine \<Rightarrow> Engine \<times> notice list" where
  "new_event a e =
     (let n = e_nextID e + 1;
          r = e_nextRef e;
          a = a\<lparr>a_ID := n, a_Kind := KindEvent, a_First := a_Last a, a_Count := 1, a_Active := False\<rparr>;
          e = e\<lparr>e_nextID := n, e_nextRef := r + 1, e_heap := (e_heap e)(r \<mapsto> a),
                e_events := AList.update (a_Key a) r (e_events e)\<rparr>
      in (pushHistory r e, [(a, Raised)]))"

text \<open>The fields \<open>Raise\<close> fills in before it takes the lock.\<close>

definition complete_event :: "gtime \<Rightarrow> Alert \<Rightarrow> Alert" where
  "complete_event now a =
     (let a = (if is_zero (a_Last a) then a\<lparr>a_Last := now\<rparr> else a)
      in if a_Key a = [] then a\<lparr>a_Key := join_key (a_Rule a) (a_DomainID a) (a_Subject a)\<rparr> else a)"

definition raise_event :: "gtime \<Rightarrow> Alert \<Rightarrow> Engine \<Rightarrow> Engine \<times> notice list" where
  "raise_event now a e =
     (if is_muted e (a_Rule a) then (e, [])
      else let a = complete_event now a
           in case map_of (e_events e) (a_Key a) of
                None \<Rightarrow> new_event a e
              | Some r \<Rightarrow>
                  if time_sub (a_Last a) (a_Last (alert_at e r)) < Dedup (e_cfg e)
                  then repeat_event r a e
                  else new_event a e)"

definition Raise :: "gtime \<Rightarrow> Alert \<Rightarrow> Engine \<Rightarrow> Engine \<times> (nat \<times> notice) list" where
  "Raise now a e = (let (e, ns) = raise_event now a e in (e, notify e ns))"

section \<open>Evaluate: condition alerts\<close>

definition resolve :: "condState \<Rightarrow> ref \<Rightarrow> gtime \<Rightarrow> Engine \<Rightarrow> Engine \<times> condState \<times> notice" where
  "resolve st r now e =
     (let a = (alert_at e r)\<lparr>a_Active := False, a_Resolved := now\<rparr>
      in (pushHistory r (set_alert r a e), st\<lparr>c_alert := None, c_belowAt := 0\<rparr>, (a, Cleared)))"

definition new_condition :: "Sample \<Rightarrow> string \<Rightarrow> Severity \<Rightarrow> gtime \<Rightarrow> uint64 \<Rightarrow> Alert" where
  "new_condition s key sev now n =
     \<lparr>a_ID = n, a_Key = key, a_Rule = s_Rule s, a_Kind = KindCondition, a_Severity = sev,
      a_Category = s_Category s, a_DomainID = s_DomainID s, a_DomainName = s_DomainName s,
      a_Subject = s_Subject s, a_Message = s_Format s (s_Value s), a_Value = s_Value s,
      a_Source = ''metrics'', a_First = now, a_Last = now, a_Count = 1, a_Active = True, a_Resolved = 0\<rparr>"

text \<open>The severity seen since \<open>pendingAt\<close>.\<close>

definition pend :: "condState \<Rightarrow> Severity \<Rightarrow> gtime \<Rightarrow> condState" where
  "pend st sev now = (if sev \<noteq> c_pending st then st\<lparr>c_pending := sev, c_pendingAt := now\<rparr> else st)"

definition step ::
  "condState \<Rightarrow> Sample \<Rightarrow> string \<Rightarrow> gtime \<Rightarrow> Engine \<Rightarrow> Engine \<times> condState \<times> notice option" where
  "step st s key now e =
     (let sev = severity s (s_Value s);
          st = pend st sev now;
          held = (RaiseAfter (e_cfg e) \<le> time_sub now (c_pendingAt st))
      in case c_alert st of
           None \<Rightarrow>
             if sev = Info \<or> \<not> held then (e, st, None)
             else let n = e_nextID e + 1; r = e_nextRef e; a = new_condition s key sev now n
                  in (e\<lparr>e_nextID := n, e_nextRef := r + 1, e_heap := (e_heap e)(r \<mapsto> a)\<rparr>,
                      st\<lparr>c_alert := Some r, c_belowAt := 0\<rparr>, Some (a, Raised))
         | Some r \<Rightarrow>
             let a = (alert_at e r)\<lparr>a_Last := now, a_Value := s_Value s, a_DomainName := s_DomainName s\<rparr>
             in if clear s (s_Value s) (ClearRatio (e_cfg e)) then
                  let st = (if is_zero (c_belowAt st) then st\<lparr>c_belowAt := now\<rparr> else st)
                  in if ClearAfter (e_cfg e) \<le> time_sub now (c_belowAt st)
                     then let (e, st, n) = resolve st r now (set_alert r a e) in (e, st, Some n)
                     else (set_alert r a e, st, None)
                else
                  let st = st\<lparr>c_belowAt := 0\<rparr>
                  in if sev \<noteq> Info \<and> sev \<noteq> a_Severity a \<and> held
                     then let a = a\<lparr>a_Severity := sev, a_Message := s_Format s (s_Value s)\<rparr>
                          in (set_alert r a e, st, Some (a, Escalated))
                     else let a = a\<lparr>a_Message := s_Format s (s_Value s)\<rparr>
                          in (set_alert r a e, st, None))"

definition eval_sample :: "gtime \<Rightarrow> Engine \<times> notice list \<Rightarrow> Sample \<Rightarrow> Engine \<times> notice list" where
  "eval_sample now acc s =
     (let (e, ns) = acc
      in if is_muted e (s_Rule s) then (e, ns)
         else let k = sample_key s;
                  st = (case map_of (e_conds e) k of None \<Rightarrow> zero_cond | Some st \<Rightarrow> st);
                  (e, st, n) = step (st\<lparr>c_lastSampled := now\<rparr>) s k now e
              in (e\<lparr>e_conds := AList.update k st (e_conds e)\<rparr>,
                  ns @ (case n of None \<Rightarrow> [] | Some n \<Rightarrow> [n])))"

text \<open>The sweep: a condition that was not sampled in this tick resolves and is forgotten.\<close>

definition sweep_cond :: "gtime \<Rightarrow> Engine \<times> notice list \<Rightarrow> string \<Rightarrow> Engine \<times> notice list" where
  "sweep_cond now acc k =
     (let (e, ns) = acc
      in case map_of (e_conds e) k of
           None \<Rightarrow> (e, ns)
         | Some st \<Rightarrow>
             if c_lastSampled st = now then (e, ns)
             else let (e, ns) = (case c_alert st of
                                   None \<Rightarrow> (e, ns)
                                 | Some r \<Rightarrow> let (e, _, n) = resolve st r now e in (e, ns @ [n]))
                  in (e\<lparr>e_conds := AList.delete k (e_conds e)\<rparr>, ns))"

definition expire_event :: "gtime \<Rightarrow> Engine \<times> notice list \<Rightarrow> string \<Rightarrow> Engine \<times> notice list" where
  "expire_event now acc k =
     (let (e, ns) = acc
      in case map_of (e_events e) k of
           None \<Rightarrow> (e, ns)
         | Some r \<Rightarrow>
             let a = alert_at e r
             in if Dedup (e_cfg e) \<le> time_sub now (a_Last a)
                then (e\<lparr>e_events := AList.delete k (e_events e)\<rparr>,
                      if 1 < a_Count a then ns @ [(a, Summarized)] else ns)
                else (e, ns))"

definition expireEvents :: "string range_order \<Rightarrow> gtime \<Rightarrow> Engine \<Rightarrow> Engine \<times> notice list" where
  "expireEvents ord now e = foldl (expire_event now) (e, []) (ord (mkeys (e_events e)))"

text \<open>
  \<open>ordc\<close> and \<open>orde\<close> are the orders in which the two range loops visit the conditions and
  the events.
\<close>

definition eval_tick ::
  "string range_order \<Rightarrow> string range_order \<Rightarrow> gtime \<Rightarrow> Sample list \<Rightarrow> Engine \<Rightarrow> Engine \<times> notice list" where
  "eval_tick ordc orde now samples e =
     (let (e, ns) = foldl (eval_sample now) (e, []) samples;
          (e, ns) = foldl (sweep_cond now) (e, ns) (ordc (mkeys (e_conds e)));
          (e, ms) = expireEvents orde now e
      in (e, ns @ ms))"

definition Evaluate ::
  "string range_order \<Rightarrow> string range_order \<Rightarrow> gtime \<Rightarrow> Sample list \<Rightarrow> Engine \<Rightarrow>
   Engine \<times> (nat \<times> notice) list" where
  "Evaluate ordc orde now samples e =
     (let (e, ns) = eval_tick ordc orde now samples e in (e, notify e ns))"

section \<open>Readers\<close>

text \<open>
  Go's \<open>SortFunc\<close> may leave equal elements in any order; a stable sort of the conditions
  in an arbitrary range order has every such result.
\<close>

definition sortAlerts :: "Alert list \<Rightarrow> Alert list" where
  "sortAlerts as = sort_key (\<lambda>a. (- int (sev_num (a_Severity a)), - a_First a)) as"

definition active_refs :: "string range_order \<Rightarrow> Engine \<Rightarrow> ref list" where
  "active_refs ord e =
     List.map_filter (\<lambda>k. case map_of (e_conds e) k of None \<Rightarrow> None | Some st \<Rightarrow> c_alert st)
       (ord (mkeys (e_conds e)))"

definition Active :: "string range_order \<Rightarrow> Engine \<Rightarrow> Alert list" where
  "Active ord e = sortAlerts (map (alert_at e) (active_refs ord e))"

text \<open>
  \<open>Recent\<close> takes the lock twice: for \<open>Active\<close>, in the state \<open>e\<close>, and for its walk back through
  the history, in the state \<open>e'\<close> that the engine has reached by then.
\<close>

fun recent_loop :: "int \<Rightarrow> Engine \<Rightarrow> Alert list \<Rightarrow> ref list \<Rightarrow> Alert list" where
  "recent_loop n e out [] = out"
| "recent_loop n e out (r # rs) = (if n \<le> 0 \<or> int (length out) < n then recent_loop n e (out @ [alert_at e r]) rs else out)"

definition Recent :: "string range_order \<Rightarrow> int \<Rightarrow> Engine \<Rightarrow> Engine \<Rightarrow> Alert list" where
  "Recent ord n e e' = recent_loop n e' (Active ord e) (rev (e_history e'))"

record DomainCount =
  dc_N :: int
  dc_Worst :: Severity

definition count_alert :: "(string, DomainCount) gomap \<Rightarrow> Alert \<Rightarrow> (string, DomainCount) gomap" where
  "count_alert out a =
     (if a_DomainID a = [] then out
      else let c = mget \<lparr>dc_N = 0, dc_Worst = Info\<rparr> out (a_DomainID a)
           in AList.update (a_DomainID a)
                (c\<lparr>dc_N := dc_N c + 1, dc_Worst := max (dc_Worst c) (a_Severity a)\<rparr>) out)"

definition event_refs :: "string range_order \<Rightarrow> Engine \<Rightarrow> ref list" where
  "event_refs ord e = List.map_filter (map_of (e_events e)) (ord (mkeys (e_events e)))"

definition DomainCounts ::
  "string range_order \<Rightarrow> string range_order \<Rightarrow> Engine \<Rightarrow> (string, DomainCount) gomap" where
  "DomainCounts ordc orde e =
     (let out = foldl count_alert [] (map (alert_at e) (active_refs ordc e))
      in foldl (\<lambda>out a. if Info < a_Severity a then count_alert out a else out) out
           (map (alert_at e) (event_refs orde e)))"

definition AlertString :: "Alert \<Rightarrow> string" where
  "AlertString a =
     (let place = a_DomainName a;
          place = (if a_Subject a \<noteq> []
                   then (if place \<noteq> [] then place @ ''/'' else place) @ a_Subject a else place);
          place = (if place \<noteq> [] then '' ['' @ place @ '']'' else place)
      in SeverityString (a_Severity a) @ '' '' @ a_Rule a @ place @ '': '' @ a_Message a)"

end
