(* ===== verification/Hysteresis.thy ===== *)
theory Hysteresis
  imports Engine
begin

text \<open>
  The contract of a condition alert, without the engine: a machine that sees one sample
  per tick and says whether the condition is firing, at which severity, and what to
  announce. \<open>step_decide\<close> shows that the engine's \<open>step\<close> takes exactly the decisions of
  this machine; the theorems on its runs say when a condition is raised, escalated and
  resolved.
\<close>

section \<open>The machine\<close>

record hyst =
  h_pending :: Severity
  h_pendingAt :: gtime
  h_belowAt :: gtime
  h_firing :: "Severity option"

definition hyst_init :: hyst where
  "hyst_init = \<lparr>h_pending = Info, h_pendingAt = 0, h_belowAt = 0, h_firing = None\<rparr>"

datatype outcome = Quiet | Raising Severity | Keeping | Waning | Changing Severity | Resolving

definition sample_sev :: "Sample \<Rightarrow> Severity" where
  "sample_sev s = severity s (s_Value s)"

definition since :: "hyst \<Rightarrow> Sample \<Rightarrow> gtime \<Rightarrow> gtime" where
  "since h s now = (if sample_sev s \<noteq> h_pending h then now else h_pendingAt h)"

definition below_since :: "hyst \<Rightarrow> gtime \<Rightarrow> gtime" where
  "below_since h now = (if is_zero (h_belowAt h) then now else h_belowAt h)"

definition decide :: "Alerts \<Rightarrow> gtime \<Rightarrow> Sample \<Rightarrow> hyst \<Rightarrow> outcome" where
  "decide cfg now s h =
     (let sev = sample_sev s; held = (RaiseAfter cfg \<le> time_sub now (since h s now))
      in case h_firing h of
           None \<Rightarrow> if sev = Info \<or> \<not> held then Quiet else Raising sev
         | Some cur \<Rightarrow>
             if clear s (s_Value s) (ClearRatio cfg)
             then (if ClearAfter cfg \<le> time_sub now (below_since h now) then Resolving else Waning)
             else if sev \<noteq> Info \<and> sev \<noteq> cur \<and> held then Changing sev else Keeping)"

definition hyst_step :: "Alerts \<Rightarrow> gtime \<Rightarrow> Sample \<Rightarrow> hyst \<Rightarrow> hyst" where
  "hyst_step cfg now s h =
     (let h' = h\<lparr>h_pending := sample_sev s, h_pendingAt := since h s now\<rparr>
      in case decide cfg now s h of
           Quiet \<Rightarrow> h'
         | Raising sev \<Rightarrow> h'\<lparr>h_firing := Some sev, h_belowAt := 0\<rparr>
         | Keeping \<Rightarrow> h'\<lparr>h_belowAt := 0\<rparr>
         | Changing sev \<Rightarrow> h'\<lparr>h_firing := Some sev, h_belowAt := 0\<rparr>
         | Waning \<Rightarrow> h'\<lparr>h_belowAt := below_since h now\<rparr>
         | Resolving \<Rightarrow> h'\<lparr>h_firing := None, h_belowAt := 0\<rparr>)"

section \<open>The engine's step takes these decisions\<close>

definition hyst_of :: "Engine \<Rightarrow> condState \<Rightarrow> hyst" where
  "hyst_of e st =
     \<lparr>h_pending = c_pending st, h_pendingAt = c_pendingAt st, h_belowAt = c_belowAt st,
      h_firing = map_option (\<lambda>r. a_Severity (alert_at e r)) (c_alert st)\<rparr>"

text \<open>A new alert gets the next reference and the next identifier.\<close>

definition alloc :: "Alert \<Rightarrow> Engine \<Rightarrow> Engine" where
  "alloc a e = e\<lparr>e_nextID := e_nextID e + 1, e_nextRef := e_nextRef e + 1,
                 e_heap := (e_heap e)(e_nextRef e \<mapsto> a)\<rparr>"

definition refreshed :: "Sample \<Rightarrow> gtime \<Rightarrow> Alert \<Rightarrow> Alert" where
  "refreshed s now a = a\<lparr>a_Last := now, a_Value := s_Value s, a_DomainName := s_DomainName s\<rparr>"

definition reworded :: "Sample \<Rightarrow> Alert \<Rightarrow> Alert" where
  "reworded s a = a\<lparr>a_Message := s_Format s (s_Value s)\<rparr>"

definition closed :: "gtime \<Rightarrow> Alert \<Rightarrow> Alert" where
  "closed now a = a\<lparr>a_Active := False, a_Resolved := now\<rparr>"

definition perform ::
  "outcome \<Rightarrow> condState \<Rightarrow> Sample \<Rightarrow> string \<Rightarrow> gtime \<Rightarrow> Engine \<Rightarrow> Engine \<times> condState \<times> notice option" where
  "perform oc st s key now e =
     (let sev = sample_sev s; h = hyst_of e st; r = the (c_alert st); a = refreshed s now (alert_at e r);
          st = st\<lparr>c_pending := sev, c_pendingAt := since h s now\<rparr>
      in case oc of
           Quiet \<Rightarrow> (e, st, None)
         | Raising sev \<Rightarrow>
             let a = new_condition s key sev now (e_nextID e + 1)
             in (alloc a e, st\<lparr>c_alert := Some (e_nextRef e), c_belowAt := 0\<rparr>, Some (a, Raised))
         | Keeping \<Rightarrow> (set_alert r (reworded s a) e, st\<lparr>c_belowAt := 0\<rparr>, None)
         | Changing sev \<Rightarrow>
             let a = reworded s (a\<lparr>a_Severity := sev\<rparr>)
             in (set_alert r a e, st\<lparr>c_belowAt := 0\<rparr>, Some (a, Escalated))
         | Waning \<Rightarrow> (set_alert r a e, st\<lparr>c_belowAt := below_since h now\<rparr>, None)
         | Resolving \<Rightarrow>
             let a = closed now a
             in (pushHistory r (set_alert r a e), st\<lparr>c_alert := None, c_belowAt := 0\<rparr>, Some (a, Cleared)))"

lemma pend_since:
  "pend st (sample_sev s) now = st\<lparr>c_pending := sample_sev s, c_pendingAt := since (hyst_of e st) s now\<rparr>"
  by (simp add: pend_def since_def hyst_of_def)

lemma alert_at_set_alert [simp]: "alert_at (set_alert r a e) r' = (if r' = r then a else alert_at e r')"
  by (simp add: alert_at_def set_alert_def)

lemma set_alert_twice [simp]: "set_alert r b (set_alert r a e) = set_alert r b e"
  by (simp add: set_alert_def)

lemma step_decide:
  "step st s key now e = perform (decide (e_cfg e) now s (hyst_of e st)) st s key now e"
proof (cases "c_alert st")
  case None
  then show ?thesis
    unfolding step_def Let_def sample_sev_def[symmetric] pend_since[of st s now e]
    by (simp add: decide_def perform_def hyst_of_def alloc_def Let_def)
next
  case (Some r)
  have sev: "a_Severity (refreshed s now a) = a_Severity a" for a by (simp add: refreshed_def)
  show ?thesis
    unfolding step_def Let_def sample_sev_def[symmetric] pend_since[of st s now e]
    using Some
    by (simp add: decide_def perform_def hyst_of_def Let_def below_since_def resolve_def
        refreshed_def reworded_def closed_def)
qed

section \<open>Thresholds and the clear level\<close>

text \<open>
  With ordered thresholds and a clear ratio in the configured range, a value that reaches
  a threshold is never under the clear level.
\<close>

lemma severity_not_clear:
  assumes "level_ordered (s_LowerWorse s) (s_Level s)" and "special_less (Finite 0) ratio" "special_le ratio (Finite 1)"
    and "severity s v \<noteq> Info"
  shows "\<not> clear s v ratio"
proof -
  let ?w = "Warn (s_Level s)" and ?c = "Crit (s_Level s)"
  define t where "t = (if ?w = 0 then ?c else ?w)"
  have t0: "0 \<le> t" using assms(1) by (auto simp: t_def level_ordered_def)
  obtain q where q: "ratio = Finite q" "0 < q" "q \<le> 1" using assms(2,3) by (cases ratio) auto
  have lo: "t * q \<le> t" using t0 q(2,3) by (simp add: mult_left_le)
  have hi: "t \<le> t / q"
    using t0 q(2,3) by (simp add: pos_le_divide_eq mult_left_le)
  show ?thesis
  proof (cases "s_LowerWorse s")
    case True
    then have "v \<le> t"
      using assms(1,4) by (auto simp: severity_def over_def t_def level_ordered_def split: if_splits)
    then show ?thesis using hi True q by (simp add: clear_def t_def)
  next
    case False
    then have "t \<le> v"
      using assms(1,4) by (auto simp: severity_def over_def t_def level_ordered_def split: if_splits)
    then show ?thesis using lo False q by (simp add: clear_def t_def)
  qed
qed

section \<open>Runs\<close>

type_synonym timed = "gtime \<times> Sample"

definition hyst_run :: "Alerts \<Rightarrow> timed list \<Rightarrow> hyst" where
  "hyst_run cfg ts = foldl (\<lambda>h (now, s). hyst_step cfg now s h) hyst_init ts"

lemma hyst_run_Nil [simp]: "hyst_run cfg [] = hyst_init"
  by (simp add: hyst_run_def)

lemma hyst_run_snoc [simp]: "hyst_run cfg (ts @ [(now, s)]) = hyst_step cfg now s (hyst_run cfg ts)"
  by (simp add: hyst_run_def)

lemma hyst_step_pending [simp]:
  "h_pending (hyst_step cfg now s h) = sample_sev s"
  "h_pendingAt (hyst_step cfg now s h) = since h s now"
  by (simp_all add: hyst_step_def Let_def split: outcome.split)

definition all_sev :: "Severity \<Rightarrow> timed list \<Rightarrow> bool" where
  "all_sev sev ts \<longleftrightarrow> (\<forall>(t, s) \<in> set ts. sample_sev s = sev)"

definition all_clear :: "Alerts \<Rightarrow> timed list \<Rightarrow> bool" where
  "all_clear cfg ts \<longleftrightarrow> (\<forall>(t, s) \<in> set ts. clear s (s_Value s) (ClearRatio cfg))"

text \<open>
  The pending time is the start of the longest run of samples of the pending severity
  that ends the history.
\<close>

lemma pending_run:
  assumes "h_pending (hyst_run cfg ts) \<noteq> Info"
  shows "\<exists>us vs. ts = us @ vs \<and> vs \<noteq> [] \<and> all_sev (h_pending (hyst_run cfg ts)) vs \<and>
    h_pendingAt (hyst_run cfg ts) = fst (hd vs) \<and>
    (us \<noteq> [] \<longrightarrow> sample_sev (snd (last us)) \<noteq> h_pending (hyst_run cfg ts))"
  using assms
proof (induction ts rule: rev_induct)
  case Nil
  then show ?case by (simp add: hyst_init_def)
next
  case (snoc x ts)
  obtain now s where x: "x = (now, s)" by (cases x)
  let ?h = "hyst_run cfg ts"
  have last_sev: "sample_sev (snd (last ts)) = h_pending ?h" if "ts \<noteq> []"
    using that by (cases ts rule: rev_cases) auto
  have p: "h_pending (hyst_run cfg (ts @ [x])) = sample_sev s"
    "h_pendingAt (hyst_run cfg (ts @ [x])) = since ?h s now" by (simp_all add: x)
  show ?case
  proof (cases "sample_sev s = h_pending ?h")
    case True
    then obtain us vs where "ts = us @ vs" "vs \<noteq> []" and sev: "all_sev (sample_sev s) vs"
      "since ?h s now = fst (hd vs)" "us \<noteq> [] \<longrightarrow> sample_sev (snd (last us)) \<noteq> sample_sev s"
      using snoc unfolding p by (auto simp: since_def)
    then have "ts @ [x] = us @ (vs @ [x]) \<and> vs @ [x] \<noteq> [] \<and> all_sev (sample_sev s) (vs @ [x]) \<and>
      fst (hd vs) = fst (hd (vs @ [x]))" by (simp add: all_sev_def x)
    with sev(2,3) show ?thesis unfolding p by metis
  next
    case False
    then have "ts @ [x] = ts @ [x] \<and> [x] \<noteq> [] \<and> all_sev (sample_sev s) [x] \<and> since ?h s now = fst (hd [x]) \<and>
      (ts \<noteq> [] \<longrightarrow> sample_sev (snd (last ts)) \<noteq> sample_sev s)"
      using last_sev by (auto simp: x since_def all_sev_def)
    then show ?thesis unfolding p by blast
  qed
qed

lemma firing_not_Info: "h_firing (hyst_run cfg ts) = Some sev \<Longrightarrow> sev \<noteq> Info"
proof (induction ts arbitrary: sev rule: rev_induct)
  case Nil
  then show ?case by (simp add: hyst_init_def)
next
  case (snoc x ts)
  then show ?case
    by (cases x) (auto simp: hyst_step_def decide_def Let_def split: option.splits if_splits)
qed

subsection \<open>Raising\<close>

text \<open>A condition is announced only after its severity held for \<open>RaiseAfter\<close>.\<close>

lemma raise_sound:
  assumes "decide cfg now s (hyst_run cfg ts) = Raising sev"
  shows "sev \<noteq> Info \<and> (\<exists>us vs. ts @ [(now, s)] = us @ vs \<and> vs \<noteq> [] \<and> all_sev sev vs \<and>
    RaiseAfter cfg \<le> time_sub now (fst (hd vs)))"
proof -
  let ?ts = "ts @ [(now, s)]"
  have sev: "sev = sample_sev s" "sev \<noteq> Info"
    and held: "RaiseAfter cfg \<le> time_sub now (since (hyst_run cfg ts) s now)"
    using assms by (auto simp: decide_def Let_def split: option.splits if_splits)
  have pend: "h_pending (hyst_run cfg ?ts) = sev" "h_pendingAt (hyst_run cfg ?ts) = since (hyst_run cfg ts) s now"
    by (simp_all add: sev)
  obtain us vs where "?ts = us @ vs" "vs \<noteq> []" "all_sev sev vs" "since (hyst_run cfg ts) s now = fst (hd vs)"
    using pending_run[of cfg ?ts] sev(2) unfolding pend by blast
  with sev(2) held show ?thesis by metis
qed

text \<open>
  Once a severity has been seen at every tick for \<open>RaiseAfter\<close>, the condition fires at
  that severity, whatever happened before.
\<close>

lemma raise_complete:
  assumes hist: "ts @ [(now, s)] = us @ vs" "vs \<noteq> []" and sev: "all_sev sev vs" "sev \<noteq> Info"
    and held: "RaiseAfter cfg \<le> time_sub now (fst (hd vs))"
    and sorted: "sorted (map fst (ts @ [(now, s)]))"
    and lvl: "level_ordered (s_LowerWorse s) (s_Level s)" and ratio: "special_less (Finite 0) (ClearRatio cfg)" "special_le (ClearRatio cfg) (Finite 1)"
  shows "h_firing (hyst_run cfg (ts @ [(now, s)])) = Some sev"
proof -
  let ?ts = "ts @ [(now, s)]" and ?h = "hyst_run cfg ts"
  have "(now, s) \<in> set vs" using hist by (metis last_in_set last_appendR last_snoc)
  then have s: "sample_sev s = sev" using sev(1) by (auto simp: all_sev_def)
  have pend: "h_pending (hyst_run cfg ?ts) = sev" by (simp add: s)
  obtain us' vs' where run: "?ts = us' @ vs'" "vs' \<noteq> []" "since ?h s now = fst (hd vs')"
    and maxi: "us' \<noteq> [] \<longrightarrow> sample_sev (snd (last us')) \<noteq> sev"
    using pending_run[of cfg ?ts] sev(2) unfolding pend by auto
  have "length us' \<le> length us"
  proof (rule ccontr)
    assume "\<not> length us' \<le> length us"
    then obtain ws where ws: "us' = us @ ws" "ws \<noteq> []"
      using run(1) hist(1) by (auto simp: append_eq_append_conv2)
    then have "last us' \<in> set vs" using run(1) hist(1) by (auto simp: append_eq_append_conv2)
    with sev(1) maxi ws show False by (auto simp: all_sev_def)
  qed
  then obtain ws where "us = us' @ ws" "vs' = ws @ vs"
    using run(1) hist(1) by (auto simp: append_eq_append_conv2)
  then have "fst (hd vs') \<le> fst (hd vs)"
    using sorted run(1) hist(2) by (cases ws; cases vs) (auto simp: sorted_append)
  then have "RaiseAfter cfg \<le> time_sub now (since ?h s now)"
    using held run(3) time_sub_antimono order_trans by metis
  moreover have "\<not> clear s (s_Value s) (ClearRatio cfg)"
    using severity_not_clear[OF lvl ratio] s sev(2) by (simp add: sample_sev_def)
  ultimately show ?thesis
    using s sev(2) by (auto simp: hyst_step_def decide_def Let_def split: option.split)
qed

subsection \<open>Resolving\<close>

lemma below_run:
  assumes "\<forall>(t, s) \<in> set ts. t \<noteq> 0" and "h_belowAt (hyst_run cfg ts) \<noteq> 0"
  shows "\<exists>us vs. ts = us @ vs \<and> vs \<noteq> [] \<and> all_clear cfg vs \<and> h_belowAt (hyst_run cfg ts) = fst (hd vs)"
  using assms
proof (induction ts rule: rev_induct)
  case Nil
  then show ?case by (simp add: hyst_init_def)
next
  case (snoc x ts)
  obtain now s where x: "x = (now, s)" by (cases x)
  let ?h = "hyst_run cfg ts"
  show ?case
  proof (cases "decide cfg now s ?h = Waning")
    case True
    then have clr: "clear s (s_Value s) (ClearRatio cfg)"
      by (auto simp: decide_def Let_def split: option.splits if_splits)
    have b: "h_belowAt (hyst_run cfg (ts @ [x])) = below_since ?h now"
      using True x by (simp add: hyst_step_def)
    show ?thesis
    proof (cases "h_belowAt ?h = 0")
      case True
      then show ?thesis
        using b clr x by (rule_tac x = ts in exI, rule_tac x = "[(now, s)]" in exI) (auto simp: below_since_def is_zero_def all_clear_def)
    next
      case False
      with snoc obtain us vs where "ts = us @ vs" "vs \<noteq> []" "all_clear cfg vs" "h_belowAt ?h = fst (hd vs)"
        by auto
      then show ?thesis
        using b clr x False by (rule_tac x = us in exI, rule_tac x = "vs @ [(now, s)]" in exI) (auto simp: below_since_def is_zero_def all_clear_def)
    qed
  next
    case False
    then have "decide cfg now s ?h = Quiet"
      using snoc.prems(2) x by (auto simp: hyst_step_def Let_def split: outcome.splits)
    moreover have "h_belowAt ?h = 0" if "h_firing ?h = None"
      using that
    proof (induction ts rule: rev_induct)
      case Nil
      then show ?case by (simp add: hyst_init_def)
    next
      case (snoc y ys)
      then show ?case
        by (cases y) (auto simp: hyst_step_def decide_def Let_def split: option.splits if_splits)
    qed
    ultimately show ?thesis
      using snoc.prems(2) x
      by (auto simp: hyst_step_def decide_def Let_def split: option.splits if_splits)
  qed
qed

text \<open>A firing condition resolves only after \<open>ClearAfter\<close> under the clear level.\<close>

lemma resolve_sound:
  assumes times: "\<forall>(t, s) \<in> set (ts @ [(now, s)]). t \<noteq> 0"
    and dec: "decide cfg now s (hyst_run cfg ts) = Resolving"
  shows "h_firing (hyst_run cfg ts) \<noteq> None \<and> (\<exists>us vs. ts @ [(now, s)] = us @ vs \<and> vs \<noteq> [] \<and>
    all_clear cfg vs \<and> ClearAfter cfg \<le> time_sub now (fst (hd vs)))"
proof -
  let ?h = "hyst_run cfg ts"
  have clr: "clear s (s_Value s) (ClearRatio cfg)" and fire: "h_firing ?h \<noteq> None"
    and held: "ClearAfter cfg \<le> time_sub now (below_since ?h now)"
    using dec by (auto simp: decide_def Let_def split: option.splits if_splits)
  have "\<exists>us vs. ts @ [(now, s)] = us @ vs \<and> vs \<noteq> [] \<and> all_clear cfg vs \<and>
    ClearAfter cfg \<le> time_sub now (fst (hd vs))"
  proof (cases "h_belowAt ?h = 0")
    case True
    then show ?thesis
      using clr held by (rule_tac x = ts in exI, rule_tac x = "[(now, s)]" in exI) (auto simp: below_since_def is_zero_def all_clear_def)
  next
    case False
    with times obtain us vs where "ts = us @ vs" "vs \<noteq> []" "all_clear cfg vs" "h_belowAt ?h = fst (hd vs)"
      using below_run[of ts cfg] by auto
    then show ?thesis
      using clr held False by (rule_tac x = us in exI, rule_tac x = "vs @ [(now, s)]" in exI) (auto simp: below_since_def is_zero_def all_clear_def)
  qed
  with fire show ?thesis by blast
qed

text \<open>
  A condition under the clear level at every tick for \<open>ClearAfter\<close> is not firing at the
  end of it: it was not firing before or has been resolved, and it was not raised again.
\<close>

definition all_ordered :: "timed list \<Rightarrow> bool" where
  "all_ordered ts \<longleftrightarrow> (\<forall>(t, s) \<in> set ts. level_ordered (s_LowerWorse s) (s_Level s))"

lemma belowAt_past:
  assumes "\<forall>(t, s) \<in> set ts. t \<noteq> 0" "h_belowAt (hyst_run cfg ts) \<noteq> 0" "\<forall>(t, s) \<in> set ts. t \<le> now"
  shows "h_belowAt (hyst_run cfg ts) \<le> now"
proof -
  obtain us vs where "ts = us @ vs" "vs \<noteq> []" "h_belowAt (hyst_run cfg ts) = fst (hd vs)"
    using below_run[OF assms(1,2)] by blast
  then show ?thesis using assms(3) by (cases vs) auto
qed

lemma clear_step:
  assumes clr: "clear s (s_Value s) (ClearRatio cfg)" and lvl: "level_ordered (s_LowerWorse s) (s_Level s)"
    and ratio: "special_less (Finite 0) (ClearRatio cfg)" "special_le (ClearRatio cfg) (Finite 1)"
  shows "h_firing (hyst_step cfg now s h) = None \<or>
    h_firing h \<noteq> None \<and> h_belowAt (hyst_step cfg now s h) = below_since h now \<and>
    \<not> ClearAfter cfg \<le> time_sub now (below_since h now)"
proof -
  have "sample_sev s = Info"
    using severity_not_clear[OF lvl ratio] clr by (auto simp: sample_sev_def)
  then show ?thesis
    using clr by (auto simp: hyst_step_def decide_def Let_def split: option.split)
qed

lemma clear_run:
  assumes "vs \<noteq> []" and clr: "all_clear cfg vs" "all_ordered vs"
    and ratio: "special_less (Finite 0) (ClearRatio cfg)" "special_le (ClearRatio cfg) (Finite 1)"
    and times: "sorted (map fst (us @ vs))" "\<forall>(t, s) \<in> set (us @ vs). t \<noteq> 0"
  shows "h_firing (hyst_run cfg (us @ vs)) = None \<or>
    h_belowAt (hyst_run cfg (us @ vs)) \<noteq> 0 \<and> h_belowAt (hyst_run cfg (us @ vs)) \<le> fst (hd vs) \<and>
    \<not> ClearAfter cfg \<le> time_sub (fst (last vs)) (h_belowAt (hyst_run cfg (us @ vs)))"
  using assms
proof (induction vs rule: rev_induct)
  case Nil
  then show ?case by simp
next
  case (snoc x vs)
  obtain now s where x: "x = (now, s)" by (cases x)
  let ?h = "hyst_run cfg (us @ vs)"
  have now0: "now \<noteq> 0" and past: "\<forall>(t, s) \<in> set (us @ vs). t \<le> now"
    and nz: "\<forall>(t, s) \<in> set (us @ vs). t \<noteq> 0"
    using snoc.prems x by (auto simp: sorted_append)
  have run: "hyst_run cfg (us @ vs @ [x]) = hyst_step cfg now s ?h"
    using hyst_run_snoc[of cfg "us @ vs"] x by simp
  have step: "h_firing (hyst_step cfg now s ?h) = None \<or>
    h_firing ?h \<noteq> None \<and> h_belowAt (hyst_step cfg now s ?h) = below_since ?h now \<and>
    \<not> ClearAfter cfg \<le> time_sub now (below_since ?h now)"
    using snoc.prems x by (intro clear_step) (auto simp: all_clear_def all_ordered_def)
  have "below_since ?h now \<noteq> 0 \<and> below_since ?h now \<le> fst (hd (vs @ [x]))" if "h_firing ?h \<noteq> None"
  proof (cases "vs = []")
    case True
    then show ?thesis
      using belowAt_past[OF nz _ past] now0 by (auto simp: below_since_def is_zero_def x)
  next
    case False
    with snoc that have "h_belowAt ?h \<noteq> 0 \<and> h_belowAt ?h \<le> fst (hd vs)"
      by (auto simp: all_clear_def all_ordered_def sorted_append)
    then show ?thesis using False by (simp add: below_since_def is_zero_def)
  qed
  with step show ?case unfolding run by (auto simp: x)
qed

lemma resolve_complete:
  assumes "vs \<noteq> []" and "all_clear cfg vs" "all_ordered vs"
    and "special_less (Finite 0) (ClearRatio cfg)" "special_le (ClearRatio cfg) (Finite 1)"
    and "sorted (map fst (us @ vs))" "\<forall>(t, s) \<in> set (us @ vs). t \<noteq> 0"
    and long: "ClearAfter cfg \<le> time_sub (fst (last vs)) (fst (hd vs))"
  shows "h_firing (hyst_run cfg (us @ vs)) = None"
proof (rule ccontr)
  assume "h_firing (hyst_run cfg (us @ vs)) \<noteq> None"
  with clear_run[OF assms(1-7)] have "h_belowAt (hyst_run cfg (us @ vs)) \<le> fst (hd vs)"
    "\<not> ClearAfter cfg \<le> time_sub (fst (last vs)) (h_belowAt (hyst_run cfg (us @ vs)))" by auto
  with long time_sub_antimono show False by (meson order_trans)
qed

end
