(* ===== verification/Engine_Inv.thy ===== *)
theory Engine_Inv
  imports Hysteresis
begin

text \<open>
  The invariant of the alert engine: what every entry of the three tables refers to, that
  identifiers are handed out once, that the history is bounded and holds no active alert,
  and that no alert of a muted rule exists. Every operation keeps it, so it holds in
  every state the engine can reach.
\<close>

section \<open>The invariant\<close>

definition cond_ok :: "Engine \<Rightarrow> string \<Rightarrow> ref \<Rightarrow> bool" where
  "cond_ok e k r \<longleftrightarrow> r < e_nextRef e \<and> a_Active (alert_at e r) \<and> a_Kind (alert_at e r) = KindCondition \<and>
     a_Key (alert_at e r) = k \<and> a_Severity (alert_at e r) \<noteq> Info"

definition event_ok :: "Engine \<Rightarrow> string \<Rightarrow> ref \<Rightarrow> bool" where
  "event_ok e k r \<longleftrightarrow> r < e_nextRef e \<and> \<not> a_Active (alert_at e r) \<and> a_Kind (alert_at e r) = KindEvent \<and>
     a_Key (alert_at e r) = k"

definition heap_ok :: "Engine \<Rightarrow> bool" where
  "heap_ok e \<longleftrightarrow> (\<forall>r. e_heap e r \<noteq> None \<longleftrightarrow> r < e_nextRef e) \<and> e_nextID e = of_nat (e_nextRef e) \<and>
     (\<forall>r < e_nextRef e. a_ID (alert_at e r) = of_nat (Suc r) \<and> 1 \<le> a_Count (alert_at e r) \<and>
        \<not> is_muted e (a_Rule (alert_at e r)))"

definition history_ok :: "Engine \<Rightarrow> bool" where
  "history_ok e \<longleftrightarrow> distinct (e_history e) \<and> length (e_history e) \<le> nat (History (e_cfg e)) \<and>
     (\<forall>r \<in> set (e_history e). r < e_nextRef e \<and> \<not> a_Active (alert_at e r))"

definition conds_ok :: "Engine \<Rightarrow> bool" where
  "conds_ok e \<longleftrightarrow> wf_map (e_conds e) \<and>
     (\<forall>k st r. map_of (e_conds e) k = Some st \<longrightarrow> c_alert st = Some r \<longrightarrow> cond_ok e k r)"

definition events_ok :: "Engine \<Rightarrow> bool" where
  "events_ok e \<longleftrightarrow> wf_map (e_events e) \<and> (\<forall>k r. map_of (e_events e) k = Some r \<longrightarrow> event_ok e k r)"

definition engine_inv :: "Engine \<Rightarrow> bool" where
  "engine_inv e \<longleftrightarrow> heap_ok e \<and> history_ok e \<and> conds_ok e \<and> events_ok e"

lemmas inv_defs = engine_inv_def heap_ok_def history_ok_def conds_ok_def events_ok_def
  cond_ok_def event_ok_def

lemma engine_invD:
  assumes "engine_inv e"
  shows "heap_ok e" "history_ok e" "conds_ok e" "events_ok e"
  using assms by (simp_all add: engine_inv_def)

section \<open>Frame facts\<close>

lemma set_alert_simps [simp]:
  "e_cfg (set_alert r a e) = e_cfg e" "e_muted (set_alert r a e) = e_muted e"
  "e_nextID (set_alert r a e) = e_nextID e" "e_conds (set_alert r a e) = e_conds e"
  "e_events (set_alert r a e) = e_events e" "e_history (set_alert r a e) = e_history e"
  "e_subs (set_alert r a e) = e_subs e" "e_nextRef (set_alert r a e) = e_nextRef e"
  "e_heap (set_alert r a e) = (e_heap e)(r \<mapsto> a)"
  by (simp_all add: set_alert_def)

lemma pushHistory_simps [simp]:
  "e_cfg (pushHistory r e) = e_cfg e" "e_muted (pushHistory r e) = e_muted e"
  "e_nextID (pushHistory r e) = e_nextID e" "e_conds (pushHistory r e) = e_conds e"
  "e_events (pushHistory r e) = e_events e" "e_heap (pushHistory r e) = e_heap e"
  "e_subs (pushHistory r e) = e_subs e" "e_nextRef (pushHistory r e) = e_nextRef e"
  "alert_at (pushHistory r e) = alert_at e"
  by (simp_all add: pushHistory_def alert_at_def fun_eq_iff)

lemma alert_at_update_frame [simp]:
  "alert_at (e\<lparr>e_conds := C\<rparr>) = alert_at e" "alert_at (e\<lparr>e_events := E\<rparr>) = alert_at e"
  "alert_at (e\<lparr>e_subs := S\<rparr>) = alert_at e"
  by (simp_all add: alert_at_def fun_eq_iff)

lemma is_muted_frame [simp]:
  "is_muted (set_alert r a e) = is_muted e" "is_muted (pushHistory r e) = is_muted e"
  "is_muted (e\<lparr>e_conds := C\<rparr>) = is_muted e" "is_muted (e\<lparr>e_events := E\<rparr>) = is_muted e"
  "is_muted (e\<lparr>e_subs := S\<rparr>) = is_muted e" "is_muted (e\<lparr>e_nextID := n\<rparr>) = is_muted e"
  "is_muted (e\<lparr>e_nextRef := m\<rparr>) = is_muted e" "is_muted (e\<lparr>e_heap := h\<rparr>) = is_muted e"
  by (simp_all add: is_muted_def fun_eq_iff)

lemma set_alert_conds_commute: "set_alert r a (e\<lparr>e_conds := C\<rparr>) = (set_alert r a e)\<lparr>e_conds := C\<rparr>"
  by (simp add: set_alert_def)

lemma pushHistory_conds_commute: "pushHistory r (e\<lparr>e_conds := C\<rparr>) = (pushHistory r e)\<lparr>e_conds := C\<rparr>"
  by (simp add: pushHistory_def)

section \<open>The history is a bounded log\<close>

lemma push_bounded_last_n: "push_bounded n h r = last_n (nat n) (h @ [r])"
proof (cases "0 \<le> n")
  case True
  then have "nat (int (length (h @ [r])) - n) = length (h @ [r]) - nat n" by simp
  then show ?thesis
    unfolding push_bounded_def last_n_def Let_def by (cases "0 < int (length (h @ [r])) - n") auto
next
  case False
  then show ?thesis by (simp add: push_bounded_def last_n_def)
qed

interpretation alert_history: bounded_log "[]" "push_bounded n" "\<lambda>h. h" "nat n" "\<lambda>_. True" for n
  by unfold_locales (simp_all add: push_bounded_last_n)

lemma set_push_bounded: "set (push_bounded n h r) \<subseteq> insert r (set h)"
  unfolding push_bounded_last_n using set_last_n[of "nat n" "h @ [r]"] by auto

lemma distinct_push_bounded: "distinct h \<Longrightarrow> r \<notin> set h \<Longrightarrow> distinct (push_bounded n h r)"
  unfolding push_bounded_last_n last_n_def by (rule distinct_drop) simp

lemma length_push_bounded: "length (push_bounded n h r) \<le> nat n"
  by (simp add: push_bounded_last_n)

lemma history_ok_push:
  assumes "history_ok e" and "r < e_nextRef e" and "\<not> a_Active (alert_at e r)" and "r \<notin> set (e_history e)"
  shows "history_ok (pushHistory r e)"
  using assms set_push_bounded[of "History (e_cfg e)" "e_history e" r]
  by (auto simp: history_ok_def pushHistory_def distinct_push_bounded length_push_bounded alert_at_def)

section \<open>Operations keep the invariant\<close>

lemma engine_inv_NewEngine: "engine_inv (NewEngine cfg)"
  by (simp add: inv_defs NewEngine_def)

lemma engine_inv_Subscribe: "engine_inv e \<Longrightarrow> engine_inv (Subscribe fn e)"
  by (simp add: inv_defs Subscribe_def)

text \<open>An alert updated in place keeps its identity and stays what the tables take it for.\<close>

definition same_alert :: "Alert \<Rightarrow> Alert \<Rightarrow> bool" where
  "same_alert a a' \<longleftrightarrow> a_ID a' = a_ID a \<and> a_Key a' = a_Key a \<and> a_Rule a' = a_Rule a \<and>
     a_Kind a' = a_Kind a \<and> a_Active a' = a_Active a \<and> 1 \<le> a_Count a' \<and>
     (a_Severity a \<noteq> Info \<longrightarrow> a_Severity a' \<noteq> Info)"

lemma engine_inv_set_alert:
  assumes inv: "engine_inv e" and r: "r < e_nextRef e" and same: "same_alert (alert_at e r) a'"
  shows "engine_inv (set_alert r a' e)"
proof -
  have "heap_ok (set_alert r a' e)"
    using engine_invD(1)[OF inv] r same by (auto simp: heap_ok_def same_alert_def)
  moreover have "history_ok (set_alert r a' e)"
    using engine_invD(2)[OF inv] same by (auto simp: history_ok_def same_alert_def)
  moreover have "conds_ok (set_alert r a' e)"
    using engine_invD(3)[OF inv] same by (fastforce simp: conds_ok_def cond_ok_def same_alert_def)
  moreover have "events_ok (set_alert r a' e)"
    using engine_invD(4)[OF inv] same by (fastforce simp: events_ok_def event_ok_def same_alert_def)
  ultimately show ?thesis by (simp add: engine_inv_def)
qed

lemma alloc_simps [simp]:
  "e_cfg (alloc a e) = e_cfg e" "e_muted (alloc a e) = e_muted e" "e_conds (alloc a e) = e_conds e"
  "e_events (alloc a e) = e_events e" "e_history (alloc a e) = e_history e"
  "e_subs (alloc a e) = e_subs e" "e_nextRef (alloc a e) = Suc (e_nextRef e)"
  "e_nextID (alloc a e) = e_nextID e + 1" "is_muted (alloc a e) = is_muted e"
  "e_heap (alloc a e) = (e_heap e)(e_nextRef e \<mapsto> a)"
  "alert_at (alloc a e) r = (if r = e_nextRef e then a else alert_at e r)"
  by (simp_all add: alloc_def alert_at_def is_muted_def fun_eq_iff)

lemma engine_inv_alloc:
  assumes inv: "engine_inv e" and a: "a_ID a = e_nextID e + 1" "a_Count a = 1" "\<not> is_muted e (a_Rule a)"
  shows "engine_inv (alloc a e)"
proof -
  have "heap_ok (alloc a e)"
    using engine_invD(1)[OF inv] a by (auto simp: heap_ok_def less_Suc_eq)
  moreover have "history_ok (alloc a e)"
    using engine_invD(2)[OF inv] by (fastforce simp: history_ok_def)
  moreover have "conds_ok (alloc a e)"
    using engine_invD(3)[OF inv] by (fastforce simp: conds_ok_def cond_ok_def)
  moreover have "events_ok (alloc a e)"
    using engine_invD(4)[OF inv] by (fastforce simp: events_ok_def event_ok_def)
  ultimately show ?thesis by (simp add: engine_inv_def)
qed

lemma engine_inv_pushHistory:
  assumes "engine_inv e" "r < e_nextRef e" "\<not> a_Active (alert_at e r)" "r \<notin> set (e_history e)"
  shows "engine_inv (pushHistory r e)"
  using assms history_ok_push[of e r]
  by (auto simp: engine_inv_def heap_ok_def conds_ok_def cond_ok_def events_ok_def event_ok_def)

lemma engine_inv_put_event:
  assumes "engine_inv e" "event_ok e k r"
  shows "engine_inv (e\<lparr>e_events := AList.update k r (e_events e)\<rparr>)"
  using assms by (auto simp: inv_defs map_of_update)

lemma engine_inv_del_event:
  "engine_inv e \<Longrightarrow> engine_inv (e\<lparr>e_events := AList.delete k (e_events e)\<rparr>)"
  by (auto simp: inv_defs map_of_delete)

subsection \<open>Events\<close>

lemma complete_event_simps [simp]:
  "a_Rule (complete_event now a) = a_Rule a" "a_Severity (complete_event now a) = a_Severity a"
  "a_DomainID (complete_event now a) = a_DomainID a" "a_Subject (complete_event now a) = a_Subject a"
  "a_Message (complete_event now a) = a_Message a"
  by (simp_all add: complete_event_def Let_def)

definition fresh_event :: "Alert \<Rightarrow> Engine \<Rightarrow> Alert" where
  "fresh_event a e = a\<lparr>a_ID := e_nextID e + 1, a_Kind := KindEvent, a_First := a_Last a, a_Count := 1,
                       a_Active := False\<rparr>"

lemma new_event_eq:
  "new_event a e =
     (let e' = alloc (fresh_event a e) e
      in (pushHistory (e_nextRef e) (e'\<lparr>e_events := AList.update (a_Key a) (e_nextRef e) (e_events e')\<rparr>),
          [(fresh_event a e, Raised)]))"
  by (simp add: new_event_def alloc_def fresh_event_def Let_def)

lemma history_fresh: "engine_inv e \<Longrightarrow> e_nextRef e \<notin> set (e_history e)"
  by (auto simp: engine_inv_def history_ok_def)

lemma engine_inv_new_event:
  assumes inv: "engine_inv e" and unmuted: "\<not> is_muted e (a_Rule a)"
  shows "engine_inv (fst (new_event a e))"
proof -
  let ?a = "fresh_event a e" and ?r = "e_nextRef e"
  have a: "a_ID ?a = e_nextID e + 1" "a_Count ?a = 1" "a_Rule ?a = a_Rule a"
    "a_Kind ?a = KindEvent" "a_Active ?a = False" "a_Key ?a = a_Key a"
    by (simp_all add: fresh_event_def)
  have 1: "engine_inv (alloc ?a e)"
    using inv unmuted by (intro engine_inv_alloc) (simp_all add: a)
  have "event_ok (alloc ?a e) (a_Key a) ?r" by (simp add: event_ok_def a)
  from engine_inv_put_event[OF 1 this]
  have 2: "engine_inv ((alloc ?a e)\<lparr>e_events := AList.update (a_Key a) ?r (e_events e)\<rparr>)" by simp
  show ?thesis
    unfolding new_event_eq Let_def fst_conv
    using 2 history_fresh[OF inv] by (intro engine_inv_pushHistory) (simp_all add: a)
qed

lemma engine_inv_repeat_event:
  assumes inv: "engine_inv e" and r: "map_of (e_events e) k = Some r"
  shows "engine_inv (fst (repeat_event r a e))"
proof -
  have lt: "r < e_nextRef e" and "1 \<le> a_Count (alert_at e r)"
    using inv r by (auto simp: inv_defs)
  then show ?thesis
    unfolding repeat_event_def Let_def fst_conv
    by (intro engine_inv_set_alert[OF inv lt]) (auto simp: same_alert_def)
qed

lemma engine_inv_raise: "engine_inv e \<Longrightarrow> engine_inv (fst (raise_event now a e))"
  by (auto simp: raise_event_def Let_def engine_inv_repeat_event engine_inv_new_event
      split: option.split)

lemma engine_inv_Raise: "engine_inv e \<Longrightarrow> engine_inv (fst (Raise now a e))"
  using engine_inv_raise[of e now a] by (simp add: Raise_def split_beta Let_def)

subsection \<open>Conditions\<close>

text \<open>
  While a condition's state is being changed, the map still holds the old one: the steps
  below keep the invariant of the engine without that entry, and it is put back at the
  end.
\<close>

definition without :: "string \<Rightarrow> Engine \<Rightarrow> Engine" where
  "without k e = e\<lparr>e_conds := AList.delete k (e_conds e)\<rparr>"

lemma without_commute [simp]:
  "without k (set_alert r a e) = set_alert r a (without k e)"
  "without k (pushHistory r e) = pushHistory r (without k e)"
  "without k (alloc a e) = alloc a (without k e)"
  "alert_at (without k e) = alert_at e" "e_nextRef (without k e) = e_nextRef e"
  "e_nextID (without k e) = e_nextID e" "is_muted (without k e) = is_muted e"
  "e_history (without k e) = e_history e"
  by (simp_all add: without_def set_alert_def pushHistory_def alloc_def)

lemma engine_inv_without: "engine_inv e \<Longrightarrow> engine_inv (without k e)"
  by (auto simp: inv_defs without_def map_of_delete)

lemma engine_inv_put_cond:
  assumes "engine_inv (without k e)" and "\<And>r. c_alert st = Some r \<Longrightarrow> cond_ok e k r"
    and "wf_map (e_conds e)"
  shows "engine_inv (e\<lparr>e_conds := AList.update k st (e_conds e)\<rparr>)"
proof -
  have "cond_ok e k' r" if "map_of (e_conds e) k' = Some st'" "c_alert st' = Some r" "k' \<noteq> k" for k' st' r
    using assms(1) that by (auto simp: inv_defs without_def map_of_delete split: if_splits)
  then have "conds_ok (e\<lparr>e_conds := AList.update k st (e_conds e)\<rparr>)"
    using assms(2,3) by (auto simp: conds_ok_def cond_ok_def map_of_update split: if_splits)
  moreover have "heap_ok (e\<lparr>e_conds := AList.update k st (e_conds e)\<rparr>)"
    using engine_invD(1)[OF assms(1)] by (auto simp: heap_ok_def without_def)
  moreover have "history_ok (e\<lparr>e_conds := AList.update k st (e_conds e)\<rparr>)"
    using engine_invD(2)[OF assms(1)] by (auto simp: history_ok_def without_def)
  moreover have "events_ok (e\<lparr>e_conds := AList.update k st (e_conds e)\<rparr>)"
    using engine_invD(4)[OF assms(1)] by (auto simp: events_ok_def event_ok_def without_def)
  ultimately show ?thesis by (simp add: engine_inv_def)
qed

lemma cond_ok_unreferenced:
  assumes "engine_inv (without k e)" and "cond_ok e k r"
  shows "map_of (e_conds (without k e)) k' = Some st \<Longrightarrow> c_alert st \<noteq> Some r"
    and "map_of (e_events e) k' \<noteq> Some r" and "r \<notin> set (e_history e)"
proof -
  assume "map_of (e_conds (without k e)) k' = Some st"
  then show "c_alert st \<noteq> Some r"
    using assms by (auto simp: inv_defs without_def map_of_delete split: if_splits)
next
  show "map_of (e_events e) k' \<noteq> Some r"
    using assms by (auto simp: inv_defs without_def)
  show "r \<notin> set (e_history e)"
    using assms by (auto simp: inv_defs without_def)
qed

lemma engine_inv_resolve:
  assumes inv: "engine_inv (without k e)" and ok: "cond_ok e k r"
  shows "engine_inv (without k (fst (resolve st r now e)))"
proof -
  let ?a = "(alert_at e r)\<lparr>a_Active := False, a_Resolved := now\<rparr>"
  let ?e = "set_alert r ?a (without k e)"
  note free = cond_ok_unreferenced[OF inv ok]
  have lt: "r < e_nextRef e" using ok by (simp add: cond_ok_def)
  have "heap_ok ?e"
    using engine_invD(1)[OF inv] lt by (auto simp: heap_ok_def)
  moreover have "history_ok ?e"
    using engine_invD(2)[OF inv] free(3) by (auto simp: history_ok_def)
  moreover have "conds_ok ?e"
    using engine_invD(3)[OF inv] free(1) by (fastforce simp: conds_ok_def cond_ok_def)
  moreover have "events_ok ?e"
    using engine_invD(4)[OF inv] free(2) by (fastforce simp: events_ok_def event_ok_def without_def)
  ultimately have "engine_inv ?e" by (simp add: engine_inv_def)
  then have "engine_inv (pushHistory r ?e)"
    using lt free(3) by (intro engine_inv_pushHistory) simp_all
  then show ?thesis by (simp add: resolve_def Let_def)
qed

text \<open>One sample: by the outcome the step decided on.\<close>

lemma refreshed_same: "1 \<le> a_Count a \<Longrightarrow> same_alert a (refreshed s now a)"
  by (simp add: same_alert_def refreshed_def)

lemma reworded_same: "same_alert a b \<Longrightarrow> same_alert a (reworded s b)"
  by (simp add: same_alert_def reworded_def)

lemma resolve_eq:
  "resolve st r now e = (pushHistory r (set_alert r (closed now (alert_at e r)) e),
     st\<lparr>c_alert := None, c_belowAt := 0\<rparr>, (closed now (alert_at e r), Cleared))"
  by (simp add: resolve_def closed_def Let_def)

lemma cond_ok_set_alert:
  "cond_ok e k r \<Longrightarrow> same_alert (alert_at e r) a \<Longrightarrow> cond_ok (set_alert r a e) k r"
  by (auto simp: cond_ok_def same_alert_def)

lemma decide_firing:
  "decide cfg now s h \<in> {Keeping, Waning, Resolving} \<or> (\<exists>sev. decide cfg now s h = Changing sev) \<Longrightarrow>
   h_firing h \<noteq> None"
  by (auto simp: decide_def Let_def split: option.splits if_splits)

lemma decide_sev:
  "decide cfg now s h = Raising sev \<or> decide cfg now s h = Changing sev \<Longrightarrow> sev = sample_sev s \<and> sev \<noteq> Info"
  by (auto simp: decide_def Let_def split: option.splits if_splits)

lemma hyst_of_firing: "h_firing (hyst_of e st) \<noteq> None \<longleftrightarrow> c_alert st \<noteq> None"
  by (simp add: hyst_of_def)

lemma step_inv:
  assumes inv: "engine_inv (without k e)" and unmuted: "\<not> is_muted e (s_Rule s)"
    and ok: "\<And>r. c_alert st = Some r \<Longrightarrow> cond_ok e k r"
    and res: "step st s k now e = (e', st', n)"
  shows "engine_inv (without k e') \<and> (\<forall>r. c_alert st' = Some r \<longrightarrow> cond_ok e' k r)"
proof -
  let ?d = "decide (e_cfg e) now s (hyst_of e st)"
  let ?r = "the (c_alert st)"
  have perf: "perform ?d st s k now e = (e', st', n)" using res by (simp add: step_decide)
  have r: "c_alert st = Some ?r" "cond_ok e k ?r" "?r < e_nextRef e" "1 \<le> a_Count (alert_at e ?r)"
    if "h_firing (hyst_of e st) \<noteq> None"
    using that ok inv by (auto simp: hyst_of_def inv_defs without_def)
  have upd: "engine_inv (without k (set_alert ?r a e)) \<and> cond_ok (set_alert ?r a e) k ?r"
    if "h_firing (hyst_of e st) \<noteq> None" "same_alert (alert_at e ?r) a" for a
    using r[OF that(1)] that(2) inv by (auto intro: engine_inv_set_alert cond_ok_set_alert)
  show ?thesis
  proof (cases ?d)
    case Quiet
    then show ?thesis using perf ok inv by (auto simp: perform_def Let_def)
  next
    case (Raising sev)
    let ?a = "new_condition s k sev now (e_nextID e + 1)"
    have "engine_inv (alloc ?a (without k e))"
      using unmuted by (intro engine_inv_alloc[OF inv]) (simp_all add: new_condition_def)
    moreover have "cond_ok (alloc ?a e) k (e_nextRef e)"
      using decide_sev[of _ _ s _ sev] Raising by (auto simp: cond_ok_def new_condition_def)
    ultimately show ?thesis using perf Raising by (auto simp: perform_def Let_def)
  next
    case Keeping
    then have f: "h_firing (hyst_of e st) \<noteq> None" using decide_firing by blast
    from upd[OF f reworded_same[OF refreshed_same[OF r(4)[OF f]]]] show ?thesis
      using perf Keeping r(1)[OF f] by (auto simp: perform_def Let_def)
  next
    case Waning
    then have f: "h_firing (hyst_of e st) \<noteq> None" using decide_firing by blast
    from upd[OF f refreshed_same[OF r(4)[OF f]]] show ?thesis
      using perf Waning r(1)[OF f] by (auto simp: perform_def Let_def)
  next
    case (Changing sev)
    then have f: "h_firing (hyst_of e st) \<noteq> None" using decide_firing by blast
    have "same_alert (alert_at e ?r) (reworded s ((refreshed s now (alert_at e ?r))\<lparr>a_Severity := sev\<rparr>))"
      using r(4)[OF f] decide_sev[of _ _ s _ sev] Changing
      by (auto simp: same_alert_def reworded_def refreshed_def)
    from upd[OF f this] show ?thesis
      using perf Changing r(1)[OF f] by (auto simp: perform_def Let_def)
  next
    case Resolving
    then have f: "h_firing (hyst_of e st) \<noteq> None" using decide_firing by blast
    let ?e = "set_alert ?r (refreshed s now (alert_at e ?r)) e"
    have "engine_inv (without k (fst (resolve st ?r now ?e)))"
      using upd[OF f refreshed_same[OF r(4)[OF f]]] by (intro engine_inv_resolve) simp_all
    then show ?thesis
      using perf Resolving by (auto simp: perform_def Let_def resolve_eq)
  qed
qed

end
