(* ===== verification/Engine_Eval.thy ===== *)
theory Engine_Eval
  imports Engine_Inv
begin

text \<open>
  A tick of the engine against the hysteresis machine: \<open>Evaluate\<close> keeps the invariant,
  advances the machine of every sampled condition and no other, drops the conditions that
  were not sampled, and announces exactly the machine's transitions, in whatever order
  the maps are visited.
\<close>

section \<open>The observable part of a condition\<close>

definition cond_view :: "Engine \<Rightarrow> string \<Rightarrow> hyst option" where
  "cond_view e k = map_option (hyst_of e) (map_of (e_conds e) k)"

definition view_or_init :: "hyst option \<Rightarrow> hyst" where
  "view_or_init v = (case v of None \<Rightarrow> hyst_init | Some h \<Rightarrow> h)"

definition last_sampled :: "Engine \<Rightarrow> string \<Rightarrow> gtime option" where
  "last_sampled e k = map_option c_lastSampled (map_of (e_conds e) k)"

definition cond_notices :: "string \<Rightarrow> notice list \<Rightarrow> Transition list" where
  "cond_notices k ns = map snd (filter (\<lambda>(a, t). a_Kind a = KindCondition \<and> a_Key a = k) ns)"

fun announced :: "outcome \<Rightarrow> Transition list" where
  "announced (Raising sev) = [Raised]"
| "announced (Changing sev) = [Escalated]"
| "announced Resolving = [Cleared]"
| "announced oc = []"

lemma cond_notices_simps [simp]:
  "cond_notices k [] = []"
  "cond_notices k (xs @ ys) = cond_notices k xs @ cond_notices k ys"
  "cond_notices k [(a, t)] = (if a_Kind a = KindCondition \<and> a_Key a = k then [t] else [])"
  by (simp_all add: cond_notices_def)

section \<open>One sample\<close>

lemma step_frame:
  assumes "step st s k now e = (e', st', n)"
  shows "e_conds e' = e_conds e" "e_events e' = e_events e" "e_cfg e' = e_cfg e"
    "e_muted e' = e_muted e" "e_subs e' = e_subs e" "c_lastSampled st' = c_lastSampled st"
    "e_nextRef e \<le> e_nextRef e'"
  using assms
  by (auto simp: step_decide perform_def Let_def split: outcome.splits)

lemma step_other_alerts:
  assumes "step st s k now e = (e', st', n)" "r < e_nextRef e" "c_alert st \<noteq> Some r"
    "c_alert st \<noteq> None \<or> h_firing (hyst_of e st) = None"
  shows "alert_at e' r = alert_at e r"
  using assms decide_firing[of "e_cfg e" now s "hyst_of e st"]
  by (auto simp: step_decide perform_def Let_def hyst_of_def split: outcome.splits)

lemma step_hyst:
  assumes "step st s k now e = (e', st', n)"
  shows "hyst_of e' st' = hyst_step (e_cfg e) now s (hyst_of e st)"
proof -
  let ?d = "decide (e_cfg e) now s (hyst_of e st)"
  have perf: "perform ?d st s k now e = (e', st', n)" using assms by (simp add: step_decide)
  have r: "\<exists>r. c_alert st = Some r" if "h_firing (hyst_of e st) \<noteq> None"
    using that by (auto simp: hyst_of_def)
  show ?thesis
  proof (cases ?d)
    case Quiet
    then show ?thesis using perf by (auto simp: perform_def hyst_step_def Let_def hyst_of_def)
  next
    case (Raising sev)
    then show ?thesis
      using perf by (auto simp: perform_def hyst_step_def Let_def hyst_of_def new_condition_def)
  next
    case Keeping
    with decide_firing r obtain r where "c_alert st = Some r" by blast
    then show ?thesis
      using perf Keeping
      by (auto simp: perform_def hyst_step_def Let_def hyst_of_def reworded_def refreshed_def)
  next
    case Waning
    with decide_firing r obtain r where "c_alert st = Some r" by blast
    then show ?thesis
      using perf Waning
      by (auto simp: perform_def hyst_step_def Let_def hyst_of_def refreshed_def)
  next
    case (Changing sev)
    with decide_firing r obtain r where "c_alert st = Some r" by blast
    then show ?thesis
      using perf Changing
      by (auto simp: perform_def hyst_step_def Let_def hyst_of_def reworded_def refreshed_def)
  next
    case Resolving
    then show ?thesis using perf by (auto simp: perform_def hyst_step_def Let_def hyst_of_def)
  qed
qed

lemma step_notice:
  assumes "step st s k now e = (e', st', n)" and ok: "\<And>r. c_alert st = Some r \<Longrightarrow> cond_ok e k r"
  shows "map snd (case n of None \<Rightarrow> [] | Some n \<Rightarrow> [n]) = announced (decide (e_cfg e) now s (hyst_of e st))"
    and "n = Some (a, t) \<Longrightarrow> a_Kind a = KindCondition \<and> a_Key a = k"
proof -
  let ?d = "decide (e_cfg e) now s (hyst_of e st)"
  have perf: "perform ?d st s k now e = (e', st', n)" using assms(1) by (simp add: step_decide)
  have r: "cond_ok e k (the (c_alert st))" if "h_firing (hyst_of e st) \<noteq> None"
    using that ok by (auto simp: hyst_of_def)
  show "map snd (case n of None \<Rightarrow> [] | Some n \<Rightarrow> [n]) = announced ?d"
    using perf by (auto simp: perform_def Let_def split: outcome.splits)
  assume n: "n = Some (a, t)"
  then have "?d = Quiet \<or> (\<exists>sev. ?d = Raising sev) \<or> h_firing (hyst_of e st) \<noteq> None"
    using decide_firing[of "e_cfg e" now s "hyst_of e st"] by (cases ?d) auto
  then show "a_Kind a = KindCondition \<and> a_Key a = k"
    using perf n r
    by (auto simp: perform_def Let_def new_condition_def reworded_def refreshed_def closed_def cond_ok_def
        split: outcome.splits)
qed

text \<open>The state \<open>eval_sample\<close> hands to \<open>step\<close>, and what it makes of the result.\<close>

definition entry :: "Engine \<Rightarrow> string \<Rightarrow> gtime \<Rightarrow> condState" where
  "entry e k now = (case map_of (e_conds e) k of None \<Rightarrow> zero_cond | Some st \<Rightarrow> st)\<lparr>c_lastSampled := now\<rparr>"

lemma eval_sample_unmuted:
  "\<not> is_muted e (s_Rule s) \<Longrightarrow> step (entry e (sample_key s) now) s (sample_key s) now e = (e', st', n) \<Longrightarrow>
   eval_sample now (e, ns) s =
     (e'\<lparr>e_conds := AList.update (sample_key s) st' (e_conds e)\<rparr>, ns @ (case n of None \<Rightarrow> [] | Some n \<Rightarrow> [n]))"
  using step_frame[of "entry e (sample_key s) now" s "sample_key s" now e e' st' n]
  by (simp add: eval_sample_def entry_def Let_def)

lemma eval_sample_muted: "is_muted e (s_Rule s) \<Longrightarrow> eval_sample now (e, ns) s = (e, ns)"
  by (simp add: eval_sample_def)

lemma hyst_of_entry: "hyst_of e (entry e k now) = view_or_init (cond_view e k)"
  by (simp add: entry_def cond_view_def view_or_init_def hyst_of_def hyst_init_def zero_cond_def
      split: option.split)

lemma entry_ok: "engine_inv e \<Longrightarrow> c_alert (entry e k now) = Some r \<Longrightarrow> cond_ok e k r"
  by (auto simp: entry_def zero_cond_def engine_inv_def conds_ok_def split: option.splits)

lemma entry_lastSampled [simp]: "c_lastSampled (entry e k now) = now"
  by (simp add: entry_def)

lemma other_conds_keep:
  assumes inv: "engine_inv e" and st: "step (entry e k now) s k now e = (e', st', n)"
    and k': "map_of (e_conds e) k' = Some st2" "k' \<noteq> k"
  shows "hyst_of e' st2 = hyst_of e st2"
proof (cases "c_alert st2")
  case None
  then show ?thesis by (simp add: hyst_of_def)
next
  case (Some r)
  with inv k' have ok: "cond_ok e k' r" by (auto simp: engine_inv_def conds_ok_def)
  have "c_alert (entry e k now) \<noteq> Some r"
    using entry_ok[OF inv, of k now r] ok k'(2) by (auto simp: cond_ok_def)
  then have "alert_at e' r = alert_at e r"
    using step_other_alerts[OF st] ok by (auto simp: cond_ok_def hyst_of_def)
  then show ?thesis using Some by (simp add: hyst_of_def)
qed

lemma hyst_of_conds_frame [simp]: "hyst_of (e\<lparr>e_conds := C\<rparr>) = hyst_of e"
  by (simp add: hyst_of_def fun_eq_iff)

lemma hyst_of_events_frame [simp]: "hyst_of (e\<lparr>e_events := E\<rparr>) = hyst_of e"
  by (simp add: hyst_of_def fun_eq_iff)

lemma eval_sample_effect:
  assumes inv: "engine_inv e" and unmuted: "\<not> is_muted e (s_Rule s)"
    and res: "eval_sample now (e, ns) s = (e2, ns2)"
  shows "engine_inv e2"
    and "cond_view e2 k = (if k = sample_key s
           then Some (hyst_step (e_cfg e) now s (view_or_init (cond_view e k))) else cond_view e k)"
    and "last_sampled e2 k = (if k = sample_key s then Some now else last_sampled e k)"
    and "cond_notices k ns2 = cond_notices k ns @ (if k = sample_key s
           then announced (decide (e_cfg e) now s (view_or_init (cond_view e k))) else [])"
    and "e_cfg e2 = e_cfg e" "e_muted e2 = e_muted e"
proof -
  let ?k = "sample_key s"
  obtain e' st' n where st: "step (entry e ?k now) s ?k now e = (e', st', n)"
    by (metis prod_cases3)
  note fr = step_frame[OF st]
  have e2: "e2 = e'\<lparr>e_conds := AList.update ?k st' (e_conds e)\<rparr>"
    and ns2: "ns2 = ns @ (case n of None \<Rightarrow> [] | Some n \<Rightarrow> [n])"
    using res eval_sample_unmuted[OF unmuted st] by auto
  have "engine_inv (without ?k e') \<and> (\<forall>r. c_alert st' = Some r \<longrightarrow> cond_ok e' ?k r)"
    by (rule step_inv[OF engine_inv_without[OF inv] unmuted entry_ok[OF inv] st])
  then have "engine_inv (e'\<lparr>e_conds := AList.update ?k st' (e_conds e')\<rparr>)"
    using fr(1) inv by (intro engine_inv_put_cond) (auto simp: engine_inv_def conds_ok_def)
  then show "engine_inv e2" using fr(1) by (simp add: e2)
  show "cond_view e2 k = (if k = ?k
      then Some (hyst_step (e_cfg e) now s (view_or_init (cond_view e k))) else cond_view e k)"
  proof (cases "k = ?k")
    case True
    then show ?thesis
      using step_hyst[OF st] by (simp add: cond_view_def e2 map_of_update hyst_of_entry[symmetric] hyst_of_entry)
  next
    case False
    then show ?thesis
      using other_conds_keep[OF inv st, of k]
      by (cases "map_of (e_conds e) k") (auto simp: cond_view_def e2 map_of_update)
  qed
  show "last_sampled e2 k = (if k = ?k then Some now else last_sampled e k)"
    using fr(6) by (simp add: last_sampled_def e2 map_of_update)
  show "cond_notices k ns2 = cond_notices k ns @ (if k = ?k
      then announced (decide (e_cfg e) now s (view_or_init (cond_view e k))) else [])"
    using step_notice[OF st entry_ok[OF inv]]
    by (cases n) (auto simp: ns2 hyst_of_entry)
  show "e_cfg e2 = e_cfg e" "e_muted e2 = e_muted e" using fr by (simp_all add: e2)
qed

section \<open>All samples of a tick\<close>

fun tick_announced :: "Alerts \<Rightarrow> gtime \<Rightarrow> Sample list \<Rightarrow> hyst \<Rightarrow> Transition list" where
  "tick_announced cfg now [] h = []"
| "tick_announced cfg now (s # ss) h =
     announced (decide cfg now s h) @ tick_announced cfg now ss (hyst_step cfg now s h)"

definition tick_step :: "Alerts \<Rightarrow> gtime \<Rightarrow> Sample list \<Rightarrow> hyst \<Rightarrow> hyst" where
  "tick_step cfg now ss h = foldl (\<lambda>h s. hyst_step cfg now s h) h ss"

definition samples_of :: "Engine \<Rightarrow> string \<Rightarrow> Sample list \<Rightarrow> Sample list" where
  "samples_of e k ss = filter (\<lambda>s. sample_key s = k \<and> \<not> is_muted e (s_Rule s)) ss"

lemma is_muted_cong: "e_muted e = e_muted e' \<Longrightarrow> is_muted e = is_muted e'"
  by (simp add: is_muted_def fun_eq_iff)

lemma samples_of_cong: "e_muted e = e_muted e' \<Longrightarrow> samples_of e k ss = samples_of e' k ss"
  by (simp add: samples_of_def is_muted_cong[of e e'])

lemma eval_samples_effect:
  assumes "engine_inv e" and "foldl (eval_sample now) (e, ns) ss = (e2, ns2)"
  shows "engine_inv e2 \<and> e_cfg e2 = e_cfg e \<and> e_muted e2 = e_muted e \<and>
    cond_view e2 k = (if samples_of e k ss = [] then cond_view e k
      else Some (tick_step (e_cfg e) now (samples_of e k ss) (view_or_init (cond_view e k)))) \<and>
    last_sampled e2 k = (if samples_of e k ss = [] then last_sampled e k else Some now) \<and>
    cond_notices k ns2 = cond_notices k ns @
      tick_announced (e_cfg e) now (samples_of e k ss) (view_or_init (cond_view e k))"
  using assms
proof (induction ss arbitrary: e ns)
  case Nil
  then show ?case by (simp add: samples_of_def)
next
  case (Cons s ss)
  obtain e1 ns1 where one: "eval_sample now (e, ns) s = (e1, ns1)" by (cases "eval_sample now (e, ns) s")
  show ?case
  proof (cases "is_muted e (s_Rule s)")
    case True
    then have "foldl (eval_sample now) (e, ns) ss = (e2, ns2)"
      using Cons.prems(2) by (simp add: eval_sample_muted)
    from Cons.IH[OF Cons.prems(1) this] show ?thesis using True by (simp add: samples_of_def)
  next
    case False
    note eff = eval_sample_effect[OF Cons.prems(1) False one]
    have "foldl (eval_sample now) (e1, ns1) ss = (e2, ns2)" using Cons.prems(2) one by simp
    from Cons.IH[OF eff(1) this] eff(2)[of k] eff(3)[of k] eff(4)[of k] eff(5,6) False
      samples_of_cong[OF eff(6)]
    show ?thesis by (cases "k = sample_key s") (simp_all add: samples_of_def tick_step_def view_or_init_def)
  qed
qed

section \<open>The sweep\<close>

definition firing :: "hyst option \<Rightarrow> bool" where
  "firing v = (case v of None \<Rightarrow> False | Some h \<Rightarrow> h_firing h \<noteq> None)"

definition stale :: "Engine \<Rightarrow> gtime \<Rightarrow> string \<Rightarrow> bool" where
  "stale e now k \<longleftrightarrow> last_sampled e k \<noteq> None \<and> last_sampled e k \<noteq> Some now"

lemma resolve_other_hyst:
  assumes inv: "engine_inv e" and st: "map_of (e_conds e) k = Some st" "c_alert st = Some r"
    and k': "map_of (e_conds e) k' = Some st'"
  shows "hyst_of (fst (resolve st r now e)) st' = hyst_of e st'"
  by (simp add: resolve_eq hyst_of_def closed_def) (cases "c_alert st'"; simp)

lemma sweep_cond_stale:
  assumes st: "map_of (e_conds e) j = Some st" "c_lastSampled st \<noteq> now"
  shows "sweep_cond now (e, ns) j =
    (case c_alert st of
       None \<Rightarrow> (without j e, ns)
     | Some r \<Rightarrow> (without j (fst (resolve st r now e)), ns @ [(closed now (alert_at e r), Cleared)]))"
  using st by (simp add: sweep_cond_def resolve_eq without_def split: option.split)

lemma sweep_cond_fresh: "\<not> stale e now j \<Longrightarrow> sweep_cond now (e, ns) j = (e, ns)"
  by (auto simp: sweep_cond_def stale_def last_sampled_def split: option.split)

lemma sweep_cond_effect:
  assumes inv: "engine_inv e" and res: "sweep_cond now (e, ns) j = (e2, ns2)"
  shows "engine_inv e2 \<and> e_cfg e2 = e_cfg e \<and> e_muted e2 = e_muted e \<and>
    cond_view e2 k = (if k = j \<and> stale e now j then None else cond_view e k) \<and>
    last_sampled e2 k = (if k = j \<and> stale e now j then None else last_sampled e k) \<and>
    cond_notices k ns2 = cond_notices k ns @
      (if k = j \<and> stale e now j \<and> firing (cond_view e j) then [Cleared] else [])"
proof (cases "stale e now j")
  case False
  then show ?thesis using res inv by (auto simp: sweep_cond_fresh)
next
  case True
  then obtain st where st: "map_of (e_conds e) j = Some st" "c_lastSampled st \<noteq> now"
    by (auto simp: stale_def last_sampled_def)
  show ?thesis
  proof (cases "c_alert st")
    case None
    then have "e2 = without j e" "ns2 = ns" using res sweep_cond_stale[OF st] by auto
    then show ?thesis
      using engine_inv_without[OF inv] True None st
      by (auto simp: cond_view_def last_sampled_def without_def map_of_delete firing_def hyst_of_def)
  next
    case (Some r)
    then have e2: "e2 = without j (fst (resolve st r now e))"
      and ns2: "ns2 = ns @ [(closed now (alert_at e r), Cleared)]"
      using res sweep_cond_stale[OF st] by auto
    have ok: "cond_ok e j r" using inv st Some by (auto simp: engine_inv_def conds_ok_def)
    have "engine_inv e2"
      unfolding e2 by (rule engine_inv_resolve[OF engine_inv_without[OF inv] ok])
    moreover have "cond_view e2 k = (if k = j then None else cond_view e k)"
      using resolve_other_hyst[OF inv st(1) Some, of k]
      by (auto simp: cond_view_def e2 without_def map_of_delete resolve_eq
          intro!: map_option_cong simp del: alert_at_set_alert)
    moreover have "last_sampled e2 k = (if k = j then None else last_sampled e k)"
      by (simp add: last_sampled_def e2 without_def map_of_delete resolve_eq)
    moreover have "firing (cond_view e j)" using st Some by (simp add: firing_def cond_view_def hyst_of_def)
    moreover have "cond_notices k ns2 = cond_notices k ns @ (if k = j then [Cleared] else [])"
      using ok by (auto simp: ns2 closed_def cond_ok_def)
    ultimately show ?thesis using True by (simp add: e2 without_def resolve_eq)
  qed
qed

lemma sweep_effect:
  assumes "engine_inv e" and "distinct js" and "foldl (sweep_cond now) (e, ns) js = (e2, ns2)"
  shows "engine_inv e2 \<and> e_cfg e2 = e_cfg e \<and> e_muted e2 = e_muted e \<and>
    cond_view e2 k = (if k \<in> set js \<and> stale e now k then None else cond_view e k) \<and>
    last_sampled e2 k = (if k \<in> set js \<and> stale e now k then None else last_sampled e k) \<and>
    cond_notices k ns2 = cond_notices k ns @
      (if k \<in> set js \<and> stale e now k \<and> firing (cond_view e k) then [Cleared] else [])"
  using assms
proof (induction js arbitrary: e ns)
  case Nil
  then show ?case by simp
next
  case (Cons j js)
  obtain e1 ns1 where one: "sweep_cond now (e, ns) j = (e1, ns1)" by (cases "sweep_cond now (e, ns) j")
  note eff = sweep_cond_effect[OF Cons.prems(1) one]
  have "foldl (sweep_cond now) (e1, ns1) js = (e2, ns2)" using Cons.prems(3) one by simp
  with Cons.IH[of e1 ns1] Cons.prems(2) eff[of k]
  show ?case by (auto simp: stale_def)
qed

section \<open>Events do not touch conditions\<close>

lemma expire_event_effect:
  assumes "engine_inv e" and "expire_event now (e, ns) j = (e2, ns2)"
  shows "engine_inv e2 \<and> e_cfg e2 = e_cfg e \<and> e_muted e2 = e_muted e \<and> cond_view e2 k = cond_view e k \<and>
    last_sampled e2 k = last_sampled e k \<and> cond_notices k ns2 = cond_notices k ns"
proof (cases "map_of (e_events e) j")
  case None
  then show ?thesis using assms by (auto simp: expire_event_def)
next
  case (Some r)
  then have "a_Kind (alert_at e r) = KindEvent"
    using assms(1) by (auto simp: engine_inv_def events_ok_def event_ok_def)
  then show ?thesis
    using assms Some engine_inv_del_event[OF assms(1), of j]
    by (auto simp: expire_event_def Let_def cond_view_def last_sampled_def split: if_splits)
qed

lemma expire_effect:
  assumes "engine_inv e" and "foldl (expire_event now) (e, ns) js = (e2, ns2)"
  shows "engine_inv e2 \<and> e_cfg e2 = e_cfg e \<and> e_muted e2 = e_muted e \<and> cond_view e2 k = cond_view e k \<and>
    last_sampled e2 k = last_sampled e k \<and> cond_notices k ns2 = cond_notices k ns"
  using assms
proof (induction js arbitrary: e ns)
  case Nil
  then show ?case by simp
next
  case (Cons j js)
  obtain e1 ns1 where one: "expire_event now (e, ns) j = (e1, ns1)" by (cases "expire_event now (e, ns) j")
  note eff = expire_event_effect[OF Cons.prems(1) one]
  have "foldl (expire_event now) (e1, ns1) js = (e2, ns2)" using Cons.prems(2) one by simp
  with Cons.IH[of e1 ns1] eff[of k] show ?case by auto
qed

lemma raise_event_view:
  assumes inv: "engine_inv e" and res: "raise_event now a e = (e2, ns)"
  shows "cond_view e2 k = cond_view e k \<and> last_sampled e2 k = last_sampled e k \<and> cond_notices k ns = [] \<and>
    e_cfg e2 = e_cfg e \<and> e_muted e2 = e_muted e"
proof -
  have old: "c_alert st \<noteq> Some (e_nextRef e)" "map_of (e_events e) j = Some r \<Longrightarrow> c_alert st \<noteq> Some r"
    if "map_of (e_conds e) k = Some st" for st j r
  proof -
    have ok: "c_alert st = Some r \<Longrightarrow> cond_ok e k r" for r
      using engine_invD(3)[OF inv] that by (auto simp: conds_ok_def)
    then show "c_alert st \<noteq> Some (e_nextRef e)" by (fastforce simp: cond_ok_def)
    show "map_of (e_events e) j = Some r \<Longrightarrow> c_alert st \<noteq> Some r"
      using engine_invD(4)[OF inv] ok by (fastforce simp: events_ok_def cond_ok_def event_ok_def)
  qed
  have kind: "a_Kind (alert_at e r) = KindEvent" if "map_of (e_events e) j = Some r" for j r
    using engine_invD(4)[OF inv] that by (auto simp: events_ok_def event_ok_def)
  show ?thesis
    using res old kind
    by (auto simp: raise_event_def Let_def new_event_eq fresh_event_def repeat_event_def cond_view_def
        last_sampled_def hyst_of_def map_option.compositionality comp_def
        split: if_splits option.splits intro!: map_option_cong)
qed

section \<open>A whole tick\<close>

text \<open>What a tick makes of a condition that has the samples \<open>xs\<close> in it.\<close>

definition tick_view :: "Alerts \<Rightarrow> gtime \<Rightarrow> Sample list \<Rightarrow> hyst option \<Rightarrow> hyst option" where
  "tick_view cfg now xs v = (if xs = [] then None else Some (tick_step cfg now xs (view_or_init v)))"

definition tick_notices :: "Alerts \<Rightarrow> gtime \<Rightarrow> Sample list \<Rightarrow> hyst option \<Rightarrow> Transition list" where
  "tick_notices cfg now xs v =
     (if xs = [] then (if firing v then [Cleared] else [])
      else tick_announced cfg now xs (view_or_init v))"

lemma expireEvents_effect:
  assumes "engine_inv e" and "expireEvents ord now e = (e2, ns)"
  shows "engine_inv e2 \<and> e_cfg e2 = e_cfg e \<and> e_muted e2 = e_muted e \<and> cond_view e2 k = cond_view e k \<and>
    last_sampled e2 k = last_sampled e k \<and> cond_notices k ns = []"
  using expire_effect[of e now "[]"] assms by (simp add: expireEvents_def)

lemma cond_view_None: "cond_view e k = None \<longleftrightarrow> last_sampled e k = None"
  by (simp add: cond_view_def last_sampled_def)

lemma view_in_conds: "cond_view e k \<noteq> None \<longleftrightarrow> k \<in> set (mkeys (e_conds e))"
  by (simp add: cond_view_def in_mkeys_iff)

lemma eval_tick_effect:
  assumes inv: "engine_inv e" and ord: "is_order ordc"
    and new: "last_sampled e k \<noteq> Some now"
    and res: "eval_tick ordc orde now ss e = (e2, ns)"
  shows "engine_inv e2 \<and> e_cfg e2 = e_cfg e \<and> e_muted e2 = e_muted e \<and>
    cond_view e2 k = tick_view (e_cfg e) now (samples_of e k ss) (cond_view e k) \<and>
    last_sampled e2 k = (if samples_of e k ss = [] then None else Some now) \<and>
    cond_notices k ns = tick_notices (e_cfg e) now (samples_of e k ss) (cond_view e k)"
proof -
  obtain e1 ns1 where 1: "foldl (eval_sample now) (e, []) ss = (e1, ns1)"
    by (cases "foldl (eval_sample now) (e, []) ss")
  let ?js = "ordc (mkeys (e_conds e1))"
  obtain e' ns' where 2: "foldl (sweep_cond now) (e1, ns1) ?js = (e', ns')"
    by (cases "foldl (sweep_cond now) (e1, ns1) ?js")
  obtain e3 ms where 3: "expireEvents orde now e' = (e3, ms)" by (cases "expireEvents orde now e'")
  have e2: "e2 = e3" and ns: "ns = ns' @ ms" using res 1 2 3 by (simp_all add: eval_tick_def)
  note a = eval_samples_effect[OF inv 1, of k]
  from a have inv1: "engine_inv e1" by simp
  then have "distinct ?js"
    using is_order_distinct[OF ord] by (simp add: distinct_mkeys engine_inv_def conds_ok_def)
  note b = sweep_effect[OF inv1 this 2, of k]
  from b have inv2: "engine_inv e'" by simp
  note c = expireEvents_effect[OF inv2 3, of k]
  have js: "k \<in> set ?js \<longleftrightarrow> cond_view e1 k \<noteq> None"
    by (simp add: view_in_conds is_order_set[OF ord] del: not_None_eq)
  show ?thesis
  proof (cases "samples_of e k ss = []")
    case True
    then have "stale e1 now k \<longleftrightarrow> cond_view e k \<noteq> None"
      using a new by (auto simp: stale_def cond_view_None)
    then show ?thesis
      using a b c js True cond_view_None[of e k]
      by (cases "cond_view e k") (simp_all add: e2 ns tick_view_def tick_notices_def firing_def)
  next
    case False
    then have "\<not> stale e1 now k" using a by (simp add: stale_def)
    then show ?thesis using a b c False by (simp add: e2 ns tick_view_def tick_notices_def)
  qed
qed

lemma eval_tick_keeps:
  assumes inv: "engine_inv e" and "is_order ordc" and res: "eval_tick ordc orde now ss e = (e2, ns)"
  shows "engine_inv e2 \<and> e_cfg e2 = e_cfg e \<and> e_muted e2 = e_muted e"
proof -
  obtain e1 ns1 where 1: "foldl (eval_sample now) (e, []) ss = (e1, ns1)"
    by (cases "foldl (eval_sample now) (e, []) ss")
  let ?js = "ordc (mkeys (e_conds e1))"
  obtain e' ns' where 2: "foldl (sweep_cond now) (e1, ns1) ?js = (e', ns')"
    by (cases "foldl (sweep_cond now) (e1, ns1) ?js")
  have inv1: "engine_inv e1" "e_cfg e1 = e_cfg e" "e_muted e1 = e_muted e"
    using eval_samples_effect[OF inv 1] by blast+
  then have "distinct ?js"
    using is_order_distinct[OF assms(2)] by (simp add: distinct_mkeys engine_inv_def conds_ok_def)
  with sweep_effect[OF inv1(1) _ 2] have "engine_inv e'" "e_cfg e' = e_cfg e" "e_muted e' = e_muted e"
    using inv1 by fastforce+
  moreover have "expireEvents orde now e' = (e2, snd (expireEvents orde now e'))"
    using res 1 2 by (simp add: eval_tick_def split: prod.splits)
  ultimately show ?thesis using expireEvents_effect by metis
qed

end
