(* ===== verification/Engine_Run.thy ===== *)
theory Engine_Run
  imports Engine_Eval
begin

text \<open>
  Executions of the alert engine. Every exported method holds the engine's mutex for its
  whole critical section, so an execution is a sequence of whole calls, in any
  interleaving of the collector's \<open>Evaluate\<close> with the \<open>Raise\<close> of the probe and kernel log
  readers. The contract \<open>condition_tracker\<close> says what such calls do to one condition; its
  theorems are those of the hysteresis machine, lifted to executions of the engine.
\<close>

section \<open>Calls and executions\<close>

datatype call = CallRaise gtime Alert | CallEvaluate gtime "Sample list" | CallSubscribe nat

inductive engine_step :: "Engine \<Rightarrow> call \<times> notice list \<Rightarrow> Engine \<Rightarrow> bool" where
  step_raise: "raise_event now a e = (e', ns) \<Longrightarrow> engine_step e (CallRaise now a, ns) e'"
| step_evaluate: "is_order ordc \<Longrightarrow> is_order orde \<Longrightarrow> eval_tick ordc orde now ss e = (e', ns) \<Longrightarrow>
    engine_step e (CallEvaluate now ss, ns) e'"
| step_subscribe: "engine_step e (CallSubscribe fn, []) (Subscribe fn e)"

inductive_cases engine_step_raiseE: "engine_step e (CallRaise now a, ns) e'"
inductive_cases engine_step_evaluateE: "engine_step e (CallEvaluate now ss, ns) e'"
inductive_cases engine_step_subscribeE: "engine_step e (CallSubscribe fn, ns) e'"

inductive run :: "('s \<Rightarrow> 'l \<Rightarrow> 's \<Rightarrow> bool) \<Rightarrow> 's \<Rightarrow> 'l list \<Rightarrow> 's \<Rightarrow> bool" for stp :: "'s \<Rightarrow> 'l \<Rightarrow> 's \<Rightarrow> bool" and s0 :: 's where
  run_Nil: "run stp s0 [] s0"
| run_snoc: "run stp s0 ls s \<Longrightarrow> stp s l s' \<Longrightarrow> run stp s0 (ls @ [l]) s'"

abbreviation engine_run :: "Alerts \<Rightarrow> (call \<times> notice list) list \<Rightarrow> Engine \<Rightarrow> bool" where
  "engine_run cfg \<equiv> run engine_step (NewEngine cfg)"

lemma run_invariant:
  assumes "run stp s0 ls s" and "P s0" and "\<And>s l s'. P s \<Longrightarrow> stp s l s' \<Longrightarrow> P s'"
  shows "P s"
  using assms by (induction rule: run.induct) auto

lemma run_snocE:
  assumes "run stp s0 (ls @ [l]) s'"
  obtains s where "run stp s0 ls s" "stp s l s'"
  using assms by (cases rule: run.cases) auto

section \<open>The contract of a condition tracker\<close>

text \<open>The ticks of a call sequence, and the samples of a condition since it last was absent.\<close>

fun tick_times :: "(call \<times> notice list) list \<Rightarrow> gtime list" where
  "tick_times [] = []"
| "tick_times ((CallEvaluate now ss, ns) # ls) = now # tick_times ls"
| "tick_times (_ # ls) = tick_times ls"

definition relevant :: "(string \<Rightarrow> bool) \<Rightarrow> string \<Rightarrow> Sample list \<Rightarrow> Sample list" where
  "relevant mutedp k ss = filter (\<lambda>s. sample_key s = k \<and> \<not> mutedp (s_Rule s)) ss"

fun track_call :: "(string \<Rightarrow> bool) \<Rightarrow> string \<Rightarrow> timed list \<Rightarrow> call \<times> notice list \<Rightarrow> timed list" where
  "track_call mutedp k ts (CallEvaluate now ss, ns) =
     (if relevant mutedp k ss = [] then [] else ts @ map (Pair now) (relevant mutedp k ss))"
| "track_call mutedp k ts _ = ts"

definition track :: "(string \<Rightarrow> bool) \<Rightarrow> string \<Rightarrow> (call \<times> notice list) list \<Rightarrow> timed list" where
  "track mutedp k ls = foldl (track_call mutedp k) [] ls"

lemma track_simps [simp]:
  "track mutedp k [] = []"
  "track mutedp k (ls @ [l]) = track_call mutedp k (track mutedp k ls) l"
  by (simp_all add: track_def)

lemma tick_times_append [simp]: "tick_times (ls @ ms) = tick_times ls @ tick_times ms"
  by (induction ls rule: tick_times.induct) auto

lemma track_times: "fst ` set (track mutedp k ls) \<subseteq> set (tick_times ls)"
proof (induction ls rule: rev_induct)
  case Nil
  then show ?case by simp
next
  case (snoc l ls)
  obtain c ns where "l = (c, ns)" by (cases l)
  with snoc show ?case by (cases c) auto
qed

lemma sorted_constant: "sorted (map (\<lambda>_. c) xs)"
  by (induction xs) auto

lemma track_sorted: "sorted (tick_times ls) \<Longrightarrow> sorted (map fst (track mutedp k ls))"
proof (induction ls rule: rev_induct)
  case Nil
  then show ?case by simp
next
  case (snoc l ls)
  obtain c ns where l: "l = (c, ns)" by (cases l)
  have "\<forall>t \<in> fst ` set (track mutedp k ls). t \<in> set (tick_times ls)" using track_times by blast
  with snoc l show ?case
    by (cases c) (auto simp: sorted_append comp_def sorted_constant)
qed

locale condition_tracker =
  fixes stp :: "'s \<Rightarrow> call \<times> notice list \<Rightarrow> 's \<Rightarrow> bool"
    and s0 :: 's
    and invar :: "'s \<Rightarrow> bool"
    and view :: "'s \<Rightarrow> string \<Rightarrow> hyst option"
    and sampled :: "'s \<Rightarrow> string \<Rightarrow> gtime option"
    and cfg :: Alerts
    and mutedp :: "string \<Rightarrow> bool"
  assumes invar_init: "invar s0"
    and invar_step: "invar s \<Longrightarrow> stp s l s' \<Longrightarrow> invar s'"
    and view_init: "view s0 k = None"
    and sampled_init: "sampled s0 k = None"
    and evaluate_view: "invar s \<Longrightarrow> stp s (CallEvaluate now ss, ns) s' \<Longrightarrow> sampled s k \<noteq> Some now \<Longrightarrow>
      view s' k = tick_view cfg now (relevant mutedp k ss) (view s k)"
    and evaluate_sampled: "invar s \<Longrightarrow> stp s (CallEvaluate now ss, ns) s' \<Longrightarrow> sampled s k \<noteq> Some now \<Longrightarrow>
      sampled s' k = (if relevant mutedp k ss = [] then None else Some now)"
    and evaluate_notices: "invar s \<Longrightarrow> stp s (CallEvaluate now ss, ns) s' \<Longrightarrow> sampled s k \<noteq> Some now \<Longrightarrow>
      cond_notices k ns = tick_notices cfg now (relevant mutedp k ss) (view s k)"
    and other_calls: "invar s \<Longrightarrow> stp s (c, ns) s' \<Longrightarrow> (\<forall>now ss. c \<noteq> CallEvaluate now ss) \<Longrightarrow>
      view s' k = view s k \<and> sampled s' k = sampled s k \<and> cond_notices k ns = []"
begin

lemma invar_run: "run stp s0 ls s \<Longrightarrow> invar s"
  by (erule run_invariant) (auto intro: invar_init invar_step)

text \<open>
  With increasing tick times, the state of a condition is the state of the machine after
  the samples it had since it was last absent.
\<close>

lemma sampled_ticks:
  assumes "run stp s0 ls s" "sorted_wrt (<) (tick_times ls)" "sampled s k = Some t"
  shows "t \<in> set (tick_times ls)"
  using assms
proof (induction arbitrary: t rule: run.induct)
  case run_Nil
  then show ?case by (simp add: sampled_init)
next
  case (run_snoc ls s l s')
  note inv = invar_run[OF run_snoc.hyps(1)]
  obtain c ns where l: "l = (c, ns)" by (cases l)
  show ?case
  proof (cases "\<exists>now ss. c = CallEvaluate now ss")
    case True
    then obtain now ss where c: "c = CallEvaluate now ss" by blast
    have "sampled s k \<noteq> Some now"
      using run_snoc.IH run_snoc.prems(1) by (auto simp: l c sorted_wrt_append)
    then show ?thesis
      using evaluate_sampled[OF inv, of now ss ns s'] run_snoc.hyps(2) run_snoc.prems(2)
      by (auto simp: l c split: if_splits)
  next
    case False
    then show ?thesis
      using other_calls[OF inv, of c ns s' k] run_snoc l by (cases c) auto
  qed
qed

lemma sampled_before:
  assumes "run stp s0 ls s" "sorted_wrt (<) (tick_times ls @ [now])"
  shows "sampled s k \<noteq> Some now"
  using sampled_ticks[OF assms(1)] assms(2) by (auto simp: sorted_wrt_append)

lemma tick_step_run:
  "tick_step cfg now xs (hyst_run cfg ts) = hyst_run cfg (ts @ map (Pair now) xs)"
proof (induction xs rule: rev_induct)
  case Nil
  then show ?case by (simp add: tick_step_def)
next
  case (snoc x xs)
  then have "tick_step cfg now (xs @ [x]) (hyst_run cfg ts) = hyst_run cfg ((ts @ map (Pair now) xs) @ [(now, x)])"
    unfolding hyst_run_snoc by (simp add: tick_step_def)
  then show ?case by simp
qed

lemma view_track:
  assumes "run stp s0 ls s" "sorted_wrt (<) (tick_times ls)"
  shows "view s k = (if track mutedp k ls = [] then None else Some (hyst_run cfg (track mutedp k ls)))"
  using assms
proof (induction rule: run.induct)
  case run_Nil
  then show ?case by (simp add: view_init)
next
  case (run_snoc ls s l s')
  note inv = invar_run[OF run_snoc.hyps(1)]
  obtain c ns where l: "l = (c, ns)" by (cases l)
  have init: "view_or_init (view s k) = hyst_run cfg (track mutedp k ls)"
    using run_snoc.IH run_snoc.prems by (auto simp: l view_or_init_def sorted_wrt_append)
  show ?case
  proof (cases "\<exists>now ss. c = CallEvaluate now ss")
    case True
    then obtain now ss where c: "c = CallEvaluate now ss" by blast
    have "sampled s k \<noteq> Some now"
      using run_snoc.prems by (intro sampled_before[OF run_snoc.hyps(1)]) (simp add: l c)
    from evaluate_view[OF inv run_snoc.hyps(2)[unfolded l c] this] init
    show ?thesis by (simp add: l c tick_view_def tick_step_run)
  next
    case False
    then show ?thesis
      using other_calls[OF inv, of c ns s' k] run_snoc l by (cases c) auto
  qed
qed

text \<open>
  What a tick announces of a condition that is sampled in it: the decisions of the
  machine along the samples; of one that is not: that it is resolved, if it was firing.
\<close>

lemma view_init_track:
  assumes "run stp s0 ls s" "sorted_wrt (<) (tick_times ls)"
  shows "view_or_init (view s k) = hyst_run cfg (track mutedp k ls)"
  using view_track[OF assms, of k] by (simp add: view_or_init_def)

lemma tick_announced_decide:
  "t \<in> set (tick_announced cfg now xs (hyst_run cfg ts)) \<Longrightarrow>
   \<exists>ys x zs. xs = ys @ x # zs \<and> t \<in> set (announced (decide cfg now x (hyst_run cfg (ts @ map (Pair now) ys))))"
proof (induction xs arbitrary: ts)
  case Nil
  then show ?case by simp
next
  case (Cons x xs)
  show ?case
  proof (cases "t \<in> set (announced (decide cfg now x (hyst_run cfg ts)))")
    case True
    then show ?thesis by (rule_tac x = "[]" in exI) auto
  next
    case False
    then have "t \<in> set (tick_announced cfg now xs (hyst_run cfg (ts @ [(now, x)])))"
      using Cons.prems by simp
    from Cons.IH[OF this] obtain ys y zs where "xs = ys @ y # zs"
      "t \<in> set (announced (decide cfg now y (hyst_run cfg (ts @ map (Pair now) (x # ys)))))" by auto
    then show ?thesis by (rule_tac x = "x # ys" in exI) auto
  qed
qed

lemma notice_decide:
  assumes r: "run stp s0 (ls @ [(CallEvaluate now ss, ns)]) s'" and times: "sorted_wrt (<) (tick_times ls @ [now])"
    and t: "t \<in> set (cond_notices k ns)" and some: "relevant mutedp k ss \<noteq> []"
  shows "\<exists>ys x zs. relevant mutedp k ss = ys @ x # zs \<and>
    t \<in> set (announced (decide cfg now x (hyst_run cfg (track mutedp k ls @ map (Pair now) ys))))"
proof -
  obtain s where s: "run stp s0 ls s" "stp s (CallEvaluate now ss, ns) s'" using r by (rule run_snocE)
  have "sorted_wrt (<) (tick_times ls)" using times by (simp add: sorted_wrt_append)
  from view_init_track[OF s(1) this, of k] evaluate_notices[OF invar_run[OF s(1)] s(2) sampled_before[OF s(1) times], of k] t some
  show ?thesis by (intro tick_announced_decide) (simp add: tick_notices_def)
qed

end

section \<open>The engine is a condition tracker\<close>

definition tracker_inv :: "Alerts \<Rightarrow> Engine \<Rightarrow> bool" where
  "tracker_inv cfg e \<longleftrightarrow> engine_inv e \<and> e_cfg e = cfg \<and> e_muted e = e_muted (NewEngine cfg)"

definition muted_in :: "Alerts \<Rightarrow> string \<Rightarrow> bool" where
  "muted_in cfg r \<longleftrightarrow> r \<in> set (Mute cfg)"

lemma map_of_foldl_update:
  "map_of (foldl (\<lambda>m r. AList.update r True m) m rs) r = (if r \<in> set rs then Some True else map_of m r)"
  by (induction rs arbitrary: m) (auto simp: map_of_update)

lemma is_muted_NewEngine: "is_muted (NewEngine cfg) = muted_in cfg"
  by (simp add: fun_eq_iff is_muted_def NewEngine_def muted_in_def mget_def map_of_foldl_update)

lemma tracker_muted: "tracker_inv cfg e \<Longrightarrow> is_muted e = muted_in cfg"
  using is_muted_cong[of e "NewEngine cfg"] is_muted_NewEngine by (simp add: tracker_inv_def)

lemma samples_of_relevant: "tracker_inv cfg e \<Longrightarrow> samples_of e k ss = relevant (muted_in cfg) k ss"
  by (simp add: samples_of_def relevant_def tracker_muted)

lemma hyst_of_subs_frame [simp]: "hyst_of (e\<lparr>e_subs := S\<rparr>) = hyst_of e"
  by (simp add: hyst_of_def fun_eq_iff)

lemma cond_view_Subscribe [simp]: "cond_view (Subscribe fn e) = cond_view e"
  by (simp add: cond_view_def fun_eq_iff Subscribe_def)

lemma last_sampled_Subscribe [simp]: "last_sampled (Subscribe fn e) = last_sampled e"
  by (simp add: last_sampled_def fun_eq_iff Subscribe_def)

lemma Subscribe_config [simp]: "e_cfg (Subscribe fn e) = e_cfg e" "e_muted (Subscribe fn e) = e_muted e"
  by (simp_all add: Subscribe_def)

lemma engine_inv_step:
  assumes "engine_inv e" "engine_step e l e'"
  shows "engine_inv e' \<and> e_cfg e' = e_cfg e \<and> e_muted e' = e_muted e"
  using assms(2)
proof (cases rule: engine_step.cases)
  case (step_raise now a ns)
  then show ?thesis
    using engine_inv_raise[OF assms(1), of now a] raise_event_view[OF assms(1) step_raise(2)] by auto
next
  case (step_evaluate ordc orde now ss ns)
  show ?thesis by (rule eval_tick_keeps[OF assms(1) step_evaluate(2,4)])
next
  case (step_subscribe fn)
  then show ?thesis using engine_inv_Subscribe[OF assms(1)] by auto
qed

lemma tracker_inv_step: "tracker_inv cfg e \<Longrightarrow> engine_step e l e' \<Longrightarrow> tracker_inv cfg e'"
  using engine_inv_step[of e l e'] by (simp add: tracker_inv_def)

lemma tracker_evaluate:
  assumes inv: "tracker_inv cfg e" and st: "engine_step e (CallEvaluate now ss, ns) e'"
    and new: "last_sampled e k \<noteq> Some now"
  shows "cond_view e' k = tick_view cfg now (relevant (muted_in cfg) k ss) (cond_view e k) \<and>
    last_sampled e' k = (if relevant (muted_in cfg) k ss = [] then None else Some now) \<and>
    cond_notices k ns = tick_notices cfg now (relevant (muted_in cfg) k ss) (cond_view e k)"
proof -
  have e: "engine_inv e" "e_cfg e = cfg" using inv by (simp_all add: tracker_inv_def)
  obtain ordc orde where o: "is_order ordc" "eval_tick ordc orde now ss e = (e', ns)"
    using st by (rule engine_step_evaluateE) blast
  from eval_tick_effect[OF e(1) o(1) new o(2)] show ?thesis
    unfolding e(2) samples_of_relevant[OF inv] by blast
qed

lemma tracker_other:
  assumes inv: "tracker_inv cfg e" and st: "engine_step e (c, ns) e'" and c: "\<forall>now ss. c \<noteq> CallEvaluate now ss"
  shows "cond_view e' k = cond_view e k \<and> last_sampled e' k = last_sampled e k \<and> cond_notices k ns = []"
  using st
proof (cases rule: engine_step.cases)
  case (step_raise now a)
  from inv have "engine_inv e" by (simp add: tracker_inv_def)
  from raise_event_view[OF this step_raise(2)] show ?thesis by blast
qed (use c in auto)

interpretation alerts: condition_tracker engine_step "NewEngine cfg" "tracker_inv cfg"
  cond_view last_sampled cfg "muted_in cfg" for cfg
proof unfold_locales
  show "tracker_inv cfg (NewEngine cfg)"
    using engine_inv_NewEngine by (simp add: tracker_inv_def NewEngine_def)
  show "cond_view (NewEngine cfg) k = None" "last_sampled (NewEngine cfg) k = None" for k
    by (simp_all add: cond_view_def last_sampled_def NewEngine_def)
qed (use tracker_inv_step tracker_evaluate tracker_other in blast)+

end
