(* ===== verification/Engine_Conditions.thy ===== *)
theory Engine_Conditions
  imports Engine_Run
begin

text \<open>
  What the engine promises of condition alerts, in terms of its readers and of the notices
  it delivers: a condition is raised when its severity held for \<open>RaiseAfter\<close> and not
  before, resolved when the value stayed under the clear level for \<open>ClearAfter\<close> or the
  subject is gone, and announced in the order raised, escalated, resolved.
\<close>

section \<open>The active alerts\<close>

lemma cond_alert_Some:
  "(case map_of m k of None \<Rightarrow> None | Some st \<Rightarrow> c_alert st) = Some r \<longleftrightarrow>
   (\<exists>st. map_of m k = Some st \<and> c_alert st = Some r)"
  by (simp split: option.split)

lemma in_active_refs:
  assumes "is_order ord"
  shows "r \<in> set (active_refs ord e) \<longleftrightarrow> (\<exists>k st. map_of (e_conds e) k = Some st \<and> c_alert st = Some r)"
  unfolding active_refs_def map_filter_Some mem_Collect_eq is_order_set[OF assms] cond_alert_Some
  by (metis in_mkeys_iff option.distinct(1))

lemma cond_alert_ok:
  "engine_inv e \<Longrightarrow> map_of (e_conds e) k = Some st \<Longrightarrow> c_alert st = Some r \<Longrightarrow> cond_ok e k r"
  by (simp add: engine_inv_def conds_ok_def)

lemma set_Active: "set (Active ord e) = alert_at e ` set (active_refs ord e)"
  by (simp add: Active_def sortAlerts_def)

text \<open>The active alert of a key is the firing state of its machine.\<close>

lemma Active_view:
  assumes inv: "engine_inv e" and ord: "is_order ord"
  shows "(\<exists>a \<in> set (Active ord e). a_Key a = k \<and> P (a_Severity a)) \<longleftrightarrow>
    (\<exists>h sev. cond_view e k = Some h \<and> h_firing h = Some sev \<and> P sev)"
    (is "?L \<longleftrightarrow> ?R")
proof
  assume ?L
  then obtain r k' st where "map_of (e_conds e) k' = Some st" "c_alert st = Some r"
    and a: "a_Key (alert_at e r) = k" "P (a_Severity (alert_at e r))"
    by (auto simp: set_Active in_active_refs[OF ord])
  moreover from this have "k' = k" using cond_alert_ok[OF inv] by (auto simp: cond_ok_def)
  ultimately show ?R by (auto simp: cond_view_def hyst_of_def)
next
  assume ?R
  then obtain st r where st: "map_of (e_conds e) k = Some st" "c_alert st = Some r"
    and p: "P (a_Severity (alert_at e r))" by (auto simp: cond_view_def hyst_of_def)
  then have "a_Key (alert_at e r) = k" using cond_alert_ok[OF inv] by (auto simp: cond_ok_def)
  moreover have "alert_at e r \<in> set (Active ord e)"
    using st in_active_refs[OF ord, of r e] by (auto simp: set_Active)
  ultimately show ?L using p by blast
qed

lemma run_engine_inv: "engine_run cfg ls e \<Longrightarrow> engine_inv e"
  using alerts.invar_run by (simp add: tracker_inv_def)

lemma distinct_active_refs:
  assumes inv: "engine_inv e" and ord: "is_order ord"
  shows "distinct (active_refs ord e)"
proof -
  let ?f = "\<lambda>k. case map_of (e_conds e) k of None \<Rightarrow> None | Some st \<Rightarrow> c_alert st"
  have inj: "k = k'" if "?f k = Some r" "?f k' = Some r" for k k' r
    using that cond_alert_ok[OF inv] unfolding cond_alert_Some by (metis cond_ok_def)
  have "distinct (ord (mkeys (e_conds e)))"
    using inv is_order_distinct[OF ord] by (simp add: distinct_mkeys engine_inv_def conds_ok_def)
  from distinct_map_filter_Some[OF this, of ?f] inj show ?thesis by (simp only: active_refs_def)
qed

section \<open>Raising and resolving\<close>

lemma cond_notices_in: "(a, t) \<in> set ns \<Longrightarrow> a_Kind a = KindCondition \<Longrightarrow> t \<in> set (cond_notices (a_Key a) ns)"
  by (force simp: cond_notices_def)

lemma firing_in_track:
  assumes "engine_run cfg ls e" and "sorted_wrt (<) (tick_times ls)" and "is_order ord"
  shows "(\<exists>a \<in> set (Active ord e). a_Key a = k \<and> P (a_Severity a)) \<longleftrightarrow>
    (\<exists>sev. h_firing (hyst_run cfg (track (muted_in cfg) k ls)) = Some sev \<and> P sev)"
  unfolding Active_view[OF run_engine_inv[OF assms(1)] assms(3)] alerts.view_track[OF assms(1,2)]
  by (auto simp: hyst_init_def)

text \<open>The samples the machine of a key has seen after the tick, split at one of that tick.\<close>

lemma track_evaluate:
  "relevant mutedp k ss = ys @ x # zs \<Longrightarrow>
   track mutedp k (ls @ [(CallEvaluate now ss, ns)]) =
     (track mutedp k ls @ map (Pair now) ys @ [(now, x)]) @ map (Pair now) zs"
  by simp

lemma raised_notice:
  assumes "engine_run cfg (ls @ [(CallEvaluate now ss, ns)]) e" "sorted_wrt (<) (tick_times ls @ [now])"
    and "(a, Raised) \<in> set ns" "a_Kind a = KindCondition"
  shows "\<exists>us vs ws sev. track (muted_in cfg) (a_Key a) (ls @ [(CallEvaluate now ss, ns)]) = us @ vs @ ws \<and>
    vs \<noteq> [] \<and> fst (last vs) = now \<and> sev \<noteq> Info \<and> all_sev sev vs \<and> RaiseAfter cfg \<le> time_sub now (fst (hd vs))"
proof -
  let ?k = "a_Key a" and ?m = "muted_in cfg"
  have n: "Raised \<in> set (cond_notices ?k ns)" using cond_notices_in assms(3,4) by blast
  obtain s where s: "engine_run cfg ls s" "engine_step s (CallEvaluate now ss, ns) e"
    using assms(1) by (rule run_snocE)
  have "relevant ?m ?k ss \<noteq> []"
    using n alerts.evaluate_notices[OF alerts.invar_run[OF s(1)] s(2) alerts.sampled_before[OF s(1) assms(2)], of ?k]
    by (auto simp: tick_notices_def split: if_splits)
  from alerts.notice_decide[OF assms(1,2) n this] obtain ys x zs where
    rel: "relevant ?m ?k ss = ys @ x # zs" and
    "Raised \<in> set (announced (decide cfg now x (hyst_run cfg (track ?m ?k ls @ map (Pair now) ys))))" by blast
  then obtain sev where "decide cfg now x (hyst_run cfg (track ?m ?k ls @ map (Pair now) ys)) = Raising sev"
    by (cases "decide cfg now x (hyst_run cfg (track ?m ?k ls @ map (Pair now) ys))") auto
  from raise_sound[OF this] obtain us vs where sev: "sev \<noteq> Info" "all_sev sev vs" "vs \<noteq> []"
    "RaiseAfter cfg \<le> time_sub now (fst (hd vs))"
    and split: "(track ?m ?k ls @ map (Pair now) ys) @ [(now, x)] = us @ vs" by blast
  from split sev(3) have "last vs = (now, x)" by (metis last_appendR last_snoc)
  moreover from track_evaluate[OF rel, of ls now ns] split
  have "track ?m ?k (ls @ [(CallEvaluate now ss, ns)]) = us @ vs @ map (Pair now) zs"
    by (simp del: track_simps)
  ultimately show ?thesis using sev by (metis fst_conv)
qed

lemma cleared_notice:
  assumes "engine_run cfg (ls @ [(CallEvaluate now ss, ns)]) e" "sorted_wrt (<) (tick_times ls @ [now])"
    and "\<forall>t \<in> set (tick_times ls @ [now]). t \<noteq> 0"
    and "(a, Cleared) \<in> set ns" "a_Kind a = KindCondition"
  shows "relevant (muted_in cfg) (a_Key a) ss = [] \<or>
    (\<exists>us vs ws. track (muted_in cfg) (a_Key a) (ls @ [(CallEvaluate now ss, ns)]) = us @ vs @ ws \<and>
     vs \<noteq> [] \<and> fst (last vs) = now \<and> all_clear cfg vs \<and> ClearAfter cfg \<le> time_sub now (fst (hd vs)))"
proof (cases "relevant (muted_in cfg) (a_Key a) ss = []")
  case False
  let ?k = "a_Key a" and ?m = "muted_in cfg"
  have n: "Cleared \<in> set (cond_notices ?k ns)" using cond_notices_in assms(4,5) by blast
  from alerts.notice_decide[OF assms(1,2) n False] obtain ys x zs where
    rel: "relevant ?m ?k ss = ys @ x # zs" and
    "Cleared \<in> set (announced (decide cfg now x (hyst_run cfg (track ?m ?k ls @ map (Pair now) ys))))" by blast
  then have dec: "decide cfg now x (hyst_run cfg (track ?m ?k ls @ map (Pair now) ys)) = Resolving"
    by (cases "decide cfg now x (hyst_run cfg (track ?m ?k ls @ map (Pair now) ys))") auto
  have nz: "\<forall>(t, s) \<in> set ((track ?m ?k ls @ map (Pair now) ys) @ [(now, x)]). t \<noteq> 0"
    using assms(3) track_times[of ?m ?k ls] by fastforce
  from resolve_sound[OF nz dec] obtain us vs where clr: "all_clear cfg vs" "vs \<noteq> []"
    "ClearAfter cfg \<le> time_sub now (fst (hd vs))"
    and split: "(track ?m ?k ls @ map (Pair now) ys) @ [(now, x)] = us @ vs" by blast
  from split clr(2) have "last vs = (now, x)" by (metis last_appendR last_snoc)
  moreover from track_evaluate[OF rel, of ls now ns] split
  have "track ?m ?k (ls @ [(CallEvaluate now ss, ns)]) = us @ vs @ map (Pair now) zs"
    by (simp del: track_simps)
  ultimately show ?thesis using clr by (metis fst_conv)
qed simp

section \<open>The life of a condition\<close>

text \<open>
  The notices of one key, read by a machine that knows whether the alert is active: it is
  raised when it was not, changes severity or resolves when it was.
\<close>

fun lifecycle :: "bool \<Rightarrow> Transition list \<Rightarrow> bool option" where
  "lifecycle b [] = Some b"
| "lifecycle False (Raised # ts) = lifecycle True ts"
| "lifecycle True (Escalated # ts) = lifecycle True ts"
| "lifecycle True (Cleared # ts) = lifecycle False ts"
| "lifecycle b (t # ts) = None"

definition all_notices :: "(call \<times> notice list) list \<Rightarrow> notice list" where
  "all_notices ls = concat (map snd ls)"

lemma lifecycle_append:
  "lifecycle b (xs @ ys) = (case lifecycle b xs of None \<Rightarrow> None | Some b' \<Rightarrow> lifecycle b' ys)"
  by (induction b xs rule: lifecycle.induct) auto

lemma lifecycle_step:
  "lifecycle (h_firing h \<noteq> None) (announced (decide cfg now s h)) = Some (h_firing (hyst_step cfg now s h) \<noteq> None)"
  by (auto simp: decide_def hyst_step_def Let_def split: option.splits)

lemma lifecycle_tick_announced:
  "lifecycle (h_firing h \<noteq> None) (tick_announced cfg now xs h) = Some (h_firing (tick_step cfg now xs h) \<noteq> None)"
proof (induction xs arbitrary: h)
  case Nil
  then show ?case by (simp add: tick_step_def)
next
  case (Cons x xs)
  then show ?case
    using lifecycle_step[of h cfg now x] by (simp add: lifecycle_append tick_step_def)
qed

lemma lifecycle_tick: "lifecycle (firing v) (tick_notices cfg now xs v) = Some (firing (tick_view cfg now xs v))"
proof (cases "xs = []")
  case True
  then show ?thesis by (simp add: tick_notices_def tick_view_def firing_def split: option.split)
next
  case False
  have "firing v = (h_firing (view_or_init v) \<noteq> None)"
    by (simp add: firing_def view_or_init_def hyst_init_def split: option.split)
  then show ?thesis
    using False lifecycle_tick_announced[of "view_or_init v" cfg now xs]
    by (simp add: tick_notices_def tick_view_def firing_def)
qed

lemma lifecycle_run:
  assumes "engine_run cfg ls e" "sorted_wrt (<) (tick_times ls)"
  shows "lifecycle False (cond_notices k (all_notices ls)) = Some (firing (cond_view e k))"
  using assms
proof (induction rule: run.induct)
  case run_Nil
  then show ?case using alerts.view_init by (simp add: all_notices_def firing_def)
next
  case (run_snoc ls s l s')
  note inv = alerts.invar_run[OF run_snoc.hyps(1)]
  obtain c ns where l: "l = (c, ns)" by (cases l)
  have IH: "lifecycle False (cond_notices k (all_notices ls)) = Some (firing (cond_view s k))"
    using run_snoc.IH run_snoc.prems by (simp add: sorted_wrt_append)
  have "lifecycle (firing (cond_view s k)) (cond_notices k ns) = Some (firing (cond_view s' k))"
  proof (cases "\<exists>now ss. c = CallEvaluate now ss")
    case True
    then obtain now ss where c: "c = CallEvaluate now ss" by blast
    have st: "engine_step s (CallEvaluate now ss, ns) s'" using run_snoc.hyps(2) l c by simp
    have new: "last_sampled s k \<noteq> Some now"
      using alerts.sampled_before[OF run_snoc.hyps(1)] run_snoc.prems l c by simp
    show ?thesis
      unfolding alerts.evaluate_view[OF inv st new] alerts.evaluate_notices[OF inv st new] by (rule lifecycle_tick)
  next
    case False
    then show ?thesis using alerts.other_calls[OF inv, of c ns s' k] run_snoc.hyps(2) l by auto
  qed
  with IH show ?case by (simp add: all_notices_def l lifecycle_append)
qed

end
