(* ===== verification/Engine_Events.thy ===== *)
theory Engine_Events
  imports Engine_Conditions
begin

text \<open>
  What the engine promises of event alerts: every raise of an unmuted rule is counted in
  exactly one event of its key, repeats inside the dedup window update that event in
  place (the history shares it), and a tick closes exactly the windows that have passed.
\<close>

section \<open>The events in memory\<close>

definition event_at :: "Engine \<Rightarrow> ref \<Rightarrow> Alert option" where
  "event_at e r = (if r < e_nextRef e \<and> a_Kind (alert_at e r) = KindEvent then Some (alert_at e r) else None)"

definition event_key :: "Alert \<Rightarrow> string" where
  "event_key a = (if a_Key a = [] then join_key (a_Rule a) (a_DomainID a) (a_Subject a) else a_Key a)"

definition event_time :: "gtime \<Rightarrow> Alert \<Rightarrow> gtime" where
  "event_time now a = (if is_zero (a_Last a) then now else a_Last a)"

definition event_notices :: "string \<Rightarrow> notice list \<Rightarrow> notice list" where
  "event_notices k ns = filter (\<lambda>(a, t). a_Kind a = KindEvent \<and> a_Key a = k) ns"

text \<open>The number of occurrences the events of a key account for.\<close>

definition tally :: "(ref \<Rightarrow> Alert option) \<Rightarrow> string \<Rightarrow> int" where
  "tally f k = (\<Sum>r | (\<exists>a. f r = Some a \<and> a_Key a = k). a_Count (the (f r)))"

lemma event_notices_simps [simp]:
  "event_notices k [] = []"
  "event_notices k (xs @ ys) = event_notices k xs @ event_notices k ys"
  "event_notices k [(a, t)] = (if a_Kind a = KindEvent \<and> a_Key a = k then [(a, t)] else [])"
  by (simp_all add: event_notices_def)

lemma complete_event_fields:
  "a_Key (complete_event now a) = event_key a" "a_Last (complete_event now a) = event_time now a"
  "a_Value (complete_event now a) = a_Value a"
  by (simp_all add: complete_event_def event_key_def event_time_def Let_def)

lemma event_at_dom: "event_at e r = Some a \<Longrightarrow> r < e_nextRef e"
  by (simp add: event_at_def split: if_splits)

lemma finite_events: "finite {r. \<exists>a. event_at e r = Some a \<and> a_Key a = k}"
  by (rule finite_subset[of _ "{..< e_nextRef e}"]) (auto dest: event_at_dom)

lemma tally_put:
  assumes fin: "finite {r. \<exists>a. f r = Some a \<and> a_Key a = k}" and old: "\<And>b. f r = Some b \<Longrightarrow> a_Key b = a_Key a"
  shows "tally (f(r \<mapsto> a)) k = tally f k +
    (if a_Key a = k then a_Count a - (case f r of None \<Rightarrow> 0 | Some b \<Rightarrow> a_Count b) else 0)"
proof -
  let ?A = "{r. \<exists>a. f r = Some a \<and> a_Key a = k}"
  let ?rest = "\<Sum>x \<in> ?A - {r}. a_Count (the (f x))"
  have old_sum: "tally f k = ?rest + (case f r of None \<Rightarrow> 0 | Some b \<Rightarrow> if a_Key b = k then a_Count b else 0)"
  proof (cases "r \<in> ?A")
    case True
    then show ?thesis using sum.remove[OF fin True, of "\<lambda>x. a_Count (the (f x))"] by (auto simp: tally_def)
  next
    case False
    then show ?thesis by (auto simp: tally_def split: option.split)
  qed
  have set: "{x. \<exists>b. (f(r \<mapsto> a)) x = Some b \<and> a_Key b = k} = (?A - {r}) \<union> (if a_Key a = k then {r} else {})"
    by auto
  have rest: "(\<Sum>x \<in> ?A - {r}. a_Count (the ((f(r \<mapsto> a)) x))) = ?rest" by (rule sum.cong) auto
  have new_sum: "tally (f(r \<mapsto> a)) k = ?rest + (if a_Key a = k then a_Count a else 0)"
    unfolding tally_def set using fin rest by (simp add: sum.union_disjoint)
  show ?thesis using old_sum new_sum old by (auto split: option.splits)
qed

section \<open>A tick leaves events alone\<close>

lemma event_at_conds_frame [simp]: "event_at (e\<lparr>e_conds := C\<rparr>) = event_at e"
  by (simp add: event_at_def fun_eq_iff)

lemma event_at_events_frame [simp]: "event_at (e\<lparr>e_events := E\<rparr>) = event_at e"
  by (simp add: event_at_def fun_eq_iff)

lemma event_at_pushHistory [simp]: "event_at (pushHistory r e) = event_at e"
  by (simp add: event_at_def fun_eq_iff)

lemma event_at_set_cond:
  "a_Kind (alert_at e r) = KindCondition \<Longrightarrow> a_Kind a = KindCondition \<Longrightarrow> event_at (set_alert r a e) = event_at e"
  by (auto simp: event_at_def fun_eq_iff)

lemma event_at_alloc_cond: "a_Kind a = KindCondition \<Longrightarrow> event_at (alloc a e) = event_at e"
  by (auto simp: event_at_def fun_eq_iff)

lemma step_events:
  assumes "step st s k now e = (e', st', n)" and ok: "\<And>r. c_alert st = Some r \<Longrightarrow> cond_ok e k r"
  shows "event_at e' = event_at e"
proof -
  let ?d = "decide (e_cfg e) now s (hyst_of e st)"
  have perf: "perform ?d st s k now e = (e', st', n)" using assms(1) by (simp add: step_decide)
  have r: "a_Kind (alert_at e (the (c_alert st))) = KindCondition" if "h_firing (hyst_of e st) \<noteq> None"
    using that ok by (auto simp: hyst_of_def cond_ok_def)
  show ?thesis
    using perf r decide_firing[of "e_cfg e" now s "hyst_of e st"]
    by (auto simp: perform_def Let_def new_condition_def reworded_def refreshed_def closed_def
        event_at_set_cond event_at_alloc_cond split: outcome.splits)
qed

definition same_events :: "Engine \<times> notice list \<Rightarrow> Engine \<times> notice list \<Rightarrow> bool" where
  "same_events x y \<longleftrightarrow> event_at (fst y) = event_at (fst x) \<and> e_events (fst y) = e_events (fst x) \<and>
     e_cfg (fst y) = e_cfg (fst x) \<and> (\<forall>k. event_notices k (snd y) = event_notices k (snd x))"

lemma same_events_refl [simp]: "same_events x x"
  by (simp add: same_events_def)

lemma same_events_trans: "same_events x y \<Longrightarrow> same_events y z \<Longrightarrow> same_events x z"
  by (simp add: same_events_def)

lemma eval_sample_events:
  assumes inv: "engine_inv e" and res: "eval_sample now (e, ns) s = (e2, ns2)"
  shows "same_events (e, ns) (e2, ns2)"
proof (cases "is_muted e (s_Rule s)")
  case True
  then show ?thesis using res by (simp add: eval_sample_muted)
next
  case False
  let ?k = "sample_key s"
  obtain e' st' n where st: "step (entry e ?k now) s ?k now e = (e', st', n)" by (metis prod_cases3)
  have e2: "e2 = e'\<lparr>e_conds := AList.update ?k st' (e_conds e)\<rparr>"
    and ns2: "ns2 = ns @ (case n of None \<Rightarrow> [] | Some n \<Rightarrow> [n])"
    using res eval_sample_unmuted[OF False st] by auto
  have "a_Kind a = KindCondition" if "n = Some (a, t)" for a t
    using step_notice(2)[OF st entry_ok[OF inv] that] by simp
  then have "event_notices k ns2 = event_notices k ns" for k
    by (cases n) (auto simp: ns2)
  then show ?thesis
    using step_events[OF st entry_ok[OF inv]] step_frame[OF st] by (simp add: same_events_def e2)
qed

lemma sweep_cond_events:
  assumes inv: "engine_inv e" and res: "sweep_cond now (e, ns) j = (e2, ns2)"
  shows "same_events (e, ns) (e2, ns2)"
proof (cases "stale e now j")
  case False
  then show ?thesis using res by (simp add: sweep_cond_fresh)
next
  case True
  then obtain st where st: "map_of (e_conds e) j = Some st" "c_lastSampled st \<noteq> now"
    by (auto simp: stale_def last_sampled_def)
  show ?thesis
  proof (cases "c_alert st")
    case None
    then show ?thesis using res sweep_cond_stale[OF st] by (auto simp: same_events_def without_def)
  next
    case (Some r)
    have "a_Kind (alert_at e r) = KindCondition" using cond_alert_ok[OF inv st(1) Some] by (simp add: cond_ok_def)
    moreover have "e2 = without j (fst (resolve st r now e))" "ns2 = ns @ [(closed now (alert_at e r), Cleared)]"
      using res sweep_cond_stale[OF st] Some by auto
    ultimately show ?thesis
      by (simp add: same_events_def without_def resolve_eq closed_def event_at_set_cond)
  qed
qed

lemma eval_samples_events:
  "engine_inv e \<Longrightarrow> foldl (eval_sample now) (e, ns) ss = (e2, ns2) \<Longrightarrow> same_events (e, ns) (e2, ns2)"
proof (induction ss arbitrary: e ns)
  case Nil
  then show ?case by simp
next
  case (Cons s ss)
  obtain e1 ns1 where one: "eval_sample now (e, ns) s = (e1, ns1)" by (cases "eval_sample now (e, ns) s")
  then have "foldl (eval_sample now) (e, ns) [s] = (e1, ns1)" by simp
  from eval_samples_effect[OF Cons.prems(1) this] have "engine_inv e1" by blast
  with Cons.IH[of e1 ns1] Cons.prems(2) one eval_sample_events[OF Cons.prems(1) one] show ?case
    using same_events_trans[of "(e, ns)" "(e1, ns1)"] by simp
qed

lemma sweep_events:
  "engine_inv e \<Longrightarrow> foldl (sweep_cond now) (e, ns) js = (e2, ns2) \<Longrightarrow> same_events (e, ns) (e2, ns2)"
proof (induction js arbitrary: e ns)
  case Nil
  then show ?case by simp
next
  case (Cons j js)
  obtain e1 ns1 where one: "sweep_cond now (e, ns) j = (e1, ns1)" by (cases "sweep_cond now (e, ns) j")
  from sweep_cond_effect[OF Cons.prems(1) one] have "engine_inv e1" by blast
  with Cons.IH[of e1 ns1] Cons.prems(2) one sweep_cond_events[OF Cons.prems(1) one] show ?case
    using same_events_trans[of "(e, ns)" "(e1, ns1)"] by simp
qed

section \<open>Closing the windows\<close>

definition expired :: "Engine \<Rightarrow> gtime \<Rightarrow> string \<Rightarrow> bool" where
  "expired e now k \<longleftrightarrow>
     (\<exists>r. map_of (e_events e) k = Some r \<and> Dedup (e_cfg e) \<le> time_sub now (a_Last (alert_at e r)))"

definition summary :: "Engine \<Rightarrow> gtime \<Rightarrow> string \<Rightarrow> notice list" where
  "summary e now k =
     (case map_of (e_events e) k of
        None \<Rightarrow> []
      | Some r \<Rightarrow>
          if Dedup (e_cfg e) \<le> time_sub now (a_Last (alert_at e r)) \<and> 1 < a_Count (alert_at e r)
          then [(alert_at e r, Summarized)] else [])"

lemma event_alert_ok: "engine_inv e \<Longrightarrow> map_of (e_events e) k = Some r \<Longrightarrow> event_ok e k r"
  by (simp add: engine_inv_def events_ok_def)

lemma expire_event_events:
  assumes inv: "engine_inv e" and res: "expire_event now (e, ns) j = (e2, ns2)"
  shows "alert_at e2 = alert_at e \<and> e_cfg e2 = e_cfg e \<and> event_at e2 = event_at e \<and>
    map_of (e_events e2) k = (if k = j \<and> expired e now j then None else map_of (e_events e) k) \<and>
    event_notices k ns2 = event_notices k ns @ (if k = j then summary e now j else [])"
proof (cases "map_of (e_events e) j")
  case None
  then show ?thesis using res by (auto simp: expire_event_def expired_def summary_def)
next
  case (Some r)
  then have "a_Kind (alert_at e r) = KindEvent" "a_Key (alert_at e r) = j"
    using event_alert_ok[OF inv] by (auto simp: event_ok_def)
  then show ?thesis
    using res Some
    by (auto simp: expire_event_def expired_def summary_def Let_def map_of_delete split: if_splits)
qed

lemma expire_events:
  assumes "engine_inv e" "distinct js" "foldl (expire_event now) (e, ns) js = (e2, ns2)"
  shows "alert_at e2 = alert_at e \<and> event_at e2 = event_at e \<and>
    map_of (e_events e2) k = (if k \<in> set js \<and> expired e now k then None else map_of (e_events e) k) \<and>
    event_notices k ns2 = event_notices k ns @ (if k \<in> set js then summary e now k else [])"
  using assms
proof (induction js arbitrary: e ns)
  case Nil
  then show ?case by simp
next
  case (Cons j js)
  obtain e1 ns1 where one: "expire_event now (e, ns) j = (e1, ns1)" by (cases "expire_event now (e, ns) j")
  note eff = expire_event_events[OF Cons.prems(1) one]
  have inv1: "engine_inv e1" using expire_event_effect[OF Cons.prems(1) one] by blast
  have "foldl (expire_event now) (e1, ns1) js = (e2, ns2)" using Cons.prems(3) one by simp
  note IH = Cons.IH[OF inv1 _ this]
  show ?case
  proof (cases "k = j")
    case True
    then show ?thesis using IH eff[of k] Cons.prems(2) by simp
  next
    case False
    then have "expired e1 now k = expired e now k" "summary e1 now k = summary e now k"
      using eff[of k] False by (auto simp: expired_def summary_def split: option.split)
    then show ?thesis using IH eff[of k] Cons.prems(2) False by simp
  qed
qed

lemma same_events_alerts:
  assumes "engine_inv e" "same_events (e, ns) (e1, ns1)" "map_of (e_events e) k = Some r"
  shows "alert_at e1 r = alert_at e r"
proof -
  have "event_at e r = Some (alert_at e r)"
    using event_alert_ok[OF assms(1,3)] by (simp add: event_at_def event_ok_def)
  then have "event_at e1 r = Some (alert_at e r)" using assms(2) by (simp add: same_events_def)
  then show ?thesis by (simp add: event_at_def split: if_splits)
qed

lemma eval_tick_events:
  assumes inv: "engine_inv e" and ord: "is_order ordc" "is_order orde"
    and res: "eval_tick ordc orde now ss e = (e2, ns)"
  shows "event_at e2 = event_at e" "map_of (e_events e2) k = (if expired e now k then None else map_of (e_events e) k)"
    "event_notices k ns = summary e now k"
proof -
  obtain e1 ns1 where 1: "foldl (eval_sample now) (e, []) ss = (e1, ns1)"
    by (cases "foldl (eval_sample now) (e, []) ss")
  let ?js = "ordc (mkeys (e_conds e1))"
  obtain e' ns' where 2: "foldl (sweep_cond now) (e1, ns1) ?js = (e', ns')"
    by (cases "foldl (sweep_cond now) (e1, ns1) ?js")
  let ?ks = "orde (mkeys (e_events e'))"
  obtain ms where 3: "foldl (expire_event now) (e', []) ?ks = (e2, ms)" and ns: "ns = ns' @ ms"
    using res 1 2 by (auto simp: eval_tick_def expireEvents_def split: prod.splits)
  have inv1: "engine_inv e1" using eval_samples_effect[OF inv 1] by blast
  have "distinct ?js"
    using inv1 is_order_distinct[OF ord(1)] by (simp add: distinct_mkeys engine_inv_def conds_ok_def)
  then have inv2: "engine_inv e'" using sweep_effect[OF inv1 _ 2] by blast
  have same: "same_events (e, []) (e', ns')"
    using same_events_trans[OF eval_samples_events[OF inv 1] sweep_events[OF inv1 2]] .
  then have eq: "expired e' now k = expired e now k" "summary e' now k = summary e now k"
    using same_events_alerts[OF inv same]
    by (auto simp: same_events_def expired_def summary_def split: option.split)
  have "distinct ?ks"
    using inv2 is_order_distinct[OF ord(2)] by (simp add: distinct_mkeys engine_inv_def events_ok_def)
  note ex = expire_events[OF inv2 this 3, of k]
  have ks: "k \<notin> set ?ks \<Longrightarrow> \<not> expired e now k \<and> summary e now k = []"
    using same in_mkeys_iff[of k "e_events e'"] is_order_set[OF ord(2), of "mkeys (e_events e')"]
    by (auto simp: same_events_def expired_def summary_def)
  show "event_at e2 = event_at e" "map_of (e_events e2) k = (if expired e now k then None else map_of (e_events e) k)"
    "event_notices k ns = summary e now k"
    using ex same eq ks by (auto simp: same_events_def ns)
qed

section \<open>Raising\<close>

definition repeats :: "Engine \<Rightarrow> gtime \<Rightarrow> Alert \<Rightarrow> bool" where
  "repeats e now a \<longleftrightarrow> (\<exists>r. map_of (e_events e) (event_key a) = Some r \<and>
     time_sub (event_time now a) (a_Last (alert_at e r)) < Dedup (e_cfg e))"

lemma event_at_alloc_event:
  "a_Kind a = KindEvent \<Longrightarrow> event_at (alloc a e) = (event_at e)(e_nextRef e \<mapsto> a)"
  by (auto simp: event_at_def fun_eq_iff)

lemma raise_event_cases:
  assumes "\<not> is_muted e (a_Rule a)"
  shows "raise_event now a e =
    (if repeats e now a then repeat_event (the (map_of (e_events e) (event_key a))) (complete_event now a) e
     else new_event (complete_event now a) e)"
  using assms by (auto simp: raise_event_def Let_def repeats_def complete_event_fields split: option.split)

lemma raise_event_at:
  assumes inv: "engine_inv e" and unmuted: "\<not> is_muted e (a_Rule a)" and res: "raise_event now a e = (e2, ns)"
  obtains r b t where "event_at e2 = (event_at e)(r \<mapsto> b)" "ns = [(b, t)]" "a_Key b = event_key a" "a_Kind b = KindEvent"
    "if repeats e now a
     then t = Repeated \<and> map_of (e_events e) (event_key a) = Some r \<and> event_at e r \<noteq> None \<and>
          a_Count b = a_Count (the (event_at e r)) + 1
     else t = Raised \<and> event_at e r = None \<and> a_Count b = 1"
proof (cases "repeats e now a")
  case True
  then obtain r where r: "map_of (e_events e) (event_key a) = Some r" by (auto simp: repeats_def)
  let ?a = "complete_event now a" and ?old = "alert_at e r"
  let ?b = "?old\<lparr>a_Count := a_Count ?old + 1, a_Last := a_Last ?a, a_Message := a_Message ?a, a_Value := a_Value ?a,
    a_Severity := (if a_Severity ?old < a_Severity ?a then a_Severity ?a else a_Severity ?old)\<rparr>"
  have "e2 = set_alert r ?b e" "ns = [(?b, Repeated)]"
    using res raise_event_cases[OF unmuted, of now] True r by (simp_all add: repeat_event_def Let_def)
  moreover have ok: "r < e_nextRef e" "a_Kind ?old = KindEvent" "a_Key ?old = event_key a"
    using event_alert_ok[OF inv r] by (simp_all add: event_ok_def)
  moreover from this have "event_at (set_alert r ?b e) = (event_at e)(r \<mapsto> ?b)"
    by (auto simp: event_at_def fun_eq_iff)
  moreover from ok have "event_at e r = Some ?old" by (simp add: event_at_def)
  ultimately show thesis using True r by (intro that[of r ?b Repeated]) simp_all
next
  case False
  let ?b = "fresh_event (complete_event now a) e"
  have "event_at e2 = (event_at e)(e_nextRef e \<mapsto> ?b)" "ns = [(?b, Raised)]"
    using res raise_event_cases[OF unmuted, of now] False
    by (auto simp: new_event_eq Let_def event_at_alloc_event fresh_event_def)
  moreover have "event_at e (e_nextRef e) = None" by (simp add: event_at_def)
  ultimately show thesis
    using False by (intro that[of "e_nextRef e" ?b Raised]) (simp_all add: fresh_event_def complete_event_fields)
qed

lemma event_at_key: "engine_inv e \<Longrightarrow> map_of (e_events e) k = Some r \<Longrightarrow> event_at e r = Some b \<Longrightarrow> a_Key b = k"
  using event_alert_ok[of e k r] by (auto simp: event_at_def event_ok_def split: if_splits)

lemma tally_raise:
  assumes inv: "engine_inv e" and unmuted: "\<not> is_muted e (a_Rule a)" and res: "raise_event now a e = (e2, ns)"
  shows "tally (event_at e2) k = tally (event_at e) k + (if event_key a = k then 1 else 0)"
proof -
  obtain r b t where b: "event_at e2 = (event_at e)(r \<mapsto> b)" "a_Key b = event_key a"
    and c: "if repeats e now a
     then t = Repeated \<and> map_of (e_events e) (event_key a) = Some r \<and> event_at e r \<noteq> None \<and>
          a_Count b = a_Count (the (event_at e r)) + 1
     else t = Raised \<and> event_at e r = None \<and> a_Count b = 1"
    using raise_event_at[OF assms] by metis
  have "a_Key x = a_Key b" if "event_at e r = Some x" for x
    using c that event_at_key[OF inv] b(2) by (auto split: if_splits)
  from tally_put[where k = k, OF finite_events this] show ?thesis
    using b c by (auto split: if_splits)
qed

fun counts_raise :: "Alerts \<Rightarrow> string \<Rightarrow> call \<times> notice list \<Rightarrow> bool" where
  "counts_raise cfg k (CallRaise now a, ns) \<longleftrightarrow> event_key a = k \<and> \<not> muted_in cfg (a_Rule a)"
| "counts_raise cfg k _ \<longleftrightarrow> False"

lemma event_at_Subscribe [simp]: "event_at (Subscribe fn e) = event_at e"
  by (simp add: event_at_def Subscribe_def fun_eq_iff)

lemma event_at_NewEngine [simp]: "event_at (NewEngine cfg) = Map.empty"
  by (simp add: event_at_def NewEngine_def fun_eq_iff)

lemma tally_step:
  assumes inv: "tracker_inv cfg e" and st: "engine_step e l e'"
  shows "tally (event_at e') k = tally (event_at e) k + (if counts_raise cfg k l then 1 else 0)"
  using st
proof (cases rule: engine_step.cases)
  case (step_raise now a ns)
  have e: "engine_inv e" using inv by (simp add: tracker_inv_def)
  show ?thesis
  proof (cases "is_muted e (a_Rule a)")
    case True
    then show ?thesis using step_raise tracker_muted[OF inv] by (simp add: raise_event_def)
  next
    case False
    then show ?thesis using tally_raise[OF e False step_raise(2), of k] step_raise(1) tracker_muted[OF inv] by simp
  qed
next
  case (step_evaluate ordc orde now ss ns)
  have e: "engine_inv e" using inv by (simp add: tracker_inv_def)
  show ?thesis using eval_tick_events(1)[OF e step_evaluate(2-4)] step_evaluate(1) by simp
next
  case (step_subscribe fn)
  then show ?thesis by simp
qed

lemma tally_run:
  "engine_run cfg ls e \<Longrightarrow> tally (event_at e) k = int (length (filter (counts_raise cfg k) ls))"
proof (induction rule: run.induct)
  case run_Nil
  then show ?case by (simp add: tally_def)
next
  case (run_snoc ls s l s')
  from tally_step[OF alerts.invar_run[OF run_snoc.hyps(1)] run_snoc.hyps(2), of k] run_snoc.IH
  show ?case by simp
qed

end
