(* ===== verification/Alert_Properties.thy ===== *)
theory Alert_Properties
  imports Engine_Events
begin

text \<open>
  The theorems of the alert engine, stated of its executions, with a concrete execution
  for each.
\<close>

section \<open>Executions that can be computed\<close>

fun exec_call :: "Engine \<Rightarrow> call \<Rightarrow> Engine \<times> notice list" where
  "exec_call e (CallRaise now a) = raise_event now a e"
| "exec_call e (CallEvaluate now ss) = eval_tick (\<lambda>ks. ks) (\<lambda>ks. ks) now ss e"
| "exec_call e (CallSubscribe fn) = (Subscribe fn e, [])"

definition exec_step :: "Engine \<times> (call \<times> notice list) list \<Rightarrow> call \<Rightarrow> Engine \<times> (call \<times> notice list) list" where
  "exec_step x c = (let (e, ls) = x; (e', ns) = exec_call e c in (e', ls @ [(c, ns)]))"

definition exec_calls :: "Alerts \<Rightarrow> call list \<Rightarrow> Engine \<times> (call \<times> notice list) list" where
  "exec_calls cfg cs = foldl exec_step (NewEngine cfg, []) cs"

lemma exec_call_step: "exec_call e c = (e', ns) \<Longrightarrow> engine_step e (c, ns) e'"
  by (cases c) (auto intro: step_evaluate[of "\<lambda>ks. ks" "\<lambda>ks. ks"] step_raise intro!: step_subscribe)

lemma engine_run_exec: "engine_run cfg (snd (exec_calls cfg cs)) (fst (exec_calls cfg cs))"
proof (induction cs rule: rev_induct)
  case Nil
  then show ?case by (simp add: exec_calls_def run_Nil)
next
  case (snoc c cs)
  obtain e ls where x: "exec_calls cfg cs = (e, ls)" by (cases "exec_calls cfg cs")
  obtain e' ns where c: "exec_call e c = (e', ns)" by (cases "exec_call e c")
  have "exec_calls cfg (cs @ [c]) = (e', ls @ [(c, ns)])"
    using x c by (simp add: exec_calls_def exec_step_def)
  then show ?case using snoc x by (auto intro: run_snoc exec_call_step[OF c])
qed

text \<open>The sample, the alert and the calls of the examples.\<close>

definition ex_sample :: "float64 \<Rightarrow> Sample" where
  "ex_sample v = \<lparr>s_Rule = ''runq-latency'', s_Category = CatSched, s_DomainID = ''d1'', s_DomainName = ''vm1'',
     s_Subject = [], s_Value = v, s_Level = level 5000 20000, s_LowerWorse = False, s_Format = (\<lambda>_. ''late'')\<rparr>"

definition ex_event :: "gtime \<Rightarrow> Alert" where
  "ex_event t = \<lparr>a_ID = 0, a_Key = [], a_Rule = ''oom-kill'', a_Kind = KindUnset, a_Severity = Critical,
     a_Category = CatMemory, a_DomainID = ''d1'', a_DomainName = ''vm1'', a_Subject = [], a_Message = ''killed'',
     a_Value = 0, a_Source = ''kmsg'', a_First = 0, a_Last = t, a_Count = 0, a_Active = False, a_Resolved = 0\<rparr>"

definition ex_key :: string where
  "ex_key = ''runq-latency|d1|''"

definition ex_tick :: "int \<Rightarrow> float64 \<Rightarrow> call" where
  "ex_tick t v = CallEvaluate (t * second) [ex_sample v]"

section \<open>Conditions\<close>

text \<open>
  C1: a condition alert is announced as raised only if the samples of its key ended, at
  the tick that announces it, with a run of samples that all had the same severity and
  that began at least \<open>RaiseAfter\<close> earlier.
\<close>

theorem condition_raised_after_hold:
  assumes "engine_run cfg (ls @ [(CallEvaluate now ss, ns)]) e" "sorted_wrt (<) (tick_times ls @ [now])"
    and "(a, Raised) \<in> set ns" "a_Kind a = KindCondition"
  shows "\<exists>us vs ws sev. track (muted_in cfg) (a_Key a) (ls @ [(CallEvaluate now ss, ns)]) = us @ vs @ ws \<and>
    vs \<noteq> [] \<and> fst (last vs) = now \<and> sev \<noteq> Info \<and> all_sev sev vs \<and> RaiseAfter cfg \<le> time_sub now (fst (hd vs))"
  using assms by (rule raised_notice)

abbreviation ex_run :: "call list \<Rightarrow> (call \<times> notice list) list" where
  "ex_run cs \<equiv> snd (exec_calls DefaultAlerts cs)"

abbreviation ex_state :: "call list \<Rightarrow> Engine" where
  "ex_state cs \<equiv> fst (exec_calls DefaultAlerts cs)"

abbreviation ex_notices :: "call list \<Rightarrow> call \<Rightarrow> notice list" where
  "ex_notices cs c \<equiv> snd (exec_call (ex_state cs) c)"

lemma exec_calls_snoc:
  "engine_run cfg (snd (exec_calls cfg cs) @ [(c, snd (exec_call (fst (exec_calls cfg cs)) c))])
     (fst (exec_call (fst (exec_calls cfg cs)) c))"
  by (rule run_snoc[OF engine_run_exec exec_call_step]) simp

definition ex_rising :: "call list" where
  "ex_rising = [ex_tick 1 6000, ex_tick 2 7000]"

theorem condition_raised_after_hold_witness:
  "\<exists>us vs ws sev. track (muted_in DefaultAlerts) ex_key
     (ex_run ex_rising @ [(ex_tick 4 8000, ex_notices ex_rising (ex_tick 4 8000))]) = us @ vs @ ws \<and>
   vs \<noteq> [] \<and> fst (last vs) = 4 * second \<and> sev \<noteq> Info \<and> all_sev sev vs \<and>
   RaiseAfter DefaultAlerts \<le> time_sub (4 * second) (fst (hd vs))"
proof -
  let ?ns = "ex_notices ex_rising (ex_tick 4 8000)"
  have "\<exists>(a, t) \<in> set ?ns. t = Raised \<and> a_Kind a = KindCondition \<and> a_Key a = ex_key" by code_simp
  then obtain a where a: "(a, Raised) \<in> set ?ns" "a_Kind a = KindCondition" "a_Key a = ex_key" by auto
  have times: "sorted_wrt (<) (tick_times (ex_run ex_rising) @ [4 * second])" by code_simp
  show ?thesis
    using condition_raised_after_hold[OF exec_calls_snoc[of DefaultAlerts ex_rising "ex_tick 4 8000", unfolded ex_tick_def]
        times a(1)[unfolded ex_tick_def] a(2)]
    unfolding a(3) ex_tick_def .
qed

text \<open>
  C2: once every sample of a key has had the same severity for \<open>RaiseAfter\<close>, the alert
  of that key is active with that severity, whatever happened before, if the level of the
  last sample is ordered, the clear ratio is in its range and the history is not empty.
\<close>

theorem condition_active_after_hold:
  assumes run: "engine_run cfg ls e" and times: "sorted_wrt (<) (tick_times ls)" and ord: "is_order ord"
    and cfg: "alerts_ok cfg" and hist: "track (muted_in cfg) k ls = us @ vs @ [(now, s)]"
    and sev: "all_sev sev (vs @ [(now, s)])" "sev \<noteq> Info"
    and held: "RaiseAfter cfg \<le> time_sub now (fst (hd (vs @ [(now, s)])))"
    and lvl: "level_ordered (s_LowerWorse s) (s_Level s)"
  shows "\<exists>a \<in> set (Active ord e). a_Key a = k \<and> a_Severity a = sev"
proof -
  have "sorted (map fst ((us @ vs) @ [(now, s)]))"
    using track_sorted[of ls "muted_in cfg" k] times hist strict_sorted_imp_sorted by fastforce
  from raise_complete[OF _ _ sev held this lvl, of us] cfg
  have "h_firing (hyst_run cfg (track (muted_in cfg) k ls)) = Some sev"
    by (simp add: hist alerts_ok_def)
  then show ?thesis using firing_in_track[OF run times ord, of k "\<lambda>x. x = sev"] by auto
qed

theorem condition_active_after_hold_witness:
  "\<exists>a \<in> set (Active rev (ex_state (ex_rising @ [ex_tick 4 8000]))). a_Key a = ex_key \<and> a_Severity a = Warning"
proof -
  let ?vs = "[(second, ex_sample 6000), (2 * second, ex_sample 7000)]"
  have hist: "track (muted_in DefaultAlerts) ex_key (ex_run (ex_rising @ [ex_tick 4 8000])) =
      [] @ ?vs @ [(4 * second, ex_sample 8000)]"
    by (simp add: exec_calls_def exec_step_def ex_rising_def ex_tick_def split_beta relevant_def track_def
        ex_sample_def sample_key_def join_key_def ex_key_def muted_in_def DefaultAlerts_def)
  have times: "sorted_wrt (<) (tick_times (ex_run (ex_rising @ [ex_tick 4 8000])))" by code_simp
  have sev: "all_sev Warning (?vs @ [(4 * second, ex_sample 8000)])"
    by (simp add: all_sev_def sample_sev_def severity_def over_def ex_sample_def level_def)
  have held: "RaiseAfter DefaultAlerts \<le> time_sub (4 * second) (fst (hd (?vs @ [(4 * second, ex_sample 8000)])))"
    by (simp add: DefaultAlerts_def time_sub_def second_def min_duration_def max_duration_def)
  have lvl: "level_ordered (s_LowerWorse (ex_sample 8000)) (s_Level (ex_sample 8000))"
    by (simp add: ex_sample_def level_ordered_def level_def)
  have cfg: "alerts_ok DefaultAlerts" by (simp add: alerts_ok_def DefaultAlerts_def)
  show ?thesis
    by (rule condition_active_after_hold[OF engine_run_exec times is_order_rev cfg hist sev _ held lvl]) simp
qed

text \<open>
  C3: a condition alert is announced as resolved only if its key was not sampled at that
  tick, or its samples ended with a run under the clear level that began at least
  \<open>ClearAfter\<close> earlier.
\<close>

theorem condition_resolved_after_clear:
  assumes "engine_run cfg (ls @ [(CallEvaluate now ss, ns)]) e" "sorted_wrt (<) (tick_times ls @ [now])"
    and "\<forall>t \<in> set (tick_times ls @ [now]). t \<noteq> 0"
    and "(a, Cleared) \<in> set ns" "a_Kind a = KindCondition"
  shows "relevant (muted_in cfg) (a_Key a) ss = [] \<or>
    (\<exists>us vs ws. track (muted_in cfg) (a_Key a) (ls @ [(CallEvaluate now ss, ns)]) = us @ vs @ ws \<and>
     vs \<noteq> [] \<and> fst (last vs) = now \<and> all_clear cfg vs \<and> ClearAfter cfg \<le> time_sub now (fst (hd vs)))"
  using assms by (rule cleared_notice)

definition ex_falling :: "call list" where
  "ex_falling = ex_rising @ [ex_tick 4 8000, ex_tick 5 100, ex_tick 9 4500, ex_tick 10 100]"

theorem condition_resolved_after_clear_witness:
  "\<exists>us vs ws. track (muted_in DefaultAlerts) ex_key
     (ex_run ex_falling @ [(ex_tick 20 50, ex_notices ex_falling (ex_tick 20 50))]) = us @ vs @ ws \<and>
   vs \<noteq> [] \<and> fst (last vs) = 20 * second \<and> all_clear DefaultAlerts vs \<and>
   ClearAfter DefaultAlerts \<le> time_sub (20 * second) (fst (hd vs))"
proof -
  let ?ns = "ex_notices ex_falling (ex_tick 20 50)"
  have "\<exists>(a, t) \<in> set ?ns. t = Cleared \<and> a_Kind a = KindCondition \<and> a_Key a = ex_key" by code_simp
  then obtain a where a: "(a, Cleared) \<in> set ?ns" "a_Kind a = KindCondition" "a_Key a = ex_key" by auto
  have times: "sorted_wrt (<) (tick_times (ex_run ex_falling) @ [20 * second])" by code_simp
  have nz: "\<forall>t \<in> set (tick_times (ex_run ex_falling) @ [20 * second]). t \<noteq> 0" by code_simp
  have rel: "relevant (muted_in DefaultAlerts) ex_key [ex_sample 50] \<noteq> []"
    by (simp add: relevant_def ex_sample_def sample_key_def join_key_def ex_key_def muted_in_def DefaultAlerts_def)
  show ?thesis
    using condition_resolved_after_clear[OF exec_calls_snoc[of DefaultAlerts ex_falling "ex_tick 20 50", unfolded ex_tick_def]
        times nz a(1)[unfolded ex_tick_def] a(2)] rel
    unfolding a(3) ex_tick_def by blast
qed

text \<open>
  C4: a key whose samples have been under the clear level for \<open>ClearAfter\<close> has no active
  alert, if the levels of those samples are ordered, the clear ratio is in its range and the
  history is not empty: it was resolved and has not been raised again.
\<close>

theorem condition_inactive_after_clear:
  assumes run: "engine_run cfg ls e" and times: "sorted_wrt (<) (tick_times ls)" "\<forall>t \<in> set (tick_times ls). t \<noteq> 0"
    and ord: "is_order ord" and cfg: "alerts_ok cfg"
    and hist: "track (muted_in cfg) k ls = us @ vs" "vs \<noteq> []"
    and clr: "all_clear cfg vs" "all_ordered vs" "ClearAfter cfg \<le> time_sub (fst (last vs)) (fst (hd vs))"
  shows "\<not> (\<exists>a \<in> set (Active ord e). a_Key a = k)"
proof -
  have "sorted (map fst (us @ vs))"
    using track_sorted[of ls "muted_in cfg" k] times(1) hist(1) strict_sorted_imp_sorted by fastforce
  moreover have "\<forall>(t, s) \<in> set (us @ vs). t \<noteq> 0"
    using track_times[of "muted_in cfg" k ls] times(2) unfolding hist(1) by fastforce
  ultimately have "h_firing (hyst_run cfg (us @ vs)) = None"
    using cfg clr hist(2) by (intro resolve_complete) (auto simp: alerts_ok_def)
  then show ?thesis using firing_in_track[OF run times(1) ord, of k "\<lambda>_. True"] hist(1) by simp
qed

theorem condition_inactive_after_clear_witness:
  "\<not> (\<exists>a \<in> set (Active rev (ex_state (ex_falling @ [ex_tick 20 50]))). a_Key a = ex_key)"
proof -
  let ?us = "[(second, ex_sample 6000), (2 * second, ex_sample 7000), (4 * second, ex_sample 8000),
    (5 * second, ex_sample 100), (9 * second, ex_sample 4500)]"
  let ?vs = "[(10 * second, ex_sample 100), (20 * second, ex_sample 50)]"
  have hist: "track (muted_in DefaultAlerts) ex_key (ex_run (ex_falling @ [ex_tick 20 50])) = ?us @ ?vs"
    by (simp add: exec_calls_def exec_step_def ex_falling_def ex_rising_def ex_tick_def split_beta relevant_def
        track_def ex_sample_def sample_key_def join_key_def ex_key_def muted_in_def DefaultAlerts_def)
  have times: "sorted_wrt (<) (tick_times (ex_run (ex_falling @ [ex_tick 20 50])))" by code_simp
  have nz: "\<forall>t \<in> set (tick_times (ex_run (ex_falling @ [ex_tick 20 50]))). t \<noteq> 0" by code_simp
  have clr: "all_clear DefaultAlerts ?vs" "all_ordered ?vs"
    by (simp_all add: all_clear_def all_ordered_def clear_def ex_sample_def level_def level_ordered_def DefaultAlerts_def)
  have held: "ClearAfter DefaultAlerts \<le> time_sub (fst (last ?vs)) (fst (hd ?vs))"
    by (simp add: DefaultAlerts_def time_sub_def second_def min_duration_def max_duration_def)
  have cfg: "alerts_ok DefaultAlerts" by (simp add: alerts_ok_def DefaultAlerts_def)
  show ?thesis
    by (rule condition_inactive_after_clear[OF engine_run_exec times nz is_order_rev cfg hist _ clr held]) simp
qed

text \<open>
  A key that is not sampled at a tick, or only by muted rules, has no state and no
  active alert after it, and it is announced as resolved exactly if it was active before.
\<close>

lemma condition_gone_when_unsampled:
  assumes run: "engine_run cfg ls e" and st: "engine_step e (CallEvaluate now ss, ns) e'"
    and times: "sorted_wrt (<) (tick_times ls @ [now])" and ord: "is_order ord"
    and gone: "\<forall>s \<in> set ss. sample_key s = k \<longrightarrow> s_Rule s \<in> set (Mute cfg)"
  shows "map_of (e_conds e') k = None \<and> \<not> (\<exists>a \<in> set (Active ord e'). a_Key a = k) \<and>
    cond_notices k ns = (if \<exists>a \<in> set (Active ord e). a_Key a = k then [Cleared] else [])"
proof -
  have rel: "relevant (muted_in cfg) k ss = []" using gone by (auto simp: relevant_def muted_in_def filter_empty_conv)
  note inv = alerts.invar_run[OF run] and new = alerts.sampled_before[OF run times, of k]
  have e: "engine_inv e" "engine_inv e'"
    using inv tracker_inv_step[OF inv st] by (simp_all add: tracker_inv_def)
  have v: "cond_view e' k = None" using alerts.evaluate_view[OF inv st new] rel by (simp add: tick_view_def)
  have n: "cond_notices k ns = (if firing (cond_view e k) then [Cleared] else [])"
    using alerts.evaluate_notices[OF inv st new] rel by (simp add: tick_notices_def)
  have "firing (cond_view e k) \<longleftrightarrow> (\<exists>a \<in> set (Active ord e). a_Key a = k)"
    using Active_view[OF e(1) ord, of k "\<lambda>_. True"] by (auto simp: firing_def split: option.splits)
  moreover have "\<not> (\<exists>a \<in> set (Active ord e'). a_Key a = k)"
    using Active_view[OF e(2) ord, of k "\<lambda>_. True"] v by simp
  ultimately show ?thesis using v n by (simp add: cond_view_def)
qed

text \<open>
  C5: along any execution the notices of a condition's key alternate: raised, any number
  of severity changes, resolved, raised again; the last of them says whether the alert is
  active.
\<close>

theorem condition_lifecycle:
  assumes "engine_run cfg ls e" "sorted_wrt (<) (tick_times ls)" "is_order ord"
  shows "lifecycle False (cond_notices k (all_notices ls)) = Some (\<exists>a \<in> set (Active ord e). a_Key a = k)"
proof -
  have "firing (cond_view e k) \<longleftrightarrow> (\<exists>a \<in> set (Active ord e). a_Key a = k)"
    using Active_view[OF run_engine_inv[OF assms(1)] assms(3), of k "\<lambda>_. True"]
    by (auto simp: firing_def split: option.splits)
  then show ?thesis using lifecycle_run[OF assms(1,2), of k] by simp
qed

theorem condition_lifecycle_witness:
  "lifecycle False (cond_notices ex_key (all_notices (ex_run (ex_falling @ [ex_tick 20 50])))) =
   Some (\<exists>a \<in> set (Active rev (ex_state (ex_falling @ [ex_tick 20 50]))). a_Key a = ex_key)"
proof -
  have times: "sorted_wrt (<) (tick_times (ex_run (ex_falling @ [ex_tick 20 50])))" by code_simp
  show ?thesis by (rule condition_lifecycle[OF engine_run_exec times is_order_rev])
qed

text \<open>
  C6: the engine refines the hysteresis machine: in any execution with increasing tick
  times, the state it keeps for a key is the state of the machine after the samples the
  key has had since it was last absent.
\<close>

theorem engine_refines_machine:
  assumes "engine_run cfg ls e" "sorted_wrt (<) (tick_times ls)"
  shows "cond_view e k =
    (if track (muted_in cfg) k ls = [] then None else Some (hyst_run cfg (track (muted_in cfg) k ls)))"
  using assms by (rule alerts.view_track)

theorem engine_refines_machine_witness:
  "cond_view (ex_state ex_rising) ex_key =
   (if track (muted_in DefaultAlerts) ex_key (ex_run ex_rising) = [] then None
    else Some (hyst_run DefaultAlerts (track (muted_in DefaultAlerts) ex_key (ex_run ex_rising))))"
proof -
  have times: "sorted_wrt (<) (tick_times (ex_run ex_rising))" by code_simp
  show ?thesis by (rule engine_refines_machine[OF engine_run_exec times])
qed

section \<open>The engine's state and its readers\<close>

text \<open>
  Every state the engine reaches satisfies its invariant, whatever the calls and the
  order in which the maps are visited: each table refers to allocated alerts of its kind
  and key, identifiers are consecutive, counts positive, the history is within its bound
  and holds no active alert, and no alert belongs to a muted rule.
\<close>

lemma engine_invariant:
  assumes "engine_run cfg ls e"
  shows "engine_inv e \<and> e_cfg e = cfg \<and> (\<forall>r. is_muted e r \<longleftrightarrow> r \<in> set (Mute cfg))"
  using alerts.invar_run[OF assms] tracker_muted[OF alerts.invar_run[OF assms]]
  by (simp add: tracker_inv_def muted_in_def)

definition alert_before :: "Alert \<Rightarrow> Alert \<Rightarrow> bool" where
  "alert_before a b \<longleftrightarrow> a_Severity b < a_Severity a \<or> a_Severity a = a_Severity b \<and> a_First b \<le> a_First a"

lemma sortAlerts_sorted: "sorted_wrt alert_before (sortAlerts as)"
proof -
  let ?key = "\<lambda>a. (- int (sev_num (a_Severity a)), - a_First a)"
  have "sorted (map ?key (sort_key ?key as))" by (rule sorted_sort_key)
  then have "sorted_wrt (\<lambda>a b. ?key a \<le> ?key b) (sortAlerts as)"
    by (simp add: sortAlerts_def sorted_map)
  then show ?thesis
    by (rule sorted_wrt_mono_rel[rotated]) (auto simp: alert_before_def less_Severity_def sev_num_inj)
qed

lemma distinct_alert_keys:
  assumes inv: "engine_inv e" and ord: "is_order ord"
  shows "inj_on (\<lambda>r. a_Key (alert_at e r)) (set (active_refs ord e))"
proof (rule inj_onI)
  fix r r'
  assume r: "r \<in> set (active_refs ord e)" "r' \<in> set (active_refs ord e)"
    and key: "a_Key (alert_at e r) = a_Key (alert_at e r')"
  from r obtain k st k' st' where
    a: "map_of (e_conds e) k = Some st" "c_alert st = Some r"
    and b: "map_of (e_conds e) k' = Some st'" "c_alert st' = Some r'"
    unfolding in_active_refs[OF ord] by blast
  have "k = k'" using cond_alert_ok[OF inv a] cond_alert_ok[OF inv b] key by (simp add: cond_ok_def)
  with a b show "r = r'" by simp
qed

text \<open>
  C7: \<open>Active\<close> returns exactly the firing alerts, one per key, the most severe first and
  the newest first among those of one severity, in whatever order the map is visited.
\<close>

theorem Active_correct:
  assumes run: "engine_run cfg ls e" and ord: "is_order ord"
  shows "sorted_wrt alert_before (Active ord e) \<and> distinct (map a_Key (Active ord e)) \<and>
    set (Active ord e) = {alert_at e r |k st r. map_of (e_conds e) k = Some st \<and> c_alert st = Some r} \<and>
    (\<forall>a \<in> set (Active ord e). a_Active a \<and> a_Kind a = KindCondition \<and> a_Severity a \<noteq> Info)"
proof -
  note inv = run_engine_inv[OF run]
  have "distinct (map a_Key (map (alert_at e) (active_refs ord e)))"
    using distinct_active_refs[OF inv ord] distinct_alert_keys[OF inv ord] by (simp add: distinct_map comp_def)
  moreover have "mset (map a_Key (Active ord e)) = mset (map a_Key (map (alert_at e) (active_refs ord e)))"
    by (simp add: Active_def sortAlerts_def multiset.map_comp)
  ultimately have "distinct (map a_Key (Active ord e))" using mset_eq_imp_distinct_iff by blast
  moreover have "set (Active ord e) = {alert_at e r |k st r. map_of (e_conds e) k = Some st \<and> c_alert st = Some r}"
    by (simp only: set_Active image_def Bex_def in_active_refs[OF ord]) blast
  moreover have "\<forall>a \<in> set (Active ord e). a_Active a \<and> a_Kind a = KindCondition \<and> a_Severity a \<noteq> Info"
    using in_active_refs[OF ord, of _ e] cond_alert_ok[OF inv] by (fastforce simp: set_Active cond_ok_def)
  ultimately show ?thesis using sortAlerts_sorted by (simp add: Active_def)
qed

theorem Active_correct_witness:
  "map a_Severity (Active rev (ex_state (ex_rising @ [ex_tick 4 8000]))) = [Warning] \<and>
   distinct (map a_Key (Active rev (ex_state (ex_rising @ [ex_tick 4 8000]))))"
proof -
  have "map a_Severity (Active rev (ex_state (ex_rising @ [ex_tick 4 8000]))) = [Warning]" by code_simp
  then show ?thesis using Active_correct[OF engine_run_exec is_order_rev] by blast
qed

lemma of_nat_Suc_inj:
  assumes "a < 2 ^ 64 - 1" "b < 2 ^ 64 - 1" "(of_nat (Suc a) :: uint64) = of_nat (Suc b)"
  shows "a = b"
proof -
  have "unat (of_nat (Suc n) :: uint64) = Suc n" if "n < 2 ^ 64 - 1" for n
    using that of_nat_inverse[of "Suc n", where 'a = 64] by simp
  with assms show ?thesis by (metis nat.inject)
qed

lemma listed_refs_distinct:
  assumes inv: "engine_inv e" and ord: "is_order ord"
  shows "distinct (active_refs ord e @ rev (e_history e))"
proof -
  have "r \<notin> set (e_history e)" if "r \<in> set (active_refs ord e)" for r
  proof -
    obtain k st where "map_of (e_conds e) k = Some st" "c_alert st = Some r"
      using \<open>r \<in> _\<close> unfolding in_active_refs[OF ord] by blast
    then have "a_Active (alert_at e r)" using cond_alert_ok[OF inv] by (auto simp: cond_ok_def)
    then show ?thesis using inv by (auto simp: engine_inv_def history_ok_def)
  qed
  then show ?thesis
    using distinct_active_refs[OF inv ord] inv by (auto simp: engine_inv_def history_ok_def)
qed

lemma listed_refs_allocated:
  assumes inv: "engine_inv e" and ord: "is_order ord" and "r \<in> set (active_refs ord e @ rev (e_history e))"
  shows "r < e_nextRef e"
  using assms(3) in_active_refs[OF ord, of r e] cond_alert_ok[OF inv] inv
  by (auto simp: engine_inv_def history_ok_def cond_ok_def)

lemma listed_ids_distinct:
  assumes inv: "engine_inv e" and ord: "is_order ord" and small: "e_nextRef e < 2 ^ 64"
  shows "distinct (map a_ID (map (alert_at e) (active_refs ord e @ rev (e_history e))))"
proof -
  have "inj_on (\<lambda>r. a_ID (alert_at e r)) (set (active_refs ord e @ rev (e_history e)))"
  proof (rule inj_onI)
    fix r r'
    assume "r \<in> set (active_refs ord e @ rev (e_history e))" "r' \<in> set (active_refs ord e @ rev (e_history e))"
      and id: "a_ID (alert_at e r) = a_ID (alert_at e r')"
    then have lt: "r < e_nextRef e" "r' < e_nextRef e" using listed_refs_allocated[OF inv ord] by blast+
    then have "a_ID (alert_at e r) = of_nat (Suc r)" "a_ID (alert_at e r') = of_nat (Suc r')"
      using inv by (auto simp: engine_inv_def heap_ok_def)
    with id lt small show "r = r'" by (intro of_nat_Suc_inj) simp_all
  qed
  then show ?thesis
    unfolding map_map distinct_map comp_def using listed_refs_distinct[OF inv ord] by blast
qed

lemma recent_loop_eq:
  "recent_loop n e out rs = out @ take (if n \<le> 0 then length rs else nat (n - int (length out))) (map (alert_at e) rs)"
proof (induction rs arbitrary: out)
  case (Cons r rs)
  show ?case
  proof (cases "n \<le> 0")
    case False
    have "nat (n - int (length out)) = Suc (nat (n - int (length (out @ [alert_at e r]))))" if "int (length out) < n"
      using that by (simp add: nat_eq_iff)
    then show ?thesis using False Cons[of "out @ [alert_at e r]"] by (cases "int (length out) < n") (simp_all del: length_append)
  qed (simp add: Cons)
qed simp

lemma run_append: "run stp s0 ls s \<Longrightarrow> run stp s ms s' \<Longrightarrow> run stp s0 (ls @ ms) s'"
proof (rotate_tac, induction rule: run.induct)
  case (run_snoc ms s1 l s2)
  then show ?case using run.run_snoc[of stp s0 "ls @ ms" s1 l s2] by simp
qed simp

lemma distinct_append_take: "distinct (xs @ ys) \<Longrightarrow> distinct (xs @ take n ys)"
  using set_take_subset[of n ys] by auto

text \<open>
  C8: \<open>Recent n\<close> begins with all active alerts and goes on with the past ones, the newest
  first: all of them when \<open>n\<close> is not positive, else as many as make the whole list \<open>n\<close> long,
  so none when \<open>n\<close> or more are active. No past alert is active and there are at most
  \<open>History\<close> of them. When no call comes between its two critical sections, no alert is
  listed twice. Identifiers are 64 bits wide and unique for the first \<open>2 ^ 64 - 1\<close> alerts.
\<close>

theorem Recent_correct:
  assumes run: "engine_run cfg ls e" and more: "run engine_step e ms e'" and ord: "is_order ord" and small: "e_nextRef e < 2 ^ 64"
  shows "Recent ord n e e' = Active ord e @
      take (if n \<le> 0 then length (e_history e') else nat (n - int (length (Active ord e)))) (map (alert_at e') (rev (e_history e'))) \<and>
    (\<forall>r \<in> set (e_history e'). \<not> a_Active (alert_at e' r)) \<and> length (e_history e') \<le> nat (History cfg) \<and>
    (ms = [] \<longrightarrow> distinct (map a_ID (Recent ord n e e')))"
proof -
  note inv = run_engine_inv[OF run] and run' = run_append[OF run more]
  have eq: "Recent ord n e e' = Active ord e @
      take (if n \<le> 0 then length (e_history e') else nat (n - int (length (Active ord e)))) (map (alert_at e') (rev (e_history e')))"
    by (simp add: Recent_def recent_loop_eq)
  have "distinct (map a_ID (Recent ord n e e'))" if "ms = []"
  proof -
    have e': "e' = e" using more that by (cases rule: run.cases) auto
    let ?past = "map (alert_at e) (rev (e_history e))"
    have mset: "mset (map a_ID (Active ord e @ ?past)) = mset (map a_ID (map (alert_at e) (active_refs ord e @ rev (e_history e))))"
      by (simp add: Active_def sortAlerts_def multiset.map_comp)
    have "distinct (map a_ID (Active ord e) @ map a_ID ?past)"
      using listed_ids_distinct[OF inv ord small] mset_eq_imp_distinct_iff[OF mset] by simp
    from distinct_append_take[OF this, of "if n \<le> 0 then length (e_history e) else nat (n - int (length (Active ord e)))"]
    show ?thesis unfolding e' eq[unfolded e'] map_append take_map .
  qed
  moreover have "\<forall>r \<in> set (e_history e'). \<not> a_Active (alert_at e' r)" "length (e_history e') \<le> nat (History cfg)"
    using alerts.invar_run[OF run'] by (auto simp: tracker_inv_def engine_inv_def history_ok_def)
  ultimately show ?thesis using eq by blast
qed

text \<open>One condition is active and one event has passed; both are listed, once.\<close>

theorem Recent_correct_witness:
  "length (Recent rev 0 (ex_state (ex_rising @ [CallRaise second (ex_event 0), ex_tick 4 8000])) (ex_state (ex_rising @ [CallRaise second (ex_event 0), ex_tick 4 8000]))) = 2 \<and>
   distinct (map a_ID (Recent rev 0 (ex_state (ex_rising @ [CallRaise second (ex_event 0), ex_tick 4 8000]))
     (ex_state (ex_rising @ [CallRaise second (ex_event 0), ex_tick 4 8000]))))"
proof -
  let ?e = "ex_state (ex_rising @ [CallRaise second (ex_event 0), ex_tick 4 8000])"
  have "e_nextRef ?e = 2" "length (Active rev ?e) = 1" "length (e_history ?e) = 1" by code_simp+
  then have small: "e_nextRef ?e < 2 ^ 64" and two: "length (Active rev ?e) + length (e_history ?e) = 2" by simp_all
  note rec = Recent_correct[OF engine_run_exec run_Nil is_order_rev small, of 0]
  have "length (Recent rev 0 ?e ?e) = 2"
    unfolding rec[THEN conjunct1] using two by (simp only: order_refl if_True length_append length_take length_map length_rev min.idem)
  moreover have "distinct (map a_ID (Recent rev 0 ?e ?e))" using rec by blast
  ultimately show ?thesis by blast
qed

text \<open>An alert that is resolved between the two critical sections is listed twice.\<close>

lemma recent_may_repeat: "\<not> distinct (map a_ID (Recent rev 0 (ex_state (ex_rising @ [ex_tick 4 8000])) (ex_state (ex_rising @ [ex_tick 4 8000, CallEvaluate (9 * second) []]))))"
  by code_simp

section \<open>Events\<close>

text \<open>
  C9: no occurrence is lost and none is counted twice: in any execution the counts of
  the events of a key add up to the number of calls of \<open>Raise\<close> with that key whose rule
  is not muted.
\<close>

theorem events_count_raises:
  assumes "engine_run cfg ls e"
  shows "tally (event_at e) k = int (length (filter (counts_raise cfg k) ls))"
  using assms by (rule tally_run)

definition ex_oom :: "call list" where
  "ex_oom = [CallRaise second (ex_event 0), CallRaise (3 * second) (ex_event 0)]"

theorem events_count_raises_witness:
  "tally (event_at (ex_state ex_oom)) ''oom-kill|d1|'' = 2"
proof -
  have "length (filter (counts_raise DefaultAlerts ''oom-kill|d1|'') (ex_run ex_oom)) = 2" by code_simp
  then show ?thesis using events_count_raises[OF engine_run_exec, of DefaultAlerts ex_oom] by simp
qed

text \<open>
  A raise inside the dedup window of its key announces a repeat and updates the one
  event in place: the count grows by one, the severity only rises, time, message and value
  are the new ones, no identifier is used, and the history shows the updated event where
  the old one was.
\<close>

lemma Raise_repeats:
  assumes inv: "engine_inv e" and unmuted: "\<not> is_muted e (a_Rule a)"
    and open_window: "map_of (e_events e) (event_key a) = Some r"
      "time_sub (event_time now a) (a_Last (alert_at e r)) < Dedup (e_cfg e)"
    and res: "raise_event now a e = (e', ns)"
  shows "\<exists>b. ns = [(b, Repeated)] \<and> alert_at e' r = b \<and>
    a_Count b = a_Count (alert_at e r) + 1 \<and> a_Severity b = max (a_Severity (alert_at e r)) (a_Severity a) \<and>
    a_ID b = a_ID (alert_at e r) \<and> a_First b = a_First (alert_at e r) \<and> a_Last b = event_time now a \<and>
    a_Message b = a_Message a \<and> a_Value b = a_Value a \<and>
    e_history e' = e_history e \<and> e_events e' = e_events e \<and> e_nextID e' = e_nextID e \<and>
    (\<forall>r'. r' \<noteq> r \<longrightarrow> alert_at e' r' = alert_at e r')"
proof -
  have "repeats e now a" using open_window by (auto simp: repeats_def)
  then show ?thesis
    using res raise_event_cases[OF unmuted, of now] open_window(1)
    by (auto simp: repeat_event_def Let_def complete_event_fields max_def)
qed

text \<open>
  A raise outside every window makes one new event with count one, the next
  identifier and its own time as the first occurrence, and puts it at the end of the
  history.
\<close>

lemma Raise_new:
  assumes inv: "engine_inv e" and unmuted: "\<not> is_muted e (a_Rule a)" and bound: "0 < History (e_cfg e)"
    and closed_window: "\<forall>r. map_of (e_events e) (event_key a) = Some r \<longrightarrow>
      Dedup (e_cfg e) \<le> time_sub (event_time now a) (a_Last (alert_at e r))"
    and res: "raise_event now a e = (e', ns)"
  shows "\<exists>b r. ns = [(b, Raised)] \<and> alert_at e' r = b \<and> map_of (e_events e') (event_key a) = Some r \<and>
    last (e_history e') = r \<and> r \<notin> set (e_history e) \<and>
    a_Count b = 1 \<and> a_Kind b = KindEvent \<and> \<not> a_Active b \<and> a_ID b = e_nextID e + 1 \<and> e_nextID e' = e_nextID e + 1 \<and>
    a_First b = event_time now a \<and> a_Last b = event_time now a \<and> a_Severity b = a_Severity a \<and> a_Message b = a_Message a"
proof -
  have "\<not> repeats e now a" using closed_window by (auto simp: repeats_def not_less)
  then have new: "new_event (complete_event now a) e = (e', ns)" using res raise_event_cases[OF unmuted, of now] by simp
  have "last (e_history e') = e_nextRef e"
    using new bound by (auto simp: new_event_eq Let_def pushHistory_def push_bounded_last_n last_last_n)
  then show ?thesis
    using new history_fresh[OF inv]
    by (auto simp: new_event_eq Let_def fresh_event_def complete_event_fields map_of_update)
qed

text \<open>
  C10: a tick forgets exactly the events whose last occurrence is at least \<open>Dedup\<close> ago,
  and announces a summary, with the event's final count, of exactly those of them that
  were repeated, once each; no event changes.
\<close>

theorem Evaluate_closes_windows:
  assumes inv: "engine_inv e" and ord: "is_order ordc" "is_order orde"
    and res: "eval_tick ordc orde now ss e = (e', ns)"
  shows "map_of (e_events e') k =
      (case map_of (e_events e) k of
         None \<Rightarrow> None
       | Some r \<Rightarrow> if Dedup (e_cfg e) \<le> time_sub now (a_Last (alert_at e r)) then None else Some r) \<and>
    event_notices k ns =
      (case map_of (e_events e) k of
         None \<Rightarrow> []
       | Some r \<Rightarrow>
           if Dedup (e_cfg e) \<le> time_sub now (a_Last (alert_at e r)) \<and> 1 < a_Count (alert_at e r)
           then [(alert_at e r, Summarized)] else []) \<and>
    event_at e' = event_at e"
  using eval_tick_events(1)[OF assms] eval_tick_events(2,3)[OF assms, of k]
  by (auto simp: expired_def summary_def split: option.split)

theorem Evaluate_closes_windows_witness:
  "\<exists>a. event_notices ''oom-kill|d1|'' (snd (eval_tick rev rev (70 * second) [] (ex_state ex_oom))) = [(a, Summarized)] \<and>
     a_Count a = 2"
proof -
  let ?e = "ex_state ex_oom"
  have inv: "engine_inv ?e" by (rule run_engine_inv[OF engine_run_exec])
  have r: "map_of (e_events ?e) ''oom-kill|d1|'' = Some 0" by code_simp
  have w: "Dedup (e_cfg ?e) \<le> time_sub (70 * second) (a_Last (alert_at ?e 0))" by code_simp
  have c: "a_Count (alert_at ?e 0) = 2" by code_simp
  show ?thesis
    using Evaluate_closes_windows[OF inv is_order_rev is_order_rev surjective_pairing, where now = "70 * second" and ss = "[]" and k = "''oom-kill|d1|''"]
      r w c by simp
qed

text \<open>
  C11: an occurrence that arrives after the window of a repeated event has passed, and
  before the next tick, replaces that event: the call announces only the new one, and the
  old event is out of the table that summaries come from, so its repeats are never
  summarised.
\<close>

theorem late_raise_drops_summary:
  assumes inv: "engine_inv e" and unmuted: "\<not> is_muted e (a_Rule a)"
    and late: "map_of (e_events e) (event_key a) = Some r"
      "Dedup (e_cfg e) \<le> time_sub (event_time now a) (a_Last (alert_at e r))"
    and res: "raise_event now a e = (e', ns)"
  shows "map snd ns = [Raised] \<and> (\<forall>k. map_of (e_events e') k \<noteq> Some r) \<and> alert_at e' r = alert_at e r"
proof -
  have "\<not> repeats e now a" using late by (auto simp: repeats_def)
  then have new: "new_event (complete_event now a) e = (e', ns)" using res raise_event_cases[OF unmuted, of now] by simp
  have r: "r < e_nextRef e" "a_Key (alert_at e r) = event_key a"
    using event_alert_ok[OF inv late(1)] by (simp_all add: event_ok_def)
  have "map_of (e_events e) k \<noteq> Some r" if "k \<noteq> event_key a" for k
    using event_alert_ok[OF inv, of k r] r(2) that by (auto simp: event_ok_def)
  then show ?thesis
    using new r(1) by (auto simp: new_event_eq Let_def complete_event_fields map_of_update split: if_splits)
qed

theorem late_raise_drops_summary_witness:
  "a_Count (alert_at (ex_state ex_oom) 0) = 2 \<and>
   (\<forall>k. map_of (e_events (fst (raise_event (90 * second) (ex_event 0) (ex_state ex_oom)))) k \<noteq> Some 0)"
proof -
  let ?e = "ex_state ex_oom"
  have inv: "engine_inv ?e" by (rule run_engine_inv[OF engine_run_exec])
  have m: "\<not> is_muted ?e (a_Rule (ex_event 0))" by code_simp
  have r: "map_of (e_events ?e) (event_key (ex_event 0)) = Some 0" by code_simp
  have w: "Dedup (e_cfg ?e) \<le> time_sub (event_time (90 * second) (ex_event 0)) (a_Last (alert_at ?e 0))" by code_simp
  have c: "a_Count (alert_at ?e 0) = 2" by code_simp
  show ?thesis using late_raise_drops_summary[OF inv m r w surjective_pairing] c by simp
qed

section \<open>Muting, counting, delivery\<close>

lemma eval_sample_muted_state: "e_muted (fst (eval_sample now acc s)) = e_muted (fst acc)"
proof -
  obtain e ns where acc: "acc = (e, ns)" by (cases acc)
  obtain e' st' n where st: "step (entry e (sample_key s) now) s (sample_key s) now e = (e', st', n)"
    by (metis prod_cases3)
  show ?thesis
    using eval_sample_unmuted[OF _ st, of ns] eval_sample_muted[of e s now ns] step_frame(4)[OF st]
    by (cases "is_muted e (s_Rule s)") (simp_all add: acc)
qed

lemma eval_samples_unmuted:
  "foldl (eval_sample now) acc ss = foldl (eval_sample now) acc (filter (\<lambda>s. \<not> is_muted (fst acc) (s_Rule s)) ss)"
proof (induction ss arbitrary: acc)
  case Nil
  then show ?case by simp
next
  case (Cons s ss)
  obtain e ns where acc: "acc = (e, ns)" by (cases acc)
  show ?case
  proof (cases "is_muted e (s_Rule s)")
    case True
    then show ?thesis using Cons.IH[of acc] by (simp add: acc eval_sample_muted)
  next
    case False
    have "is_muted (fst (eval_sample now acc s)) = is_muted (fst acc)"
      by (rule is_muted_cong[OF eval_sample_muted_state])
    then show ?thesis using Cons.IH[of "eval_sample now acc s"] False by (simp add: acc)
  qed
qed

text \<open>
  A muted rule is inert: \<open>Raise\<close> with it changes and announces nothing, and a tick
  is the same tick without the samples of muted rules.
\<close>

lemma muted_rules_are_inert:
  "(is_muted e (a_Rule a) \<longrightarrow> Raise now a e = (e, [])) \<and>
   Evaluate ordc orde now ss e = Evaluate ordc orde now (filter (\<lambda>s. \<not> is_muted e (s_Rule s)) ss) e"
  using eval_samples_unmuted[of now "(e, [])" ss]
  by (simp add: Raise_def raise_event_def notify_def Evaluate_def eval_tick_def)

definition counted :: "string range_order \<Rightarrow> string range_order \<Rightarrow> Engine \<Rightarrow> string \<Rightarrow> Alert list" where
  "counted ordc orde e d = filter (\<lambda>a. a_DomainID a = d)
     (map (alert_at e) (active_refs ordc e) @ filter (\<lambda>a. Info < a_Severity a) (map (alert_at e) (event_refs orde e)))"

definition no_count :: DomainCount where
  "no_count = \<lparr>dc_N = 0, dc_Worst = Info\<rparr>"

lemma count_alert_other: "d \<noteq> a_DomainID a \<or> d = [] \<Longrightarrow> map_of (count_alert out a) d = map_of out d"
  by (auto simp: count_alert_def Let_def map_of_update)

lemma count_alerts:
  assumes "d \<noteq> []"
  shows "mget no_count (foldl count_alert out as) d =
    (let c = mget no_count out d; bs = filter (\<lambda>a. a_DomainID a = d) as
     in c\<lparr>dc_N := dc_N c + int (length bs), dc_Worst := foldl max (dc_Worst c) (map a_Severity bs)\<rparr>)"
proof (induction as arbitrary: out)
  case Nil
  then show ?case by (simp add: Let_def)
next
  case (Cons a as)
  show ?case
  proof (cases "a_DomainID a = d")
    case True
    then have "mget no_count (count_alert out a) d =
      (let c = mget no_count out d in c\<lparr>dc_N := dc_N c + 1, dc_Worst := max (dc_Worst c) (a_Severity a)\<rparr>)"
      using assms by (simp add: count_alert_def Let_def mget_def map_of_update no_count_def)
    then show ?thesis using Cons.IH[of "count_alert out a"] True by (simp add: Let_def)
  next
    case False
    then show ?thesis
      using Cons.IH[of "count_alert out a"] by (simp add: Let_def mget_def count_alert_other)
  qed
qed

lemma foldl_filter: "foldl (\<lambda>acc x. if P x then f acc x else acc) acc xs = foldl f acc (filter P xs)"
  by (induction xs arbitrary: acc) auto

lemma foldl_max: "foldl max s xs = Max (insert s (set xs))" for s :: Severity
proof (induction xs arbitrary: s)
  case Nil
  then show ?case by simp
next
  case (Cons x xs)
  have "Max (insert (max s x) A) = Max (insert s (insert x A))" if "finite A" for A
    using that by (cases "A = {}") (simp_all add: max.assoc)
  then show ?case using Cons by simp
qed

text \<open>
  \<open>DomainCounts\<close> gives, for every domain, the number of its active alerts and of its
  open events worse than informational, and the worst severity among them; it has no
  entry for the alerts of the host.
\<close>

lemma DomainCounts_correct:
  fixes e :: Engine
  shows "(d \<noteq> [] \<longrightarrow> mget no_count (DomainCounts ordc orde e) d =
      \<lparr>dc_N = int (length (counted ordc orde e d)),
       dc_Worst = Max (insert Info (a_Severity ` set (counted ordc orde e d)))\<rparr>) \<and>
    map_of (DomainCounts ordc orde e) [] = None"
proof -
  let ?as = "map (alert_at e) (active_refs ordc e) @ filter (\<lambda>a. Info < a_Severity a) (map (alert_at e) (event_refs orde e))"
  have eq: "DomainCounts ordc orde e = foldl count_alert [] ?as"
    by (simp add: DomainCounts_def Let_def foldl_filter)
  have "map_of (foldl count_alert out as) [] = map_of out []" for out as
    by (induction as arbitrary: out) (simp_all add: count_alert_other)
  then have host: "map_of (DomainCounts ordc orde e) [] = None" by (simp only: eq) simp
  have "mget no_count (DomainCounts ordc orde e) d =
    \<lparr>dc_N = int (length (counted ordc orde e d)), dc_Worst = Max (insert Info (a_Severity ` set (counted ordc orde e d)))\<rparr>"
    if "d \<noteq> []"
    unfolding eq count_alerts[OF that] counted_def
    by (simp add: Let_def no_count_def foldl_max mget_def del: filter_append map_append)
  with host show ?thesis by blast
qed

text \<open>
  Every subscriber receives every notice of a call, once and in order.
\<close>

lemma notify_delivers:
  assumes "distinct (e_subs e)" and "fn \<in> set (e_subs e)"
  shows "map snd (filter (\<lambda>(f, n). f = fn) (notify e ns)) = ns"
proof -
  have "filter (\<lambda>(f, n). f = fn) (map (\<lambda>f. (f, n)) fs) = (if fn \<in> set fs then [(fn, n)] else [])"
    if "distinct fs" for fs :: "nat list" and n :: notice
    using that by (induction fs) auto
  from this[OF assms(1)] assms(2) show ?thesis
    by (induction ns) (simp_all add: notify_def)
qed

end
