(* ===== verification/Ring.thy ===== *)
theory Ring
  imports Bounded_Log
begin

text \<open>
  \<open>internal/store/ring.go\<close> (the ring buffer behind every metric history) and
  \<open>internal/tui/logring.go\<close> (the lines of the log view): two implementations of the
  bounded history.
\<close>

section \<open>RingBuffer\<close>

record 'a RingBuffer =
  rb_buf :: "'a list"
  rb_pos :: nat
  rb_size :: nat

definition NewRingBuffer :: "nat \<Rightarrow> 'a RingBuffer" where
  "NewRingBuffer n = \<lparr>rb_buf = [], rb_pos = 0, rb_size = n\<rparr>"

text \<open>
  With a full buffer the oldest value, at \<open>pos\<close>, is overwritten; \<open>ring_index_ok\<close> below
  shows that this index is always in range. Every buffer of the program is created with
  the positive size \<open>HistoryLen\<close>.
\<close>

definition Push :: "'a RingBuffer \<Rightarrow> 'a \<Rightarrow> 'a RingBuffer" where
  "Push r v =
     (if length (rb_buf r) < rb_size r then r\<lparr>rb_buf := rb_buf r @ [v]\<rparr>
      else r\<lparr>rb_buf := (rb_buf r)[rb_pos r := v], rb_pos := (rb_pos r + 1) mod rb_size r\<rparr>)"

definition Slice :: "'a RingBuffer \<Rightarrow> 'a list" where
  "Slice r =
     (if length (rb_buf r) < rb_size r then rb_buf r
      else map (\<lambda>i. rb_buf r ! ((rb_pos r + i) mod rb_size r)) [0..<rb_size r])"

definition ring_inv :: "nat \<Rightarrow> 'a RingBuffer \<Rightarrow> bool" where
  "ring_inv n r \<longleftrightarrow> rb_size r = n \<and> 0 < n \<and> length (rb_buf r) \<le> n \<and> rb_pos r < n \<and>
     (length (rb_buf r) < n \<longrightarrow> rb_pos r = 0)"

lemma ring_index_ok:
  "ring_inv n r \<Longrightarrow> \<not> length (rb_buf r) < rb_size r \<Longrightarrow> rb_pos r < length (rb_buf r)"
  by (auto simp: ring_inv_def)

lemma ring_inv_new: "0 < n \<Longrightarrow> ring_inv n (NewRingBuffer n)"
  by (simp add: ring_inv_def NewRingBuffer_def)

lemma ring_inv_Push: "ring_inv n r \<Longrightarrow> ring_inv n (Push r v)"
  by (auto simp: ring_inv_def Push_def)

lemma Slice_new [simp]: "Slice (NewRingBuffer n) = []"
  by (simp add: Slice_def NewRingBuffer_def)

text \<open>A full ring, read from the oldest value, is the buffer rotated to \<open>pos\<close>.\<close>

lemma map_mod_eq_rotate:
  assumes "p < length xs"
  shows "map (\<lambda>i. xs ! ((p + i) mod length xs)) [0..<length xs] = drop p xs @ take p xs"
proof (rule nth_equalityI)
  fix i assume "i < length (map (\<lambda>i. xs ! ((p + i) mod length xs)) [0..<length xs])"
  then have i: "i < length xs" by simp
  show "map (\<lambda>i. xs ! ((p + i) mod length xs)) [0..<length xs] ! i =
        (drop p xs @ take p xs) ! i"
  proof (cases "p + i < length xs")
    case True
    then have "i < length xs - p" by simp
    then show ?thesis using i assms True by (simp add: nth_append)
  next
    case False
    then have "(p + i) mod length xs = p + i - length xs"
      using i assms by (simp add: mod_if)
    moreover from False have "\<not> i < length xs - p" by simp
    ultimately show ?thesis using i assms by (simp add: nth_append add.commute)
  qed
qed (use assms in simp)

lemma Slice_full:
  "ring_inv n r \<Longrightarrow> length (rb_buf r) = n \<Longrightarrow>
   Slice r = drop (rb_pos r) (rb_buf r) @ take (rb_pos r) (rb_buf r)"
  using map_mod_eq_rotate[of "rb_pos r" "rb_buf r"]
  by (auto simp: ring_inv_def Slice_def)

lemma length_Slice: "ring_inv n r \<Longrightarrow> length (Slice r) = length (rb_buf r)"
  by (auto simp: ring_inv_def Slice_def)

lemma rotate_step:
  assumes "p < length xs"
  shows "drop (Suc p mod length xs) (xs[p := v]) @ take (Suc p mod length xs) (xs[p := v]) =
         tl (drop p xs @ take p xs) @ [v]"
proof (cases "Suc p = length xs")
  case True
  then have xs: "xs = take p xs @ [xs ! p]"
    by (metis lessI take_Suc_conv_app_nth take_all_iff order_refl)
  have "xs[p := v] = take p xs @ [v]"
    by (subst xs) (simp add: list_update_append assms)
  moreover have "drop p xs = [xs ! p]"
    using True assms by (simp add: Cons_nth_drop_Suc[symmetric])
  ultimately show ?thesis using True by simp
next
  case False
  with assms have lt: "Suc p < length xs" by simp
  have "drop p xs = xs ! p # drop (Suc p) xs"
    using assms by (simp add: Cons_nth_drop_Suc)
  moreover have "take (Suc p) (xs[p := v]) = take p xs @ [v]"
    using assms by (simp add: take_Suc_conv_app_nth)
  ultimately show ?thesis using lt by simp
qed

lemma Slice_Push:
  assumes "ring_inv n r"
  shows "Slice (Push r v) = last_n n (Slice r @ [v])"
proof (cases "length (rb_buf r) < n")
  case less: True
  have old: "Slice r = rb_buf r" and room: "length (rb_buf r) < rb_size r"
    using less assms by (auto simp: Slice_def ring_inv_def)
  have "Slice (Push r v) = rb_buf r @ [v]"
  proof (cases "Suc (length (rb_buf r)) < n")
    case True
    then show ?thesis using room assms by (auto simp: Slice_def Push_def ring_inv_def)
  next
    case False
    with less have full: "length (rb_buf (Push r v)) = n"
      using assms by (auto simp: Push_def ring_inv_def)
    have "rb_pos (Push r v) = 0" using room less assms by (auto simp: Push_def ring_inv_def)
    then show ?thesis
      using Slice_full[OF ring_inv_Push[OF assms] full] room by (simp add: Push_def)
  qed
  then show ?thesis using old less by (simp add: last_n_all)
next
  case False
  then have len: "length (rb_buf r) = n" and n: "rb_size r = n" and p: "rb_pos r < length (rb_buf r)"
    using assms by (auto simp: ring_inv_def)
  have new: "rb_buf (Push r v) = (rb_buf r)[rb_pos r := v]"
    "rb_pos (Push r v) = Suc (rb_pos r) mod n"
    using len n by (simp_all add: Push_def)
  have "Slice (Push r v) = tl (Slice r) @ [v]"
    using Slice_full[OF ring_inv_Push[OF assms], of v] Slice_full[OF assms len]
      rotate_step[OF p, of v] len by (simp add: new)
  moreover have "length (Slice r) = n" using length_Slice[OF assms] len by simp
  ultimately show ?thesis using p len
    by (cases "Slice r") (auto simp: last_n_def)
qed

text \<open>The ring buffer of size 120 the store creates implements the bounded history.\<close>

definition HistoryLen :: nat where
  "HistoryLen = 120"

lemma HistoryLen_pos [simp]: "0 < HistoryLen"
  by (simp add: HistoryLen_def)

interpretation ring: bounded_log "NewRingBuffer HistoryLen" Push Slice HistoryLen "ring_inv HistoryLen"
  by unfold_locales (auto simp: ring_inv_new ring_inv_Push Slice_Push)

section \<open>LogRingBuffer\<close>

record LogRingBuffer =
  lr_lines :: "string list"
  lr_max :: nat

definition GlobalLogRing :: LogRingBuffer where
  "GlobalLogRing = \<lparr>lr_lines = [], lr_max = 50\<rparr>"

definition LogWrite :: "LogRingBuffer \<Rightarrow> string \<Rightarrow> LogRingBuffer" where
  "LogWrite lr p =
     lr\<lparr>lr_lines := (if lr_max lr \<le> length (lr_lines lr) then tl (lr_lines lr) else lr_lines lr) @ [p]\<rparr>"

text \<open>\<open>GetTail\<close> gives the newest \<open>n\<close> lines, or a placeholder when nothing was logged.\<close>

definition GetTail :: "LogRingBuffer \<Rightarrow> int \<Rightarrow> string list" where
  "GetTail lr n =
     (let total = int (length (lr_lines lr));
          start = (if total - n < 0 then 0 else total - n)
      in if total = 0 then [''[No logs registered yet]''] else drop (nat start) (lr_lines lr))"

definition log_inv :: "LogRingBuffer \<Rightarrow> bool" where
  "log_inv lr \<longleftrightarrow> lr_max lr = 50 \<and> length (lr_lines lr) \<le> 50"

interpretation logring: bounded_log GlobalLogRing LogWrite lr_lines 50 log_inv
proof unfold_locales
  fix lr :: LogRingBuffer and p
  assume inv: "log_inv lr"
  show "log_inv (LogWrite lr p)"
    using inv by (auto simp: log_inv_def LogWrite_def)
  show "lr_lines (LogWrite lr p) = last_n 50 (lr_lines lr @ [p])"
    using inv by (cases "lr_lines lr") (auto simp: log_inv_def LogWrite_def last_n_def)
qed (simp_all add: GlobalLogRing_def log_inv_def)

lemma GetTail_after_writes:
  assumes "ps \<noteq> []" and "0 \<le> n"
  shows "GetTail (foldl LogWrite GlobalLogRing ps) n = last_n (nat n) (last_n 50 ps)"
proof -
  let ?lr = "foldl LogWrite GlobalLogRing ps"
  have lines: "lr_lines ?lr = last_n 50 ps" by (rule logring.contents_history)
  have "length (lr_lines ?lr) = min 50 (length ps)" by (rule logring.length_history)
  with assms have "0 < length (lr_lines ?lr)" by (cases ps) auto
  then show ?thesis
    using assms(2) unfolding lines[symmetric]
    by (auto simp: GetTail_def Let_def last_n_def nat_diff_distrib)
qed

end
