(* ===== verification/Store.thy ===== *)
theory Store
  imports Ring
begin

text \<open>
  \<open>internal/store/domain.go\<close> and \<open>internal/store/host.go\<close>: the latest snapshot of every
  VM and of the host, and the histories recorded by \<open>Commit\<close>. The contract is a store
  with unbounded logs of committed snapshots; the refinement says that a history is the
  newest \<open>HistoryLen\<close> values of such a log.
\<close>

section \<open>Snapshots\<close>

record VCPUStat =
  v_Index :: int
  v_TID :: int
  v_CPUPercent :: float64
  v_HostCPU :: int
  v_ExitRate :: float64
  v_RunqAvgUs :: float64
  v_RunqP99Us :: float64
  v_RunqMaxUs :: float64
  v_HaltWaitRate :: float64

record MemStat =
  m_MaxKiB :: uint64
  m_BalloonKiB :: uint64
  m_AvailableKiB :: uint64
  m_UsableKiB :: uint64
  m_UnusedKiB :: uint64
  m_RssKiB :: uint64
  m_SwapInRate :: float64
  m_SwapOutRate :: float64
  m_MinorFltRate :: float64
  m_MajorFltRate :: float64
  m_HugetlbFail :: uint64

record IfaceStat =
  i_Name :: string
  i_Ifindex :: int
  i_RxBps :: float64
  i_TxBps :: float64
  i_RxPps :: float64
  i_TxPps :: float64
  i_RxErrs :: uint64
  i_TxErrs :: uint64
  i_RxDrops :: uint64
  i_TxDrops :: uint64
  i_DropRate :: float64
  i_KernelDropRate :: float64
  i_DropReasons :: "(string, float64) gomap"

record DiskStat =
  k_Dev :: string
  k_RdBps :: float64
  k_WrBps :: float64
  k_RdIOPS :: float64
  k_WrIOPS :: float64
  k_ErrsTotal :: int

record KVMStat =
  kvm_Available :: bool
  kvm_ExitRate :: float64
  kvm_ExitReasons :: "(string, float64) gomap"
  kvm_UserExits :: "(string, float64) gomap"
  kvm_IRQRate :: float64
  kvm_ExceptionRate :: float64
  kvm_EmulFailTotal :: uint64
  kvm_HaltPollRate :: float64
  kvm_HaltWaitRate :: float64
  kvm_RunqP99Us :: float64

record MigrationStat =
  mig_Status :: string
  mig_Operation :: string
  mig_ElapsedMs :: uint64
  mig_MemTotal :: uint64
  mig_MemProcessed :: uint64
  mig_MemRemaining :: uint64
  mig_DirtyPageRate :: uint64
  mig_Bps :: uint64
  mig_ExpectedDownMs :: uint64

record DomainSnapshot =
  d_ID :: string
  d_Name :: string
  d_UUID :: string
  d_Source :: string
  d_PID :: int
  d_State :: string
  d_Reason :: string
  d_VCPUs :: "VCPUStat list"
  d_Mem :: MemStat
  d_Ifaces :: "IfaceStat list"
  d_Disks :: "DiskStat list"
  d_KVM :: KVMStat
  d_Migration :: "MigrationStat option"
  d_BlkLatAvgUs :: float64
  d_BlkLatP99Us :: float64
  d_CollectedAt :: gtime

definition zero_mem :: MemStat where
  "zero_mem = \<lparr>m_MaxKiB = 0, m_BalloonKiB = 0, m_AvailableKiB = 0, m_UsableKiB = 0, m_UnusedKiB = 0,
     m_RssKiB = 0, m_SwapInRate = 0, m_SwapOutRate = 0, m_MinorFltRate = 0, m_MajorFltRate = 0, m_HugetlbFail = 0\<rparr>"

definition zero_kvm :: KVMStat where
  "zero_kvm = \<lparr>kvm_Available = False, kvm_ExitRate = 0, kvm_ExitReasons = [], kvm_UserExits = [], kvm_IRQRate = 0,
     kvm_ExceptionRate = 0, kvm_EmulFailTotal = 0, kvm_HaltPollRate = 0, kvm_HaltWaitRate = 0, kvm_RunqP99Us = 0\<rparr>"

definition zero_snapshot :: DomainSnapshot where
  "zero_snapshot = \<lparr>d_ID = [], d_Name = [], d_UUID = [], d_Source = [], d_PID = 0, d_State = [], d_Reason = [],
     d_VCPUs = [], d_Mem = zero_mem, d_Ifaces = [], d_Disks = [], d_KVM = zero_kvm, d_Migration = None,
     d_BlkLatAvgUs = 0, d_BlkLatP99Us = 0, d_CollectedAt = 0\<rparr>"

definition Running :: "DomainSnapshot \<Rightarrow> bool" where
  "Running d \<longleftrightarrow> d_State d = ''running''"

definition CPUPercent :: "DomainSnapshot \<Rightarrow> float64" where
  "CPUPercent d = foldl (\<lambda>t v. t + v_CPUPercent v) 0 (d_VCPUs d)"

definition NetRates :: "DomainSnapshot \<Rightarrow> float64 \<times> float64" where
  "NetRates d = foldl (\<lambda>(rx, tx) i. (rx + i_RxBps i, tx + i_TxBps i)) (0, 0) (d_Ifaces d)"

definition DiskRates :: "DomainSnapshot \<Rightarrow> float64 \<times> float64" where
  "DiskRates d = foldl (\<lambda>(rd, wr) k. (rd + k_RdBps k, wr + k_WrBps k)) (0, 0) (d_Disks d)"

text \<open>
  The deep copy. A nil map and an empty map read the same; the order of the copy's
  entries is that of the range loop.
\<close>

definition cloneMap :: "(string, float64) gomap \<Rightarrow> (string, float64) gomap" where
  "cloneMap m = foldl (\<lambda>c (k, v). AList.update k v c) [] m"

definition clone :: "DomainSnapshot \<Rightarrow> DomainSnapshot" where
  "clone d = d\<lparr>d_VCPUs := [] @ d_VCPUs d,
     d_Ifaces := map (\<lambda>i. i\<lparr>i_DropReasons := cloneMap (i_DropReasons i)\<rparr>) (d_Ifaces d),
     d_Disks := [] @ d_Disks d,
     d_KVM := (d_KVM d)\<lparr>kvm_ExitReasons := cloneMap (kvm_ExitReasons (d_KVM d)),
                        kvm_UserExits := cloneMap (kvm_UserExits (d_KVM d))\<rparr>,
     d_Migration := map_option (\<lambda>m. m) (d_Migration d)\<rparr>"

section \<open>The host\<close>

record HostDisk =
  hd_Name :: string
  hd_IOPS :: float64
  hd_AvgUs :: float64
  hd_P99Us :: float64
  hd_MaxUs :: float64
  hd_Errors :: uint64

record PSIStat =
  psi_Available :: bool
  psi_CPUSome :: float64
  psi_MemSome :: float64
  psi_MemFull :: float64
  psi_IOSome :: float64
  psi_IOFull :: float64

record HostStat =
  ho_Hostname :: string
  ho_Kernel :: string
  ho_Arch :: string
  ho_CPUs :: int
  ho_Uptime :: duration
  ho_CPUPercent :: float64
  ho_Load1 :: float64
  ho_MemTotalKiB :: uint64
  ho_MemAvailKiB :: uint64
  ho_SwapTotalKiB :: uint64
  ho_SwapFreeKiB :: uint64
  ho_PSI :: PSIStat
  ho_Disks :: "HostDisk list"

definition zero_host :: HostStat where
  "zero_host = \<lparr>ho_Hostname = [], ho_Kernel = [], ho_Arch = [], ho_CPUs = 0, ho_Uptime = 0, ho_CPUPercent = 0,
     ho_Load1 = 0, ho_MemTotalKiB = 0, ho_MemAvailKiB = 0, ho_SwapTotalKiB = 0, ho_SwapFreeKiB = 0,
     ho_PSI = \<lparr>psi_Available = False, psi_CPUSome = 0, psi_MemSome = 0, psi_MemFull = 0, psi_IOSome = 0, psi_IOFull = 0\<rparr>,
     ho_Disks = []\<rparr>"

definition float_of_uint64 :: "uint64 \<Rightarrow> float64" where
  "float_of_uint64 w = of_nat (unat w)"

text \<open>The subtraction is on \<open>uint64\<close> and wraps when more is available than there is.\<close>

definition MemUsedPercent :: "HostStat \<Rightarrow> float64" where
  "MemUsedPercent h =
     (if ho_MemTotalKiB h = 0 then 0
      else 100 * float_of_uint64 (ho_MemTotalKiB h - ho_MemAvailKiB h) / float_of_uint64 (ho_MemTotalKiB h))"

lemma float_of_uint64_le: "float_of_uint64 a \<le> float_of_uint64 b \<longleftrightarrow> unat a \<le> unat b"
  unfolding float_of_uint64_def by (rule of_nat_le_iff)

lemma float_of_uint64_pos: "0 < float_of_uint64 a \<longleftrightarrow> a \<noteq> 0"
  unfolding float_of_uint64_def of_nat_0_less_iff by (simp add: unat_gt_0)

lemma float_of_uint64_nonneg: "0 \<le> float_of_uint64 a"
  unfolding float_of_uint64_def by (rule of_nat_0_le_iff)

lemma MemUsedPercent_range:
  assumes "ho_MemAvailKiB h \<le> ho_MemTotalKiB h"
  shows "0 \<le> MemUsedPercent h \<and> MemUsedPercent h \<le> 100"
proof -
  have "float_of_uint64 (ho_MemTotalKiB h - ho_MemAvailKiB h) \<le> float_of_uint64 (ho_MemTotalKiB h)"
    unfolding float_of_uint64_le unat_sub[OF assms] by simp
  then show ?thesis
    using float_of_uint64_pos float_of_uint64_nonneg
    by (simp add: MemUsedPercent_def divide_le_eq)
qed

record hostHistory =
  hh_cpu :: "float64 RingBuffer"
  hh_mem :: "float64 RingBuffer"

definition newHostHistory :: hostHistory where
  "newHostHistory = \<lparr>hh_cpu = NewRingBuffer HistoryLen, hh_mem = NewRingBuffer HistoryLen\<rparr>"

definition hostHistory_push :: "HostStat \<Rightarrow> hostHistory \<Rightarrow> hostHistory" where
  "hostHistory_push s h = h\<lparr>hh_cpu := Push (hh_cpu h) (ho_CPUPercent s), hh_mem := Push (hh_mem h) (MemUsedPercent s)\<rparr>"

section \<open>The store\<close>

record domainEntry =
  en_latest :: DomainSnapshot
  en_cpu :: "float64 RingBuffer"
  en_rx :: "float64 RingBuffer"
  en_tx :: "float64 RingBuffer"
  en_diskRd :: "float64 RingBuffer"
  en_diskWr :: "float64 RingBuffer"
  en_exitRate :: "float64 RingBuffer"
  en_runqP99 :: "float64 RingBuffer"

definition newEntry :: domainEntry where
  "newEntry = \<lparr>en_latest = zero_snapshot, en_cpu = NewRingBuffer HistoryLen, en_rx = NewRingBuffer HistoryLen,
     en_tx = NewRingBuffer HistoryLen, en_diskRd = NewRingBuffer HistoryLen, en_diskWr = NewRingBuffer HistoryLen,
     en_exitRate = NewRingBuffer HistoryLen, en_runqP99 = NewRingBuffer HistoryLen\<rparr>"

record DomainStore =
  st_domains :: "(string, domainEntry) gomap"
  st_host :: HostStat
  st_hostHist :: hostHistory

definition NewDomainStore :: DomainStore where
  "NewDomainStore = \<lparr>st_domains = [], st_host = zero_host, st_hostHist = newHostHistory\<rparr>"

definition Upsert :: "string \<Rightarrow> (DomainSnapshot \<Rightarrow> DomainSnapshot) \<Rightarrow> DomainStore \<Rightarrow> DomainStore" where
  "Upsert i fn s =
     (let e = (case map_of (st_domains s) i of
                 None \<Rightarrow> newEntry\<lparr>en_latest := zero_snapshot\<lparr>d_ID := i\<rparr>\<rparr>
               | Some e \<Rightarrow> e)
      in s\<lparr>st_domains := AList.update i (e\<lparr>en_latest := fn (en_latest e)\<rparr>) (st_domains s)\<rparr>)"

definition Mutate :: "string \<Rightarrow> (DomainSnapshot \<Rightarrow> DomainSnapshot) \<Rightarrow> DomainStore \<Rightarrow> DomainStore \<times> bool" where
  "Mutate i fn s =
     (case map_of (st_domains s) i of
        None \<Rightarrow> (s, False)
      | Some e \<Rightarrow> (s\<lparr>st_domains := AList.update i (e\<lparr>en_latest := fn (en_latest e)\<rparr>) (st_domains s)\<rparr>, True))"

definition Retain :: "string range_order \<Rightarrow> (string, bool) gomap \<Rightarrow> DomainStore \<Rightarrow> DomainStore \<times> string list" where
  "Retain ord keep s =
     foldl (\<lambda>(s, removed) i.
         if mget False keep i then (s, removed)
         else (s\<lparr>st_domains := AList.delete i (st_domains s)\<rparr>, removed @ [i]))
       (s, []) (ord (mkeys (st_domains s)))"

definition commit_entry :: "gtime \<Rightarrow> domainEntry \<Rightarrow> domainEntry" where
  "commit_entry now e =
     (let d = (en_latest e)\<lparr>d_CollectedAt := now\<rparr>;
          (rx, tx) = NetRates d;
          (rd, wr) = DiskRates d
      in e\<lparr>en_latest := d, en_cpu := Push (en_cpu e) (CPUPercent d), en_rx := Push (en_rx e) rx,
           en_tx := Push (en_tx e) tx, en_diskRd := Push (en_diskRd e) rd, en_diskWr := Push (en_diskWr e) wr,
           en_exitRate := Push (en_exitRate e) (kvm_ExitRate (d_KVM d)),
           en_runqP99 := Push (en_runqP99 e) (kvm_RunqP99Us (d_KVM d))\<rparr>)"

text \<open>Every entry is updated on its own, so the order of the loop does not matter.\<close>

definition Commit :: "gtime \<Rightarrow> DomainStore \<Rightarrow> DomainStore" where
  "Commit now s = s\<lparr>st_domains := map (\<lambda>(i, e). (i, commit_entry now e)) (st_domains s),
                    st_hostHist := hostHistory_push (st_host s) (st_hostHist s)\<rparr>"

text \<open>\<open>sort.Slice\<close> is not stable; a stable sort of an arbitrary order has every result.\<close>

definition Snapshot :: "string range_order \<Rightarrow> DomainStore \<Rightarrow> DomainSnapshot list" where
  "Snapshot ord s =
     sort_key d_Name (List.map_filter (\<lambda>i. map_option (\<lambda>e. clone (en_latest e)) (map_of (st_domains s) i))
       (ord (mkeys (st_domains s))))"

definition Get :: "string \<Rightarrow> DomainStore \<Rightarrow> DomainSnapshot \<times> bool" where
  "Get i s = (case map_of (st_domains s) i of None \<Rightarrow> (zero_snapshot, False) | Some e \<Rightarrow> (clone (en_latest e), True))"

record DomainHistory =
  dh_CPU :: "float64 list"
  dh_RX :: "float64 list"
  dh_TX :: "float64 list"
  dh_DiskRd :: "float64 list"
  dh_DiskWr :: "float64 list"
  dh_ExitRate :: "float64 list"
  dh_RunqP99 :: "float64 list"

definition StoreHistory :: "string \<Rightarrow> DomainStore \<Rightarrow> DomainHistory" where
  "StoreHistory i s =
     (case map_of (st_domains s) i of
        None \<Rightarrow> \<lparr>dh_CPU = [], dh_RX = [], dh_TX = [], dh_DiskRd = [], dh_DiskWr = [], dh_ExitRate = [], dh_RunqP99 = []\<rparr>
      | Some e \<Rightarrow> \<lparr>dh_CPU = Slice (en_cpu e), dh_RX = Slice (en_rx e), dh_TX = Slice (en_tx e),
                   dh_DiskRd = Slice (en_diskRd e), dh_DiskWr = Slice (en_diskWr e),
                   dh_ExitRate = Slice (en_exitRate e), dh_RunqP99 = Slice (en_runqP99 e)\<rparr>)"

definition SetHost :: "HostStat \<Rightarrow> DomainStore \<Rightarrow> DomainStore" where
  "SetHost h s = s\<lparr>st_host := h\<rparr>"

definition MutateHost :: "(HostStat \<Rightarrow> HostStat) \<Rightarrow> DomainStore \<Rightarrow> DomainStore" where
  "MutateHost fn s = s\<lparr>st_host := fn (st_host s)\<rparr>"

definition HostOf :: "DomainStore \<Rightarrow> HostStat" where
  "HostOf s = (st_host s)\<lparr>ho_Disks := [] @ ho_Disks (st_host s)\<rparr>"

record HostHistory =
  hoh_CPU :: "float64 list"
  hoh_Mem :: "float64 list"

definition StoreHostHistory :: "DomainStore \<Rightarrow> HostHistory" where
  "StoreHostHistory s = \<lparr>hoh_CPU = Slice (hh_cpu (st_hostHist s)), hoh_Mem = Slice (hh_mem (st_hostHist s))\<rparr>"

section \<open>Copies\<close>

lemma cloneMap_same: "wf_map m \<Longrightarrow> cloneMap m = m"
proof -
  have "foldl (\<lambda>c (k, v). AList.update k v c) c m = c @ m" if "wf_map (c @ m)" for c
    using that
  proof (induction m arbitrary: c)
    case Nil
    then show ?case by simp
  next
    case (Cons x m)
    obtain k v where x: "x = (k, v)" by (cases x)
    have "k \<notin> fst ` set c" using Cons.prems x by (auto simp: wf_map_def)
    then have "AList.update k v c = c @ [(k, v)]" by (induction c) auto
    then show ?case using Cons.IH[of "c @ [(k, v)]"] Cons.prems x by (simp add: wf_map_def)
  qed
  from this[of "[]"] show "wf_map m \<Longrightarrow> cloneMap m = m" by (simp add: cloneMap_def)
qed

definition snapshot_wf :: "DomainSnapshot \<Rightarrow> bool" where
  "snapshot_wf d \<longleftrightarrow> wf_map (kvm_ExitReasons (d_KVM d)) \<and> wf_map (kvm_UserExits (d_KVM d)) \<and>
     (\<forall>i \<in> set (d_Ifaces d). wf_map (i_DropReasons i))"

lemma clone_same: "snapshot_wf d \<Longrightarrow> clone d = d"
  by (simp add: clone_def snapshot_wf_def cloneMap_same option.map_ident map_idI)

section \<open>Removal\<close>

lemma Retain_eq:
  assumes wf: "wf_map (st_domains s)" and ord: "is_order ord"
  shows "st_domains (fst (Retain ord keep s)) = mfilter (\<lambda>i _. mget False keep i) (st_domains s)"
    and "snd (Retain ord keep s) = filter (\<lambda>i. \<not> mget False keep i) (ord (mkeys (st_domains s)))"
    and "st_host (fst (Retain ord keep s)) = st_host s"
    and "st_hostHist (fst (Retain ord keep s)) = st_hostHist s"
proof -
  let ?f = "\<lambda>(s, removed) i. if mget False keep i then (s, removed)
    else (s\<lparr>st_domains := AList.delete i (st_domains s)\<rparr>, removed @ [i])"
  have loop: "foldl ?f (s, rs) js =
    (s\<lparr>st_domains := filter (\<lambda>(i, e). \<not> (i \<in> set js \<and> \<not> mget False keep i)) (st_domains s)\<rparr>,
     rs @ filter (\<lambda>i. \<not> mget False keep i) js)" for s :: DomainStore and rs js
  proof (induction js arbitrary: s rs)
    case Nil
    then show ?case by simp
  next
    case (Cons j js)
    then show ?case
      by (cases "mget False keep j")
        (auto simp: AList.delete_eq intro!: arg_cong2[where f = st_domains_update] filter_cong)
  qed
  have st: "filter (\<lambda>(i, e). \<not> (i \<in> set (ord (mkeys (st_domains s))) \<and> \<not> mget False keep i)) (st_domains s) =
    mfilter (\<lambda>i _. mget False keep i) (st_domains s)"
    unfolding mfilter_def is_order_set[OF ord] by (rule filter_cong) (auto simp: mkeys_def rev_image_eqI)
  show "st_domains (fst (Retain ord keep s)) = mfilter (\<lambda>i _. mget False keep i) (st_domains s)"
    "snd (Retain ord keep s) = filter (\<lambda>i. \<not> mget False keep i) (ord (mkeys (st_domains s)))"
    "st_host (fst (Retain ord keep s)) = st_host s" "st_hostHist (fst (Retain ord keep s)) = st_hostHist s"
    unfolding Retain_def loop st by simp_all
qed

section \<open>The contract: a store with unbounded logs\<close>

record alog =
  al_latest :: DomainSnapshot
  al_log :: "DomainSnapshot list"

record abstract_store =
  ab_domains :: "string \<rightharpoonup> alog"
  ab_host :: HostStat
  ab_hostLog :: "HostStat list"

datatype store_op =
    OpUpsert string "DomainSnapshot \<Rightarrow> DomainSnapshot"
  | OpMutate string "DomainSnapshot \<Rightarrow> DomainSnapshot"
  | OpRetain "(string, bool) gomap"
  | OpCommit gtime
  | OpSetHost HostStat
  | OpMutateHost "HostStat \<Rightarrow> HostStat"

fun store_exec :: "string range_order \<Rightarrow> DomainStore \<Rightarrow> store_op \<Rightarrow> DomainStore" where
  "store_exec ord s (OpUpsert i fn) = Upsert i fn s"
| "store_exec ord s (OpMutate i fn) = fst (Mutate i fn s)"
| "store_exec ord s (OpRetain keep) = fst (Retain ord keep s)"
| "store_exec ord s (OpCommit now) = Commit now s"
| "store_exec ord s (OpSetHost h) = SetHost h s"
| "store_exec ord s (OpMutateHost fn) = MutateHost fn s"

definition spec_update :: "(DomainSnapshot \<Rightarrow> DomainSnapshot) \<Rightarrow> alog \<Rightarrow> alog" where
  "spec_update fn a = a\<lparr>al_latest := fn (al_latest a)\<rparr>"

definition spec_new :: "string \<Rightarrow> alog" where
  "spec_new i = \<lparr>al_latest = zero_snapshot\<lparr>d_ID := i\<rparr>, al_log = []\<rparr>"

definition spec_commit :: "gtime \<Rightarrow> alog \<Rightarrow> alog" where
  "spec_commit now a = (let d = (al_latest a)\<lparr>d_CollectedAt := now\<rparr> in \<lparr>al_latest = d, al_log = al_log a @ [d]\<rparr>)"

fun store_spec :: "abstract_store \<Rightarrow> store_op \<Rightarrow> abstract_store" where
  "store_spec a (OpUpsert i fn) = a\<lparr>ab_domains := (ab_domains a)
     (i \<mapsto> spec_update fn (case ab_domains a i of None \<Rightarrow> spec_new i | Some x \<Rightarrow> x))\<rparr>"
| "store_spec a (OpMutate i fn) = a\<lparr>ab_domains := (\<lambda>j. if j = i then map_option (spec_update fn) (ab_domains a i) else ab_domains a j)\<rparr>"
| "store_spec a (OpRetain keep) = a\<lparr>ab_domains := (\<lambda>j. if mget False keep j then ab_domains a j else None)\<rparr>"
| "store_spec a (OpCommit now) = a\<lparr>ab_domains := (\<lambda>j. map_option (spec_commit now) (ab_domains a j)),
                                   ab_hostLog := ab_hostLog a @ [ab_host a]\<rparr>"
| "store_spec a (OpSetHost h) = a\<lparr>ab_host := h\<rparr>"
| "store_spec a (OpMutateHost fn) = a\<lparr>ab_host := fn (ab_host a)\<rparr>"

definition empty_spec :: abstract_store where
  "empty_spec = \<lparr>ab_domains = Map.empty, ab_host = zero_host, ab_hostLog = []\<rparr>"

text \<open>A ring holds the newest values of a series of the log.\<close>

definition records :: "('d \<Rightarrow> float64) \<Rightarrow> 'd list \<Rightarrow> float64 RingBuffer \<Rightarrow> bool" where
  "records f ds r \<longleftrightarrow> ring_inv HistoryLen r \<and> Slice r = last_n HistoryLen (map f ds)"

definition entry_rel :: "domainEntry \<Rightarrow> alog \<Rightarrow> bool" where
  "entry_rel e a \<longleftrightarrow> en_latest e = al_latest a \<and>
     records CPUPercent (al_log a) (en_cpu e) \<and>
     records (\<lambda>d. fst (NetRates d)) (al_log a) (en_rx e) \<and>
     records (\<lambda>d. snd (NetRates d)) (al_log a) (en_tx e) \<and>
     records (\<lambda>d. fst (DiskRates d)) (al_log a) (en_diskRd e) \<and>
     records (\<lambda>d. snd (DiskRates d)) (al_log a) (en_diskWr e) \<and>
     records (\<lambda>d. kvm_ExitRate (d_KVM d)) (al_log a) (en_exitRate e) \<and>
     records (\<lambda>d. kvm_RunqP99Us (d_KVM d)) (al_log a) (en_runqP99 e)"

definition host_rel :: "DomainStore \<Rightarrow> abstract_store \<Rightarrow> bool" where
  "host_rel s a \<longleftrightarrow> st_host s = ab_host a \<and>
     records ho_CPUPercent (ab_hostLog a) (hh_cpu (st_hostHist s)) \<and>
     records MemUsedPercent (ab_hostLog a) (hh_mem (st_hostHist s))"

definition store_rel :: "DomainStore \<Rightarrow> abstract_store \<Rightarrow> bool" where
  "store_rel s a \<longleftrightarrow> wf_map (st_domains s) \<and> (\<forall>i. rel_option entry_rel (map_of (st_domains s) i) (ab_domains a i)) \<and> host_rel s a"

lemma records_new: "records f [] (NewRingBuffer HistoryLen)"
  by (simp add: records_def ring_inv_new last_n_def)

lemma records_Push: "records f ds r \<Longrightarrow> v = f d \<Longrightarrow> records f (ds @ [d]) (Push r v)"
  using Slice_Push[of HistoryLen r v] by (simp add: records_def ring_inv_Push last_n_append_last_n)

lemma entry_rel_new: "entry_rel (newEntry\<lparr>en_latest := zero_snapshot\<lparr>d_ID := i\<rparr>\<rparr>) (spec_new i)"
  by (simp add: entry_rel_def newEntry_def spec_new_def records_new)

lemma entry_rel_update: "entry_rel e a \<Longrightarrow> entry_rel (e\<lparr>en_latest := fn (en_latest e)\<rparr>) (spec_update fn a)"
  by (simp add: entry_rel_def spec_update_def)

lemma entry_rel_commit: "entry_rel e a \<Longrightarrow> entry_rel (commit_entry now e) (spec_commit now a)"
  by (auto simp: entry_rel_def commit_entry_def spec_commit_def Let_def split: prod.splits intro!: records_Push)

lemma map_of_map_entries: "map_of (map (\<lambda>(i, e). (i, f e)) m) j = map_option f (map_of m j)"
  by (induction m) auto

lemma store_rel_new: "store_rel NewDomainStore empty_spec"
  by (simp add: store_rel_def NewDomainStore_def empty_spec_def host_rel_def newHostHistory_def records_new)

lemma host_rel_frame: "st_host s' = st_host s \<Longrightarrow> st_hostHist s' = st_hostHist s \<Longrightarrow>
    ab_host a' = ab_host a \<Longrightarrow> ab_hostLog a' = ab_hostLog a \<Longrightarrow> host_rel s a \<Longrightarrow> host_rel s' a'"
  by (simp add: host_rel_def)

lemma store_rel_step:
  assumes rel: "store_rel s a" and ord: "is_order ord"
  shows "store_rel (store_exec ord s op) (store_spec a op)"
proof -
  have wf: "wf_map (st_domains s)" and host: "host_rel s a"
    and ent: "\<And>i. rel_option entry_rel (map_of (st_domains s) i) (ab_domains a i)"
    using rel by (simp_all add: store_rel_def)
  show ?thesis
  proof (cases op)
    case (OpUpsert i fn)
    have "entry_rel (case map_of (st_domains s) i of None \<Rightarrow> newEntry\<lparr>en_latest := zero_snapshot\<lparr>d_ID := i\<rparr>\<rparr> | Some e \<Rightarrow> e)
      (case ab_domains a i of None \<Rightarrow> spec_new i | Some x \<Rightarrow> x)"
      using ent[of i] entry_rel_new[of i] by (cases rule: option.rel_cases) auto
    from entry_rel_update[OF this, of fn] show ?thesis
      using wf ent host by (auto simp: OpUpsert store_rel_def Upsert_def Let_def map_of_update host_rel_def)
  next
    case (OpMutate i fn)
    show ?thesis
      using ent[of i] wf ent host entry_rel_update[of _ _ fn]
      by (cases rule: option.rel_cases)
        (auto simp: OpMutate store_rel_def Mutate_def map_of_update host_rel_def)
  next
    case (OpRetain keep)
    have "rel_option entry_rel (map_of (mfilter (\<lambda>i _. mget False keep i) (st_domains s)) i)
      (if mget False keep i then ab_domains a i else None)" for i
      using ent[of i] by (cases rule: option.rel_cases) (auto simp: map_of_mfilter[OF wf])
    then show ?thesis
      using wf host Retain_eq[OF wf ord, of keep] by (simp add: OpRetain store_rel_def host_rel_def)
  next
    case (OpCommit now)
    have "wf_map (map (\<lambda>(i, e). (i, commit_entry now e)) (st_domains s))"
      using wf by (simp add: wf_map_def comp_def split_beta)
    moreover have "rel_option entry_rel (map_option (commit_entry now) (map_of (st_domains s) i))
      (map_option (spec_commit now) (ab_domains a i))" for i
      using ent[of i] by (cases rule: option.rel_cases) (auto intro: entry_rel_commit)
    moreover have "host_rel (Commit now s) (store_spec a (OpCommit now))"
      using host by (auto simp: host_rel_def Commit_def hostHistory_push_def intro: records_Push)
    ultimately show ?thesis by (simp add: OpCommit store_rel_def Commit_def map_of_map_entries)
  qed (use wf ent host in \<open>simp_all add: store_rel_def host_rel_def SetHost_def MutateHost_def\<close>)
qed

lemma store_rel_run:
  "is_order ord \<Longrightarrow> store_rel s a \<Longrightarrow> store_rel (foldl (store_exec ord) s ops) (foldl store_spec a ops)"
  by (induction ops arbitrary: s a) (auto intro: store_rel_step)

section \<open>What readers of the store see\<close>

definition spec_history :: "alog option \<Rightarrow> DomainHistory" where
  "spec_history x =
     (let ds = (case x of None \<Rightarrow> [] | Some a \<Rightarrow> last_n HistoryLen (al_log a))
      in \<lparr>dh_CPU = map CPUPercent ds, dh_RX = map (\<lambda>d. fst (NetRates d)) ds, dh_TX = map (\<lambda>d. snd (NetRates d)) ds,
          dh_DiskRd = map (\<lambda>d. fst (DiskRates d)) ds, dh_DiskWr = map (\<lambda>d. snd (DiskRates d)) ds,
          dh_ExitRate = map (\<lambda>d. kvm_ExitRate (d_KVM d)) ds, dh_RunqP99 = map (\<lambda>d. kvm_RunqP99Us (d_KVM d)) ds\<rparr>)"

lemma map_last_n: "map f (last_n n xs) = last_n n (map f xs)"
  by (simp add: last_n_def drop_map)

lemma StoreHistory_rel: "store_rel s a \<Longrightarrow> StoreHistory i s = spec_history (ab_domains a i)"
proof -
  assume "store_rel s a"
  then have "rel_option entry_rel (map_of (st_domains s) i) (ab_domains a i)" by (simp add: store_rel_def)
  then show ?thesis
    by (cases rule: option.rel_cases)
      (auto simp: StoreHistory_def spec_history_def entry_rel_def records_def map_last_n)
qed

lemma Get_rel:
  "store_rel s a \<Longrightarrow> Get i s = (case ab_domains a i of None \<Rightarrow> (zero_snapshot, False) | Some x \<Rightarrow> (clone (al_latest x), True))"
proof -
  assume "store_rel s a"
  then have "rel_option entry_rel (map_of (st_domains s) i) (ab_domains a i)" by (simp add: store_rel_def)
  then show ?thesis by (cases rule: option.rel_cases) (auto simp: Get_def entry_rel_def)
qed

lemma StoreHostHistory_rel:
  "store_rel s a \<Longrightarrow> StoreHostHistory s =
     \<lparr>hoh_CPU = map ho_CPUPercent (last_n HistoryLen (ab_hostLog a)),
      hoh_Mem = map MemUsedPercent (last_n HistoryLen (ab_hostLog a))\<rparr>"
  by (simp add: StoreHostHistory_def store_rel_def host_rel_def records_def map_last_n)

end
