(* ===== verification/Poller.thy ===== *)
theory Poller
  imports Store
begin

text \<open>
  \<open>internal/collect/collector.go\<close>: the loop that runs the collectors. A collector is
  given by its operations over a world \<open>'w\<close> (the state of all collectors, the probes and
  the alert engine) and the store; an error is a message. The two readings of the clock in
  \<open>Tick\<close> are arguments.
\<close>

record 'w Collector =
  co_Name :: string
  co_Collect :: "'w \<Rightarrow> DomainStore \<Rightarrow> 'w \<times> DomainStore \<times> string option"
  co_Close :: "'w \<Rightarrow> 'w"

record 'w Discoverer = "'w Collector" +
  di_Alive :: "'w \<Rightarrow> string list"

datatype 'w registered = IsDiscoverer "'w Discoverer" | IsCollector "'w Collector"

definition discoveryGrace :: duration where
  "discoveryGrace = 10 * second"

record aliveSet =
  as_ids :: "string list"
  as_at :: gtime

record 'w Poller =
  po_store :: DomainStore
  po_discoverers :: "'w Discoverer list"
  po_collectors :: "'w Collector list"
  po_lastAlive :: "(string, aliveSet) gomap"
  po_afterTick :: "(gtime \<Rightarrow> DomainStore \<Rightarrow> 'w \<Rightarrow> 'w) list"

definition NewPoller :: "DomainStore \<Rightarrow> 'w Poller" where
  "NewPoller s = \<lparr>po_store = s, po_discoverers = [], po_collectors = [], po_lastAlive = [], po_afterTick = []\<rparr>"

fun Register :: "'w registered \<Rightarrow> 'w Poller \<Rightarrow> 'w Poller" where
  "Register (IsDiscoverer d) p = p\<lparr>po_discoverers := po_discoverers p @ [d]\<rparr>"
| "Register (IsCollector c) p = p\<lparr>po_collectors := po_collectors p @ [c]\<rparr>"

definition AfterTick :: "(gtime \<Rightarrow> DomainStore \<Rightarrow> 'w \<Rightarrow> 'w) \<Rightarrow> 'w Poller \<Rightarrow> 'w Poller" where
  "AfterTick fn p = p\<lparr>po_afterTick := po_afterTick p @ [fn]\<rparr>"

text \<open>The state of the loop over the discoverers: world, store, last good results, alive set.\<close>

type_synonym 'w discovery = "'w \<times> DomainStore \<times> (string, aliveSet) gomap \<times> (string, bool) gomap"

definition discover :: "gtime \<Rightarrow> 'w discovery \<Rightarrow> 'w Discoverer \<Rightarrow> 'w discovery" where
  "discover start acc d =
     (let (w, s, lastAlive, alive) = acc;
          (w, s, err) = co_Collect d w s;
          lastAlive = (if err \<noteq> None then lastAlive
                       else AList.update (co_Name d) \<lparr>as_ids = di_Alive d w, as_at = start\<rparr> lastAlive);
          last = mget \<lparr>as_ids = [], as_at = 0\<rparr> lastAlive (co_Name d);
          alive = (if time_sub start (as_at last) \<le> discoveryGrace
                   then foldl (\<lambda>alive i. AList.update i True alive) alive (as_ids last) else alive)
      in (w, s, lastAlive, alive))"

definition collect_one :: "'w \<times> DomainStore \<Rightarrow> 'w Collector \<Rightarrow> 'w \<times> DomainStore" where
  "collect_one acc c = (let (w, s) = acc; (w, s, err) = co_Collect c w s in (w, s))"

text \<open>\<open>Tick\<close> returns the domains it logs as gone.\<close>

definition Tick ::
  "string range_order \<Rightarrow> gtime \<Rightarrow> gtime \<Rightarrow> 'w \<Rightarrow> 'w Poller \<Rightarrow> 'w \<times> 'w Poller \<times> string list" where
  "Tick ord start now w p =
     (let (w, s, lastAlive, alive) = foldl (discover start) (w, po_store p, po_lastAlive p, []) (po_discoverers p);
          (s, gone) = Retain ord alive s;
          (w, s) = foldl collect_one (w, s) (po_collectors p);
          s = Commit now s;
          w = foldl (\<lambda>w fn. fn now s w) w (po_afterTick p)
      in (w, p\<lparr>po_store := s, po_lastAlive := lastAlive\<rparr>, gone))"

text \<open>
  \<open>Run\<close> ticks once and then on every value of the ticker until the context is cancelled;
  the clock readings of its ticks are the list.
\<close>

fun RunPoller :: "string range_order \<Rightarrow> (gtime \<times> gtime) list \<Rightarrow> 'w \<Rightarrow> 'w Poller \<Rightarrow> 'w \<times> 'w Poller" where
  "RunPoller ord [] w p = (w, p)"
| "RunPoller ord ((start, now) # ts) w p =
     (let (w, p, gone) = Tick ord start now w p in RunPoller ord ts w p)"

definition ClosePoller :: "'w \<Rightarrow> 'w Poller \<Rightarrow> 'w" where
  "ClosePoller w p =
     foldl (\<lambda>w c. co_Close c w) (foldl (\<lambda>w d. co_Close d w) w (po_discoverers p)) (po_collectors p)"

section \<open>What discovery keeps alive\<close>

definition domain_ids :: "DomainStore \<Rightarrow> string set" where
  "domain_ids s = set (mkeys (st_domains s))"

definition in_grace :: "gtime \<Rightarrow> (string, aliveSet) gomap \<Rightarrow> string \<Rightarrow> string set" where
  "in_grace start lastAlive name =
     (case map_of lastAlive name of
        None \<Rightarrow> {}
      | Some a \<Rightarrow> if time_sub start (as_at a) \<le> discoveryGrace then set (as_ids a) else {})"

lemma mget_updates:
  "mget False (foldl (\<lambda>m i. AList.update i True m) m is) j \<longleftrightarrow> j \<in> set is \<or> mget False m j"
  by (induction "is" arbitrary: m) (auto simp: mget_def map_of_update split: if_splits)

lemma discover_alive:
  assumes "discover start (w, s, la, al) d = (w', s', la', al')"
  shows "mget False al' i \<longleftrightarrow> mget False al i \<or> i \<in> in_grace start la' (co_Name d)"
    and "map_of la' n = (if n = co_Name d \<and> snd (snd (co_Collect d w s)) = None
           then Some \<lparr>as_ids = di_Alive d w', as_at = start\<rparr> else map_of la n)"
proof -
  obtain w1 s1 err where c: "co_Collect d w s = (w1, s1, err)" by (metis prod_cases3)
  let ?la = "if err \<noteq> None then la else AList.update (co_Name d) \<lparr>as_ids = di_Alive d w1, as_at = start\<rparr> la"
  let ?last = "mget \<lparr>as_ids = [], as_at = 0\<rparr> ?la (co_Name d)"
  have la: "la' = ?la" and w: "w' = w1"
    and al: "al' = (if time_sub start (as_at ?last) \<le> discoveryGrace
                    then foldl (\<lambda>alive i. AList.update i True alive) al (as_ids ?last) else al)"
    using assms c by (auto simp: discover_def Let_def)
  show "mget False al' i \<longleftrightarrow> mget False al i \<or> i \<in> in_grace start la' (co_Name d)"
    unfolding al la in_grace_def by (cases "map_of ?la (co_Name d)") (auto simp: mget_updates)
  show "map_of la' n = (if n = co_Name d \<and> snd (snd (co_Collect d w s)) = None
           then Some \<lparr>as_ids = di_Alive d w', as_at = start\<rparr> else map_of la n)"
    by (simp add: la w c map_of_update)
qed

lemma in_grace_cong: "map_of la n = map_of la' n \<Longrightarrow> in_grace start la n = in_grace start la' n"
  by (simp add: in_grace_def)

lemma discover_all_alive:
  assumes "foldl (discover start) (w, s, la, al) ds = (w', s', la', al')" and "distinct (map co_Name ds)"
  shows "(mget False al' i \<longleftrightarrow> mget False al i \<or> (\<exists>d \<in> set ds. i \<in> in_grace start la' (co_Name d))) \<and>
    (\<forall>n. n \<notin> co_Name ` set ds \<longrightarrow> map_of la' n = map_of la n)"
  using assms
proof (induction ds arbitrary: w s la al)
  case Nil
  then show ?case by simp
next
  case (Cons d ds)
  obtain w1 s1 la1 al1 where one: "discover start (w, s, la, al) d = (w1, s1, la1, al1)"
    by (metis prod_cases4)
  have "foldl (discover start) (w1, s1, la1, al1) ds = (w', s', la', al')" using Cons.prems(1) one by simp
  note IH = Cons.IH[OF this] and d = discover_alive[OF one]
  have "map_of la' (co_Name d) = map_of la1 (co_Name d)" using IH Cons.prems(2) by (auto simp: image_iff)
  then have "in_grace start la1 (co_Name d) = in_grace start la' (co_Name d)" by (simp add: in_grace_def)
  with IH d Cons.prems(2) show ?case by auto
qed

text \<open>
  The collectors of the program never add or remove a domain, and every operation of a
  discoverer leaves the table of domains a map: the two facts about them the poller needs.
\<close>

definition keeps_ids :: "'w Collector \<Rightarrow> bool" where
  "keeps_ids c \<longleftrightarrow> (\<forall>w s. domain_ids (fst (snd (co_Collect c w s))) = domain_ids s)"

definition keeps_wf :: "'w Discoverer \<Rightarrow> bool" where
  "keeps_wf d \<longleftrightarrow> (\<forall>w s. wf_map (st_domains s) \<longrightarrow> wf_map (st_domains (fst (snd (co_Collect d w s)))))"

lemma collect_all_ids:
  "\<forall>c \<in> set cs. keeps_ids c \<Longrightarrow> domain_ids (snd (foldl collect_one (w, s) cs)) = domain_ids s"
proof (induction cs arbitrary: w s)
  case Nil
  then show ?case by simp
next
  case (Cons c cs)
  obtain w1 s1 err where c: "co_Collect c w s = (w1, s1, err)" by (metis prod_cases3)
  then have "domain_ids s1 = domain_ids s" using Cons.prems unfolding keeps_ids_def by (metis fst_conv snd_conv list.set_intros(1))
  then show ?case using Cons c by (simp add: collect_one_def)
qed

lemma Commit_ids [simp]: "domain_ids (Commit now s) = domain_ids s"
  by (force simp: domain_ids_def Commit_def mkeys_def)

lemma Retain_ids:
  "wf_map (st_domains s) \<Longrightarrow> is_order ord \<Longrightarrow>
   domain_ids (fst (Retain ord keep s)) = {i \<in> domain_ids s. mget False keep i}"
  by (auto simp: domain_ids_def Retain_eq in_mkeys_iff map_of_mfilter split: option.splits if_splits)

lemma discover_all_wf:
  "\<forall>d \<in> set ds. keeps_wf d \<Longrightarrow> wf_map (st_domains s) \<Longrightarrow>
   foldl (discover start) (w, s, la, al) ds = (w', s', la', al') \<Longrightarrow> wf_map (st_domains s')"
proof (induction ds arbitrary: w s la al)
  case Nil
  then show ?case by simp
next
  case (Cons d ds)
  obtain w1 s1 la1 al1 where one: "discover start (w, s, la, al) d = (w1, s1, la1, al1)" by (metis prod_cases4)
  then have "s1 = fst (snd (co_Collect d w s))" by (auto simp: discover_def Let_def split: prod.splits)
  then have "wf_map (st_domains s1)" using Cons.prems unfolding keeps_wf_def by simp
  then show ?case using Cons one by simp
qed

lemma Tick_domains:
  assumes res: "Tick ord start now w p = (w', p', gone)" and ord: "is_order ord"
    and found: "foldl (discover start) (w, po_store p, po_lastAlive p, []) (po_discoverers p) = (w1, s1, la1, al1)"
    and names: "distinct (map co_Name (po_discoverers p))" and wf: "wf_map (st_domains (po_store p))"
    and disc: "\<forall>d \<in> set (po_discoverers p). keeps_wf d" and coll: "\<forall>c \<in> set (po_collectors p). keeps_ids c"
  shows "domain_ids (po_store p') =
      {i \<in> domain_ids s1. \<exists>d \<in> set (po_discoverers p). i \<in> in_grace start (po_lastAlive p') (co_Name d)}"
    and "set gone = domain_ids s1 - domain_ids (po_store p')" and "po_lastAlive p' = la1"
proof -
  have wf1: "wf_map (st_domains s1)" by (rule discover_all_wf[OF disc wf found])
  let ?s2 = "fst (Retain ord al1 s1)"
  have la: "po_lastAlive p' = la1" and gone: "gone = snd (Retain ord al1 s1)"
    and st: "po_store p' = Commit now (snd (foldl collect_one (w1, ?s2) (po_collectors p)))"
    using res found by (auto simp: Tick_def Let_def split: prod.splits)
  have alive: "mget False al1 i \<longleftrightarrow> (\<exists>d \<in> set (po_discoverers p). i \<in> in_grace start la1 (co_Name d))" for i
    using discover_all_alive[OF found names, of i] by simp
  have ids: "domain_ids (po_store p') = {i \<in> domain_ids s1. mget False al1 i}"
    unfolding st by (simp add: collect_all_ids[OF coll] Retain_ids[OF wf1 ord])
  then show "domain_ids (po_store p') =
      {i \<in> domain_ids s1. \<exists>d \<in> set (po_discoverers p). i \<in> in_grace start (po_lastAlive p') (co_Name d)}"
    by (simp add: alive la)
  show "set gone = domain_ids s1 - domain_ids (po_store p')"
    unfolding ids gone Retain_eq(2)[OF wf1 ord] by (auto simp: domain_ids_def is_order_set[OF ord])
  show "po_lastAlive p' = la1" by (rule la)
qed

end
