(* ===== verification/Rate.thy ===== *)
theory Rate
  imports Prelude
begin

text \<open>
  \<open>internal/collect/rate.go\<close>: counters turned into rates, and the contract of tables whose
  keys are forgotten when they are not refreshed, which \<open>rateTracker\<close> and the histogram
  windows of the probes share.
\<close>

section \<open>Tables that forget\<close>

text \<open>
  \<open>touch k i\<close> refreshes key \<open>k\<close> with some input, \<open>sweep\<close> ends a period; \<open>known\<close> are the
  keys of the table, \<open>fresh\<close> those refreshed in the current period.
\<close>

datatype ('k, 'i) table_call = Touch 'k 'i | Sweep

fun table_exec :: "('k \<Rightarrow> 'i \<Rightarrow> 's \<Rightarrow> 's) \<Rightarrow> ('s \<Rightarrow> 's) \<Rightarrow> 's \<Rightarrow> ('k, 'i) table_call \<Rightarrow> 's" where
  "table_exec tch swp s (Touch k i) = tch k i s"
| "table_exec tch swp s Sweep = swp s"

fun touched :: "('k, 'i) table_call list \<Rightarrow> 'k set" where
  "touched [] = {}"
| "touched (Touch k i # cs) = insert k (touched cs)"
| "touched (Sweep # cs) = touched cs"

definition no_sweep :: "('k, 'i) table_call list \<Rightarrow> bool" where
  "no_sweep cs \<longleftrightarrow> Sweep \<notin> set cs"

locale swept_table =
  fixes touch :: "'k \<Rightarrow> 'i \<Rightarrow> 's \<Rightarrow> 's"
    and sweep :: "'s \<Rightarrow> 's"
    and s0 :: 's
    and known :: "'s \<Rightarrow> 'k set"
    and fresh :: "'s \<Rightarrow> 'k set"
    and invar :: "'s \<Rightarrow> bool"
  assumes invar_init: "invar s0"
    and invar_touch: "invar s \<Longrightarrow> invar (touch k i s)"
    and invar_sweep: "invar s \<Longrightarrow> invar (sweep s)"
    and known_init: "known s0 = {}"
    and fresh_known: "invar s \<Longrightarrow> fresh s \<subseteq> known s"
    and known_touch: "invar s \<Longrightarrow> known (touch k i s) = insert k (known s)"
    and fresh_touch: "invar s \<Longrightarrow> fresh (touch k i s) = insert k (fresh s)"
    and known_sweep: "invar s \<Longrightarrow> known (sweep s) = fresh s"
    and fresh_sweep: "invar s \<Longrightarrow> fresh (sweep s) = {}"
begin

lemma invar_exec: "invar s \<Longrightarrow> invar (foldl (table_exec touch sweep) s cs)"
proof (induction cs arbitrary: s)
  case (Cons c cs)
  then show ?case by (cases c) (auto intro: invar_touch invar_sweep)
qed simp

lemma known_period:
  "invar s \<Longrightarrow> no_sweep cs \<Longrightarrow>
   known (foldl (table_exec touch sweep) s cs) = known s \<union> touched cs \<and> fresh (foldl (table_exec touch sweep) s cs) = fresh s \<union> touched cs"
proof (induction cs arbitrary: s)
  case (Cons c cs)
  then show ?case
    by (cases c) (auto simp: no_sweep_def invar_touch known_touch fresh_touch)
qed (simp add: no_sweep_def)

text \<open>
  After a sweep the table has exactly the keys refreshed since the sweep before it: it
  does not grow with the keys that were ever seen.
\<close>

lemma known_after_sweep:
  assumes "invar s" "no_sweep cs"
  shows "known (foldl (table_exec touch sweep) s (Sweep # cs @ [Sweep])) = touched cs"
proof -
  have inv: "invar (sweep s)" using assms(1) by (rule invar_sweep)
  have "known (sweep (foldl (table_exec touch sweep) (sweep s) cs)) = fresh (foldl (table_exec touch sweep) (sweep s) cs)"
    by (rule known_sweep[OF invar_exec[OF inv]])
  then show ?thesis using known_period[OF inv assms(2)] fresh_sweep[OF assms(1)] by simp
qed

lemma fresh_init: "fresh s0 = {}"
  using fresh_known[OF invar_init] known_init by simp

lemma known_first_sweep:
  assumes "no_sweep cs"
  shows "known (foldl (table_exec touch sweep) s0 (cs @ [Sweep])) = touched cs"
  using known_period[OF invar_init assms] known_sweep[OF invar_exec[OF invar_init]] fresh_init by simp

end

section \<open>rateTracker\<close>

record rateSample =
  rs_v :: float64
  rs_t :: gtime
  rs_tick :: uint64

record rateTracker =
  rt_prev :: "(string, rateSample) gomap"
  rt_tick :: uint64

definition newRateTracker :: rateTracker where
  "newRateTracker = \<lparr>rt_prev = [], rt_tick = 0\<rparr>"

definition observe :: "string \<Rightarrow> float64 \<Rightarrow> gtime \<Rightarrow> rateTracker \<Rightarrow> rateTracker" where
  "observe key v now r =
     r\<lparr>rt_prev := AList.update key \<lparr>rs_v = v, rs_t = now, rs_tick = rt_tick r\<rparr> (rt_prev r)\<rparr>"

definition rate :: "string \<Rightarrow> float64 \<Rightarrow> gtime \<Rightarrow> rateTracker \<Rightarrow> rateTracker \<times> float64" where
  "rate key v now r =
     (observe key v now r,
      case map_of (rt_prev r) key of
        None \<Rightarrow> 0
      | Some p \<Rightarrow>
          if v < rs_v p then 0
          else let dt = seconds (time_sub now (rs_t p)) in if dt \<le> 0 then 0 else (v - rs_v p) / dt)"

definition delta :: "string \<Rightarrow> float64 \<Rightarrow> gtime \<Rightarrow> rateTracker \<Rightarrow> rateTracker \<times> float64" where
  "delta key v now r =
     (observe key v now r,
      case map_of (rt_prev r) key of
        None \<Rightarrow> 0
      | Some p \<Rightarrow> if v < rs_v p then 0 else v - rs_v p)"

definition sweep :: "rateTracker \<Rightarrow> rateTracker" where
  "sweep r = r\<lparr>rt_prev := mfilter (\<lambda>k s. rs_tick s = rt_tick r) (rt_prev r), rt_tick := rt_tick r + 1\<rparr>"

text \<open>
  The tick counter wraps, but a sample is never older than one period, so equality with
  the current tick means refreshed in this period.
\<close>

definition tracker_wf :: "rateTracker \<Rightarrow> bool" where
  "tracker_wf r \<longleftrightarrow> wf_map (rt_prev r) \<and>
     (\<forall>k s. map_of (rt_prev r) k = Some s \<longrightarrow> rs_tick s = rt_tick r \<or> rs_tick s = rt_tick r - 1)"

definition refreshed_keys :: "rateTracker \<Rightarrow> string set" where
  "refreshed_keys r = {k. \<exists>s. map_of (rt_prev r) k = Some s \<and> rs_tick s = rt_tick r}"

interpretation rates: swept_table "\<lambda>k (v, now). observe k v now" sweep newRateTracker
  "\<lambda>r. set (mkeys (rt_prev r))" refreshed_keys tracker_wf
proof unfold_locales
  fix r :: rateTracker and k :: string and i :: "float64 \<times> gtime"
  assume wf: "tracker_wf r"
  obtain v now where i: "i = (v, now)" by (cases i)
  have m: "wf_map (rt_prev r)" using wf by (simp add: tracker_wf_def)
  show "tracker_wf ((\<lambda>(v, now). observe k v now) i r)"
    using wf by (auto simp: tracker_wf_def observe_def map_of_update i)
  show "tracker_wf (sweep r)"
    using m by (auto simp: tracker_wf_def sweep_def map_of_mfilter split: option.splits if_splits)
  show "refreshed_keys r \<subseteq> set (mkeys (rt_prev r))"
    by (auto simp: refreshed_keys_def in_mkeys_iff)
  show "set (mkeys (rt_prev ((\<lambda>(v, now). observe k v now) i r))) = insert k (set (mkeys (rt_prev r)))"
    by (auto simp: in_mkeys_iff observe_def map_of_update i split: if_splits)
  show "refreshed_keys ((\<lambda>(v, now). observe k v now) i r) = insert k (refreshed_keys r)"
    by (auto simp: refreshed_keys_def observe_def map_of_update i)
  show "set (mkeys (rt_prev (sweep r))) = refreshed_keys r"
    by (auto simp: in_mkeys_iff sweep_def map_of_mfilter[OF m] refreshed_keys_def split: option.splits if_splits)
  show "refreshed_keys (sweep r) = {}"
    by (auto simp: refreshed_keys_def sweep_def map_of_mfilter[OF m] split: option.splits if_splits)
qed (simp_all add: newRateTracker_def tracker_wf_def mkeys_def)

section \<open>Rates and deltas\<close>

lemma rate_nonneg: "0 \<le> snd (rate key v now r)"
  by (simp add: rate_def Let_def split: option.split)

lemma delta_nonneg: "0 \<le> snd (delta key v now r)"
  by (simp add: delta_def split: option.split)

lemma map_of_observe: "map_of (rt_prev (observe key v now r)) k =
    (if k = key then Some \<lparr>rs_v = v, rs_t = now, rs_tick = rt_tick r\<rparr> else map_of (rt_prev r) k)"
  by (simp add: observe_def map_of_update)

text \<open>
  Along a run of observations of one counter, the deltas add up to the increase of the
  counter since the first one, and so do the rates times the time between them, as long
  as the counter does not fall and time passes.
\<close>

fun deltas :: "string \<Rightarrow> (gtime \<times> float64) list \<Rightarrow> rateTracker \<Rightarrow> float64 list" where
  "deltas key [] r = []"
| "deltas key ((now, v) # xs) r = (let (r, d) = delta key v now r in d # deltas key xs r)"

fun rates_of :: "string \<Rightarrow> (gtime \<times> float64) list \<Rightarrow> rateTracker \<Rightarrow> float64 list" where
  "rates_of key [] r = []"
| "rates_of key ((now, v) # xs) r = (let (r, d) = rate key v now r in d # rates_of key xs r)"

lemma deltas_telescope:
  assumes "map_of (rt_prev r) key = Some p" and "sorted (rs_v p # map snd xs)"
  shows "sum_list (deltas key xs r) = last (rs_v p # map snd xs) - rs_v p"
  using assms
proof (induction xs arbitrary: r p)
  case Nil
  then show ?case by simp
next
  case (Cons x xs)
  obtain now v where x: "x = (now, v)" by (cases x)
  let ?r = "observe key v now r" and ?p = "\<lparr>rs_v = v, rs_t = now, rs_tick = rt_tick r\<rparr>"
  have "sum_list (deltas key xs ?r) = last (rs_v ?p # map snd xs) - rs_v ?p"
    using Cons.prems x by (intro Cons.IH) (auto simp: map_of_observe)
  then show ?case using Cons.prems x by (auto simp: delta_def)
qed

fun weighted :: "gtime \<Rightarrow> gtime list \<Rightarrow> float64 list \<Rightarrow> float64" where
  "weighted t0 (t # ts) (r # rs) = seconds (time_sub t t0) * r + weighted t ts rs"
| "weighted t0 _ _ = 0"

lemma rates_telescope:
  assumes "map_of (rt_prev r) key = Some p" and "sorted (rs_v p # map snd xs)"
    and "sorted_wrt (<) (rs_t p # map fst xs)"
  shows "weighted (rs_t p) (map fst xs) (rates_of key xs r) = last (rs_v p # map snd xs) - rs_v p"
  using assms
proof (induction xs arbitrary: r p)
  case Nil
  then show ?case by simp
next
  case (Cons x xs)
  obtain now v where x: "x = (now, v)" by (cases x)
  let ?r = "observe key v now r" and ?p = "\<lparr>rs_v = v, rs_t = now, rs_tick = rt_tick r\<rparr>"
  have IH: "weighted (rs_t ?p) (map fst xs) (rates_of key xs ?r) = last (rs_v ?p # map snd xs) - rs_v ?p"
    using Cons.prems x by (intro Cons.IH) (auto simp: map_of_observe)
  have pos: "0 < seconds (time_sub now (rs_t p))" using Cons.prems(3) x by (simp add: time_sub_pos_iff)
  then have "seconds (time_sub now (rs_t p)) * snd (rate key v now r) = v - rs_v p"
    using Cons.prems x by (simp add: rate_def Let_def)
  then show ?case using IH x by (auto simp: rate_def)
qed

end
