(* ===== verification/Hist.thy ===== *)
theory Hist
  imports Rate Store "HOL-Library.More_List"
begin

text \<open>
  \<open>internal/probe/hist.go\<close>: cumulative latency histograms in powers of two, their
  windows and percentiles; with \<open>log2l\<close> and \<open>hist_add\<close> of \<open>internal/bpf/src/hyperview.bpf.c\<close>,
  which fill them. The theorems relate a percentile to the samples that were recorded.
\<close>

section \<open>Recording\<close>

definition HistSlots :: nat where
  "HistSlots = 27"

record Hist =
  hi_Slots :: "uint64 list"
  hi_Count :: uint64
  hi_SumUs :: uint64
  hi_MaxUs :: uint64

definition zero_hist :: Hist where
  "zero_hist = \<lparr>hi_Slots = replicate HistSlots 0, hi_Count = 0, hi_SumUs = 0, hi_MaxUs = 0\<rparr>"

definition log2_step :: "uint64 \<times> uint32 \<Rightarrow> nat \<Rightarrow> uint64 \<times> uint32" where
  "log2_step acc i = (let (v, r) = acc in if push_bit i 1 \<le> v then (drop_bit i v, r + of_nat i) else (v, r))"

definition log2l :: "uint64 \<Rightarrow> uint32" where
  "log2l v = snd (foldl log2_step (v, 0) [32, 16, 8, 4, 2, 1])"

definition hist_slot :: "uint64 \<Rightarrow> nat" where
  "hist_slot us = (let slot = log2l us in unat (if of_nat HistSlots \<le> slot then of_nat HistSlots - 1 else slot))"

definition hist_add :: "Hist \<Rightarrow> uint64 \<Rightarrow> Hist" where
  "hist_add h us =
     h\<lparr>hi_Slots := (hi_Slots h)[hist_slot us := hi_Slots h ! hist_slot us + 1], hi_Count := hi_Count h + 1,
       hi_SumUs := hi_SumUs h + us, hi_MaxUs := (if hi_MaxUs h < us then us else hi_MaxUs h)\<rparr>"

section \<open>Differences, means, percentiles\<close>

definition highest_slot :: "uint64 list \<Rightarrow> int" where
  "highest_slot slots = foldl (\<lambda>t i. if 0 < slots ! i then int i else t) (-1) [0..<length slots]"

definition Sub :: "Hist \<Rightarrow> Hist \<Rightarrow> Hist" where
  "Sub h old =
     (if hi_Count h < hi_Count old then h
      else let slots = map2 (-) (hi_Slots h) (hi_Slots old);
               t = highest_slot slots
           in \<lparr>hi_Slots = slots, hi_Count = hi_Count h - hi_Count old, hi_SumUs = hi_SumUs h - hi_SumUs old,
               hi_MaxUs = (if 0 \<le> t then min (push_bit (nat (t + 1)) 1) (max (hi_MaxUs h) 1) else 0)\<rparr>)"

definition MeanUs :: "Hist \<Rightarrow> float64" where
  "MeanUs h = (if hi_Count h = 0 then 0 else float_of_uint64 (hi_SumUs h) / float_of_uint64 (hi_Count h))"

definition bucket_lo :: "nat \<Rightarrow> float64" where
  "bucket_lo i = (if 0 < i then float_of_uint64 (push_bit i 1) else 0)"

definition bucket_hi :: "nat \<Rightarrow> float64" where
  "bucket_hi i = float_of_uint64 (push_bit (i + 1) 1)"

fun percentile_loop :: "nat \<Rightarrow> float64 \<Rightarrow> float64 \<Rightarrow> uint64 list \<Rightarrow> float64" where
  "percentile_loop i cum rank [] = float_of_uint64 (push_bit HistSlots 1)"
| "percentile_loop i cum rank (n # ns) =
     (if n = 0 then percentile_loop (i + 1) cum rank ns
      else if rank \<le> cum + float_of_uint64 n
      then bucket_lo i + (bucket_hi i - bucket_lo i) * (rank - cum) / float_of_uint64 n
      else percentile_loop (i + 1) (cum + float_of_uint64 n) rank ns)"

definition Percentile :: "float64 \<Rightarrow> Hist \<Rightarrow> float64" where
  "Percentile q h =
     (if hi_Count h = 0 then 0 else percentile_loop 0 0 (q * float_of_uint64 (hi_Count h)) (hi_Slots h))"

section \<open>Windows\<close>

record histSample =
  hs_at :: gtime
  hs_h :: Hist

record HistWindow =
  hw_minAge :: duration
  hw_keys :: "(uint32, histSample list) gomap"
  hw_seen :: "(uint32, bool) gomap"

definition NewHistWindow :: "duration \<Rightarrow> HistWindow" where
  "NewHistWindow minAge = \<lparr>hw_minAge = minAge, hw_keys = [], hw_seen = []\<rparr>"

fun trim :: "duration \<Rightarrow> gtime \<Rightarrow> histSample list \<Rightarrow> histSample list" where
  "trim minAge now (a # b # ss) =
     (if minAge \<le> time_sub now (hs_at b) then trim minAge now (b # ss) else a # b # ss)"
| "trim minAge now ss = ss"

text \<open>
  The source appends the new sample twice, to the full and to the trimmed list; the second
  store replaces the first in the map.
\<close>

definition Window :: "uint32 \<Rightarrow> gtime \<Rightarrow> Hist \<Rightarrow> HistWindow \<Rightarrow> HistWindow \<times> Hist" where
  "Window key now cur w =
     (let new = \<lparr>hs_at = now, hs_h = cur\<rparr>;
          samples = mget [] (hw_keys w) key;
          w = w\<lparr>hw_seen := AList.update key True (hw_seen w),
                hw_keys := AList.update key (samples @ [new]) (hw_keys w)\<rparr>
      in if samples = [] then (w, zero_hist)
         else let samples = trim (hw_minAge w) now samples
              in (w\<lparr>hw_keys := AList.update key (samples @ [new]) (hw_keys w)\<rparr>, Sub cur (hs_h (hd samples))))"

definition WindowSweep :: "HistWindow \<Rightarrow> HistWindow" where
  "WindowSweep w = w\<lparr>hw_keys := mfilter (\<lambda>k _. mget False (hw_seen w) k) (hw_keys w), hw_seen := []\<rparr>"

definition seen_keys :: "HistWindow \<Rightarrow> uint32 set" where
  "seen_keys w = {k. mget False (hw_seen w) k}"

definition window_wf :: "HistWindow \<Rightarrow> bool" where
  "window_wf w \<longleftrightarrow> wf_map (hw_keys w) \<and> seen_keys w \<subseteq> set (mkeys (hw_keys w))"

lemma Window_keys:
  "set (mkeys (hw_keys (fst (Window k now cur w)))) = insert k (set (mkeys (hw_keys w)))"
  "hw_seen (fst (Window k now cur w)) = AList.update k True (hw_seen w)"
  "wf_map (hw_keys w) \<Longrightarrow> wf_map (hw_keys (fst (Window k now cur w)))"
  by (auto simp: Window_def Let_def in_mkeys_iff map_of_update split: if_splits)

lemma seen_keys_Window: "seen_keys (fst (Window k now cur w)) = insert k (seen_keys w)"
  by (auto simp: seen_keys_def Window_keys mget_def map_of_update split: if_splits)

interpretation windows: swept_table "\<lambda>k (now, cur) w. fst (Window k now cur w)" WindowSweep
  "NewHistWindow minAge" "\<lambda>w. set (mkeys (hw_keys w))" seen_keys window_wf for minAge
proof unfold_locales
  fix w :: HistWindow and k :: uint32 and i :: "gtime \<times> Hist"
  obtain now cur where i: "i = (now, cur)" by (cases i)
  assume wf: "window_wf w"
  then have m: "wf_map (hw_keys w)" and seen: "seen_keys w \<subseteq> set (mkeys (hw_keys w))" by (simp_all add: window_wf_def)
  show "window_wf ((\<lambda>(now, cur) w. fst (Window k now cur w)) i w)"
    using m seen by (auto simp: window_wf_def i Window_keys seen_keys_Window)
  show "window_wf (WindowSweep w)" using m by (simp add: window_wf_def WindowSweep_def seen_keys_def)
  show "seen_keys w \<subseteq> set (mkeys (hw_keys w))" by (rule seen)
  show "set (mkeys (hw_keys ((\<lambda>(now, cur) w. fst (Window k now cur w)) i w))) = insert k (set (mkeys (hw_keys w)))"
    by (simp add: i Window_keys)
  show "seen_keys ((\<lambda>(now, cur) w. fst (Window k now cur w)) i w) = insert k (seen_keys w)"
    by (simp add: i seen_keys_Window)
  show "set (mkeys (hw_keys (WindowSweep w))) = seen_keys w"
    using seen by (auto simp: in_mkeys_iff WindowSweep_def map_of_mfilter[OF m] seen_keys_def split: option.splits if_splits)
  show "seen_keys (WindowSweep w) = {}" by (simp add: seen_keys_def WindowSweep_def)
qed (simp_all add: NewHistWindow_def window_wf_def mkeys_def seen_keys_def)

section \<open>The slot of a sample\<close>

lemma unat_push_bit_1:
  assumes "n < 64"
  shows "unat (push_bit n 1 :: uint64) = 2 ^ n"
proof -
  have "(2 :: nat) ^ n < 2 ^ 64" using assms by (rule power_strict_increasing) simp
  then show ?thesis unfolding unsigned_push_bit_eq by (simp add: push_bit_eq_mult take_bit_eq_mod)
qed

definition log2_inv :: "uint64 \<Rightarrow> nat \<Rightarrow> uint64 \<times> uint32 \<Rightarrow> bool" where
  "log2_inv v0 n acc \<longleftrightarrow> (let (v, r) = acc
     in unat v0 div 2 ^ unat r = unat v \<and> (v0 \<noteq> 0 \<longrightarrow> v \<noteq> 0) \<and> unat v < 2 ^ n \<and> unat r + n \<le> 64)"

lemma log2_inv_step:
  assumes inv: "log2_inv v0 (2 * i) acc" and i: "0 < i" "i \<le> 32"
  shows "log2_inv v0 i (log2_step acc i)"
proof -
  obtain v r where acc: "acc = (v, r)" by (cases acc)
  have a: "unat v0 div 2 ^ unat r = unat v" "v0 \<noteq> 0 \<longrightarrow> v \<noteq> 0" "unat v < 2 ^ (2 * i)" "unat r + 2 * i \<le> 64"
    using inv by (simp_all add: acc log2_inv_def)
  have le: "push_bit i 1 \<le> v \<longleftrightarrow> 2 ^ i \<le> unat v"
    using i unfolding word_le_nat_alt by (subst unat_push_bit_1) simp_all
  show ?thesis
  proof (cases "2 ^ i \<le> unat v")
    case True
    have v: "unat (drop_bit i v) = unat v div 2 ^ i"
      unfolding unat_drop_bit_eq by (simp only: drop_bit_eq_div)
    have "unat (of_nat i :: uint32) = i" 
      using i of_nat_inverse[of i, where 'a = 32] by simp
    then have r: "unat (r + of_nat i) = unat r + i" using a(4) i by (simp add: unat_word_ariths(1))
    have lt: "unat v div 2 ^ i < 2 ^ i" using a(3) by (simp add: less_mult_imp_div_less power_add[symmetric] mult_2)
    have pos: "0 < unat v div 2 ^ i" using True by (simp add: div_greater_zero_iff)
    then have "drop_bit i v \<noteq> 0" using v by (metis less_irrefl unat_0)
    then show ?thesis
      using a lt r v True le
      by (simp add: acc log2_step_def log2_inv_def power_add div_mult2_eq)
  next
    case False
    then show ?thesis using a le by (simp add: acc log2_step_def log2_inv_def)
  qed
qed

lemma log2l_bounds:
  assumes "v \<noteq> 0"
  shows "2 ^ unat (log2l v) \<le> unat v \<and> unat v < 2 ^ (unat (log2l v) + 1)"
proof -
  have "log2_inv v 64 (v, 0)" using unsigned_less[of v, where 'a = nat] by (simp add: log2_inv_def)
  then have "log2_inv v 1 (foldl log2_step (v, 0) [32, 16, 8, 4, 2, 1])"
    using log2_inv_step[of v 32] log2_inv_step[of v 16] log2_inv_step[of v 8] log2_inv_step[of v 4]
      log2_inv_step[of v 2] log2_inv_step[of v 1] by simp
  moreover obtain v' r where f: "foldl log2_step (v, 0) [32, 16, 8, 4, 2, 1] = (v', r)"
    by (cases "foldl log2_step (v, 0) [32, 16, 8, 4, 2, 1]")
  moreover have "log2l v = r" unfolding log2l_def f by simp
  ultimately have v': "unat v div 2 ^ unat (log2l v) = unat v'" "v' \<noteq> 0" "unat v' < 2"
    using assms by (simp_all only: log2_inv_def Let_def split_conv power_one_right) simp
  then have "unat v' = 1" using unat_gt_0[of v'] by linarith
  with v'(1) have one: "unat v div 2 ^ unat (log2l v) = 1" by simp
  then have "unat v = 2 ^ unat (log2l v) + unat v mod 2 ^ unat (log2l v)"
    using div_mult_mod_eq[of "unat v" "2 ^ unat (log2l v)"] by simp
  moreover have "unat v mod 2 ^ unat (log2l v) < 2 ^ unat (log2l v)" by (rule mod_less_divisor) simp
  ultimately have "2 ^ unat (log2l v) \<le> unat v" "unat v < 2 ^ unat (log2l v) + 2 ^ unat (log2l v)" by linarith+
  then show ?thesis by simp
qed

lemma log2l_0: "log2l 0 = 0"
  by code_simp

text \<open>Slot \<open>i\<close> holds the samples of \<open>[2 ^ i, 2 ^ (i + 1))\<close>, the last one all larger ones too.\<close>

lemma hist_slot_eq: "hist_slot v = min (unat (log2l v)) (HistSlots - 1)"
proof -
  have "(of_nat HistSlots :: uint32) = 27" by (simp add: HistSlots_def)
  moreover have "unat (27 - 1 :: uint32) = 26" by simp
  ultimately show ?thesis by (simp add: hist_slot_def HistSlots_def Let_def word_le_nat_alt)
qed

lemma hist_slot_less: "hist_slot v < HistSlots"
  by (simp add: hist_slot_eq HistSlots_def)

lemma hist_slot_bounds:
  "(hist_slot v = 0 \<or> 2 ^ hist_slot v \<le> unat v) \<and> (hist_slot v < HistSlots - 1 \<longrightarrow> unat v < 2 ^ (hist_slot v + 1))"
proof (cases "v = 0")
  case True
  then show ?thesis by (simp add: hist_slot_eq log2l_0)
next
  case False
  have "2 ^ hist_slot v \<le> (2 :: nat) ^ unat (log2l v)" by (simp add: hist_slot_eq)
  then have "2 ^ hist_slot v \<le> unat v" using log2l_bounds[OF False] by linarith
  moreover have "hist_slot v < HistSlots - 1 \<Longrightarrow> hist_slot v = unat (log2l v)"
    by (simp add: hist_slot_eq min_def split: if_splits)
  ultimately show ?thesis using log2l_bounds[OF False] by auto
qed

lemma hist_slot_mono:
  assumes "unat v \<le> unat w"
  shows "hist_slot v \<le> hist_slot w"
proof (rule ccontr)
  assume less: "\<not> hist_slot v \<le> hist_slot w"
  then have "hist_slot w < HistSlots - 1" using hist_slot_less[of v] by simp
  then have "unat w < 2 ^ (hist_slot w + 1)" using hist_slot_bounds by blast
  also have "\<dots> \<le> 2 ^ hist_slot v" using less by (intro power_increasing) simp_all
  also have "\<dots> \<le> unat v" using hist_slot_bounds[of v] less by simp
  finally show False using assms by simp
qed

section \<open>Histograms of samples\<close>

definition hist_of :: "uint64 list \<Rightarrow> Hist" where
  "hist_of xs = foldl hist_add zero_hist xs"

definition slot_count :: "nat \<Rightarrow> uint64 list \<Rightarrow> nat" where
  "slot_count i xs = length (filter (\<lambda>x. hist_slot x = i) xs)"

lemma hist_add_fields:
  "hi_Count (foldl hist_add h xs) = hi_Count h + of_nat (length xs)"
  "hi_SumUs (foldl hist_add h xs) = hi_SumUs h + sum_list xs"
  "length (hi_Slots (foldl hist_add h xs)) = length (hi_Slots h)"
  by (induction xs arbitrary: h) (simp_all add: hist_add_def algebra_simps)

lemma hist_add_slots:
  "length (hi_Slots h) = HistSlots \<Longrightarrow> i < HistSlots \<Longrightarrow>
   hi_Slots (foldl hist_add h xs) ! i = hi_Slots h ! i + of_nat (slot_count i xs)"
  by (induction xs arbitrary: h)
    (simp_all add: hist_add_def slot_count_def nth_list_update hist_slot_less algebra_simps)

lemma hist_add_max:
  "x \<in> set xs \<Longrightarrow> x \<le> hi_MaxUs (foldl hist_add h xs)" "hi_MaxUs h \<le> hi_MaxUs (foldl hist_add h xs)"
proof (induction xs arbitrary: h)
  case (Cons y xs)
  { case 1
    then show ?case using Cons(1)[of "hist_add h y"] Cons(2)[of "hist_add h y"]
      by (auto simp: hist_add_def split: if_splits intro: order_trans) }
  { case 2
    show ?case using Cons(2)[of "hist_add h y"] by (auto simp: hist_add_def split: if_splits intro: order_trans) }
qed simp_all

lemma slot_count_le: "slot_count i xs \<le> length xs"
  by (simp add: slot_count_def)

lemma hist_of_slots:
  "hi_Slots (hist_of xs) = map (\<lambda>i. of_nat (slot_count i xs)) [0..<HistSlots]"
proof (rule nth_equalityI)
  show "length (hi_Slots (hist_of xs)) = length (map (\<lambda>i. of_nat (slot_count i xs)) [0..<HistSlots])"
    by (simp add: hist_of_def hist_add_fields zero_hist_def)
  fix i
  assume "i < length (hi_Slots (hist_of xs))"
  then have "i < HistSlots" by (simp add: hist_of_def hist_add_fields zero_hist_def)
  then show "hi_Slots (hist_of xs) ! i = map (\<lambda>i. of_nat (slot_count i xs)) [0..<HistSlots] ! i"
    using hist_add_slots[of zero_hist i xs] by (simp add: hist_of_def zero_hist_def)
qed

section \<open>Percentiles\<close>

lemma bucket_lo_eq: "i < 64 \<Longrightarrow> bucket_lo i = (if 0 < i then 2 ^ i else 0)"
  unfolding bucket_lo_def float_of_uint64_def by (subst unat_push_bit_1) simp_all

lemma bucket_hi_eq: "i < 63 \<Longrightarrow> bucket_hi i = 2 ^ (i + 1)"
  unfolding bucket_hi_def float_of_uint64_def by (subst unat_push_bit_1) simp_all

lemma bucket_lo_hi: "i < 63 \<Longrightarrow> bucket_lo i \<le> bucket_hi i"
  by (simp add: bucket_lo_eq bucket_hi_eq)

lemma interpolation_bounds:
  fixes lo hi x :: rat
  assumes "lo \<le> hi" "0 \<le> x" "x \<le> n" "0 < n"
  shows "lo \<le> lo + (hi - lo) * x / n \<and> lo + (hi - lo) * x / n \<le> hi"
proof -
  have "(hi - lo) * x \<le> (hi - lo) * n" using assms by (intro mult_left_mono) simp_all
  then have "(hi - lo) * x / n \<le> hi - lo" using assms by (simp add: pos_divide_le_eq)
  moreover have "0 \<le> (hi - lo) * x / n" using assms by simp
  ultimately show ?thesis by simp
qed

definition total :: "uint64 list \<Rightarrow> float64" where
  "total ns = sum_list (map float_of_uint64 ns)"

lemma total_simps [simp]: "total [] = 0" "total (n # ns) = float_of_uint64 n + total ns"
  by (simp_all add: total_def)

lemma percentile_loop_bucket:
  assumes "cum < rank" and "rank \<le> cum + total ns" and "i + length ns < 64"
  shows "\<exists>j < length ns. cum + total (take j ns) < rank \<and> rank \<le> cum + total (take (Suc j) ns) \<and>
    bucket_lo (i + j) \<le> percentile_loop i cum rank ns \<and> percentile_loop i cum rank ns \<le> bucket_hi (i + j)"
  using assms
proof (induction ns arbitrary: i cum)
  case Nil
  then show ?case by simp
next
  case (Cons n ns)
  let ?n = "float_of_uint64 n"
  show ?case
  proof (cases "n \<noteq> 0 \<and> rank \<le> cum + ?n")
    case True
    have "bucket_lo i \<le> bucket_lo i + (bucket_hi i - bucket_lo i) * (rank - cum) / ?n \<and>
      bucket_lo i + (bucket_hi i - bucket_lo i) * (rank - cum) / ?n \<le> bucket_hi i"
      using Cons.prems True by (intro interpolation_bounds bucket_lo_hi) (auto simp: float_of_uint64_pos)
    then show ?thesis using True Cons.prems by (intro exI[of _ 0]) simp
  next
    case False
    then have rest: "percentile_loop i cum rank (n # ns) = percentile_loop (Suc i) (cum + ?n) rank ns" and "cum + ?n < rank"
      using Cons.prems(1) by (auto simp: float_of_uint64_def)
    then obtain j where "j < length ns" "cum + ?n + total (take j ns) < rank" "rank \<le> cum + ?n + total (take (Suc j) ns)"
      "bucket_lo (Suc i + j) \<le> percentile_loop (Suc i) (cum + ?n) rank ns"
      "percentile_loop (Suc i) (cum + ?n) rank ns \<le> bucket_hi (Suc i + j)"
      using Cons.IH[of "cum + ?n" "Suc i"] Cons.prems by (auto simp: add.assoc)
    then show ?thesis unfolding rest by (intro exI[of _ "Suc j"]) (simp add: add.assoc)
  qed
qed

lemma total_slots:
  assumes "length xs < 2 ^ 64"
  shows "total (take j (hi_Slots (hist_of xs))) = of_nat (length (filter (\<lambda>x. hist_slot x < min j HistSlots) xs))"
proof (induction j)
  case 0
  then show ?case by simp
next
  case (Suc j)
  show ?case
  proof (cases "j < HistSlots")
    case True
    have "slot_count j xs < 2 ^ 64" using assms slot_count_le[of j xs] by simp
    then have u: "unat (of_nat (slot_count j xs) :: uint64) = slot_count j xs"
      using of_nat_inverse[of "slot_count j xs", where 'a = 64] by simp
    have split: "length (filter (\<lambda>x. hist_slot x < Suc j) xs) = length (filter (\<lambda>x. hist_slot x < j) xs) + slot_count j xs"
      by (induction xs) (auto simp: slot_count_def less_Suc_eq)
    have "take (Suc j) (hi_Slots (hist_of xs)) = take j (hi_Slots (hist_of xs)) @ [of_nat (slot_count j xs)]"
      using True by (simp add: hist_of_slots take_Suc_conv_app_nth)
    then have "total (take (Suc j) (hi_Slots (hist_of xs))) = total (take j (hi_Slots (hist_of xs))) + of_nat (slot_count j xs)"
      using u by (simp add: total_def float_of_uint64_def del: of_nat_unat)
    then show ?thesis using Suc True split by simp
  next
    case False
    then show ?thesis using Suc by (simp add: hist_of_slots min_absorb2)
  qed
qed

text \<open>In a sorted list, counting the elements under and up to a value locates it.\<close>

lemma sorted_index_value:
  fixes bs :: "nat list"
  assumes s: "sorted bs" and j: "j < length bs" and lo: "length (filter (\<lambda>b. b < i) bs) \<le> j" and hi: "j < length (filter (\<lambda>b. b < Suc i) bs)"
  shows "bs ! j = i"
proof (rule ccontr)
  have len: "length (filter P bs) = card {m. m < length bs \<and> P (bs ! m)}" for P by (rule length_filter_conv_card)
  assume "bs ! j \<noteq> i"
  then consider "bs ! j < i" | "i < bs ! j" by linarith
  then show False
  proof cases
    case 1
    then have "{..j} \<subseteq> {m. m < length bs \<and> bs ! m < i}"
      using j sorted_nth_mono[OF s] by (force simp: le_less_trans)
    then have "card {..j} \<le> length (filter (\<lambda>b. b < i) bs)" unfolding len by (intro card_mono) simp_all
    with lo show False by simp
  next
    case 2
    then have "{m. m < length bs \<and> bs ! m < Suc i} \<subseteq> {..<j}"
      using sorted_nth_mono[OF s] by (force simp: not_less[symmetric])
    then have "length (filter (\<lambda>b. b < Suc i) bs) \<le> card {..<j}" unfolding len by (intro card_mono) simp_all
    with hi show False by simp
  qed
qed

lemma filter_sort_length: "length (filter P (map f (sort xs))) = length (filter (\<lambda>x. P (f x)) xs)"
proof -
  have "length (filter P (map f (sort xs))) = length (filter (P \<circ> f) (sort xs))" by (simp add: filter_map)
  also have "\<dots> = length (filter (P \<circ> f) xs)" by (metis filter_sort length_sort)
  finally show ?thesis by (simp add: comp_def)
qed

lemma percentile_bucket:
  assumes xs: "xs \<noteq> []" "length xs < 2 ^ 64" and q: "0 < q" "q \<le> 1"
    and k: "k = nat \<lceil>q * of_nat (length xs)\<rceil> - 1"
  shows "k < length xs \<and> bucket_lo (hist_slot (sort xs ! k)) \<le> Percentile q (hist_of xs) \<and>
    Percentile q (hist_of xs) \<le> bucket_hi (hist_slot (sort xs ! k))"
proof -
  let ?n = "length xs" and ?ns = "hi_Slots (hist_of xs)"
  define rank :: rat where "rank = q * of_nat ?n"
  have count: "float_of_uint64 (hi_Count (hist_of xs)) = of_nat ?n" "hi_Count (hist_of xs) \<noteq> 0"
  proof -
    have "unat (hi_Count (hist_of xs)) = ?n"
      using of_nat_inverse[of ?n, where 'a = 64] xs(2) by (simp add: hist_of_def hist_add_fields zero_hist_def)
    then show "float_of_uint64 (hi_Count (hist_of xs)) = of_nat ?n" "hi_Count (hist_of xs) \<noteq> 0"
      using xs(1) unat_0 by (auto simp: float_of_uint64_def simp del: of_nat_unat)
  qed
  have n: "0 < (of_nat ?n :: rat)" using xs(1) by simp
  have rank: "0 < rank" "rank \<le> of_nat ?n" using q n by (simp_all add: rank_def)
  have len: "length ?ns = HistSlots" by (simp add: hist_of_slots)
  have "total ?ns = of_nat ?n"
    using total_slots[OF xs(2), of HistSlots] len hist_slot_less by simp
  then obtain j where j: "j < HistSlots" "total (take j ?ns) < rank" "rank \<le> total (take (Suc j) ?ns)"
    and p: "bucket_lo j \<le> percentile_loop 0 0 rank ?ns" "percentile_loop 0 0 rank ?ns \<le> bucket_hi j"
    using percentile_loop_bucket[of 0 rank ?ns 0] rank len by (auto simp: HistSlots_def)
  have below: "of_nat (length (filter (\<lambda>x. hist_slot x < j) xs)) < rank"
    and upto: "rank \<le> of_nat (length (filter (\<lambda>x. hist_slot x < Suc j) xs))"
    using j total_slots[OF xs(2), of j] total_slots[OF xs(2), of "Suc j"] by (simp_all add: min_absorb1)
  define c where "c = nat \<lceil>rank\<rceil>"
  have c: "0 < c" "length (filter (\<lambda>x. hist_slot x < j) xs) < c" "c \<le> length (filter (\<lambda>x. hist_slot x < Suc j) xs)" "c \<le> ?n"
    using rank below upto unfolding c_def by (simp_all add: zless_nat_eq_int_zless less_ceiling_iff nat_le_iff ceiling_le_iff)
  have kc: "k = c - 1" by (simp add: k c_def rank_def)
  have "sorted_wrt (\<lambda>x y. hist_slot x \<le> hist_slot y) (sort xs)"
    by (rule sorted_wrt_mono_rel[OF _ sorted_sort]) (simp add: hist_slot_mono word_le_nat_alt)
  then have "sorted (map hist_slot (sort xs))" by (simp add: sorted_map)
  from sorted_index_value[OF this, of k j, unfolded filter_sort_length] have "hist_slot (sort xs ! k) = j"
    using c by (simp add: kc)
  moreover have "Percentile q (hist_of xs) = percentile_loop 0 0 rank ?ns"
    using count by (simp add: Percentile_def rank_def)
  ultimately show ?thesis using p c kc by simp
qed

section \<open>Differences\<close>

lemma highest_slot_ge:
  assumes "i < length slots" "slots ! i \<noteq> 0"
  shows "int i \<le> highest_slot slots" "highest_slot slots < int (length slots)"
proof -
  let ?f = "\<lambda>t i. if 0 < slots ! i then int i else t"
  have "foldl ?f (-1) [0..<n] < int n \<and> (i < n \<longrightarrow> int i \<le> foldl ?f (-1) [0..<n])" if "n \<le> length slots" for n
    using that assms(2)
  proof (induction n)
    case (Suc n)
    then show ?case by (auto simp: less_Suc_eq word_gt_0)
  qed simp
  from this[of "length slots"] assms(1)
  show "int i \<le> highest_slot slots" "highest_slot slots < int (length slots)" by (simp_all add: highest_slot_def)
qed

text \<open>
  The difference of two readings is the histogram of what was recorded between them, and
  its estimated maximum bounds every sample in the range of the histogram.
\<close>

lemma Sub_recorded:
  assumes len: "length (hi_Slots h) = HistSlots" and n: "unat (hi_Count h) + length ys < 2 ^ 64"
  defines "d \<equiv> Sub (foldl hist_add h ys) h"
  shows "hi_Slots d = hi_Slots (hist_of ys)" "hi_Count d = hi_Count (hist_of ys)" "hi_SumUs d = hi_SumUs (hist_of ys)"
    and "y \<in> set ys \<Longrightarrow> unat y < 2 ^ HistSlots \<Longrightarrow> y \<le> hi_MaxUs d"
proof -
  let ?h = "foldl hist_add h ys"
  have "unat (of_nat (length ys) :: uint64) = length ys"
    using n of_nat_inverse[of "length ys", where 'a = 64] by simp
  then have "unat (hi_Count ?h) = unat (hi_Count h) + length ys"
    using n by (simp add: hist_add_fields unat_word_ariths(1))
  then have noreset: "\<not> hi_Count ?h < hi_Count h" by (simp add: word_less_nat_alt)
  have slots: "map2 (-) (hi_Slots ?h) (hi_Slots h) = hi_Slots (hist_of ys)"
    by (rule nth_equalityI) (simp_all add: hist_add_fields hist_add_slots hist_of_slots len)
  have d: "d = (let t = highest_slot (hi_Slots (hist_of ys))
    in \<lparr>hi_Slots = hi_Slots (hist_of ys), hi_Count = hi_Count ?h - hi_Count h, hi_SumUs = hi_SumUs ?h - hi_SumUs h,
        hi_MaxUs = (if 0 \<le> t then min (push_bit (nat (t + 1)) 1) (max (hi_MaxUs ?h) 1) else 0)\<rparr>)"
    using noreset unfolding d_def Sub_def slots by (simp add: Let_def)
  show "hi_Slots d = hi_Slots (hist_of ys)" "hi_Count d = hi_Count (hist_of ys)" "hi_SumUs d = hi_SumUs (hist_of ys)"
    unfolding d by (simp_all add: Let_def hist_of_def hist_add_fields zero_hist_def)
  assume y: "y \<in> set ys" "unat y < 2 ^ HistSlots"
  let ?s = "hist_slot y"
  have cnt: "0 < slot_count ?s ys" using y(1) by (auto simp: slot_count_def filter_empty_conv)
  have "slot_count ?s ys < 2 ^ 64" using slot_count_le[of ?s ys] n by linarith
  then have "(of_nat (slot_count ?s ys) :: uint64) \<noteq> 0"
    using cnt of_nat_inverse[of "slot_count ?s ys", where 'a = 64] by auto
  then have s: "hi_Slots (hist_of ys) ! ?s \<noteq> 0" "?s < length (hi_Slots (hist_of ys))"
    using hist_slot_less[of y] by (simp_all add: hist_of_slots)
  note t = highest_slot_ge[OF s(2,1)]
  let ?t = "highest_slot (hi_Slots (hist_of ys))"
  have small: "nat (?t + 1) < 64" using t(2) by (simp add: hist_of_slots HistSlots_def)
  have "unat y < 2 ^ (?s + 1)"
  proof (cases "?s < HistSlots - 1")
    case False
    then have "?s + 1 = HistSlots" using hist_slot_less[of y] by simp
    then show ?thesis using y(2) by simp
  qed (use hist_slot_bounds in blast)
  also have "\<dots> \<le> 2 ^ nat (?t + 1)" using t(1) by (intro power_increasing) simp_all
  finally have "y \<le> push_bit (nat (?t + 1)) 1"
    unfolding word_le_nat_alt by (subst unat_push_bit_1[OF small]) simp
  moreover have "y \<le> max (hi_MaxUs ?h) 1" using hist_add_max(1)[OF y(1), of h] by (simp add: le_max_iff_disj)
  ultimately show "y \<le> hi_MaxUs d" using t(1) by (simp add: d Let_def)
qed

section \<open>Sliding windows\<close>

text \<open>
  The snapshot a window starts at: the newest one that is at least \<open>minAge\<close> old, or the
  oldest one there is.
\<close>

definition baseline :: "duration \<Rightarrow> gtime \<Rightarrow> histSample list \<Rightarrow> histSample" where
  "baseline minAge now ss =
     (let old = filter (\<lambda>s. minAge \<le> time_sub now (hs_at s)) ss in if old = [] then hd ss else last old)"

lemma trim_baseline:
  assumes "sorted (map hs_at ss)" "ss \<noteq> []"
  shows "hd (trim minAge now ss) = baseline minAge now ss \<and> trim minAge now ss \<noteq> [] \<and>
    (\<exists>pre. ss = pre @ trim minAge now ss \<and> (pre \<noteq> [] \<longrightarrow> minAge \<le> time_sub now (hs_at (hd (trim minAge now ss)))))"
  using assms
proof (induction minAge now ss rule: trim.induct)
  case (1 minAge now a b ss)
  let ?old = "filter (\<lambda>s. minAge \<le> time_sub now (hs_at s))"
  show ?case
  proof (cases "minAge \<le> time_sub now (hs_at b)")
    case True
    from "1.IH"[OF True] "1.prems" obtain pre where
      IH: "hd (trim minAge now (b # ss)) = baseline minAge now (b # ss)" "trim minAge now (b # ss) \<noteq> []"
      "b # ss = pre @ trim minAge now (b # ss)"
      and old: "pre \<noteq> [] \<longrightarrow> minAge \<le> time_sub now (hs_at (hd (trim minAge now (b # ss))))" by auto
    have "minAge \<le> time_sub now (hs_at (hd (trim minAge now (b # ss))))"
      using old IH(3) True by (cases pre) (metis append_Nil list.sel(1), simp)
    moreover have "baseline minAge now (a # b # ss) = baseline minAge now (b # ss)"
      using True by (simp add: baseline_def)
    ultimately show ?thesis using IH True by (auto intro!: exI[of _ "a # pre"])
  next
    case False
    have "\<not> minAge \<le> time_sub now (hs_at s)" if "s \<in> set (b # ss)" for s
    proof -
      have "hs_at b \<le> hs_at s" using "1.prems" that by auto
      then have "time_sub now (hs_at s) \<le> time_sub now (hs_at b)" by (rule time_sub_antimono)
      with False show ?thesis by linarith
    qed
    then have "?old (b # ss) = []" by (simp only: filter_empty_conv) blast
    then show ?thesis using False by (auto simp: baseline_def)
  qed
qed (auto simp: baseline_def)

text \<open>What a window keeps of the snapshots \<open>full\<close> it has seen by time \<open>t\<close>.\<close>

definition kept :: "duration \<Rightarrow> gtime \<Rightarrow> histSample list \<Rightarrow> histSample list \<Rightarrow> bool" where
  "kept minAge t full ss \<longleftrightarrow> (\<exists>pre. full = pre @ ss \<and> (full \<noteq> [] \<longrightarrow> ss \<noteq> []) \<and>
     (pre \<noteq> [] \<longrightarrow> minAge \<le> time_sub t (hs_at (hd ss))))"

lemma kept_baseline:
  assumes k: "kept minAge t full ss" and t: "t \<le> now" and sorted: "sorted (map hs_at full)" and ne: "full \<noteq> []"
  shows "hd (trim minAge now ss) = baseline minAge now full"
    and "kept minAge now (full @ [x]) (trim minAge now ss @ [x])"
proof -
  obtain pre where pre: "full = pre @ ss" "ss \<noteq> []" "pre \<noteq> [] \<longrightarrow> minAge \<le> time_sub t (hs_at (hd ss))"
    using k ne by (auto simp: kept_def)
  then have aged: "pre \<noteq> [] \<longrightarrow> minAge \<le> time_sub now (hs_at (hd ss))"
    using time_sub_mono[OF t] order_trans by blast
  have s: "sorted (map hs_at ss)" using sorted pre(1) by (simp add: sorted_append)
  obtain pre' where tr: "hd (trim minAge now ss) = baseline minAge now ss" "trim minAge now ss \<noteq> []"
    "ss = pre' @ trim minAge now ss" "pre' \<noteq> [] \<longrightarrow> minAge \<le> time_sub now (hs_at (hd (trim minAge now ss)))"
    using trim_baseline[OF s pre(2)] by blast
  have "baseline minAge now full = baseline minAge now ss"
  proof (cases "pre = []")
    case False
    then have "filter (\<lambda>s. minAge \<le> time_sub now (hs_at s)) ss \<noteq> []"
      using aged pre(2) hd_in_set by (fastforce simp: filter_empty_conv)
    then show ?thesis by (simp add: baseline_def pre(1))
  qed (simp add: pre(1))
  with tr(1) show "hd (trim minAge now ss) = baseline minAge now full" by simp
  have "full @ [x] = (pre @ pre') @ trim minAge now ss @ [x]" using pre(1) tr(3) by simp
  moreover have "pre @ pre' \<noteq> [] \<longrightarrow> minAge \<le> time_sub now (hs_at (hd (trim minAge now ss @ [x])))"
    using tr aged by (cases "pre' = []") auto
  ultimately show "kept minAge now (full @ [x]) (trim minAge now ss @ [x])"
    unfolding kept_def by (metis append_is_Nil_conv not_Cons_self2)
qed

type_synonym window_call = "uint32 \<times> gtime \<times> Hist"

definition window_run :: "duration \<Rightarrow> window_call list \<Rightarrow> HistWindow" where
  "window_run minAge cs = foldl (\<lambda>w (k, now, cur). fst (Window k now cur w)) (NewHistWindow minAge) cs"

definition seen_by :: "uint32 \<Rightarrow> window_call list \<Rightarrow> histSample list" where
  "seen_by key cs = map (\<lambda>(k, now, cur). \<lparr>hs_at = now, hs_h = cur\<rparr>) (filter (\<lambda>(k, _). k = key) cs)"

lemma seen_by_times: "sorted (map (\<lambda>(k, now, cur). now) cs) \<Longrightarrow> sorted (map hs_at (seen_by key cs))"
proof -
  have eq: "map hs_at (seen_by key cs) = map (\<lambda>(k, now, cur). now) (filter (\<lambda>(k, _). k = key) cs)"
    by (simp add: seen_by_def split_beta)
  assume "sorted (map (\<lambda>(k, now, cur). now) cs)"
  then show ?thesis unfolding eq by (rule sorted_filter)
qed

lemma hw_minAge_Window [simp]: "hw_minAge (fst (Window k now cur w)) = hw_minAge w"
  by (simp add: Window_def Let_def)

lemma window_run_kept:
  assumes "sorted (map (\<lambda>(k, now, cur). now) cs @ [t])"
  shows "hw_minAge (window_run minAge cs) = minAge \<and>
    kept minAge t (seen_by key cs) (mget [] (hw_keys (window_run minAge cs)) key)"
  using assms
proof (induction cs arbitrary: t rule: rev_induct)
  case Nil
  then show ?case by (simp add: window_run_def NewHistWindow_def kept_def seen_by_def)
next
  case (snoc c cs)
  obtain k now cur where c: "c = (k, now, cur)" by (metis prod_cases3)
  let ?w = "window_run minAge cs" and ?full = "seen_by key cs" and ?x = "\<lparr>hs_at = now, hs_h = cur\<rparr>"
  have IH: "hw_minAge ?w = minAge" "kept minAge now ?full (mget [] (hw_keys ?w) key)"
    using snoc.IH[of now] snoc.prems by (auto simp: c sorted_append)
  have run: "window_run minAge (cs @ [c]) = fst (Window k now cur ?w)" by (simp add: window_run_def c)
  have full: "seen_by key (cs @ [c]) = ?full @ (if k = key then [?x] else [])" by (simp add: seen_by_def c)
  have sorted: "sorted (map hs_at ?full)" using snoc.prems by (intro seen_by_times) (simp add: sorted_append)
  have le: "now \<le> t" using snoc.prems by (simp add: c sorted_append)
  have mono: "kept minAge t f ss" if "kept minAge now f ss" for f ss
    using that time_sub_mono[OF le] order_trans unfolding kept_def by blast
  show ?case
  proof (cases "k = key")
    case False
    then have "mget [] (hw_keys (fst (Window k now cur ?w))) key = mget [] (hw_keys ?w) key"
      by (simp add: Window_def Let_def mget_def map_of_update)
    then show ?thesis using IH mono False by (simp add: run full)
  next
    case True
    show ?thesis
    proof (cases "?full = []")
      case True': True
      then have "mget [] (hw_keys ?w) key = []" using IH(2) by (simp add: kept_def)
      then have "mget [] (hw_keys (fst (Window k now cur ?w))) key = [?x]"
        using True by (simp add: Window_def Let_def mget_def map_of_update)
      then show ?thesis using IH(1) True True' by (simp add: run full kept_def)
    next
      case False
      then have "mget [] (hw_keys ?w) key \<noteq> []" using IH(2) by (auto simp: kept_def)
      then have "mget [] (hw_keys (fst (Window k now cur ?w))) key = trim minAge now (mget [] (hw_keys ?w) key) @ [?x]"
        using True IH(1) by (simp add: Window_def Let_def mget_def[of "[]" "AList.update _ _ _"] map_of_update)
      then show ?thesis
        using kept_baseline(2)[OF IH(2) order_refl sorted False, of ?x] mono IH(1) True by (simp add: run full)
    qed
  qed
qed

lemma Window_baseline:
  assumes times: "sorted (map (\<lambda>(k, now, cur). now) cs @ [now])"
  shows "snd (Window key now cur (window_run minAge cs)) =
    (if seen_by key cs = [] then zero_hist else Sub cur (hs_h (baseline minAge now (seen_by key cs))))"
proof -
  let ?w = "window_run minAge cs"
  have inv: "hw_minAge ?w = minAge" "kept minAge now (seen_by key cs) (mget [] (hw_keys ?w) key)"
    using window_run_kept[OF times] by blast+
  have sorted: "sorted (map hs_at (seen_by key cs))" using times by (intro seen_by_times) (simp add: sorted_append)
  show ?thesis
  proof (cases "seen_by key cs = []")
    case True
    then show ?thesis using inv(2) by (simp add: kept_def Window_def Let_def)
  next
    case False
    then have "mget [] (hw_keys ?w) key \<noteq> []" using inv(2) by (auto simp: kept_def)
    then show ?thesis
      using False kept_baseline(1)[OF inv(2) order_refl sorted False] inv(1) by (simp add: Window_def Let_def)
  qed
qed

end
