(* ===== verification/Metric_Properties.thy ===== *)
theory Metric_Properties
  imports Poller Hist
begin

text \<open>The theorems of the store, the poller, the rates and the histograms.\<close>

section \<open>The store\<close>

text \<open>
  C15: whatever sequence of operations is applied to a new store, the histories it returns
  are the newest 120 values of the snapshots committed since the domain was last created,
  each computed from that snapshot, and likewise for the host; \<open>Get\<close> returns the latest
  snapshot of a domain exactly while it is known.
\<close>

theorem store_refines_log:
  assumes "is_order ord"
  shows "StoreHistory i (foldl (store_exec ord) NewDomainStore ops) = spec_history (ab_domains (foldl store_spec empty_spec ops) i) \<and>
    StoreHostHistory (foldl (store_exec ord) NewDomainStore ops) =
      \<lparr>hoh_CPU = map ho_CPUPercent (last_n HistoryLen (ab_hostLog (foldl store_spec empty_spec ops))),
       hoh_Mem = map MemUsedPercent (last_n HistoryLen (ab_hostLog (foldl store_spec empty_spec ops)))\<rparr> \<and>
    Get i (foldl (store_exec ord) NewDomainStore ops) =
      (case ab_domains (foldl store_spec empty_spec ops) i of
         None \<Rightarrow> (zero_snapshot, False) | Some x \<Rightarrow> (clone (al_latest x), True))"
  using StoreHistory_rel[OF store_rel_run[OF assms store_rel_new]] StoreHostHistory_rel[OF store_rel_run[OF assms store_rel_new]]
    Get_rel[OF store_rel_run[OF assms store_rel_new]] by blast

definition ex_ops :: "store_op list" where
  "ex_ops = [OpUpsert ''a'' (\<lambda>d. d\<lparr>d_Name := ''vm''\<rparr>), OpCommit 1, OpMutate ''a'' (\<lambda>d. d\<lparr>d_KVM := (d_KVM d)\<lparr>kvm_ExitRate := 5\<rparr>\<rparr>), OpCommit 2]"

theorem store_refines_log_witness:
  "dh_ExitRate (StoreHistory ''a'' (foldl (store_exec rev) NewDomainStore ex_ops)) = [0, 5]"
proof -
  have "dh_ExitRate (spec_history (ab_domains (foldl store_spec empty_spec ex_ops) ''a'')) = [0, 5]" by code_simp
  then show ?thesis using store_refines_log[OF is_order_rev, of "''a''" ex_ops] by simp
qed

lemma store_wf: "is_order ord \<Longrightarrow> wf_map (st_domains (foldl (store_exec ord) NewDomainStore ops))"
  using store_rel_run[OF _ store_rel_new, of ord ops] by (simp add: store_rel_def)

text \<open>
  \<open>Snapshot\<close> returns one copy of the latest snapshot of every known domain and
  nothing else, sorted by name, in whatever order the map is visited.
\<close>

lemma Snapshot_correct:
  assumes "is_order ord" "is_order ord'" and s: "s = foldl (store_exec ord) NewDomainStore ops"
  shows "sorted (map d_Name (Snapshot ord' s)) \<and>
    mset (Snapshot ord' s) = mset (map (\<lambda>(i, e). clone (en_latest e)) (st_domains s))"
proof -
  let ?f = "\<lambda>i. map_option (\<lambda>e. clone (en_latest e)) (map_of (st_domains s) i)"
  have "mset (List.map_filter ?f (ord' (mkeys (st_domains s)))) = mset (List.map_filter ?f (mkeys (st_domains s)))"
    by (rule mset_map_filter[OF is_order_mset[OF assms(2)]])
  also have "\<dots> = mset (map (\<lambda>(i, e). clone (en_latest e)) (st_domains s))"
    using map_filter_keys[OF store_wf[OF assms(1)], of "\<lambda>e. clone (en_latest e)" ops] by (simp add: s)
  finally show ?thesis by (simp add: Snapshot_def)
qed

section \<open>The poller\<close>

text \<open>
  A failing discoverer keeps the domains only it reports for ten seconds after its
  last success and no longer: at a tick where it fails, such a domain is kept if and only
  if the success is at most that old.
\<close>

lemma failing_discoverer_grace:
  assumes res: "Tick ord start now w p = (w', p', gone)" and ord: "is_order ord"
    and one: "po_discoverers p = [d]" and wf: "wf_map (st_domains (po_store p))"
    and disc: "keeps_wf d" and coll: "\<forall>c \<in> set (po_collectors p). keeps_ids c"
    and fails: "co_Collect d w (po_store p) = (w1, po_store p, Some err)"
    and last: "map_of (po_lastAlive p) (co_Name d) = Some a" and known: "i \<in> domain_ids (po_store p)" "i \<in> set (as_ids a)"
  shows "i \<in> domain_ids (po_store p') \<longleftrightarrow> start - as_at a \<le> discoveryGrace"
proof -
  obtain w2 s2 la2 al2 where f: "foldl (discover start) (w, po_store p, po_lastAlive p, []) (po_discoverers p) = (w2, s2, la2, al2)"
    by (metis prod_cases4)
  then have la: "la2 = po_lastAlive p" and s: "s2 = po_store p"
    using fails by (simp_all add: one discover_def Let_def)
  have "domain_ids (po_store p') = {i \<in> domain_ids s2. i \<in> in_grace start (po_lastAlive p') (co_Name d)}"
    and "po_lastAlive p' = la2"
    using Tick_domains[OF res ord f] disc coll wf one by simp_all
  moreover have "time_sub start (as_at a) \<le> discoveryGrace \<longleftrightarrow> start - as_at a \<le> discoveryGrace"
    by (rule time_sub_le) (simp_all add: discoveryGrace_def second_def min_duration_def max_duration_def)
  ultimately show ?thesis using known last by (simp add: la s in_grace_def)
qed

section \<open>Rates\<close>

text \<open>
  For a counter that does not fall, observed at increasing times, the rates returned,
  weighted with the seconds between the observations, add up to the whole increase of the
  counter since the first observation; and no rate is ever negative.
\<close>

lemma rates_add_up:
  assumes "map_of (rt_prev r) key = Some p" "sorted (rs_v p # map snd xs)" "sorted_wrt (<) (rs_t p # map fst xs)"
  shows "weighted (rs_t p) (map fst xs) (rates_of key xs r) = last (rs_v p # map snd xs) - rs_v p \<and>
    (\<forall>v now r'. 0 \<le> snd (rate key v now r'))"
  using rates_telescope[OF assms] rate_nonneg by blast

text \<open>
  After a sweep the rate tracker remembers exactly the counters observed since the
  sweep before it, although its tick counter wraps: it does not grow with the counters
  of domains that are gone, and a counter that reappears starts anew.
\<close>

lemma sweep_forgets:
  assumes "no_sweep cs"
  shows "set (mkeys (rt_prev (foldl (table_exec (\<lambda>k (v, now). observe k v now) sweep)
      (foldl (table_exec (\<lambda>k (v, now). observe k v now) sweep) newRateTracker ds) (Sweep # cs @ [Sweep])))) = touched cs"
  by (rule rates.known_after_sweep[OF rates.invar_exec[OF rates.invar_init] assms])

section \<open>Histograms\<close>

text \<open>
  C16: the estimate of a percentile is in the bucket of the sample it estimates: for
  samples recorded in a histogram and \<open>0 < q \<le> 1\<close>, it lies between the bounds of the
  bucket that holds the sample of rank \<open>\<lceil>q * n\<rceil>\<close>, so it is off by less than a factor of
  two inside the range of the histogram.
\<close>

theorem Percentile_in_bucket:
  assumes "xs \<noteq> []" "length xs < 2 ^ 64" "0 < q" "q \<le> 1" "k = nat \<lceil>q * of_nat (length xs)\<rceil> - 1"
  shows "k < length xs \<and> bucket_lo (hist_slot (sort xs ! k)) \<le> Percentile q (hist_of xs) \<and>
    Percentile q (hist_of xs) \<le> bucket_hi (hist_slot (sort xs ! k))"
  using assms by (rule percentile_bucket)

theorem Percentile_in_bucket_witness:
  "bucket_lo (hist_slot (sort [100, 3000, 50] ! 1)) \<le> Percentile (1 / 2) (hist_of [100, 3000, 50])"
proof -
  have "\<lceil>3 / 2 :: rat\<rceil> = 2" by (rule ceiling_unique) simp_all
  then show ?thesis using Percentile_in_bucket[of "[100, 3000, 50]" "1 / 2" 1] by simp
qed

text \<open>
  The difference of two readings of a histogram is the histogram of the samples
  recorded between them (slots, count and sum, also where the 64-bit sum wraps), and its
  estimated maximum is at least every such sample in the range of the histogram.
\<close>

lemma Sub_is_window:
  assumes "length (hi_Slots h) = HistSlots" and "unat (hi_Count h) + length ys < 2 ^ 64"
  shows "hi_Slots (Sub (foldl hist_add h ys) h) = hi_Slots (hist_of ys) \<and>
    hi_Count (Sub (foldl hist_add h ys) h) = hi_Count (hist_of ys) \<and>
    hi_SumUs (Sub (foldl hist_add h ys) h) = hi_SumUs (hist_of ys) \<and>
    (\<forall>y \<in> set ys. unat y < 2 ^ HistSlots \<longrightarrow> y \<le> hi_MaxUs (Sub (foldl hist_add h ys) h))"
  using Sub_recorded[OF assms] by blast

text \<open>
  A window starts at the newest earlier reading of its key that is at least \<open>minAge\<close>
  old, or at the oldest one, however many readings have been dropped and whatever other
  keys were read in between; the first reading of a key gives an empty histogram.
\<close>

lemma Window_starts_at_baseline:
  assumes "sorted (map (\<lambda>(k, now, cur). now) cs @ [now])"
  shows "snd (Window key now cur (window_run minAge cs)) =
    (if seen_by key cs = [] then zero_hist else Sub cur (hs_h (baseline minAge now (seen_by key cs))))"
  using assms by (rule Window_baseline)

end
