(* ===== verification/Go_Strings.thy ===== *)
theory Go_Strings
  imports Prelude
begin

text \<open>
  The parts of Go's \<open>strings\<close>, \<open>strconv\<close> and \<open>fmt\<close> packages the program uses, on strings
  as lists of bytes. Letter case and white space are those of ASCII. Every separator the
  program splits at is a single byte, so \<open>Cut\<close>, \<open>Split\<close> and \<open>TrimRight\<close> take a character.
\<close>

section \<open>Package strings\<close>

definition HasPrefix :: "string \<Rightarrow> string \<Rightarrow> bool" where
  "HasPrefix s p \<longleftrightarrow> take (length p) s = p"

definition CutPrefix :: "string \<Rightarrow> string \<Rightarrow> string \<times> bool" where
  "CutPrefix s p = (if HasPrefix s p then (drop (length p) s, True) else (s, False))"

definition TrimPrefix :: "string \<Rightarrow> string \<Rightarrow> string" where
  "TrimPrefix s p = fst (CutPrefix s p)"

fun Contains :: "string \<Rightarrow> string \<Rightarrow> bool" where
  "Contains [] sub = (sub = [])"
| "Contains (c # s) sub = (HasPrefix (c # s) sub \<or> Contains s sub)"

definition Cut :: "string \<Rightarrow> char \<Rightarrow> string \<times> string \<times> bool" where
  "Cut s c =
     (if c \<in> set s then (takeWhile (\<lambda>x. x \<noteq> c) s, tl (dropWhile (\<lambda>x. x \<noteq> c) s), True)
      else (s, [], False))"

fun Split :: "string \<Rightarrow> char \<Rightarrow> string list" where
  "Split [] c = [[]]"
| "Split (x # xs) c =
     (if x = c then [] # Split xs c
      else (case Split xs c of [] \<Rightarrow> [[x]] | p # ps \<Rightarrow> (x # p) # ps))"

fun Join :: "string list \<Rightarrow> string \<Rightarrow> string" where
  "Join [] sep = []"
| "Join [p] sep = p"
| "Join (p # q # ps) sep = p @ sep @ Join (q # ps) sep"

definition TrimRight :: "string \<Rightarrow> char \<Rightarrow> string" where
  "TrimRight s c = rev (dropWhile (\<lambda>x. x = c) (rev s))"

definition is_space :: "char \<Rightarrow> bool" where
  "is_space c \<longleftrightarrow> c \<in> set [CHR 0x09, CHR 0x0A, CHR 0x0B, CHR 0x0C, CHR 0x0D, CHR '' '']"

definition TrimSpace :: "string \<Rightarrow> string" where
  "TrimSpace s = rev (dropWhile is_space (rev (dropWhile is_space s)))"

fun fields_acc :: "string \<Rightarrow> string \<Rightarrow> string list" where
  "fields_acc w [] = (if w = [] then [] else [w])"
| "fields_acc w (c # s) =
     (if is_space c then (if w = [] then fields_acc [] s else w # fields_acc [] s)
      else fields_acc (w @ [c]) s)"

definition Fields :: "string \<Rightarrow> string list" where
  "Fields s = fields_acc [] s"

definition to_lower :: "char \<Rightarrow> char" where
  "to_lower c = (let n = of_char c :: nat in if 65 \<le> n \<and> n \<le> 90 then char_of (n + 32) else c)"

definition ToLower :: "string \<Rightarrow> string" where
  "ToLower s = map to_lower s"

definition EqualFold :: "string \<Rightarrow> string \<Rightarrow> bool" where
  "EqualFold s t \<longleftrightarrow> ToLower s = ToLower t"

text \<open>
  The lines a \<open>bufio.Scanner\<close> yields: without their ends, a carriage return before the end
  included, and without an empty rest. Lines over its limit of 64 kB are not modelled.
\<close>

definition strip_cr :: "string \<Rightarrow> string" where
  "strip_cr l = (if l \<noteq> [] \<and> last l = CHR 0x0D then butlast l else l)"

definition scan_lines :: "string \<Rightarrow> string list" where
  "scan_lines s = (let ls = Split s (CHR 0x0A) in map strip_cr (if last ls = [] then butlast ls else ls))"

subsection \<open>Facts about strings\<close>

lemma HasPrefix_append [simp]: "HasPrefix (p @ s) p"
  by (simp add: HasPrefix_def)

lemma HasPrefix_iff: "HasPrefix s p \<longleftrightarrow> (\<exists>t. s = p @ t)"
  by (metis HasPrefix_append HasPrefix_def append_take_drop_id)

lemma HasPrefix_Nil [simp]: "HasPrefix s []"
  by (simp add: HasPrefix_def)

lemma CutPrefix_append [simp]: "CutPrefix (p @ s) p = (s, True)"
  by (simp add: CutPrefix_def)

lemma Contains_append: "Contains (a @ sub @ b) sub"
proof (induction a)
  case Nil
  then show ?case by (cases "sub @ b") (auto, metis HasPrefix_append)
next
  case (Cons c a)
  then show ?case by simp
qed

lemma Cut_hit [simp]: "c \<notin> set a \<Longrightarrow> Cut (a @ c # b) c = (a, b, True)"
  by (induction a) (auto simp: Cut_def)

lemma Cut_miss [simp]: "c \<notin> set a \<Longrightarrow> Cut a c = (a, [], False)"
  by (simp add: Cut_def)

lemma Split_neq_Nil [simp]: "Split s c \<noteq> []"
  by (induction s) (auto split: list.splits)

lemma Split_no_sep: "c \<notin> set a \<Longrightarrow> Split a c = [a]"
  by (induction a) auto

lemma Split_append: "c \<notin> set a \<Longrightarrow> Split (a @ c # b) c = a # Split b c"
  by (induction a) auto

lemma Split_Join:
  "ps \<noteq> [] \<Longrightarrow> (\<forall>p \<in> set ps. c \<notin> set p) \<Longrightarrow> Split (Join ps [c]) c = ps"
  by (induction ps "[c]" rule: Join.induct) (auto simp: Split_no_sep Split_append)

lemma Join_Split: "Join (Split s c) [c] = s"
proof (induction s)
  case Nil
  then show ?case by simp
next
  case (Cons x s)
  obtain p ps where sp: "Split s c = p # ps" by (cases "Split s c") auto
  with Cons show ?case by (cases ps) auto
qed

lemma Split_parts_no_sep: "p \<in> set (Split s c) \<Longrightarrow> c \<notin> set p"
proof (induction s arbitrary: p)
  case Nil
  then show ?case by simp
next
  case (Cons x s)
  obtain q qs where sp: "Split s c = q # qs" by (cases "Split s c") auto
  with Cons show ?case by (auto split: if_splits)
qed

lemma TrimRight_snoc [simp]: "TrimRight (s @ [c]) c = TrimRight s c"
  by (simp add: TrimRight_def)

lemma TrimRight_keep: "s = [] \<or> last s \<noteq> c \<Longrightarrow> TrimRight s c = s"
  by (cases s rule: rev_cases) (auto simp: TrimRight_def)

lemma dropWhile_hd: "xs \<noteq> [] \<Longrightarrow> \<not> P (hd xs) \<Longrightarrow> dropWhile P xs = xs"
  by (cases xs) auto

lemma TrimSpace_keep:
  "s \<noteq> [] \<Longrightarrow> \<not> is_space (hd s) \<Longrightarrow> \<not> is_space (last s) \<Longrightarrow> TrimSpace s = s"
  by (simp add: TrimSpace_def dropWhile_hd hd_rev)

section \<open>Package strconv\<close>

datatype num_error = ErrSyntax | ErrRange

definition digit_char :: "nat \<Rightarrow> char" where
  "digit_char d = (if d < 10 then char_of (48 + d) else char_of (87 + d))"

definition digit_val :: "char \<Rightarrow> nat option" where
  "digit_val c =
     (let n = of_char c :: nat
      in if 48 \<le> n \<and> n \<le> 57 then Some (n - 48)
         else if 97 \<le> n \<and> n \<le> 122 then Some (n - 87)
         else if 65 \<le> n \<and> n \<le> 90 then Some (n - 55)
         else None)"

text \<open>
  The digit loop of \<open>ParseUint\<close>: a byte that is no digit of the base is a syntax error,
  and a value over the maximum is a range error as soon as it is met.
\<close>

fun uint_loop :: "nat \<Rightarrow> nat \<Rightarrow> nat \<Rightarrow> string \<Rightarrow> num_error + nat" where
  "uint_loop b maxv n [] = Inr n"
| "uint_loop b maxv n (c # s) =
     (case digit_val c of
        None \<Rightarrow> Inl ErrSyntax
      | Some d \<Rightarrow>
          if b \<le> d then Inl ErrSyntax
          else if maxv < n * b + d then Inl ErrRange
          else uint_loop b maxv (n * b + d) s)"

definition ParseUint :: "string \<Rightarrow> nat \<Rightarrow> nat \<Rightarrow> num_error + nat" where
  "ParseUint s base bits = (if s = [] then Inl ErrSyntax else uint_loop base (2 ^ bits - 1) 0 s)"

text \<open>The value a caller sees that ignores the error: 0 or, out of range, the maximum.\<close>

definition ParseUint_value :: "string \<Rightarrow> nat \<Rightarrow> nat \<Rightarrow> nat" where
  "ParseUint_value s base bits =
     (case ParseUint s base bits of
        Inr n \<Rightarrow> n | Inl ErrSyntax \<Rightarrow> 0 | Inl ErrRange \<Rightarrow> 2 ^ bits - 1)"

definition Atoi :: "string \<Rightarrow> num_error + int" where
  "Atoi s =
     (let neg = (s \<noteq> [] \<and> hd s = CHR ''-'');
          body = (if s \<noteq> [] \<and> (hd s = CHR ''-'' \<or> hd s = CHR ''+'') then tl s else s)
      in case ParseUint body 10 64 of
           Inl e \<Rightarrow> Inl e
         | Inr n \<Rightarrow>
             if \<not> neg \<and> 2 ^ 63 \<le> n \<or> neg \<and> 2 ^ 63 < n then Inl ErrRange
             else Inr (if neg then - int n else int n))"

section \<open>Package fmt\<close>

fun show_base :: "nat \<Rightarrow> nat \<Rightarrow> string" where
  "show_base b n =
     (if b < 2 \<or> n < b then [digit_char n] else show_base b (n div b) @ [digit_char (n mod b)])"

declare show_base.simps [simp del]

text \<open>\<open>%d\<close> of an unsigned and of a signed value, \<open>%x\<close> and \<open>%#x\<close> of an unsigned one.\<close>

definition show_nat :: "nat \<Rightarrow> string" where
  "show_nat n = show_base 10 n"

definition show_int :: "int \<Rightarrow> string" where
  "show_int i = (if i < 0 then CHR ''-'' # show_nat (nat (- i)) else show_nat (nat i))"

definition show_hex :: "nat \<Rightarrow> string" where
  "show_hex n = show_base 16 n"

definition show_0x :: "nat \<Rightarrow> string" where
  "show_0x n = ''0x'' @ show_hex n"

text \<open>\<open>%.pf\<close>: the nearest decimal with \<open>p\<close> places, ties to even.\<close>

definition round_half_even :: "rat \<Rightarrow> int" where
  "round_half_even q =
     (let f = \<lfloor>q\<rfloor>; d = q - of_int f
      in if d < 1 / 2 then f else if 1 / 2 < d then f + 1 else if even f then f else f + 1)"

definition show_fixed :: "nat \<Rightarrow> float64 \<Rightarrow> string" where
  "show_fixed p v =
     (let s = show_nat (nat (round_half_even (\<bar>v\<bar> * 10 ^ p)));
          s = replicate (p + 1 - length s) (CHR ''0'') @ s;
          i = length s - p;
          body = (if p = 0 then s else take i s @ ''.'' @ drop i s)
      in if v < 0 then CHR ''-'' # body else body)"

subsection \<open>Facts about numbers in text\<close>

lemma digit_val_digit_char: "d < 36 \<Longrightarrow> digit_val (digit_char d) = Some d"
  by (auto simp: digit_val_def digit_char_def Let_def)

lemma uint_loop_append:
  "uint_loop b maxv n (s @ t) =
     (case uint_loop b maxv n s of Inl e \<Rightarrow> Inl e | Inr m \<Rightarrow> uint_loop b maxv m t)"
  by (induction b maxv n s rule: uint_loop.induct) (auto split: option.splits)

lemma uint_loop_show_base:
  "2 \<le> b \<Longrightarrow> b \<le> 36 \<Longrightarrow> n \<le> maxv \<Longrightarrow> uint_loop b maxv 0 (show_base b n) = Inr n"
proof (induction b n rule: show_base.induct)
  case (1 b n)
  show ?case
  proof (cases "n < b")
    case True
    with "1.prems" show ?thesis
      by (simp add: show_base.simps[of b n] digit_val_digit_char)
  next
    case False
    have "uint_loop b maxv 0 (show_base b (n div b)) = Inr (n div b)"
      using "1.prems" False by (intro "1.IH") (auto intro: le_trans[OF div_le_dividend])
    moreover have lt: "n mod b < b" "\<not> b \<le> n mod b" using "1.prems" by (simp_all add: not_le)
    moreover have "digit_val (digit_char (n mod b)) = Some (n mod b)"
      using lt "1.prems"(2) by (intro digit_val_digit_char) linarith
    ultimately show ?thesis
      using "1.prems" False by (simp add: show_base.simps[of b n] uint_loop_append)
  qed
qed

lemma show_base_neq_Nil [simp]: "show_base b n \<noteq> []"
  by (subst show_base.simps) simp

lemma ParseUint_show_nat: "n < 2 ^ bits \<Longrightarrow> ParseUint (show_nat n) 10 bits = Inr n"
  by (simp add: ParseUint_def show_nat_def uint_loop_show_base less_imp_le_nat nat_le_real_less)

lemma show_nat_inj: "show_nat m = show_nat n \<Longrightarrow> m = n"
proof -
  assume eq: "show_nat m = show_nat n"
  have m: "uint_loop 10 (max m n) 0 (show_nat m) = Inr m"
    unfolding show_nat_def by (rule uint_loop_show_base) simp_all
  have "uint_loop 10 (max m n) 0 (show_nat n) = Inr n"
    unfolding show_nat_def by (rule uint_loop_show_base) simp_all
  then show "m = n" using m unfolding eq by simp
qed

lemma show_nat_inj_iff [simp]: "show_nat m = show_nat n \<longleftrightarrow> m = n"
  using show_nat_inj by blast

lemma show_base_digits:
  "2 \<le> b \<Longrightarrow> b \<le> 36 \<Longrightarrow> c \<in> set (show_base b n) \<Longrightarrow> \<exists>d < b. c = digit_char d"
proof (induction b n rule: show_base.induct)
  case (1 b n)
  show ?case
  proof (cases "n < b")
    case True
    with "1.prems" show ?thesis by (auto simp: show_base.simps[of b n])
  next
    case False
    with "1.prems" consider "c \<in> set (show_base b (n div b))" | "c = digit_char (n mod b)"
      by (auto simp: show_base.simps[of b n])
    then show ?thesis
    proof cases
      case 1
      with "1.IH" "1.prems" False show ?thesis by auto
    next
      case 2
      with "1.prems" show ?thesis by (intro exI[of _ "n mod b"]) simp
    qed
  qed
qed

lemma show_nat_digits: "c \<in> set (show_nat n) \<Longrightarrow> 48 \<le> (of_char c :: nat) \<and> (of_char c :: nat) \<le> 57"
  using show_base_digits[of 10 c n] by (auto simp: show_nat_def digit_char_def)

lemma show_nat_neq_Nil [simp]: "show_nat n \<noteq> []"
  by (simp add: show_nat_def)

lemma show_nat_no_char:
  "\<not> (48 \<le> (of_char c :: nat) \<and> (of_char c :: nat) \<le> 57) \<Longrightarrow> c \<notin> set (show_nat n)"
  using show_nat_digits by blast

lemma Atoi_show_int:
  assumes "- (2 ^ 63) \<le> i" and "i < 2 ^ 63"
  shows "Atoi (show_int i) = Inr i"
proof (cases "i < 0")
  case True
  then have "ParseUint (show_nat (nat (- i))) 10 64 = Inr (nat (- i))"
    using assms by (intro ParseUint_show_nat) (simp add: nat_less_iff)
  then show ?thesis
    using True assms by (simp add: Atoi_def show_int_def nat_le_iff)
next
  case False
  then have parse: "ParseUint (show_nat (nat i)) 10 64 = Inr (nat i)"
    using assms by (intro ParseUint_show_nat) (simp add: nat_less_iff)
  have "hd (show_nat (nat i)) \<in> set (show_nat (nat i))" by simp
  then have "hd (show_nat (nat i)) \<noteq> CHR ''-''" "hd (show_nat (nat i)) \<noteq> CHR ''+''"
    using show_nat_digits by fastforce+
  then show ?thesis
    using False assms parse by (simp add: Atoi_def show_int_def nat_le_iff le_nat_iff)
qed

lemmas gostring_eval =
  HasPrefix_def CutPrefix_def TrimPrefix_def Cut_def TrimRight_def TrimSpace_def Fields_def
  is_space_def ToLower_def to_lower_def

end
