(* ===== verification/Decode.thy ===== *)
theory Decode
  imports Go_Strings Store
begin

text \<open>
  \<open>internal/probe/decode.go\<close>: names of exit reasons, exceptions, signals, drop reasons and
  block devices. The host architecture, the text of \<open>/proc/cpuinfo\<close>, the kernel's type
  information and the sysfs files are arguments.
\<close>

section \<open>Exit reasons\<close>

datatype ExitArch = ArchVMX | ArchSVM | ArchARM64 | ArchUnknown

fun ExitArchString :: "ExitArch \<Rightarrow> string" where
  "ExitArchString ArchVMX = ''vmx''"
| "ExitArchString ArchSVM = ''svm''"
| "ExitArchString ArchARM64 = ''arm64''"
| "ExitArchString ArchUnknown = ''unknown''"

text \<open>The first call computes the architecture, later ones return it; \<open>cache\<close> is the result of the once.\<close>

definition detect_arch :: "string \<Rightarrow> string option \<Rightarrow> ExitArch" where
  "detect_arch goarch cpuinfo =
     (if goarch = ''arm64'' then ArchARM64
      else if goarch = ''amd64'' \<or> goarch = ''386'' then
        (case cpuinfo of
           None \<Rightarrow> ArchVMX
         | Some s \<Rightarrow> if Contains s ''AuthenticAMD'' \<or> Contains s ''HygonGenuine'' then ArchSVM else ArchVMX)
      else ArchUnknown)"

definition HostExitArch :: "string \<Rightarrow> string option \<Rightarrow> ExitArch option \<Rightarrow> ExitArch option \<times> ExitArch" where
  "HostExitArch goarch cpuinfo cache =
     (let a = (case cache of Some a \<Rightarrow> a | None \<Rightarrow> detect_arch goarch cpuinfo) in (Some a, a))"

definition ExitReasonKey :: "ExitArch \<Rightarrow> uint32 \<Rightarrow> uint32" where
  "ExitReasonKey arch raw = (if arch = ArchVMX then raw AND 0xffff else raw)"

definition vmxExits :: "(nat, string) gomap" where
  "vmxExits = [
    (0, ''EXCEPTION_NMI''), (1, ''EXTERNAL_INTERRUPT''), (2, ''TRIPLE_FAULT''), (3, ''INIT_SIGNAL''),
     (4, ''SIPI_SIGNAL''), (7, ''INTERRUPT_WINDOW''), (8, ''NMI_WINDOW''), (9, ''TASK_SWITCH''),
     (10, ''CPUID''), (12, ''HLT''), (13, ''INVD''), (14, ''INVLPG''), (15, ''RDPMC''),
     (16, ''RDTSC''), (18, ''VMCALL''), (19, ''VMCLEAR''), (20, ''VMLAUNCH''), (21, ''VMPTRLD''),
     (22, ''VMPTRST''), (23, ''VMREAD''), (24, ''VMRESUME''), (25, ''VMWRITE''), (26, ''VMOFF''),
     (27, ''VMON''), (28, ''CR_ACCESS''), (29, ''DR_ACCESS''), (30, ''IO_INSTRUCTION''),
     (31, ''MSR_READ''), (32, ''MSR_WRITE''), (33, ''INVALID_STATE''), (34, ''MSR_LOAD_FAIL''),
     (36, ''MWAIT''), (37, ''MONITOR_TRAP_FLAG''), (39, ''MONITOR''), (40, ''PAUSE''),
     (41, ''MCE_DURING_VMENTRY''), (43, ''TPR_BELOW_THRESHOLD''), (44, ''APIC_ACCESS''),
     (45, ''EOI_INDUCED''), (46, ''GDTR_IDTR''), (47, ''LDTR_TR''), (48, ''EPT_VIOLATION''),
     (49, ''EPT_MISCONFIG''), (50, ''INVEPT''), (51, ''RDTSCP''), (52, ''PREEMPTION_TIMER''),
     (53, ''INVVPID''), (54, ''WBINVD''), (55, ''XSETBV''), (56, ''APIC_WRITE''), (57, ''RDRAND''),
     (58, ''INVPCID''), (59, ''VMFUNC''), (60, ''ENCLS''), (61, ''RDSEED''), (62, ''PML_FULL''),
     (63, ''XSAVES''), (64, ''XRSTORS''), (67, ''UMWAIT''), (68, ''TPAUSE''), (74, ''BUS_LOCK''),
     (75, ''NOTIFY'')]"

definition svmExits :: "(nat, string) gomap" where
  "svmExits = [
    (96, ''INTR''), (97, ''NMI''), (98, ''SMI''), (99, ''INIT''), (100, ''VINTR''),
     (101, ''CR0_SEL_WRITE''), (102, ''IDTR_READ''), (103, ''GDTR_READ''), (104, ''LDTR_READ''),
     (105, ''TR_READ''), (106, ''IDTR_WRITE''), (107, ''GDTR_WRITE''), (108, ''LDTR_WRITE''),
     (109, ''TR_WRITE''), (110, ''RDTSC''), (111, ''RDPMC''), (112, ''PUSHF''), (113, ''POPF''),
     (114, ''CPUID''), (115, ''RSM''), (116, ''IRET''), (117, ''SWINT''), (118, ''INVD''),
     (119, ''PAUSE''), (120, ''HLT''), (121, ''INVLPG''), (122, ''INVLPGA''), (123, ''IOIO''),
     (124, ''MSR''), (125, ''TASK_SWITCH''), (126, ''FERR_FREEZE''), (127, ''SHUTDOWN''),
     (128, ''VMRUN''), (129, ''VMMCALL''), (130, ''VMLOAD''), (131, ''VMSAVE''), (132, ''STGI''),
     (133, ''CLGI''), (134, ''SKINIT''), (135, ''RDTSCP''), (136, ''ICEBP''), (137, ''WBINVD''),
     (138, ''MONITOR''), (139, ''MWAIT''), (140, ''MWAIT_COND''), (141, ''XSETBV''), (142, ''RDPRU''),
     (143, ''EFER_WRITE_TRAP''), (160, ''INVLPGB''), (161, ''INVLPGB_ILLEGAL''), (162, ''INVPCID''),
     (163, ''MCOMMIT''), (165, ''BUS_LOCK''), (166, ''IDLE_HLT''), (1024, ''NPF''),
     (1025, ''AVIC_INCOMPLETE_IPI''), (1026, ''AVIC_UNACCELERATED_ACCESS''), (1027, ''VMGEXIT''),
     (4294967295, ''ERR'')]"

definition x86Vectors :: "string list" where
  "x86Vectors = [
    ''DE'', ''DB'', ''NMI'', ''BP'', ''OF'', ''BR'', ''UD'', ''NM'', ''DF'', ''CSO'', ''TS'', ''NP'',
     ''SS'', ''GP'', ''PF'', ''15'', ''MF'', ''AC'', ''MC'', ''XM'', ''VE'', ''CP'']"

definition show_w :: "'a::len word \<Rightarrow> string" where
  "show_w w = show_nat (unat w)"

definition X86VectorName :: "uint32 \<Rightarrow> string" where
  "X86VectorName v =
     (if unat v < length x86Vectors then ''#'' @ x86Vectors ! unat v else ''#'' @ show_w v)"

definition svmExitName :: "uint32 \<Rightarrow> string" where
  "svmExitName code =
     (if code \<le> 0x00f then ''READ_CR'' @ show_w code
      else if code \<le> 0x01f then ''WRITE_CR'' @ show_w (code - 0x10)
      else if code \<le> 0x02f then ''READ_DR'' @ show_w (code - 0x20)
      else if code \<le> 0x03f then ''WRITE_DR'' @ show_w (code - 0x30)
      else if code \<le> 0x05f then ''EXCP_'' @ X86VectorName (code - 0x40)
      else if 0x090 \<le> code \<and> code \<le> 0x09f then ''CR'' @ show_w (code - 0x90) @ ''_WRITE_TRAP''
      else case map_of svmExits (unat code) of
             Some n \<Rightarrow> n
           | None \<Rightarrow> ''SVM_'' @ show_0x (unat code))"

definition arm64ESR :: "(nat, string) gomap" where
  "arm64ESR = [
    (0, ''UNKNOWN''), (1, ''WFx''), (3, ''CP15_32''), (4, ''CP15_64''), (5, ''CP14_MR''),
     (6, ''CP14_LS''), (7, ''FP_ASIMD''), (12, ''CP14_64''), (14, ''ILL''), (17, ''SVC32''),
     (21, ''SVC64''), (22, ''HVC64''), (23, ''SMC64''), (24, ''SYS64''), (25, ''SVE''), (28, ''FPAC''),
     (32, ''IABT_LOW''), (34, ''PC_ALIGN''), (36, ''DABT_LOW''), (38, ''SP_ALIGN''),
     (40, ''FP_EXC32''), (44, ''FP_EXC64''), (47, ''SERROR''), (48, ''BREAKPT_LOW''),
     (50, ''SOFTSTP_LOW''), (52, ''WATCHPT_LOW''), (56, ''BKPT32''), (60, ''BRK64'')]"

definition ExitReasonName :: "ExitArch \<Rightarrow> uint32 \<Rightarrow> string" where
  "ExitReasonName arch raw =
     (case arch of
        ArchVMX \<Rightarrow>
          (case map_of vmxExits (unat (raw AND 0xffff)) of
             Some n \<Rightarrow> n
           | None \<Rightarrow> ''VMX_'' @ show_w (raw AND 0xffff))
      | ArchSVM \<Rightarrow> svmExitName raw
      | ArchARM64 \<Rightarrow>
          (let ret = drop_bit 16 raw; ec = raw AND 0xffff
           in if ret = 0 then ''IRQ''
              else if ret = 1 then ''SERROR''
              else if ret = 3 then ''IL''
              else if ret = 2 then
                (case map_of arm64ESR (unat ec) of Some n \<Rightarrow> n | None \<Rightarrow> ''EC_'' @ show_0x (unat ec))
              else ''ARM_EXC_'' @ show_w ret)
      | ArchUnknown \<Rightarrow> ''EXIT_'' @ show_w raw)"

section \<open>User space exits and signals\<close>

definition kvmUserExits :: "string list" where
  "kvmUserExits = [
    ''UNKNOWN'', ''EXCEPTION'', ''IO'', ''HYPERCALL'', ''DEBUG'', ''HLT'', ''MMIO'',
     ''IRQ_WINDOW_OPEN'', ''SHUTDOWN'', ''FAIL_ENTRY'', ''INTR'', ''SET_TPR'', ''TPR_ACCESS'',
     ''S390_SIEIC'', ''S390_RESET'', ''DCR'', ''NMI'', ''INTERNAL_ERROR'', ''OSI'', ''PAPR_HCALL'',
     ''S390_UCONTROL'', ''WATCHDOG'', ''S390_TSCH'', ''EPR'', ''SYSTEM_EVENT'', ''S390_STSI'',
     ''IOAPIC_EOI'', ''HYPERV'', ''ARM_NISV'', ''X86_RDMSR'', ''X86_WRMSR'', ''DIRTY_RING_FULL'',
     ''AP_RESET_HOLD'', ''X86_BUS_LOCK'', ''XEN'', ''RISCV_SBI'', ''RISCV_CSR'', ''NOTIFY'',
     ''LOONGARCH_IOCSR'', ''MEMORY_FAULT'', ''TDX'']"

definition UserExitErrno :: int where
  "UserExitErrno = 0xffff"

definition UserExitName :: "uint32 \<Rightarrow> string" where
  "UserExitName r = (if unat r < length kvmUserExits then kvmUserExits ! unat r else ''KVM_EXIT_'' @ show_w r)"

definition signals :: "(int, string) gomap" where
  "signals = [
    (1, ''SIGHUP''), (2, ''SIGINT''), (3, ''SIGQUIT''), (4, ''SIGILL''), (5, ''SIGTRAP''),
     (6, ''SIGABRT''), (7, ''SIGBUS''), (8, ''SIGFPE''), (9, ''SIGKILL''), (10, ''SIGUSR1''),
     (11, ''SIGSEGV''), (12, ''SIGUSR2''), (13, ''SIGPIPE''), (14, ''SIGALRM''), (15, ''SIGTERM''),
     (31, ''SIGSYS'')]"

definition SignalName :: "int \<Rightarrow> string" where
  "SignalName sig = (case map_of signals sig of Some n \<Rightarrow> n | None \<Rightarrow> ''signal '' @ show_int sig)"

section \<open>Drop reasons\<close>

type_synonym DropReasons = "(uint32, string) gomap"

text \<open>\<open>enum\<close> is the kernel's \<open>skb_drop_reason\<close>, absent without type information.\<close>

definition loadDropReasons :: "(string \<times> uint64) list option \<Rightarrow> DropReasons" where
  "loadDropReasons enum =
     (case enum of
        None \<Rightarrow> []
      | Some vs \<Rightarrow> foldl (\<lambda>out (n, v). AList.update (ucast v) (TrimPrefix n ''SKB_DROP_REASON_'') out) [] vs)"

definition DropReasonName :: "DropReasons \<Rightarrow> uint32 \<Rightarrow> string" where
  "DropReasonName d r =
     (case map_of d r of
        Some n \<Rightarrow> n
      | None \<Rightarrow> if r = 0 then ''UNSPECIFIED'' else ''REASON_'' @ show_w r)"

definition Benign :: "DropReasons \<Rightarrow> uint32 \<Rightarrow> bool" where
  "Benign d r \<longleftrightarrow>
     DropReasonName d r \<in> set [''SKB_CONSUMED'', ''SKB_NOT_DROPPED_YET'', ''NOT_DROPPED_YET'', ''CONSUMED'']"

section \<open>Machine checks and block devices\<close>

definition mciStatusUC :: uint64 where
  "mciStatusUC = push_bit 61 1"

definition mciStatusPCC :: uint64 where
  "mciStatusPCC = push_bit 57 1"

definition MCESeverity :: "uint64 \<Rightarrow> string" where
  "MCESeverity status =
     (if status AND mciStatusPCC \<noteq> 0 then ''fatal''
      else if status AND mciStatusUC \<noteq> 0 then ''uncorrected''
      else ''corrected'')"

text \<open>\<open>read_file\<close> gives the text of a file, if it can be read; the names are cached for good.\<close>

definition BlockDevName ::
  "(string \<Rightarrow> string option) \<Rightarrow> uint32 \<Rightarrow> (uint32, string) gomap \<Rightarrow> (uint32, string) gomap \<times> string" where
  "BlockDevName read_file dev blkNames =
     (case map_of blkNames dev of
        Some n \<Rightarrow> (blkNames, n)
      | None \<Rightarrow>
          let mm = show_w (drop_bit 20 dev) @ '':'' @ show_w (dev AND 0xfffff);
              name = (case read_file (''/sys/dev/block/'' @ mm @ ''/uevent'') of
                        None \<Rightarrow> mm
                      | Some b \<Rightarrow>
                          foldl (\<lambda>name line. let (v, ok) = CutPrefix line ''DEVNAME='' in if ok then v else name)
                            mm (Split b (CHR 0x0A)))
          in (AList.update dev name blkNames, name))"

section \<open>Names identify reasons\<close>

text \<open>
  Every name of the VMX table is used once and none looks like the name of an unknown
  reason, so two exits get the same name exactly if their keys are equal.
\<close>

lemma vmx_names: "distinct (map snd vmxExits)" "\<forall>n \<in> snd ` set vmxExits. \<not> HasPrefix n ''VMX_''"
  by (simp_all add: vmxExits_def HasPrefix_def)

lemma map_of_inj: "distinct (map snd m) \<Longrightarrow> map_of m a = Some n \<Longrightarrow> map_of m b = Some n \<Longrightarrow> a = b"
  by (metis distinct_map inj_onD map_of_SomeD prod.inject snd_conv)

lemma vmx_name_inj:
  assumes "ExitReasonName ArchVMX a = ExitReasonName ArchVMX b"
  shows "ExitReasonKey ArchVMX a = ExitReasonKey ArchVMX b"
proof -
  let ?a = "a AND 0xffff" and ?b = "b AND 0xffff"
  have no: "map_of vmxExits i \<noteq> Some (''VMX_'' @ s)" for i s
    using vmx_names(2) map_of_SomeD[of vmxExits i "''VMX_'' @ s"] by (metis HasPrefix_append image_eqI snd_conv)
  have "unat ?a = unat ?b"
    using assms no[of "unat ?a"] no[of "unat ?b"] map_of_inj[OF vmx_names(1), of "unat ?a" _ "unat ?b"]
    by (auto simp: ExitReasonName_def show_w_def split: option.splits)
  then have "?a = ?b" by (rule unsigned_word_eqI)
  then show ?thesis by (simp add: ExitReasonKey_def)
qed

lemma exit_name_of_key: "ExitReasonName arch (ExitReasonKey arch raw) = ExitReasonName arch raw"
proof -
  have "(raw AND 0xffff) AND 0xffff = raw AND 0xffff" by (simp only: and.assoc and.idem)
  then show ?thesis by (cases arch) (simp_all only: ExitReasonName_def ExitReasonKey_def ExitArch.simps simp_thms if_True if_False)
qed

lemma vmx_name_iff:
  "ExitReasonName ArchVMX a = ExitReasonName ArchVMX b \<longleftrightarrow> ExitReasonKey ArchVMX a = ExitReasonKey ArchVMX b"
  using vmx_name_inj exit_name_of_key by metis

lemma MCESeverity_bits:
  "MCESeverity s = (if bit s 57 then ''fatal'' else if bit s 61 then ''uncorrected'' else ''corrected'')"
  by (simp only: MCESeverity_def mciStatusPCC_def mciStatusUC_def bit_iff_and_push_bit_not_eq_0)

end
