(* ===== verification/Kernel.thy ===== *)
theory Kernel
  imports Decode Engine
begin

text \<open>
  \<open>internal/alert/kernel.go\<close>: kernel events of the BPF program turned into alerts. A file
  is read through \<open>read_file\<close>; the names of block devices are cached in the second state.
\<close>

section \<open>Events\<close>

definition EvKVMUserExit :: uint32 where "EvKVMUserExit = 1"
definition EvKVMEmulFail :: uint32 where "EvKVMEmulFail = 2"
definition EvKVMException :: uint32 where "EvKVMException = 3"
definition EvOOMVictim :: uint32 where "EvOOMVictim = 4"
definition EvSignal :: uint32 where "EvSignal = 5"
definition EvExit :: uint32 where "EvExit = 6"
definition EvBlockError :: uint32 where "EvBlockError = 7"
definition EvMCE :: uint32 where "EvMCE = 8"

lemmas ev_defs = EvKVMUserExit_def EvKVMEmulFail_def EvKVMException_def EvOOMVictim_def EvSignal_def
  EvExit_def EvBlockError_def EvMCE_def

lemma ev_neq [simp]:
  "EvSignal \<noteq> EvBlockError" "EvSignal \<noteq> EvMCE" "EvExit \<noteq> EvBlockError" "EvExit \<noteq> EvMCE"
  by (simp_all add: ev_defs)

record Event =
  ev_Time :: gtime
  ev_Type :: uint32
  ev_TGID :: uint32
  ev_TID :: uint32
  ev_CPU :: uint32
  ev_A :: int
  ev_B :: int
  ev_C :: int
  ev_D :: int
  ev_Comm :: string

definition errnos :: "(int, string) gomap" where
  "errnos = [(1, ''EPERM''), (4, ''EINTR''), (5, ''EIO''), (11, ''EAGAIN''), (12, ''ENOMEM''), (14, ''EFAULT''),
     (16, ''EBUSY''), (22, ''EINVAL''), (28, ''ENOSPC''), (61, ''ENODATA''), (62, ''ETIME''), (67, ''ENOLINK''),
     (71, ''EPROTO''), (95, ''EOPNOTSUPP''), (110, ''ETIMEDOUT''), (121, ''EREMOTEIO''), (125, ''ECANCELED''),
     (133, ''EHWPOISON'')]"

definition errnoName :: "int \<Rightarrow> string" where
  "errnoName e = (case map_of errnos e of Some n \<Rightarrow> n | None \<Rightarrow> ''errno '' @ show_int e)"

definition procComm :: "(string \<Rightarrow> string option) \<Rightarrow> uint32 \<Rightarrow> string" where
  "procComm read_file pid =
     (case read_file (''/proc/'' @ show_w pid @ ''/comm'') of None \<Rightarrow> ''?'' | Some b \<Rightarrow> TrimSpace b)"

definition show_0x_int :: "int \<Rightarrow> string" where
  "show_0x_int i = (if i < 0 then ''-'' @ show_0x (nat (- i)) else show_0x (nat i))"

definition zero_alert :: Alert where
  "zero_alert = \<lparr>a_ID = 0, a_Key = [], a_Rule = [], a_Kind = KindUnset, a_Severity = Info, a_Category = CatNone,
     a_DomainID = [], a_DomainName = [], a_Subject = [], a_Message = [], a_Value = 0, a_Source = [], a_First = 0,
     a_Last = 0, a_Count = 0, a_Active = False, a_Resolved = 0\<rparr>"

section \<open>The alerts of each kind of event\<close>

definition tid_subject :: "Event \<Rightarrow> string" where
  "tid_subject ev = ''tid '' @ show_w (ev_TID ev)"

definition user_exit_alert :: "Event \<Rightarrow> string \<Rightarrow> Alert \<Rightarrow> Alert" where
  "user_exit_alert ev domainID a =
     (let a = a\<lparr>a_Category := CatKVM\<rparr>
      in if ev_A ev = UserExitErrno then
           a\<lparr>a_Rule := ''kvm.run_error'', a_Subject := tid_subject ev,
             a_Severity := (if ev_B ev = 14 then Critical else Warning),
             a_Message := ''KVM_RUN failed: '' @ errnoName (ev_B ev),
             a_Key := ''kvm.run_error|'' @ domainID @ ''|'' @ errnoName (ev_B ev)\<rparr>
         else
           let name = UserExitName (word_of_int (ev_A ev));
               rule = ''kvm.exit_'' @ ToLower name;
               a = a\<lparr>a_Rule := rule, a_Key := rule @ ''|'' @ domainID\<rparr>
           in if name = ''INTERNAL_ERROR'' \<or> name = ''FAIL_ENTRY'' then
                a\<lparr>a_Severity := Critical,
                  a_Message := ''KVM_EXIT_'' @ name @ '': the hypervisor cannot continue running this vCPU''\<rparr>
              else if name = ''SHUTDOWN'' then
                a\<lparr>a_Severity := Warning,
                  a_Message := ''KVM_EXIT_SHUTDOWN: guest triple fault (or reset through it)''\<rparr>
              else if name = ''SYSTEM_EVENT'' then
                a\<lparr>a_Severity := Info,
                  a_Message := ''KVM_EXIT_SYSTEM_EVENT: guest requested shutdown, reset or crash''\<rparr>
              else if name = ''MEMORY_FAULT'' then
                a\<lparr>a_Severity := Warning,
                  a_Message := ''KVM_EXIT_MEMORY_FAULT: guest access to memory KVM could not resolve''\<rparr>
              else a\<lparr>a_Severity := Warning, a_Message := ''KVM_EXIT_'' @ name\<rparr>)"

definition emul_fail_alert :: "Event \<Rightarrow> string \<Rightarrow> Alert \<Rightarrow> Alert" where
  "emul_fail_alert ev domainID a =
     a\<lparr>a_Rule := ''kvm.emulation_failure'', a_Category := CatKVM, a_Severity := Warning,
       a_Subject := tid_subject ev, a_Key := ''kvm.emulation_failure|'' @ domainID,
       a_Message := ''instruction emulation failed at rip '' @ show_0x (unat (word_of_int (ev_A ev) :: uint64))\<rparr>"

definition exception_alert :: "Event \<Rightarrow> string \<Rightarrow> Alert \<Rightarrow> Alert" where
  "exception_alert ev domainID a =
     (let vec = X86VectorName (word_of_int (ev_A ev));
          a = a\<lparr>a_Rule := ''kvm.guest_exception'', a_Category := CatKVM,
                a_Key := ''kvm.guest_exception|'' @ domainID @ ''|'' @ vec, a_Severity := Warning,
                a_Message := vec @ '' injected into guest (error code '' @ show_0x_int (ev_B ev) @ '')''\<rparr>
      in if ev_A ev = 18
         then a\<lparr>a_Severity := Critical, a_Message := ''#MC machine check injected into guest''\<rparr> else a)"

definition oom_alert :: "(string \<Rightarrow> string option) \<Rightarrow> Event \<Rightarrow> string \<Rightarrow> Alert \<Rightarrow> Alert" where
  "oom_alert read_file ev domainID a =
     (let comm = (if ev_Comm ev = [] then procComm read_file (ev_TGID ev) else ev_Comm ev);
          subj = comm @ ''['' @ show_w (ev_TGID ev) @ '']'';
          a = a\<lparr>a_Rule := ''mem.oom_kill'', a_Category := CatMemory, a_Severity := Warning,
                a_Key := ''mem.oom_kill|'' @ show_w (ev_TGID ev), a_Subject := subj,
                a_Message := ''OOM killer chose '' @ subj @ '' as victim''\<rparr>
      in if domainID \<noteq> []
         then a\<lparr>a_Severity := Critical, a_Message := ''OOM killer chose the hypervisor process of this VM''\<rparr> else a)"

definition signal_alert :: "(string \<Rightarrow> string option) \<Rightarrow> Event \<Rightarrow> string \<Rightarrow> Alert \<Rightarrow> Alert" where
  "signal_alert read_file ev domainID a =
     (let sig = SignalName (ev_A ev);
          a = a\<lparr>a_Rule := ''vm.signal'', a_Category := CatLifecycle,
                a_Key := ''vm.signal|'' @ domainID @ ''|'' @ sig, a_Subject := tid_subject ev\<rparr>
      in if ev_A ev = 9 \<or> ev_A ev = 15 then
           let sender = (if ev_B ev \<noteq> 0 \<and> word_of_int (ev_B ev) \<noteq> ev_TGID ev
                         then procComm read_file (word_of_int (ev_B ev)) @ ''['' @ show_int (ev_B ev) @ '']''
                         else ''the kernel'')
           in a\<lparr>a_Severity := Warning, a_Message := sig @ '' sent by '' @ sender\<rparr>
         else a\<lparr>a_Severity := Critical, a_Message := ''hypervisor received '' @ sig @ '' (crash)''\<rparr>)"

definition exit_alert :: "Event \<Rightarrow> string \<Rightarrow> Alert \<Rightarrow> Alert" where
  "exit_alert ev domainID a =
     (let code = drop_bit 8 (ev_A ev) AND 0xff;
          sig = ev_A ev AND 0x7f;
          who = ''hypervisor '' @ ev_Comm ev @ ''['' @ show_w (ev_TGID ev) @ '']'';
          a = a\<lparr>a_Rule := ''vm.process_exit'', a_Category := CatLifecycle,
                a_Key := ''vm.process_exit|'' @ domainID @ ''|'' @ show_w (ev_TGID ev)\<rparr>
      in if sig \<noteq> 0 then
           a\<lparr>a_Severity := Critical,
             a_Message := who @ '' killed by '' @ SignalName sig @ (if ev_A ev AND 0x80 \<noteq> 0 then '' (core dumped)'' else [])\<rparr>
         else if code \<noteq> 0 then
           a\<lparr>a_Severity := Warning, a_Message := who @ '' exited with status '' @ show_int code\<rparr>
         else a\<lparr>a_Severity := Info, a_Message := who @ '' exited''\<rparr>)"

definition block_error_alert :: "Event \<Rightarrow> string \<Rightarrow> Alert \<Rightarrow> Alert" where
  "block_error_alert ev dev a =
     a\<lparr>a_Rule := ''io.disk_errors'', a_Category := CatIO, a_Severity := Critical, a_Subject := dev,
       a_Key := ''io.disk_errors||'' @ dev, a_DomainID := [], a_DomainName := [],
       a_Message := ''I/O error '' @ errnoName (- ev_C ev) @ '' at sector '' @ show_int (ev_B ev) @
         '' ('' @ show_int (ev_D ev) @ '' sectors)''\<rparr>"

definition mce_alert :: "Event \<Rightarrow> Alert \<Rightarrow> Alert" where
  "mce_alert ev a =
     (let sevName = MCESeverity (word_of_int (ev_A ev));
          subj = ''cpu'' @ show_w (ev_CPU ev) @ '' bank'' @ show_int (ev_C ev)
      in a\<lparr>a_Rule := ''hw.mce'', a_Category := CatHardware, a_Subject := subj,
           a_Key := ''hw.mce||'' @ subj @ ''|'' @ sevName, a_DomainID := [], a_DomainName := [],
           a_Severity := (if sevName = ''corrected'' then Warning else Critical),
           a_Message := sevName @ '' machine check, status '' @ show_0x (unat (word_of_int (ev_A ev) :: uint64)) @
             '' addr '' @ show_0x (unat (word_of_int (ev_B ev) :: uint64))\<rparr>)"

definition FromProbeEvent ::
  "(string \<Rightarrow> string option) \<Rightarrow> (uint32, string) gomap \<Rightarrow> Event \<Rightarrow> string \<Rightarrow> string \<Rightarrow>
   (uint32, string) gomap \<times> Alert \<times> bool" where
  "FromProbeEvent read_file blkNames ev domainID domainName =
     (let a = zero_alert\<lparr>a_Source := ''ebpf'', a_DomainID := domainID, a_DomainName := domainName, a_Last := ev_Time ev\<rparr>;
          ty = ev_Type ev
      in if ty = EvKVMUserExit then (blkNames, user_exit_alert ev domainID a, True)
         else if ty = EvKVMEmulFail then (blkNames, emul_fail_alert ev domainID a, True)
         else if ty = EvKVMException then (blkNames, exception_alert ev domainID a, True)
         else if ty = EvOOMVictim then (blkNames, oom_alert read_file ev domainID a, True)
         else if ty = EvSignal then
           (if domainID = [] then (blkNames, a, False) else (blkNames, signal_alert read_file ev domainID a, True))
         else if ty = EvExit then
           (if domainID = [] then (blkNames, a, False) else (blkNames, exit_alert ev domainID a, True))
         else if ty = EvBlockError then
           (let (blkNames, dev) = BlockDevName read_file (word_of_int (ev_A ev)) blkNames
            in (blkNames, block_error_alert ev dev a, True))
         else if ty = EvMCE then (blkNames, mce_alert ev a, True)
         else (blkNames, a, False))"

section \<open>What every alert of an event has\<close>

lemmas kernel_alert_defs = user_exit_alert_def emul_fail_alert_def exception_alert_def oom_alert_def
  signal_alert_def exit_alert_def block_error_alert_def mce_alert_def

lemma FromProbeEvent_wf:
  assumes "FromProbeEvent rf bn ev did name = (bn', a, ok)"
  shows "a_Last a = ev_Time ev \<and> a_Source a = ''ebpf''"
    and "ok \<Longrightarrow> a_Rule a \<noteq> [] \<and> HasPrefix (a_Key a) (a_Rule a @ ''|'')"
    and "(a_DomainID a, a_DomainName a) = (if ev_Type ev \<in> {EvBlockError, EvMCE} then ([], []) else (did, name))"
    and "ok \<longleftrightarrow> ev_Type ev \<in> {EvKVMUserExit, EvKVMEmulFail, EvKVMException, EvOOMVictim, EvBlockError, EvMCE} \<or>
      ev_Type ev \<in> {EvSignal, EvExit} \<and> did \<noteq> []"
  using assms unfolding FromProbeEvent_def
  by (auto simp: Let_def kernel_alert_defs HasPrefix_def zero_alert_def ev_defs split: if_splits prod.splits)

end
