(* ===== verification/Detect.thy ===== *)
theory Detect
  imports Engine_Run Kernel
begin

text \<open>
  \<open>internal/alert/detect.go\<close>: the detector derives the condition samples and the events of
  a tick from the snapshots of the store and feeds them to the engine.
\<close>

section \<open>Wording\<close>

definition isErrorPause :: "string \<Rightarrow> bool" where
  "isErrorPause reason \<longleftrightarrow> reason \<in> set [''ioerror'', ''watchdog'', ''crashed'', ''postcopy failed'', ''api error'',
     ''io-error'', ''guest-panicked'', ''internal-error'']"

definition reasonSuffix :: "string \<Rightarrow> string" where
  "reasonSuffix r = (if r = [] then [] else '' ('' @ r @ '')'')"

text \<open>The largest contributor; \<open>ord\<close> is the order of the range loop.\<close>

definition topExit :: "string range_order \<Rightarrow> (string, float64) gomap \<Rightarrow> string" where
  "topExit ord m =
     (let (name, best) = foldl (\<lambda>(name, best) k. let v = mget 0 m k
                                  in if best < v \<or> v = best \<and> k < name then (k, v) else (name, best))
                           ([], 0) (ord (mkeys m))
      in if name = [] then [] else '', mostly '' @ name)"

definition micro :: string where
  "micro = [CHR 0xC2, CHR 0xB5]"

definition arrow :: string where
  "arrow = [CHR 0xE2, CHR 0x86, CHR 0x92]"

definition fmtUs :: "float64 \<Rightarrow> string" where
  "fmtUs us =
     (if 1000000 \<le> us then show_fixed 2 (us / 1000000) @ ''s''
      else if 1000 \<le> us then show_fixed 1 (us / 1000) @ ''ms''
      else show_fixed 0 us @ micro @ ''s'')"

section \<open>Samples\<close>

definition zero_sample :: Sample where
  "zero_sample = \<lparr>s_Rule = [], s_Category = CatNone, s_DomainID = [], s_DomainName = [], s_Subject = [], s_Value = 0,
     s_Level = \<lparr>Warn = 0, Crit = 0\<rparr>, s_LowerWorse = False, s_Format = (\<lambda>_. [])\<rparr>"

definition psi_sample :: "string \<Rightarrow> string \<Rightarrow> float64 \<Rightarrow> Level \<Rightarrow> Sample" where
  "psi_sample rule what v l = zero_sample\<lparr>s_Rule := rule, s_Category := CatSched, s_Subject := ''host'', s_Value := v,
     s_Level := l, s_Format := (\<lambda>v. what @ '' pressure '' @ show_fixed 1 v @ ''% (avg10)'')\<rparr>"

definition hostSamples :: "Thresholds \<Rightarrow> HostStat \<Rightarrow> Sample list" where
  "hostSamples th h =
     (if 0 < ho_MemTotalKiB h then
        [zero_sample\<lparr>s_Rule := ''host.mem_low'', s_Category := CatMemory, s_Subject := ''host'',
           s_Value := 100 * float_of_uint64 (ho_MemAvailKiB h) / float_of_uint64 (ho_MemTotalKiB h),
           s_Level := th_HostMemFreePct th, s_LowerWorse := True,
           s_Format := (\<lambda>v. ''host memory available '' @ show_fixed 1 v @ ''%'')\<rparr>]
      else []) @
     (if psi_Available (ho_PSI h) then
        [psi_sample ''host.psi_cpu_some'' ''CPU some'' (psi_CPUSome (ho_PSI h)) (th_PSICPUSome th),
         (psi_sample ''host.psi_mem_some'' ''memory some'' (psi_MemSome (ho_PSI h)) (th_PSIMemSome th))\<lparr>s_Category := CatMemory\<rparr>,
         (psi_sample ''host.psi_mem_full'' ''memory full'' (psi_MemFull (ho_PSI h)) (th_PSIMemFull th))\<lparr>s_Category := CatMemory\<rparr>,
         (psi_sample ''host.psi_io_full'' ''I/O full'' (psi_IOFull (ho_PSI h)) (th_PSIIOFull th))\<lparr>s_Category := CatIO\<rparr>]
      else []) @
     List.map_filter (\<lambda>disk.
       if hd_IOPS disk = 0 \<and> hd_P99Us disk = 0 then None
       else Some (zero_sample\<lparr>s_Rule := ''io.disk_latency'', s_Category := CatIO, s_Subject := hd_Name disk,
              s_Value := hd_P99Us disk, s_Level := th_DiskP99Us th,
              s_Format := (\<lambda>v. ''p99 request latency '' @ fmtUs v)\<rparr>)) (ho_Disks h)"

definition with_domain :: "DomainSnapshot \<Rightarrow> Sample \<Rightarrow> Sample" where
  "with_domain d s = s\<lparr>s_DomainID := d_ID d, s_DomainName := d_Name d\<rparr>"

definition state_samples :: "DomainSnapshot \<Rightarrow> Sample list" where
  "state_samples d =
     (if d_State d = ''crashed'' then
        [with_domain d (zero_sample\<lparr>s_Rule := ''vm.crashed'', s_Category := CatLifecycle, s_Value := 1,
           s_Level := \<lparr>Warn = 0, Crit = 1\<rparr>, s_Format := (\<lambda>_. ''guest crashed'' @ reasonSuffix (d_Reason d))\<rparr>)]
      else if d_State d = ''paused'' \<and> isErrorPause (d_Reason d) then
        [with_domain d (zero_sample\<lparr>s_Rule := ''vm.paused_error'', s_Category := CatLifecycle, s_Value := 1,
           s_Level := \<lparr>Warn = 0, Crit = 1\<rparr>, s_Format := (\<lambda>_. ''guest paused: '' @ d_Reason d)\<rparr>)]
      else [])"

definition vcpu_samples :: "string range_order \<Rightarrow> Thresholds \<Rightarrow> DomainSnapshot \<Rightarrow> VCPUStat \<Rightarrow> Sample list" where
  "vcpu_samples ord th d v =
     (let sub = ''vcpu'' @ show_int (v_Index v)
      in if kvm_Available (d_KVM d) then
           [with_domain d (zero_sample\<lparr>s_Rule := ''vcpu.runq_latency'', s_Category := CatSched, s_Subject := sub,
              s_Value := v_RunqP99Us v, s_Level := th_RunqP99Us th,
              s_Format := (\<lambda>v. ''p99 run-queue delay '' @ fmtUs v @ '' (host CPU contention)'')\<rparr>),
            with_domain d (zero_sample\<lparr>s_Rule := ''kvm.exit_storm'', s_Category := CatKVM, s_Subject := sub,
              s_Value := v_ExitRate v, s_Level := th_VCPUExitRate th,
              s_Format := (\<lambda>v. show_fixed 0 v @ '' VM exits/s'' @ topExit ord (kvm_ExitReasons (d_KVM d)))\<rparr>)]
         else [])"

definition memory_samples :: "Thresholds \<Rightarrow> DomainSnapshot \<Rightarrow> Sample list" where
  "memory_samples th d =
     (let m = d_Mem d
      in (if 0 < m_AvailableKiB m \<and> 0 < m_UsableKiB m then
            [with_domain d (zero_sample\<lparr>s_Rule := ''mem.guest_low'', s_Category := CatMemory,
               s_Value := 100 * float_of_uint64 (m_UsableKiB m) / float_of_uint64 (m_AvailableKiB m),
               s_Level := th_GuestMemFreePct th, s_LowerWorse := True,
               s_Format := (\<lambda>v. ''guest usable memory '' @ show_fixed 1 v @ ''%'')\<rparr>)]
          else []) @
         [with_domain d (zero_sample\<lparr>s_Rule := ''mem.guest_swap_in'', s_Category := CatMemory, s_Value := m_SwapInRate m,
            s_Level := th_GuestSwapInKiBs th,
            s_Format := (\<lambda>v. ''guest swapping in '' @ show_fixed 0 v @ '' KiB/s'')\<rparr>),
          with_domain d (zero_sample\<lparr>s_Rule := ''mem.host_major_faults'', s_Category := CatMemory, s_Value := m_MajorFltRate m,
            s_Level := th_MajorFaultRate th,
            s_Format := (\<lambda>v. ''hypervisor process '' @ show_fixed 0 v @ '' major faults/s (guest RAM swapped on host)'')\<rparr>)])"

definition block_samples :: "Thresholds \<Rightarrow> DomainSnapshot \<Rightarrow> Sample list" where
  "block_samples th d =
     (if kvm_Available (d_KVM d) \<and> (0 < d_BlkLatP99Us d \<or> 0 < d_BlkLatAvgUs d) then
        [with_domain d (zero_sample\<lparr>s_Rule := ''io.vm_latency'', s_Category := CatIO, s_Value := d_BlkLatP99Us d,
           s_Level := th_VMBlockP99Us th, s_Format := (\<lambda>v. ''p99 block latency '' @ fmtUs v)\<rparr>)]
      else [])"

definition iface_sample :: "string range_order \<Rightarrow> Thresholds \<Rightarrow> DomainSnapshot \<Rightarrow> IfaceStat \<Rightarrow> Sample" where
  "iface_sample ord th d i =
     with_domain d (zero_sample\<lparr>s_Rule := ''net.drops'', s_Category := CatNet, s_Subject := i_Name i,
       s_Value := max (i_DropRate i) (i_KernelDropRate i), s_Level := th_NetDropRate th,
       s_Format := (\<lambda>v. show_fixed 0 v @ '' packets dropped/s'' @ topExit ord (i_DropReasons i))\<rparr>)"

definition domainSamples :: "string range_order \<Rightarrow> Thresholds \<Rightarrow> DomainSnapshot \<Rightarrow> Sample list" where
  "domainSamples ord th d =
     state_samples d @
     (if \<not> Running d then []
      else concat (map (vcpu_samples ord th d) (d_VCPUs d)) @ memory_samples th d @ block_samples th d @
           map (iface_sample ord th d) (d_Ifaces d))"

section \<open>Events\<close>

definition metric_event :: "DomainSnapshot \<Rightarrow> string \<Rightarrow> Severity \<Rightarrow> Category \<Rightarrow> string \<Rightarrow> string \<Rightarrow> Alert" where
  "metric_event c rule sev cat subject msg =
     zero_alert\<lparr>a_Rule := rule, a_Severity := sev, a_Category := cat, a_Source := ''metrics'', a_DomainID := d_ID c,
       a_DomainName := d_Name c, a_Subject := subject, a_Message := msg\<rparr>"

definition state_event :: "DomainSnapshot \<Rightarrow> DomainSnapshot \<Rightarrow> Alert list" where
  "state_event p c =
     (if d_State p \<noteq> d_State c then
        let sev = (if d_State c = ''crashed'' \<or> d_State c = ''shut off'' \<and> (d_Reason c = ''crashed'' \<or> d_Reason c = ''failed'')
                   then Critical else Info)
        in [metric_event c ''vm.state'' sev CatLifecycle [] (d_State p @ '' '' @ arrow @ '' '' @ d_State c @ reasonSuffix (d_Reason c))]
      else [])"

definition hugetlb_event :: "DomainSnapshot \<Rightarrow> DomainSnapshot \<Rightarrow> Alert list" where
  "hugetlb_event p c =
     (if m_HugetlbFail (d_Mem p) < m_HugetlbFail (d_Mem c) then
        [metric_event c ''mem.hugetlb_fail'' Warning CatMemory []
           (show_w (m_HugetlbFail (d_Mem c) - m_HugetlbFail (d_Mem p)) @ '' guest hugetlb allocation failures'')]
      else [])"

definition prev_ifaces :: "DomainSnapshot \<Rightarrow> (string, IfaceStat) gomap" where
  "prev_ifaces p = foldl (\<lambda>m i. AList.update (i_Name i) i m) [] (d_Ifaces p)"

definition iface_event :: "DomainSnapshot \<Rightarrow> DomainSnapshot \<Rightarrow> IfaceStat \<Rightarrow> Alert option" where
  "iface_event p c i =
     (case map_of (prev_ifaces p) (i_Name i) of
        None \<Rightarrow> None
      | Some old \<Rightarrow>
          let n = (i_RxErrs i + i_TxErrs i) - (i_RxErrs old + i_TxErrs old)
          in if i_RxErrs old + i_TxErrs old < i_RxErrs i + i_TxErrs i
             then Some (metric_event c ''net.errors'' Warning CatNet (i_Name i) (show_w n @ '' interface errors''))
             else None)"

definition prev_disks :: "DomainSnapshot \<Rightarrow> (string, int) gomap" where
  "prev_disks p = foldl (\<lambda>m k. AList.update (k_Dev k) (k_ErrsTotal k) m) [] (d_Disks p)"

definition disk_event :: "DomainSnapshot \<Rightarrow> DomainSnapshot \<Rightarrow> DiskStat \<Rightarrow> Alert option" where
  "disk_event p c k =
     (case map_of (prev_disks p) (k_Dev k) of
        None \<Rightarrow> None
      | Some old \<Rightarrow>
          if 0 \<le> old \<and> old < k_ErrsTotal k
          then Some (metric_event c ''io.vm_disk_errors'' Critical CatIO (k_Dev k) (show_int (k_ErrsTotal k - old) @ '' failed I/O requests''))
          else None)"

definition migration_event :: "DomainSnapshot \<Rightarrow> DomainSnapshot \<Rightarrow> Alert list" where
  "migration_event p c =
     (case d_Migration c of
        None \<Rightarrow> []
      | Some m \<Rightarrow>
          if (case d_Migration p of None \<Rightarrow> True | Some o' \<Rightarrow> mig_Status o' \<noteq> mig_Status m)
          then [metric_event c ''vm.migration'' (if mig_Status m = ''failed'' then Warning else Info) CatLifecycle []
                  (mig_Operation m @ '' '' @ mig_Status m)]
          else [])"

definition domainEvents :: "DomainSnapshot \<Rightarrow> DomainSnapshot \<Rightarrow> Alert list" where
  "domainEvents p c =
     state_event p c @ hugetlb_event p c @ List.map_filter (iface_event p c) (d_Ifaces c) @
     List.map_filter (disk_event p c) (d_Disks c) @ migration_event p c"

section \<open>A run of the detector\<close>

record Detector =
  dt_th :: Thresholds
  dt_prev :: "(string, DomainSnapshot) gomap"
  dt_primed :: bool

definition NewDetector :: "Thresholds \<Rightarrow> Detector" where
  "NewDetector th = \<lparr>dt_th = th, dt_prev = [], dt_primed = False\<rparr>"

definition appeared :: "DomainSnapshot \<Rightarrow> Alert" where
  "appeared d = zero_alert\<lparr>a_Rule := ''vm.appeared'', a_Severity := Info, a_Category := CatLifecycle, a_Source := ''metrics'',
     a_DomainID := d_ID d, a_DomainName := d_Name d, a_Message := d_Source d @ '' VM detected ('' @ d_State d @ '')''\<rparr>"

definition disappeared :: "string \<Rightarrow> DomainSnapshot \<Rightarrow> Alert" where
  "disappeared i p = zero_alert\<lparr>a_Rule := ''vm.disappeared'', a_Severity := Info, a_Category := CatLifecycle, a_Source := ''metrics'',
     a_DomainID := i, a_DomainName := d_Name p, a_Message := ''VM no longer present''\<rparr>"

definition current_domains :: "DomainSnapshot list \<Rightarrow> (string, DomainSnapshot) gomap" where
  "current_domains doms = foldl (\<lambda>m d. AList.update (d_ID d) d m) [] doms"

definition run_samples :: "string range_order \<Rightarrow> Detector \<Rightarrow> HostStat \<Rightarrow> DomainSnapshot list \<Rightarrow> Sample list" where
  "run_samples ord d host doms = hostSamples (dt_th d) host @ concat (map (domainSamples ord (dt_th d)) doms)"

text \<open>The alerts \<open>Run\<close> raises, in order; \<open>ordp\<close> is the order of the loop over the previous domains.\<close>

definition run_events :: "string range_order \<Rightarrow> Detector \<Rightarrow> DomainSnapshot list \<Rightarrow> Alert list" where
  "run_events ordp d doms =
     concat (map (\<lambda>c. case map_of (dt_prev d) (d_ID c) of
                        Some p \<Rightarrow> domainEvents p c
                      | None \<Rightarrow> if dt_primed d then [appeared c] else []) doms) @
     List.map_filter (\<lambda>i. if map_of (current_domains doms) i = None
                          then map_option (disappeared i) (map_of (dt_prev d) i) else None) (ordp (mkeys (dt_prev d)))"

text \<open>\<open>clock\<close> is the time the engine reads when it is told of an event.\<close>

definition DetectorRun ::
  "string range_order \<Rightarrow> string range_order \<Rightarrow> string range_order \<Rightarrow> gtime \<Rightarrow> gtime \<Rightarrow> HostStat \<Rightarrow> DomainSnapshot list \<Rightarrow>
   Detector \<times> Engine \<Rightarrow> (Detector \<times> Engine) \<times> (nat \<times> notice) list" where
  "DetectorRun ordc orde ordp now clock host doms x =
     (let (d, e) = x;
          (e, ns) = Evaluate ordc orde now (run_samples ordp d host doms) e;
          (e, ns) = foldl (\<lambda>(e, ns) a. let (e, ms) = Raise clock a e in (e, ns @ ms)) (e, ns) (run_events ordp d doms)
      in ((d\<lparr>dt_prev := current_domains doms, dt_primed := True\<rparr>, e), ns))"

end
