(* ===== verification/Detect_Facts.thy ===== *)
theory Detect_Facts
  imports Detect
begin

text \<open>
  What the detector promises to the engine: within a tick no two samples share a key, the
  breakdown it quotes does not depend on the order of a map, and the domains it reports as
  appeared and disappeared are exactly the difference of two ticks.
\<close>

section \<open>The largest contributor\<close>

definition topmost :: "(string, float64) gomap \<Rightarrow> string set \<Rightarrow> string \<times> float64 \<Rightarrow> bool" where
  "topmost m ks nb \<longleftrightarrow>
     (let (name, best) = nb
      in 0 \<le> best \<and> (\<forall>k \<in> ks. mget 0 m k \<le> best) \<and>
         (if best = 0 then name = []
          else name \<in> ks \<and> mget 0 m name = best \<and> (\<forall>k \<in> ks. mget 0 m k = best \<longrightarrow> name \<le> k)))"

definition top_step :: "(string, float64) gomap \<Rightarrow> string \<times> float64 \<Rightarrow> string \<Rightarrow> string \<times> float64" where
  "top_step m nb k =
     (let (name, best) = nb; v = mget 0 m k
      in if best < v \<or> v = best \<and> k < name then (k, v) else (name, best))"

lemma topExit_fold:
  "topExit ord m = (let (name, best) = foldl (top_step m) ([], 0) (ord (mkeys m)) in if name = [] then [] else '', mostly '' @ name)"
  unfolding topExit_def top_step_def by (simp add: case_prod_unfold)

lemma topmost_step: "topmost m ks nb \<Longrightarrow> topmost m (insert k ks) (top_step m nb k)"
proof -
  assume top: "topmost m ks nb"
  obtain name best where nb: "nb = (name, best)" by (cases nb)
  let ?v = "mget 0 m k"
  have nonneg: "0 \<le> best" and bound: "\<And>k'. k' \<in> ks \<Longrightarrow> mget 0 m k' \<le> best" and zero: "best = 0 \<Longrightarrow> name = []"
    and pos: "best \<noteq> 0 \<Longrightarrow> name \<in> ks \<and> mget 0 m name = best \<and> (\<forall>k' \<in> ks. mget 0 m k' = best \<longrightarrow> name \<le> k')"
    using top nb by (auto simp: topmost_def split: if_splits)
  consider "best < ?v" | "?v = best" "k < name" | "?v < best" | "?v = best" "name \<le> k" by fastforce
  then show "topmost m (insert k ks) (top_step m nb k)"
  proof cases
    case 1
    have "mget 0 m k' < ?v" if "k' \<in> ks" for k' using bound[OF that] 1 by simp
    then have "\<forall>k' \<in> ks. mget 0 m k' \<le> ?v \<and> mget 0 m k' \<noteq> ?v" by (simp add: order.strict_iff_order)
    then show ?thesis using 1 nonneg nb by (auto simp: topmost_def top_step_def)
  next
    case 2
    then have "best \<noteq> 0" using zero by auto
    with pos 2 have "\<forall>k' \<in> ks. mget 0 m k' = best \<longrightarrow> k \<le> k'" by (meson less_imp_le order.trans)
    then show ?thesis using 2 nonneg bound nb \<open>best \<noteq> 0\<close> by (auto simp: topmost_def top_step_def)
  next
    case 3
    then show ?thesis using nonneg bound zero pos nb by (auto simp: topmost_def top_step_def)
  next
    case 4
    then show ?thesis using nonneg bound zero pos nb by (auto simp: topmost_def top_step_def)
  qed
qed

lemma topmost_fold: "topmost m ks nb \<Longrightarrow> topmost m (ks \<union> set xs) (foldl (top_step m) nb xs)"
proof (induction xs arbitrary: ks nb)
  case Nil
  then show ?case by simp
next
  case (Cons x xs)
  from Cons.IH[OF topmost_step[OF Cons.prems, of x]] show ?case by simp
qed

lemma topmost_unique: "topmost m ks nb \<Longrightarrow> topmost m ks nb' \<Longrightarrow> nb = nb'"
proof -
  assume a: "topmost m ks nb" and b: "topmost m ks nb'"
  obtain n v n' v' where nb: "nb = (n, v)" "nb' = (n', v')" by (cases nb; cases nb')
  have v: "v = v'"
    using a b nb unfolding topmost_def by (auto split: if_splits intro: antisym dest: bspec)
  then show ?thesis
    using a b nb unfolding topmost_def by (auto split: if_splits intro: antisym)
qed

lemma topExit_topmost:
  assumes "is_order ord"
  obtains name best where "topmost m (set (mkeys m)) (name, best)"
    and "topExit ord m = (if name = [] then [] else '', mostly '' @ name)"
proof -
  have "topmost m ({} \<union> set (ord (mkeys m))) (foldl (top_step m) ([], 0) (ord (mkeys m)))"
    by (rule topmost_fold) (simp add: topmost_def)
  then have "topmost m (set (mkeys m)) (foldl (top_step m) ([], 0) (ord (mkeys m)))"
    using assms by (simp add: is_order_set)
  then show ?thesis using that topExit_fold[of ord m] by (cases "foldl (top_step m) ([], 0) (ord (mkeys m))") simp
qed

lemma topExit_order: "is_order ord \<Longrightarrow> is_order ord' \<Longrightarrow> topExit ord m = topExit ord' m"
proof -
  assume o: "is_order ord" and o': "is_order ord'"
  obtain n b where 1: "topmost m (set (mkeys m)) (n, b)" "topExit ord m = (if n = [] then [] else '', mostly '' @ n)"
    using topExit_topmost[OF o] by blast
  obtain n' b' where 2: "topmost m (set (mkeys m)) (n', b')" "topExit ord' m = (if n' = [] then [] else '', mostly '' @ n')"
    using topExit_topmost[OF o'] by blast
  have "n = n'" using topmost_unique[OF 1(1) 2(1)] by simp
  with 1(2) 2(2) show ?thesis by simp
qed

section \<open>Sample keys\<close>

definition key_parts :: "Sample \<Rightarrow> string \<times> string \<times> string" where
  "key_parts s = (s_Rule s, s_DomainID s, s_Subject s)"

lemma bar_split:
  assumes "CHR ''|'' \<notin> set a" "CHR ''|'' \<notin> set b" "a @ CHR ''|'' # x = b @ CHR ''|'' # y"
  shows "a = b \<and> x = y"
proof -
  have "Cut (a @ CHR ''|'' # x) (CHR ''|'') = (a, x, True)" using assms(1) by (rule Cut_hit)
  moreover have "Cut (b @ CHR ''|'' # y) (CHR ''|'') = (b, y, True)" using assms(2) by (rule Cut_hit)
  ultimately show ?thesis unfolding assms(3) by simp
qed

lemma join_key_inj:
  assumes "CHR ''|'' \<notin> set r" "CHR ''|'' \<notin> set r'" "CHR ''|'' \<notin> set d" "CHR ''|'' \<notin> set d'"
    and "join_key r d s = join_key r' d' s'"
  shows "r = r' \<and> d = d' \<and> s = s'"
proof -
  have "r = r' \<and> d @ ''|'' @ s = d' @ ''|'' @ s'"
    using bar_split[of r r' "d @ ''|'' @ s" "d' @ ''|'' @ s'"] assms by (simp add: join_key_def)
  then show ?thesis using bar_split[of d d' s s'] assms by simp
qed

lemma show_int_inj: "show_int i = show_int j \<Longrightarrow> i = j"
proof -
  assume eq: "show_int i = show_int j"
  have no: "CHR ''-'' # s \<noteq> show_nat n" for s n
  proof
    assume "CHR ''-'' # s = show_nat n"
    then have "CHR ''-'' \<in> set (show_nat n)" by (metis list.set_intros(1))
    then show False using show_nat_digits by fastforce
  qed
  show "i = j"
    using eq no[of _ "nat i"] no[of _ "nat j"] by (auto simp: show_int_def split: if_splits)
qed

text \<open>What the snapshots of a tick guarantee: identifiers are unique where the keys use them.\<close>

definition domain_names_ok :: "DomainSnapshot \<Rightarrow> bool" where
  "domain_names_ok d \<longleftrightarrow>
     CHR ''|'' \<notin> set (d_ID d) \<and> distinct (map v_Index (d_VCPUs d)) \<and> distinct (map i_Name (d_Ifaces d))"

definition tick_names_ok :: "HostStat \<Rightarrow> DomainSnapshot list \<Rightarrow> bool" where
  "tick_names_ok host doms \<longleftrightarrow>
     distinct (map hd_Name (ho_Disks host)) \<and> distinct (map d_ID doms) \<and> list_all domain_names_ok doms"

lemma key_parts_with_domain [simp]: "key_parts (with_domain d s) = (s_Rule s, d_ID d, s_Subject s)"
  by (simp add: key_parts_def with_domain_def)

lemma host_disk_parts:
  "map key_parts (List.map_filter (\<lambda>disk. if hd_IOPS disk = 0 \<and> hd_P99Us disk = 0 then None
       else Some (zero_sample\<lparr>s_Rule := ''io.disk_latency'', s_Category := CatIO, s_Subject := hd_Name disk,
              s_Value := hd_P99Us disk, s_Level := th_DiskP99Us th,
              s_Format := (\<lambda>v. ''p99 request latency '' @ fmtUs v)\<rparr>)) ds) =
   map (\<lambda>n. (''io.disk_latency'', [], n)) (map hd_Name (filter (\<lambda>k. \<not> (hd_IOPS k = 0 \<and> hd_P99Us k = 0)) ds))"
  by (induction ds) (simp_all add: List.map_filter_simps key_parts_def zero_sample_def)

lemma distinct_names_filter: "distinct (map f xs) \<Longrightarrow> distinct (map f (filter P xs))"
  by (rule distinct_map_filter)

lemma distinct_hostSamples:
  assumes "distinct (map hd_Name (ho_Disks h))"
  shows "distinct (map key_parts (hostSamples th h))"
    and "p \<in> set (map key_parts (hostSamples th h)) \<Longrightarrow> HasPrefix (fst p) ''host.'' \<or> fst p = ''io.disk_latency''"
    and "p \<in> set (map key_parts (hostSamples th h)) \<Longrightarrow> CHR ''|'' \<notin> set (fst p) \<and> CHR ''|'' \<notin> set (fst (snd p))"
proof -
  have d: "distinct (map (\<lambda>n. (''io.disk_latency'', [] :: string, n)) (map hd_Name (filter (\<lambda>k. \<not> (hd_IOPS k = 0 \<and> hd_P99Us k = 0)) (ho_Disks h))))"
    using distinct_names_filter[OF assms] by (subst distinct_map) (auto intro: inj_onI)
  note parts = host_disk_parts[of th "ho_Disks h"]
  show "distinct (map key_parts (hostSamples th h))"
    using d unfolding hostSamples_def map_append parts
    by (auto simp: key_parts_def psi_sample_def zero_sample_def)
  show "p \<in> set (map key_parts (hostSamples th h)) \<Longrightarrow> HasPrefix (fst p) ''host.'' \<or> fst p = ''io.disk_latency''"
    unfolding hostSamples_def map_append parts set_append
    by (auto simp: key_parts_def psi_sample_def zero_sample_def HasPrefix_def split: if_splits)
  show "p \<in> set (map key_parts (hostSamples th h)) \<Longrightarrow> CHR ''|'' \<notin> set (fst p) \<and> CHR ''|'' \<notin> set (fst (snd p))"
    unfolding hostSamples_def map_append parts set_append
    by (auto simp: key_parts_def psi_sample_def zero_sample_def split: if_splits)
qed

definition domain_rules :: "string list" where
  "domain_rules = [''vm.crashed'', ''vm.paused_error'', ''vcpu.runq_latency'', ''kvm.exit_storm'', ''mem.guest_low'',
     ''mem.guest_swap_in'', ''mem.host_major_faults'', ''io.vm_latency'', ''net.drops'']"

definition vcpu_subject :: "VCPUStat \<Rightarrow> string" where
  "vcpu_subject v = ''vcpu'' @ show_int (v_Index v)"

lemma vcpu_parts:
  "map key_parts (concat (map (vcpu_samples ord th d) vs)) =
   (if kvm_Available (d_KVM d)
    then concat (map (\<lambda>v. [(''vcpu.runq_latency'', d_ID d, vcpu_subject v), (''kvm.exit_storm'', d_ID d, vcpu_subject v)]) vs)
    else [])"
  by (induction vs) (simp_all add: vcpu_samples_def Let_def vcpu_subject_def zero_sample_def)

lemma vcpu_subject_inj: "vcpu_subject v = vcpu_subject w \<Longrightarrow> v_Index v = v_Index w"
  by (simp add: vcpu_subject_def show_int_inj)

lemma distinct_vcpu_parts:
  "distinct (map v_Index vs) \<Longrightarrow>
   distinct (concat (map (\<lambda>v. [(''vcpu.runq_latency'', i, vcpu_subject v), (''kvm.exit_storm'', i, vcpu_subject v)]) vs))"
  by (induction vs) (auto dest: vcpu_subject_inj)

lemma iface_parts: "map key_parts (map (iface_sample ord th d) is) = map (\<lambda>n. (''net.drops'', d_ID d, n)) (map i_Name is)"
  by (simp add: iface_sample_def zero_sample_def)

lemma state_parts:
  "map key_parts (state_samples d) \<in> {[], [(''vm.crashed'', d_ID d, [])], [(''vm.paused_error'', d_ID d, [])]}"
  by (simp add: state_samples_def zero_sample_def)

lemma memory_parts:
  "map key_parts (memory_samples th d) \<in>
    {[(''mem.guest_swap_in'', d_ID d, []), (''mem.host_major_faults'', d_ID d, [])],
     [(''mem.guest_low'', d_ID d, []), (''mem.guest_swap_in'', d_ID d, []), (''mem.host_major_faults'', d_ID d, [])]}"
  by (simp add: memory_samples_def Let_def zero_sample_def)

lemma block_parts: "map key_parts (block_samples th d) \<in> {[], [(''io.vm_latency'', d_ID d, [])]}"
  by (simp add: block_samples_def zero_sample_def)

lemma distinct_domainSamples:
  assumes "domain_names_ok d"
  shows "distinct (map key_parts (domainSamples ord th d))"
    and "p \<in> set (map key_parts (domainSamples ord th d)) \<Longrightarrow> fst p \<in> set domain_rules \<and> fst (snd p) = d_ID d"
proof -
  have if_eq: "map key_parts (if c then [] else xs) = (if c then [] else map key_parts xs)" for c xs by simp
  have ifaces: "distinct (map (\<lambda>n. (''net.drops'', d_ID d, n)) (map i_Name (d_Ifaces d)))"
    using assms by (subst distinct_map) (auto simp: domain_names_ok_def intro: inj_onI)
  have vcpus: "distinct (concat (map (\<lambda>v. [(''vcpu.runq_latency'', d_ID d, vcpu_subject v), (''kvm.exit_storm'', d_ID d, vcpu_subject v)]) (d_VCPUs d)))"
    using assms by (intro distinct_vcpu_parts) (simp add: domain_names_ok_def)
  note parts = state_parts[of d] memory_parts[of th d] block_parts[of th d]
  show "distinct (map key_parts (domainSamples ord th d))"
    using ifaces vcpus parts unfolding domainSamples_def map_append if_eq vcpu_parts iface_parts
    by (elim insertE emptyE) (auto split: if_splits)
  show "p \<in> set (map key_parts (domainSamples ord th d)) \<Longrightarrow> fst p \<in> set domain_rules \<and> fst (snd p) = d_ID d"
    using parts unfolding domainSamples_def map_append if_eq vcpu_parts iface_parts domain_rules_def
    by (elim insertE emptyE) (auto split: if_splits)
qed

lemma domain_rules_facts: "r \<in> set domain_rules \<Longrightarrow> CHR ''|'' \<notin> set r \<and> \<not> HasPrefix r ''host.'' \<and> r \<noteq> ''io.disk_latency''"
  by (auto simp: domain_rules_def HasPrefix_def)

lemma distinct_domain_list:
  assumes "distinct (map d_ID doms)" and "list_all domain_names_ok doms"
  shows "distinct (map key_parts (concat (map (domainSamples ord th) doms)))"
  using assms
proof (induction doms)
  case Nil
  then show ?case by simp
next
  case (Cons d doms)
  have "set (map key_parts (domainSamples ord th d)) \<inter> set (map key_parts (concat (map (domainSamples ord th) doms))) = {}"
  proof (rule ccontr)
    assume "\<not> ?thesis"
    then obtain p d' where p: "p \<in> set (map key_parts (domainSamples ord th d))" "d' \<in> set doms"
      "p \<in> set (map key_parts (domainSamples ord th d'))" by fastforce
    have "d_ID d = d_ID d'"
      using distinct_domainSamples(2)[OF _ p(1)] distinct_domainSamples(2)[OF _ p(3)] Cons.prems(2) p(2)
      by (simp add: list_all_iff)
    then show False using Cons.prems(1) p(2) by auto
  qed
  then show ?case using Cons distinct_domainSamples(1)[of d ord th] by (simp add: list_all_iff)
qed

lemma distinct_run_parts:
  assumes "tick_names_ok host doms"
  shows "distinct (map key_parts (run_samples ord d host doms))"
    and "p \<in> set (map key_parts (run_samples ord d host doms)) \<Longrightarrow> CHR ''|'' \<notin> set (fst p) \<and> CHR ''|'' \<notin> set (fst (snd p))"
proof -
  have host: "distinct (map hd_Name (ho_Disks host))" and ids: "distinct (map d_ID doms)" and ok: "list_all domain_names_ok doms"
    using assms by (simp_all add: tick_names_ok_def)
  have dom: "fst p \<in> set domain_rules \<and> CHR ''|'' \<notin> set (fst (snd p))"
    if p: "p \<in> set (map key_parts (concat (map (domainSamples ord (dt_th d)) doms)))" for p
  proof -
    from p obtain c where c: "c \<in> set doms" "p \<in> set (map key_parts (domainSamples ord (dt_th d) c))" by auto
    then have "domain_names_ok c" using ok by (simp add: list_all_iff)
    with distinct_domainSamples(2)[OF this c(2)] show ?thesis by (simp add: domain_names_ok_def)
  qed
  have "p \<notin> set (map key_parts (concat (map (domainSamples ord (dt_th d)) doms)))"
    if "p \<in> set (map key_parts (hostSamples (dt_th d) host))" for p
    using dom[of p] distinct_hostSamples(2)[OF host that] domain_rules_facts[of "fst p"] by blast
  then show "distinct (map key_parts (run_samples ord d host doms))"
    unfolding run_samples_def map_append distinct_append
    using distinct_hostSamples(1)[OF host] distinct_domain_list[OF ids ok] by blast
  show "p \<in> set (map key_parts (run_samples ord d host doms)) \<Longrightarrow> CHR ''|'' \<notin> set (fst p) \<and> CHR ''|'' \<notin> set (fst (snd p))"
    unfolding run_samples_def map_append set_append
    using dom[of p] distinct_hostSamples(3)[OF host, of p] domain_rules_facts[of "fst p"] by blast
qed

lemma distinct_run_keys:
  assumes "tick_names_ok host doms"
  shows "distinct (map sample_key (run_samples ord d host doms))"
proof -
  let ?j = "\<lambda>(r, i, s). join_key r i s"
  have key: "map sample_key ss = map ?j (map key_parts ss)" for ss by (simp add: sample_key_def key_parts_def)
  have "inj_on ?j (set (map key_parts (run_samples ord d host doms)))"
  proof (rule inj_onI)
    fix p q assume "p \<in> set (map key_parts (run_samples ord d host doms))" "q \<in> set (map key_parts (run_samples ord d host doms))"
      and eq: "?j p = ?j q"
    with distinct_run_parts(2)[OF assms, of p] distinct_run_parts(2)[OF assms, of q]
    show "p = q" using join_key_inj[of "fst p" "fst q" "fst (snd p)" "fst (snd q)" "snd (snd p)" "snd (snd q)"]
      by (cases p; cases q) auto
  qed
  then show ?thesis unfolding key using distinct_run_parts(1)[OF assms] by (subst distinct_map) blast
qed

section \<open>Domains that come and go\<close>

lemma current_domains_fold:
  "map_of (foldl (\<lambda>m d. AList.update (d_ID d) d m) m doms) i =
   (case List.find (\<lambda>d. d_ID d = i) (rev doms) of None \<Rightarrow> map_of m i | Some d \<Rightarrow> Some d)"
  by (induction doms rule: rev_induct) (auto simp: gomap_simps split: option.splits)

lemma map_of_current: "map_of (current_domains doms) i = List.find (\<lambda>d. d_ID d = i) (rev doms)"
  by (simp add: current_domains_def current_domains_fold split: option.splits)

lemma current_None_iff: "map_of (current_domains doms) i = None \<longleftrightarrow> i \<notin> d_ID ` set doms"
  by (auto simp: map_of_current find_None_iff)

lemma current_Some: "map_of (current_domains doms) i = Some d \<Longrightarrow> d \<in> set doms \<and> d_ID d = i"
  unfolding map_of_current by (metis (mono_tags, lifting) find_Some_iff nth_mem set_rev)

lemma DetectorRun_detector:
  "fst (fst (DetectorRun ordc orde ordp now clock host doms (d, e))) = d\<lparr>dt_prev := current_domains doms, dt_primed := True\<rparr>"
  by (simp add: DetectorRun_def Let_def case_prod_unfold)

definition metric_rules :: "string list" where
  "metric_rules = [''vm.state'', ''mem.hugetlb_fail'', ''net.errors'', ''io.vm_disk_errors'', ''vm.migration'']"

lemma metric_event_sel [simp]:
  "a_Rule (metric_event c r sv ct su msg) = r" "a_DomainID (metric_event c r sv ct su msg) = d_ID c"
  by (simp_all add: metric_event_def)

lemma domainEvents_parts:
  "a \<in> set (state_event p c) \<Longrightarrow> a_Rule a = ''vm.state'' \<and> a_DomainID a = d_ID c"
  "a \<in> set (hugetlb_event p c) \<Longrightarrow> a_Rule a = ''mem.hugetlb_fail'' \<and> a_DomainID a = d_ID c"
  "iface_event p c i = Some a \<Longrightarrow> a_Rule a = ''net.errors'' \<and> a_DomainID a = d_ID c"
  "disk_event p c k = Some a \<Longrightarrow> a_Rule a = ''io.vm_disk_errors'' \<and> a_DomainID a = d_ID c"
  "a \<in> set (migration_event p c) \<Longrightarrow> a_Rule a = ''vm.migration'' \<and> a_DomainID a = d_ID c"
  by (auto simp: state_event_def hugetlb_event_def iface_event_def disk_event_def migration_event_def Let_def
      split: if_splits option.splits)

lemma domainEvents_rules:
  assumes "a \<in> set (domainEvents p c)"
  shows "a_Rule a \<in> set metric_rules \<and> a_DomainID a = d_ID c"
proof -
  from assms consider "a \<in> set (state_event p c)" | "a \<in> set (hugetlb_event p c)" | i where "iface_event p c i = Some a"
    | k where "disk_event p c k = Some a" | "a \<in> set (migration_event p c)"
    unfolding domainEvents_def set_append map_filter_Some by blast
  then show ?thesis by cases (auto dest: domainEvents_parts simp: metric_rules_def)
qed

definition alerts_of_rule :: "string \<Rightarrow> Alert list \<Rightarrow> string set" where
  "alerts_of_rule r as = {a_DomainID a |a. a \<in> set as \<and> a_Rule a = r}"

lemma in_option_list: "a \<in> set (case x of Some p \<Rightarrow> f p | None \<Rightarrow> if b then [y] else []) \<longleftrightarrow>
    (\<exists>p. x = Some p \<and> a \<in> set (f p)) \<or> x = None \<and> b \<and> a = y"
  by (cases x) auto

lemma run_events_member:
  assumes "is_order ordp"
  shows "a \<in> set (run_events ordp d doms) \<longleftrightarrow>
    (\<exists>c \<in> set doms. \<exists>p. map_of (dt_prev d) (d_ID c) = Some p \<and> a \<in> set (domainEvents p c)) \<or>
    (\<exists>c \<in> set doms. map_of (dt_prev d) (d_ID c) = None \<and> dt_primed d \<and> a = appeared c) \<or>
    (\<exists>i p. map_of (dt_prev d) i = Some p \<and> i \<notin> d_ID ` set doms \<and> a = disappeared i p)"
proof -
  have keys: "set (ordp (mkeys (dt_prev d))) = set (mkeys (dt_prev d))" by (rule is_order_set[OF assms])
  have gone: "(if map_of (current_domains doms) i = None then map_option (disappeared i) (map_of (dt_prev d) i) else None) = Some a
      \<longleftrightarrow> i \<notin> d_ID ` set doms \<and> (\<exists>p. map_of (dt_prev d) i = Some p \<and> a = disappeared i p)" for i
    by (auto simp: current_None_iff)
  have "a \<in> set (run_events ordp d doms) \<longleftrightarrow>
    (\<exists>c \<in> set doms. (\<exists>p. map_of (dt_prev d) (d_ID c) = Some p \<and> a \<in> set (domainEvents p c)) \<or>
       map_of (dt_prev d) (d_ID c) = None \<and> dt_primed d \<and> a = appeared c) \<or>
    (\<exists>i \<in> set (mkeys (dt_prev d)). i \<notin> d_ID ` set doms \<and> (\<exists>p. map_of (dt_prev d) i = Some p \<and> a = disappeared i p))"
    unfolding run_events_def set_append Un_iff map_filter_Some mem_Collect_eq gone keys set_concat set_map image_image UN_iff in_option_list
    ..
  moreover have "(\<exists>i \<in> set (mkeys (dt_prev d)). i \<notin> d_ID ` set doms \<and> (\<exists>p. map_of (dt_prev d) i = Some p \<and> a = disappeared i p)) \<longleftrightarrow>
      (\<exists>i p. map_of (dt_prev d) i = Some p \<and> i \<notin> d_ID ` set doms \<and> a = disappeared i p)"
    by (metis in_mkeys_iff option.distinct(1))
  ultimately show ?thesis by (simp only: bex_disj_distrib disj_assoc)
qed

lemma appeared_disappeared [simp]:
  "a_Rule (appeared c) = ''vm.appeared''" "a_DomainID (appeared c) = d_ID c"
  "a_Rule (disappeared i p) = ''vm.disappeared''" "a_DomainID (disappeared i p) = i"
  by (simp_all add: appeared_def disappeared_def)

lemma run_appeared:
  assumes "is_order ordp" and "dt_primed d"
  shows "alerts_of_rule ''vm.appeared'' (run_events ordp d doms) = d_ID ` set doms - set (mkeys (dt_prev d))"
proof -
  have no: "a \<in> set (domainEvents p c) \<Longrightarrow> a_Rule a \<noteq> ''vm.appeared''" for a p c
    by (auto dest: domainEvents_rules simp: metric_rules_def)
  have "a \<in> set (run_events ordp d doms) \<and> a_Rule a = ''vm.appeared'' \<longleftrightarrow>
      (\<exists>c \<in> set doms. map_of (dt_prev d) (d_ID c) = None \<and> a = appeared c)" for a
    unfolding run_events_member[OF assms(1)] using assms(2) no[of a] by auto
  then have "alerts_of_rule ''vm.appeared'' (run_events ordp d doms) = {d_ID c |c. c \<in> set doms \<and> map_of (dt_prev d) (d_ID c) = None}"
    unfolding alerts_of_rule_def by (auto, metis appeared_disappeared(2))
  then show ?thesis by (auto simp: in_mkeys_iff)
qed

lemma run_disappeared:
  assumes "is_order ordp"
  shows "alerts_of_rule ''vm.disappeared'' (run_events ordp d doms) = set (mkeys (dt_prev d)) - d_ID ` set doms"
proof -
  have no: "a \<in> set (domainEvents p c) \<Longrightarrow> a_Rule a \<noteq> ''vm.disappeared''" for a p c
    by (auto dest: domainEvents_rules simp: metric_rules_def)
  have "a \<in> set (run_events ordp d doms) \<and> a_Rule a = ''vm.disappeared'' \<longleftrightarrow>
      (\<exists>i p. map_of (dt_prev d) i = Some p \<and> i \<notin> d_ID ` set doms \<and> a = disappeared i p)" for a
    unfolding run_events_member[OF assms] using no[of a] by auto
  then have "alerts_of_rule ''vm.disappeared'' (run_events ordp d doms) =
      {i. (\<exists>p. map_of (dt_prev d) i = Some p) \<and> i \<notin> d_ID ` set doms}"
    unfolding alerts_of_rule_def by (auto, metis appeared_disappeared(4))
  then show ?thesis by (auto simp: in_mkeys_iff)
qed

end
