(* ===== verification/Regex.thy ===== *)
theory Regex
  imports Go_Strings
begin

text \<open>
  The regular expressions the program uses, with the leftmost-first matching of Go's
  \<open>regexp\<close> package: alternatives in order, repetitions greedy, the earliest start wins. The
  program repeats only single character classes, so a repetition is \<open>Many\<close> of a class and
  the matcher needs no fuel. \<open>matches\<close> is the declarative meaning; the matcher finds a
  match exactly when there is one, and every submatch it reports is one.
\<close>

section \<open>Expressions\<close>

datatype re =
    Eps
  | Set "char \<Rightarrow> bool"
  | Many "char \<Rightarrow> bool"
  | Seq re re
  | Alt re re
  | Opt re
  | Group nat re
  | Bol
  | Eol
  | WordB

text \<open>A position: the character before it, what is left, and the submatches so far.\<close>

type_synonym pos = "char option \<times> string \<times> (nat \<times> string) list"

definition is_word :: "char \<Rightarrow> bool" where
  "is_word c = (let n = of_char c :: nat
     in 48 \<le> n \<and> n \<le> 57 \<or> 65 \<le> n \<and> n \<le> 90 \<or> 97 \<le> n \<and> n \<le> 122 \<or> n = 95)"

definition at_word :: "char option \<Rightarrow> bool" where
  "at_word c = (case c of None \<Rightarrow> False | Some c \<Rightarrow> is_word c)"

definition word_boundary :: "char option \<Rightarrow> string \<Rightarrow> bool" where
  "word_boundary p s \<longleftrightarrow> at_word p \<noteq> at_word (case s of [] \<Rightarrow> None | c # _ \<Rightarrow> Some c)"

fun many :: "(char \<Rightarrow> bool) \<Rightarrow> char option \<Rightarrow> string \<Rightarrow> (char option \<Rightarrow> string \<Rightarrow> 'r option) \<Rightarrow> 'r option" where
  "many P p [] k = k p []"
| "many P p (c # s) k =
     (if P c then (case many P (Some c) s k of Some r \<Rightarrow> Some r | None \<Rightarrow> k p (c # s)) else k p (c # s))"

fun rmatch :: "re \<Rightarrow> pos \<Rightarrow> (pos \<Rightarrow> pos option) \<Rightarrow> pos option" where
  "rmatch Eps st k = k st"
| "rmatch (Set P) (p, s, g) k = (case s of [] \<Rightarrow> None | c # s' \<Rightarrow> if P c then k (Some c, s', g) else None)"
| "rmatch (Many P) (p, s, g) k = many P p s (\<lambda>p s. k (p, s, g))"
| "rmatch (Seq a b) st k = rmatch a st (\<lambda>st. rmatch b st k)"
| "rmatch (Alt a b) st k = (case rmatch a st k of Some r \<Rightarrow> Some r | None \<Rightarrow> rmatch b st k)"
| "rmatch (Opt a) st k = (case rmatch a st k of Some r \<Rightarrow> Some r | None \<Rightarrow> k st)"
| "rmatch (Group n a) (p, s, g) k =
     rmatch a (p, s, g) (\<lambda>(p', s', g'). k (p', s', (n, take (length s - length s') s) # g'))"
| "rmatch Bol (p, s, g) k = (if p = None then k (p, s, g) else None)"
| "rmatch Eol (p, s, g) k = (if s = [] then k (p, s, g) else None)"
| "rmatch WordB (p, s, g) k = (if word_boundary p s then k (p, s, g) else None)"

text \<open>\<open>FindStringSubmatch\<close>: the submatches of the leftmost match, the latest of a group first.\<close>

fun find_from :: "re \<Rightarrow> char option \<Rightarrow> string \<Rightarrow> (nat \<times> string) list option" where
  "find_from r p s =
     (case rmatch r (p, s, []) Some of
        Some (_, _, g) \<Rightarrow> Some g
      | None \<Rightarrow> (case s of [] \<Rightarrow> None | c # s' \<Rightarrow> find_from r (Some c) s'))"

definition FindSubmatch :: "re \<Rightarrow> string \<Rightarrow> (nat \<times> string) list option" where
  "FindSubmatch r s = find_from r None s"

definition MatchString :: "re \<Rightarrow> string \<Rightarrow> bool" where
  "MatchString r s \<longleftrightarrow> FindSubmatch r s \<noteq> None"

definition submatch :: "(nat \<times> string) list \<Rightarrow> nat \<Rightarrow> string" where
  "submatch g n = mget [] g n"

text \<open>Notation of the patterns: literals, also ignoring case, sequences, alternatives, classes.\<close>

definition lit :: "string \<Rightarrow> re" where
  "lit s = foldr (\<lambda>c r. Seq (Set (\<lambda>x. x = c)) r) s Eps"

definition liti :: "string \<Rightarrow> re" where
  "liti s = foldr (\<lambda>c r. Seq (Set (\<lambda>x. to_lower x = to_lower c)) r) s Eps"

definition seqs :: "re list \<Rightarrow> re" where
  "seqs rs = foldr Seq rs Eps"

fun alts :: "re list \<Rightarrow> re" where
  "alts [] = Set (\<lambda>_. False)"
| "alts [r] = r"
| "alts (r # rs) = Alt r (alts rs)"

definition many1 :: "(char \<Rightarrow> bool) \<Rightarrow> re" where
  "many1 P = Seq (Set P) (Many P)"

definition dot :: "char \<Rightarrow> bool" where
  "dot c \<longleftrightarrow> c \<noteq> CHR 0x0A"

definition in_range :: "char \<Rightarrow> char \<Rightarrow> char \<Rightarrow> bool" where
  "in_range a b c \<longleftrightarrow> (of_char a :: nat) \<le> of_char c \<and> (of_char c :: nat) \<le> of_char b"

definition digit :: "char \<Rightarrow> bool" where
  "digit c = in_range (CHR ''0'') (CHR ''9'') c"

definition nonspace :: "char \<Rightarrow> bool" where
  "nonspace c \<longleftrightarrow> c \<notin> set [CHR 0x09, CHR 0x0A, CHR 0x0C, CHR 0x0D, CHR '' '']"

section \<open>Meaning\<close>

inductive matches :: "re \<Rightarrow> pos \<Rightarrow> pos \<Rightarrow> bool" where
  m_Eps: "matches Eps st st"
| m_Set: "P c \<Longrightarrow> matches (Set P) (p, c # s, g) (Some c, s, g)"
| m_Many_0: "matches (Many P) st st"
| m_Many_S: "P c \<Longrightarrow> matches (Many P) (Some c, s, g) st \<Longrightarrow> matches (Many P) (p, c # s, g) st"
| m_Seq: "matches a st st' \<Longrightarrow> matches b st' st'' \<Longrightarrow> matches (Seq a b) st st''"
| m_Alt1: "matches a st st' \<Longrightarrow> matches (Alt a b) st st'"
| m_Alt2: "matches b st st' \<Longrightarrow> matches (Alt a b) st st'"
| m_Opt0: "matches (Opt a) st st"
| m_Opt1: "matches a st st' \<Longrightarrow> matches (Opt a) st st'"
| m_Group: "matches a (p, s, g) (p', s', g') \<Longrightarrow>
    matches (Group n a) (p, s, g) (p', s', (n, take (length s - length s') s) # g')"
| m_Bol: "matches Bol (None, s, g) (None, s, g)"
| m_Eol: "matches Eol (p, [], g) (p, [], g)"
| m_WordB: "word_boundary p s \<Longrightarrow> matches WordB (p, s, g) (p, s, g)"

inductive_cases matches_elims:
  "matches Eps st st'" "matches (Set P) st st'" "matches (Seq a b) st st'" "matches (Alt a b) st st'"
  "matches (Opt a) st st'" "matches (Group n a) st st'" "matches Bol st st'" "matches Eol st st'" "matches WordB st st'"

lemma many_sound: "many P p s (\<lambda>p s. k (p, s, g)) = Some r \<Longrightarrow> \<exists>st. matches (Many P) (p, s, g) st \<and> k st = Some r"
proof (induction P p s "\<lambda>p s. k (p, s, g)" rule: many.induct)
  case (1 P p)
  then show ?case by (auto intro: m_Many_0)
next
  case (2 P p c s)
  then show ?case by (auto split: if_splits option.splits intro: m_Many_0 m_Many_S)
qed

lemma rmatch_sound: "rmatch a st k = Some r \<Longrightarrow> \<exists>st'. matches a st st' \<and> k st' = Some r"
proof (induction a arbitrary: st k r)
  case (Set P)
  then show ?case by (cases st) (auto split: list.splits if_splits intro: m_Set)
next
  case (Many P)
  then show ?case using many_sound by (cases st) simp
next
  case (Seq a b)
  from Seq.prems have "rmatch a st (\<lambda>st. rmatch b st k) = Some r" by simp
  from Seq.IH(1)[OF this] obtain st1 where a: "matches a st st1" "rmatch b st1 k = Some r" by blast
  then obtain st' where "matches b st1 st'" "k st' = Some r" using Seq.IH(2) by blast
  with a(1) show ?case using m_Seq by blast
next
  case (Alt a b)
  show ?case
  proof (cases "rmatch a st k")
    case None
    then have "rmatch b st k = Some r" using Alt.prems by simp
    from Alt.IH(2)[OF this] show ?thesis using m_Alt2 by blast
  next
    case (Some r')
    then have "rmatch a st k = Some r" using Alt.prems by simp
    from Alt.IH(1)[OF this] show ?thesis using m_Alt1 by blast
  qed
next
  case (Opt a)
  show ?case
  proof (cases "rmatch a st k")
    case None
    then have "k st = Some r" using Opt.prems by simp
    with m_Opt0 show ?thesis by blast
  next
    case (Some r')
    then have "rmatch a st k = Some r" using Opt.prems by simp
    from Opt.IH[OF this] show ?thesis using m_Opt1 by blast
  qed
next
  case (Group n a)
  obtain p s g where st: "st = (p, s, g)" by (cases st)
  from Group.prems have "rmatch a (p, s, g) (\<lambda>(p', s', g'). k (p', s', (n, take (length s - length s') s) # g')) = Some r"
    by (simp add: st)
  from Group.IH[OF this] obtain st' where m: "matches a (p, s, g) st'"
    "(\<lambda>(p', s', g'). k (p', s', (n, take (length s - length s') s) # g')) st' = Some r" by blast
  obtain p' s' g' where "st' = (p', s', g')" by (cases st')
  with m show ?case using m_Group[of a p s g p' s' g' n] by (auto simp: st)
next
  case Eps
  then have "k st = Some r" by simp
  with m_Eps show ?case by blast
next
  case Bol
  then show ?case using m_Bol by (cases st) (auto split: if_splits, blast)
next
  case Eol
  then show ?case using m_Eol by (cases st) (auto split: if_splits, blast)
next
  case WordB
  then show ?case using m_WordB by (cases st) (auto split: if_splits, blast)
qed

lemma many_complete: "matches a st st' \<Longrightarrow> a = Many P \<Longrightarrow> st = (p, s, g) \<Longrightarrow> k st' \<noteq> None \<Longrightarrow> many P p s (\<lambda>p s. k (p, s, g)) \<noteq> None"
proof (induction arbitrary: p s rule: matches.induct)
  case (m_Many_0 P' st)
  then show ?case by (cases s) (auto split: option.splits)
next
  case (m_Many_S P' c s' g' st p')
  then show ?case by (auto split: option.splits)
qed simp_all

lemma rmatch_complete: "matches a st st' \<Longrightarrow> k st' \<noteq> None \<Longrightarrow> rmatch a st k \<noteq> None"
proof (induction a arbitrary: st st' k)
  case (Many P)
  obtain p s g where st: "st = (p, s, g)" by (cases st)
  then show ?case using many_complete[OF Many.prems(1) refl st, of k] Many.prems(2) by simp
next
  case (Seq a b)
  from Seq.prems(1) obtain st1 where "matches a st st1" "matches b st1 st'" by (rule matches_elims) blast
  then show ?case using Seq.IH(1)[of st st1 "\<lambda>st. rmatch b st k"] Seq.IH(2) Seq.prems(2) by simp
next
  case (Alt a b)
  from Alt.prems(1) consider "matches a st st'" | "matches b st st'" by (rule matches_elims) blast+
  then show ?case
  proof cases
    case 1
    then show ?thesis using Alt.IH(1)[of st st' k] Alt.prems(2) by (cases "rmatch a st k") simp_all
  next
    case 2
    then show ?thesis using Alt.IH(2)[of st st' k] Alt.prems(2) by (cases "rmatch a st k") simp_all
  qed
next
  case (Opt a)
  from Opt.prems(1) consider "st' = st" | "matches a st st'" by (rule matches_elims) blast+
  then show ?case
  proof cases
    case 1
    then show ?thesis using Opt.prems(2) by (cases "rmatch a st k") simp_all
  next
    case 2
    then show ?thesis using Opt.IH[of st st' k] Opt.prems(2) by (cases "rmatch a st k") simp_all
  qed
next
  case (Group n a)
  from Group.prems(1) obtain p s g p' s' g' where m: "st = (p, s, g)" "matches a (p, s, g) (p', s', g')"
    "st' = (p', s', (n, take (length s - length s') s) # g')" by (rule matches_elims) blast
  then show ?case using Group.IH[OF m(2)] Group.prems(2) by simp
qed (auto elim!: matches_elims)

text \<open>What is consumed is a prefix of what was left.\<close>

lemma matches_consumes: "matches a st st' \<Longrightarrow> \<exists>u. fst (snd st) = u @ fst (snd st')"
proof (induction rule: matches.induct)
  case (m_Seq a st st' b st'')
  then show ?case by (metis append.assoc)
next
  case (m_Many_S P c s g st p)
  then show ?case by (metis append_Cons fst_conv snd_conv)
qed auto

declare find_from.simps [simp del]

lemma find_from_sound:
  "find_from r p s = Some g \<Longrightarrow> \<exists>u p' s' p'' s''. s = u @ s' \<and> (u = [] \<longrightarrow> p' = p) \<and> (u \<noteq> [] \<longrightarrow> p' = Some (last u)) \<and>
    matches r (p', s', []) (p'', s'', g)"
proof (induction r p s rule: find_from.induct)
  case (1 r p s)
  show ?case
  proof (cases "rmatch r (p, s, []) Some")
    case None
    then obtain c t where s: "s = c # t" "find_from r (Some c) t = Some g"
      using "1.prems" by (auto simp: find_from.simps[of r p s] split: list.splits)
    from "1.IH"[OF None s] obtain u p' s' p'' s'' where "t = u @ s'" "u = [] \<longrightarrow> p' = Some c" "u \<noteq> [] \<longrightarrow> p' = Some (last u)"
      "matches r (p', s', []) (p'', s'', g)" by blast
    then show ?thesis using s(1) by (intro exI[of _ "c # u"]) auto
  next
    case (Some st)
    then have "snd (snd st) = g" using "1.prems" by (auto simp: find_from.simps[of r p s] split: prod.splits)
    moreover obtain st' where "matches r (p, s, []) st'" "st' = st" using rmatch_sound[OF Some] by auto
    ultimately show ?thesis by (intro exI[of _ "[]"]) (cases st, auto)
  qed
qed

lemma find_from_complete:
  assumes "matches r (p', s', []) st" "s = u @ s'" "u = [] \<longrightarrow> p' = p" "u \<noteq> [] \<longrightarrow> p' = Some (last u)"
  shows "find_from r p s \<noteq> None"
  using assms
proof (induction u arbitrary: p s)
  case Nil
  then have "rmatch r (p, s, []) Some \<noteq> None" using rmatch_complete[of r "(p, s, [])" st Some] by auto
  then show ?case by (auto simp: find_from.simps[of r p s])
next
  case (Cons c u)
  then have "find_from r (Some c) (u @ s') \<noteq> None" by auto
  then show ?case
    using Cons.prems(2) by (cases "rmatch r (p, s, []) Some") (auto simp: find_from.simps[of r p "c # u @ s'"])
qed

lemma MatchString_iff:
  "MatchString r s \<longleftrightarrow> (\<exists>u s' st. s = u @ s' \<and> matches r (if u = [] then None else Some (last u), s', []) st)"
proof
  assume "MatchString r s"
  then obtain g where "find_from r None s = Some g" by (auto simp: MatchString_def FindSubmatch_def)
  from find_from_sound[OF this] obtain u p' s' st where "s = u @ s'" "u = [] \<longrightarrow> p' = None" "u \<noteq> [] \<longrightarrow> p' = Some (last u)"
    "matches r (p', s', []) st" by blast
  then show "\<exists>u s' st. s = u @ s' \<and> matches r (if u = [] then None else Some (last u), s', []) st"
    by (intro exI[of _ u] exI[of _ s'] exI[of _ st]) auto
next
  assume "\<exists>u s' st. s = u @ s' \<and> matches r (if u = [] then None else Some (last u), s', []) st"
  then obtain u s' st where "s = u @ s'" "matches r (if u = [] then None else Some (last u), s', []) st" by blast
  from find_from_complete[OF this(2,1), of None] show "MatchString r s"
    by (simp add: MatchString_def FindSubmatch_def)
qed

section \<open>Meaning of the notation\<close>

lemma matches_lit: "matches (lit w) (p, s, g) st \<longleftrightarrow>
    (\<exists>t. s = w @ t \<and> st = (if w = [] then p else Some (last w), t, g))"
proof (induction w arbitrary: p s)
  case Nil
  then show ?case by (auto simp: lit_def elim: matches_elims intro: matches.intros)
next
  case (Cons c w)
  have "matches (lit (c # w)) (p, s, g) st \<longleftrightarrow> (\<exists>t. s = c # t \<and> matches (lit w) (Some c, t, g) st)"
    by (auto simp: lit_def elim!: matches_elims intro: matches.intros)
  then show ?case using Cons.IH[of "Some c"] by auto
qed

lemma matches_Seq: "matches (Seq a b) st st'' \<longleftrightarrow> (\<exists>st'. matches a st st' \<and> matches b st' st'')"
  using m_Seq[of a st _ b st''] by (metis matches_elims(3))

lemma matches_seqs:
  "matches (seqs []) st st' \<longleftrightarrow> st' = st"
  "matches (seqs (r # rs)) st st'' \<longleftrightarrow> (\<exists>st'. matches r st st' \<and> matches (seqs rs) st' st'')"
  by (auto simp: seqs_def matches_Seq elim: matches_elims intro: matches.intros)

lemma matches_Many_all: "matches a st st' \<Longrightarrow> a = Many P \<Longrightarrow>
    \<exists>u. fst (snd st) = u @ fst (snd st') \<and> snd (snd st') = snd (snd st) \<and> (\<forall>c \<in> set u. P c)"
proof (induction rule: matches.induct)
  case (m_Many_S P' c s g st p)
  then obtain u where "s = u @ fst (snd st)" "snd (snd st) = g" "\<forall>c \<in> set u. P c" by auto
  then show ?case using m_Many_S by (intro exI[of _ "c # u"]) auto
qed auto

lemma matches_many1: "matches (many1 P) (p, s, g) (p', s', g') \<Longrightarrow> \<exists>u. s = u @ s' \<and> u \<noteq> [] \<and> (\<forall>c \<in> set u. P c) \<and> g' = g"
proof -
  assume "matches (many1 P) (p, s, g) (p', s', g')"
  then obtain c t where s: "s = c # t" "P c" and m: "matches (Many P) (Some c, t, g) (p', s', g')"
    by (auto simp: many1_def elim!: matches_elims)
  from matches_Many_all[OF m refl] obtain u where "t = u @ s'" "g' = g" "\<forall>c \<in> set u. P c" by auto
  then show ?thesis using s by (intro exI[of _ "c # u"]) auto
qed

lemma matches_Group_many1:
  assumes "matches (Group n (many1 P)) (p, s, g) st"
  shows "\<exists>u p' s'. s = u @ s' \<and> u \<noteq> [] \<and> (\<forall>c \<in> set u. P c) \<and> st = (p', s', (n, u) # g)"
proof -
  obtain p' s' g' where m: "matches (many1 P) (p, s, g) (p', s', g')" "st = (p', s', (n, take (length s - length s') s) # g')"
    using assms by (auto elim: matches_elims)
  from matches_many1[OF m(1)] m(2) show ?thesis by auto
qed

section \<open>Texts that cannot match\<close>

text \<open>
  A text that has no character for one of the classes a pattern must pass has no match.
\<close>

fun lacks :: "string \<Rightarrow> re \<Rightarrow> bool" where
  "lacks s (Set P) = list_all (\<lambda>c. \<not> P c) s"
| "lacks s (Seq a b) = (lacks s a \<or> lacks s b)"
| "lacks s (Alt a b) = (lacks s a \<and> lacks s b)"
| "lacks s (Group n a) = lacks s a"
| "lacks s _ = False"

lemma matches_rest: "matches r st st' \<Longrightarrow> set (fst (snd st')) \<subseteq> set (fst (snd st))"
  by (induction rule: matches.induct) auto

lemma lacks_no_match: "matches r st st' \<Longrightarrow> set (fst (snd st)) \<subseteq> set s \<Longrightarrow> \<not> lacks s r"
proof (induction rule: matches.induct)
  case (m_Seq a st st' b st'')
  then show ?case using matches_rest[OF m_Seq.hyps(1)] by auto
qed (auto simp: list_all_iff)

lemma FindSubmatch_lacks:
  assumes "lacks s r"
  shows "FindSubmatch r s = None"
proof (rule ccontr)
  assume "FindSubmatch r s \<noteq> None"
  then obtain g where "find_from r None s = Some g" by (auto simp: FindSubmatch_def)
  from find_from_sound[OF this] obtain u p t st where "s = u @ t" "matches r (p, t, []) st" by blast
  then show False using lacks_no_match[of r "(p, t, [])" st s] assms by simp
qed

end
