(* ===== verification/Kmsg.thy ===== *)
theory Kmsg
  imports Go_Strings
begin

text \<open>
  \<open>internal/kmsg/kmsg.go\<close>: records of the kernel log. The device is the list of what its
  reads return; a list that ends is a read that blocks.
\<close>

section \<open>Records\<close>

record Record =
  rec_Priority :: int
  rec_Facility :: int
  rec_Seq :: nat
  rec_Time :: gtime
  rec_Message :: string
  rec_Fields :: "(string, string) gomap"

abbreviation newline :: char where
  "newline \<equiv> CHR 0x0A"

abbreviation backslash :: char where
  "backslash \<equiv> CHR 0x5C"

text \<open>The \<open>\xNN\<close> escapes of the kernel; an escape needs two more bytes and must be hexadecimal.\<close>

fun unescape_loop :: "string \<Rightarrow> string" where
  "unescape_loop (c # x # a # b # s) =
     (if c = backslash \<and> x = CHR ''x'' then
        (case ParseUint [a, b] 16 8 of
           Inr v \<Rightarrow> char_of v # unescape_loop s
         | Inl _ \<Rightarrow> c # unescape_loop (x # a # b # s))
      else c # unescape_loop (x # a # b # s))"
| "unescape_loop s = s"

definition unescape :: "string \<Rightarrow> string" where
  "unescape s = (if \<not> Contains s [backslash, CHR ''x''] then s else unescape_loop s)"

text \<open>\<open>time.Duration(usec) * time.Microsecond\<close> on \<open>int64\<close>.\<close>

definition usec_duration :: "nat \<Rightarrow> duration" where
  "usec_duration usec = sint (of_nat usec * 1000 :: 64 word)"

definition add_field :: "(string, string) gomap \<Rightarrow> string \<Rightarrow> (string, string) gomap" where
  "add_field m l = (let (k, v, ok) = Cut (TrimPrefix l '' '') (CHR ''='') in if ok then AList.update k v m else m)"

definition Parse :: "string \<Rightarrow> gtime \<Rightarrow> Record option" where
  "Parse s boot =
     (let (head, rest, ok) = Cut s (CHR '';'')
      in if \<not> ok then None
         else let parts = Split head (CHR '','')
              in if length parts < 3 then None
                 else case (Atoi (parts ! 0), ParseUint (parts ! 1) 10 64, ParseUint (parts ! 2) 10 64) of
                        (Inr prio, Inr sq, Inr usec) \<Rightarrow>
                          (let lines = Split (TrimRight rest newline) newline
                           in Some \<lparr>rec_Priority = prio AND 7, rec_Facility = drop_bit 3 prio, rec_Seq = sq,
                                    rec_Time = boot + usec_duration usec, rec_Message = unescape (lines ! 0),
                                    rec_Fields = foldl add_field [] (tl lines)\<rparr>)
                      | _ \<Rightarrow> None)"

section \<open>The reader\<close>

text \<open>The kernel log counts from boot: the wall clock less the monotonic clock, if that can be read.\<close>

definition bootTime :: "gtime \<Rightarrow> duration option \<Rightarrow> gtime" where
  "bootTime now monotonic = (case monotonic of None \<Rightarrow> now | Some ts \<Rightarrow> now - ts)"

text \<open>A reader is its time of boot; \<open>err\<close> is the error of opening the device.\<close>

definition OpenKmsg :: "string option \<Rightarrow> gtime \<Rightarrow> duration option \<Rightarrow> string + gtime" where
  "OpenKmsg err now monotonic =
     (case err of Some e \<Rightarrow> Inl (''open /dev/kmsg: '' @ e) | None \<Rightarrow> Inr (bootTime now monotonic))"

datatype kmsg_read = ReadData string | ReadEPIPE | ReadEINVAL | ReadError string

datatype next_result = NextRecord Record | NextError string | NextBlocked

fun Next :: "gtime \<Rightarrow> kmsg_read list \<Rightarrow> next_result \<times> kmsg_read list" where
  "Next boot [] = (NextBlocked, [])"
| "Next boot (ReadEPIPE # rs) = Next boot rs"
| "Next boot (ReadEINVAL # rs) = Next boot rs"
| "Next boot (ReadError e # rs) = (NextError e, rs)"
| "Next boot (ReadData s # rs) = (case Parse s boot of Some r \<Rightarrow> (NextRecord r, rs) | None \<Rightarrow> Next boot rs)"

lemma Next_shorter: "Next boot rs = (NextRecord r, rs') \<Longrightarrow> length rs' < length rs"
  by (induction boot rs rule: Next.induct) (auto split: option.splits)

section \<open>Escapes round trip\<close>

text \<open>
  The kernel writes a byte that is not printable, or is a backslash, as an escape. Any
  such encoding is undone, whichever bytes beside the backslash it escapes.
\<close>

definition hex2 :: "nat \<Rightarrow> string" where
  "hex2 n = [digit_char (n div 16), digit_char (n mod 16)]"

definition escape :: "(char \<Rightarrow> bool) \<Rightarrow> string \<Rightarrow> string" where
  "escape must s = concat (map (\<lambda>c. if c = backslash \<or> must c then [backslash, CHR ''x''] @ hex2 (of_char c) else [c]) s)"

lemma ParseUint_hex2: "n < 256 \<Longrightarrow> ParseUint (hex2 n) 16 8 = Inr n"
  by (simp add: ParseUint_def hex2_def digit_val_digit_char not_le)

lemma unescape_loop_plain: "c \<noteq> backslash \<Longrightarrow> unescape_loop (c # s) = c # unescape_loop s"
  by (cases "c # s" rule: unescape_loop.cases) auto

lemma unescape_loop_escape: "n < 256 \<Longrightarrow> unescape_loop ([backslash, CHR ''x''] @ hex2 n @ s) = char_of n # unescape_loop s"
  using ParseUint_hex2[of n] by (simp add: hex2_def)

lemma unescape_loop_no_escape: "\<not> Contains s [backslash, CHR ''x''] \<Longrightarrow> unescape_loop s = s"
  by (induction s rule: unescape_loop.induct) (auto simp: HasPrefix_def)

lemma unescape_eq_loop: "unescape s = unescape_loop s"
  by (simp add: unescape_def unescape_loop_no_escape)

lemma unescape_escape: "unescape (escape must s) = s"
proof -
  have "unescape_loop (escape must s) = s"
  proof (induction s)
    case Nil
    then show ?case by (simp add: escape_def)
  next
    case (Cons c s)
    have n: "(of_char c :: nat) < 256" by simp
    show ?case
    proof (cases "c = backslash \<or> must c")
      case True
      then have "escape must (c # s) = [backslash, CHR ''x''] @ hex2 (of_char c) @ escape must s"
        by (simp add: escape_def)
      then show ?thesis using unescape_loop_escape[OF n] Cons by simp
    next
      case False
      then have "escape must (c # s) = c # escape must s" by (simp add: escape_def)
      then show ?thesis using unescape_loop_plain[of c] False Cons by simp
    qed
  qed
  then show ?thesis by (simp add: unescape_eq_loop)
qed

section \<open>Records round trip\<close>

text \<open>A record as the kernel writes it: header, escaped message, and indented fields.\<close>

definition format_record :: "int \<Rightarrow> nat \<Rightarrow> nat \<Rightarrow> string \<Rightarrow> string \<Rightarrow> (string \<times> string) list \<Rightarrow> string" where
  "format_record prio sq usec flags msg fs =
     show_int prio @ '','' @ show_nat sq @ '','' @ show_nat usec @ '','' @ flags @ '';'' @
     Join (msg # map (\<lambda>(k, v). '' '' @ k @ ''='' @ v) fs) [newline] @ [newline]"

lemma show_int_chars: "c \<in> set (show_int i) \<Longrightarrow> c = CHR ''-'' \<or> 48 \<le> (of_char c :: nat) \<and> (of_char c :: nat) \<le> 57"
  using show_nat_digits by (auto simp: show_int_def split: if_splits)

lemma show_int_no: "c \<in> {CHR '','', CHR '';''} \<Longrightarrow> c \<notin> set (show_int i)"
  using show_int_chars[of c i] by auto

lemma show_nat_no: "c \<in> {CHR '','', CHR '';''} \<Longrightarrow> c \<notin> set (show_nat n)"
  using show_nat_digits[of c n] by auto

lemma add_field_line: "CHR ''='' \<notin> set k \<Longrightarrow> add_field m ('' '' @ k @ ''='' @ v) = AList.update k v m"
  using CutPrefix_append[of "'' ''" "k @ ''='' @ v"] by (simp add: add_field_def TrimPrefix_def)

lemma add_fields:
  "\<forall>(k, v) \<in> set fs. CHR ''='' \<notin> set k \<Longrightarrow>
   foldl add_field m (map (\<lambda>(k, v). '' '' @ k @ ''='' @ v) fs) = foldl (\<lambda>m (k, v). AList.update k v m) m fs"
proof (induction fs arbitrary: m)
  case Nil
  then show ?case by simp
next
  case (Cons f fs)
  then show ?case using add_field_line by (cases f) (auto simp del: append.simps append_Cons)
qed

lemma usec_duration_exact: "usec < 2 ^ 63 div 1000 \<Longrightarrow> usec_duration usec = int usec * 1000"
proof -
  assume "usec < 2 ^ 63 div 1000"
  then have "int usec * 1000 < 2 ^ 63" by simp
  then have "signed_take_bit 63 (int usec * 1000) = int usec * 1000"
    by (intro signed_take_bit_int_eq_self) simp_all
  moreover have "of_nat usec * 1000 = (word_of_int (int usec * 1000) :: 64 word)" by simp
  ultimately show ?thesis unfolding usec_duration_def by (simp only: signed_of_int len_of_numeral_defs) simp
qed

lemma Join_last:
  "ls \<noteq> [] \<Longrightarrow> last ls \<noteq> [] \<Longrightarrow> Join ls sep \<noteq> [] \<and> last (Join ls sep) = last (last ls)"
  by (induction ls sep rule: Join.induct) auto

lemma TrimRight_lines:
  assumes "ls \<noteq> []" "\<forall>l \<in> set ls. newline \<notin> set l" "length ls = 1 \<or> last ls \<noteq> []"
  shows "Split (TrimRight (Join ls [newline] @ [newline]) newline) newline = ls"
proof -
  have "Join ls [newline] = [] \<or> last (Join ls [newline]) \<noteq> newline"
  proof (cases "last ls = []")
    case True
    then have "ls = [[]]" using assms(1,3) by (cases ls) auto
    then show ?thesis by simp
  next
    case False
    then have "last (last ls) \<noteq> newline" using assms(1,2) by (metis last_in_set)
    then show ?thesis using Join_last[OF assms(1) False] by metis
  qed
  then have "TrimRight (Join ls [newline] @ [newline]) newline = Join ls [newline]"
    by (simp add: TrimRight_keep)
  then show ?thesis using Split_Join[OF assms(1,2)] by simp
qed

lemma Parse_format:
  assumes prio: "0 \<le> prio" "prio < 2 ^ 63" and sq: "sq < 2 ^ 64" and usec: "usec < 2 ^ 63 div 1000"
    and flags: "CHR '';'' \<notin> set flags" "CHR '','' \<notin> set flags" and msg: "newline \<notin> set msg"
    and fs: "\<forall>(k, v) \<in> set fs. CHR ''='' \<notin> set k \<and> newline \<notin> set k \<and> newline \<notin> set v"
  shows "Parse (format_record prio sq usec flags msg fs) boot =
    Some \<lparr>rec_Priority = prio mod 8, rec_Facility = prio div 8, rec_Seq = sq, rec_Time = boot + int usec * 1000,
      rec_Message = unescape msg, rec_Fields = foldl (\<lambda>m (k, v). AList.update k v m) [] fs\<rparr>"
proof -
  let ?head = "show_int prio @ '','' @ show_nat sq @ '','' @ show_nat usec @ '','' @ flags"
  let ?lines = "msg # map (\<lambda>(k, v). '' '' @ k @ ''='' @ v) fs"
  let ?rest = "Join ?lines [newline] @ [newline]"
  have "CHR '';'' \<notin> set ?head" using flags show_int_no show_nat_no by auto
  then have cut: "Cut (format_record prio sq usec flags msg fs) (CHR '';'') = (?head, ?rest, True)"
    using Cut_hit[of "CHR '';''" ?head ?rest] by (simp add: format_record_def)
  have parts: "Split ?head (CHR '','') = [show_int prio, show_nat sq, show_nat usec, flags]"
    using flags show_int_no[of "CHR '',''"] show_nat_no[of "CHR '',''"] by (simp add: Split_append Split_no_sep)
  have nums: "Atoi (show_int prio) = Inr prio" "ParseUint (show_nat sq) 10 64 = Inr sq"
    "ParseUint (show_nat usec) 10 64 = Inr usec"
    using prio sq usec by (auto intro!: Atoi_show_int ParseUint_show_nat)
  have lines: "Split (TrimRight ?rest newline) newline = ?lines"
    using msg fs by (intro TrimRight_lines) (auto simp: last_map split: prod.splits)
  have "prio AND 7 = prio mod 8" 
    using take_bit_eq_mask[of 3 prio] by (simp add: mask_eq_exp_minus_1 take_bit_eq_mod)
  moreover have "drop_bit 3 prio = prio div 8" by (simp add: drop_bit_eq_div)
  moreover have "foldl add_field [] (tl ?lines) = foldl (\<lambda>m (k, v). AList.update k v m) [] fs"
    using add_fields[of fs "[]"] fs by fastforce
  ultimately show ?thesis
    unfolding Parse_def cut Let_def split_conv parts lines using nums usec_duration_exact[OF usec] by simp
qed

end
