(* ===== verification/Kmsg_Rules.thy ===== *)
theory Kmsg_Rules
  imports Regex Kmsg Engine Kernel
begin

text \<open>
  \<open>internal/alert/kmsg.go\<close>: kernel log records turned into alerts. The patterns are those
  of the source, written in the notation of \<open>Regex\<close>.
\<close>

section \<open>Rules\<close>

record kmsgRule =
  kr_rule :: string
  kr_re :: re
  kr_groups :: nat
  kr_sev :: Severity
  kr_cat :: Category
  kr_subject :: nat
  kr_pidGroup :: nat

text \<open>\<open>kr_groups\<close> is the number of groups of the pattern: a match has one entry more.\<close>

definition mk_rule :: "string \<Rightarrow> re \<Rightarrow> nat \<Rightarrow> Severity \<Rightarrow> Category \<Rightarrow> nat \<Rightarrow> nat \<Rightarrow> kmsgRule" where
  "mk_rule rule r n sev cat subject pidGroup =
     \<lparr>kr_rule = rule, kr_re = r, kr_groups = n, kr_sev = sev, kr_cat = cat, kr_subject = subject, kr_pidGroup = pidGroup\<rparr>"

text \<open>Kernel bugs and stalls.\<close>

definition kernel_rules :: "kmsgRule list" where
  "kernel_rules = [
     mk_rule ''kernel.oops''
       (seqs [Bol, alts [lit ''Oops'', lit ''general protection fault'', lit ''kernel BUG at'',
       lit ''BUG: unable to handle'', lit ''Internal error: Oops'']])
       0 Critical CatKernel 0 0,
     mk_rule ''kernel.panic''
       (seqs [Bol, lit ''Kernel panic''])
       0 Critical CatKernel 0 0,
     mk_rule ''kernel.soft_lockup''
       (seqs [lit ''BUG: soft lockup - CPU#'', Group 1 (many1 digit)])
       1 Critical CatKernel 1 0,
     mk_rule ''kernel.hard_lockup''
       (alts [seqs [liti ''hard LOCKUP on cpu '', Group 1 (many1 digit)],
       liti ''Watchdog detected hard LOCKUP''])
       1 Critical CatKernel 1 0,
     mk_rule ''kernel.rcu_stall''
       (alts [seqs [lit ''rcu: INFO: '', many1 nonspace, lit '' '', Opt (lit ''self-''),
       lit ''detected stall'', Opt (lit ''s'')], seqs [lit ''rcu_'', many1 is_word, lit '' '',
       Opt (lit ''self-''), lit ''detected stall'']])
       0 Critical CatKernel 0 0,
     mk_rule ''kernel.hung_task''
       (seqs [Bol, lit ''INFO: task '', Group 1 (many1 nonspace), lit '':'', Group 2 (many1 digit),
       lit '' blocked for more than''])
       2 Warning CatKernel 1 2,
     mk_rule ''kernel.bug''
       (seqs [Bol, lit ''BUG: '', Group 1 (seqs [Set nonspace, Many dot])])
       1 Critical CatKernel 0 0,
     mk_rule ''kernel.warning''
       (seqs [Bol, lit ''WARNING: CPU: '', many1 digit, lit '' PID: '', Group 1 (many1 digit),
       lit '' at '', Group 2 (many1 nonspace)])
       2 Warning CatKernel 2 1,
     mk_rule ''kernel.hrtimer''
       (seqs [Bol, lit ''hrtimer: interrupt took '', many1 digit, lit '' ns''])
       0 Warning CatKernel 0 0,
     mk_rule ''kernel.clocksource''
       (alts [seqs [liti ''clocksource'', Many dot, liti ''unstable''], liti ''TSC found unstable'',
       liti ''Marking TSC unstable''])
       0 Warning CatKernel 0 0]"

text \<open>Memory.\<close>

definition memory_rules :: "kmsgRule list" where
  "memory_rules = [
     mk_rule ''mem.oom_kill''
       (seqs [Bol, lit ''Out of memory'', Many dot, lit '': Killed process '', Group 1 (many1 digit),
       lit '' ('', Group 2 (Many (\<lambda>c. \<not> (c \<in> set '')''))), lit '')''])
       2 Warning CatMemory 2 1,
     mk_rule ''mem.oom_kill''
       (seqs [Bol, lit ''Memory cgroup out of memory: Killed process '', Group 1 (many1 digit),
       lit '' ('', Group 2 (Many (\<lambda>c. \<not> (c \<in> set '')''))), lit '')''])
       2 Warning CatMemory 2 1,
     mk_rule ''mem.alloc_failure''
       (seqs [Bol, Group 1 (many1 nonspace), lit '': page allocation failure''])
       1 Warning CatMemory 1 0,
     mk_rule ''hw.memory_failure''
       (seqs [Bol, lit ''Memory failure: '', Group 1 (seqs [lit ''0x'',
       many1 (\<lambda>c. in_range (CHR ''0'') (CHR ''9'') c \<or> in_range (CHR ''a'') (CHR ''f'') c)])])
       1 Critical CatHardware 1 0]"

text \<open>Hardware.\<close>

definition hardware_rules :: "kmsgRule list" where
  "hardware_rules = [
     mk_rule ''hw.mce''
       (alts [seqs [Bol, lit ''mce: [Hardware Error]''], seqs [Bol, lit ''[Hardware Error]'']])
       0 Critical CatHardware 0 0,
     mk_rule ''hw.edac_ue''
       (alts [seqs [lit ''EDAC '', many1 nonspace, lit '': '', Many dot, WordB, lit ''UE'', WordB],
       seqs [lit ''EDAC'', Many dot, Set (\<lambda>c. c \<in> set ''Uu''), lit ''ncorrect'']])
       0 Critical CatHardware 0 0,
     mk_rule ''hw.edac_ce''
       (alts [seqs [lit ''EDAC '', many1 nonspace, lit '': '', Many dot, WordB, lit ''CE'', WordB],
       seqs [lit ''EDAC'', Many dot, Set (\<lambda>c. c \<in> set ''Cc''), lit ''orrected'']])
       0 Warning CatHardware 0 0,
     mk_rule ''hw.pcie_aer''
       (seqs [alts [lit ''AER'', lit ''PCIe Bus Error''], Many dot, lit ''severity='',
       alts [lit ''Uncorrected'', lit ''Fatal'']])
       0 Critical CatHardware 0 0,
     mk_rule ''hw.pcie_aer''
       (seqs [alts [lit ''AER'', lit ''PCIe Bus Error''], Many dot, lit ''severity=Corrected''])
       0 Info CatHardware 0 0,
     mk_rule ''hw.thermal''
       (alts [liti ''temperature above threshold'', liti ''cpu clock throttled'',
       liti ''critical temperature reached''])
       0 Warning CatHardware 0 0]"

text \<open>Storage.\<close>

definition storage_rules :: "kmsgRule list" where
  "storage_rules = [
     mk_rule ''io.disk_errors''
       (seqs [lit ''I/O error'', Opt (lit '',''), lit '' dev '', Group 1 (many1 is_word)])
       1 Critical CatIO 1 0,
     mk_rule ''io.disk_errors''
       (seqs [Bol, lit ''Buffer I/O error on dev'', Opt (lit ''ice''), lit '' '',
       Group 1 (many1 is_word)])
       1 Critical CatIO 1 0,
     mk_rule ''io.nvme''
       (seqs [Bol, lit ''nvme '', Group 1 (seqs [lit ''nvme'', many1 digit]), lit '': '', Many dot,
       alts [lit ''timeout'', lit ''controller is down'', lit ''Removing after probe failure'',
       lit ''Device not ready'', lit ''reset'']])
       1 Critical CatIO 1 0,
     mk_rule ''io.scsi''
       (seqs [Bol, lit ''sd '', many1 nonspace, lit '': ['', Group 1 (many1 is_word), lit ''] '',
       Many dot, alts [lit ''FAILED Result'', seqs [lit ''Sense Key : '', alts [lit ''Medium'',
       lit ''Hardware''], lit '' Error'']]])
       1 Critical CatIO 1 0,
     mk_rule ''io.ata''
       (seqs [Bol, Group 1 (seqs [lit ''ata'', many1 digit, Opt (seqs [lit ''.'', many1 digit])]),
       lit '': '', alts [lit ''exception'', lit ''failed command'', lit ''hard resetting link'',
       lit ''SError'']])
       1 Warning CatIO 1 0,
     mk_rule ''io.fs_error''
       (seqs [Bol, alts [lit ''EXT4-fs error'', seqs [lit ''EXT4-fs ('', many1 is_word,
       lit ''): Remounting filesystem read-only''], seqs [lit ''XFS ('', many1 is_word, lit ''): '',
       alts [lit ''Corruption'', lit ''metadata I/O error'', lit ''Filesystem has been shut down'']],
       seqs [lit ''BTRFS '', alts [lit ''error'', lit ''critical'']], seqs [lit ''F2FS-fs'', Many dot,
       lit ''error'']]])
       0 Critical CatIO 0 0,
     mk_rule ''io.md''
       (seqs [Bol, lit ''md/raid'', Many nonspace, lit '':'', Group 1 (many1 is_word), lit '': '',
       alts [lit ''Disk failure'', lit ''Operation continuing on'']])
       1 Critical CatIO 1 0,
     mk_rule ''io.blk_mq_hang''
       (seqs [lit ''blk_update_request: '', alts [lit ''critical'', lit ''I/O''], lit '' error''])
       0 Critical CatIO 0 0]"

text \<open>Network.\<close>

definition network_rules :: "kmsgRule list" where
  "network_rules = [
     mk_rule ''net.tx_timeout''
       (seqs [lit ''NETDEV WATCHDOG: '', Group 1 (many1 nonspace)])
       1 Critical CatNet 1 0,
     mk_rule ''net.link_down''
       (seqs [Bol, Opt (seqs [many1 nonspace, lit '' '']), Group 1 (seqs [Set is_word,
       Many (\<lambda>c. is_word c \<or> c \<in> set ''.-'')]), lit '': '', Opt (lit ''NIC ''),
       lit ''Link is Down''])
       1 Warning CatNet 1 0]"

text \<open>KVM. Messages with a pid come from vcpu threads of a VM.\<close>

definition kvm_rules :: "kmsgRule list" where
  "kvm_rules = [
     mk_rule ''kvm.message''
       (seqs [Bol, lit ''kvm ['', Group 1 (many1 digit), lit '']: '', Opt (seqs [lit ''vcpu'',
       many1 digit, lit '', guest rIP: '', many1 nonspace, lit '' '']), Group 2 (Many dot)])
       2 Info CatKVM 0 1,
     mk_rule ''kvm.message''
       (seqs [Bol, lit ''kvm'', Opt (alts [lit ''_amd'', lit ''_intel'']), lit '': '',
       Group 1 (Many dot)])
       1 Info CatKVM 0 0,
     mk_rule ''kvm.vfio''
       (seqs [Bol, lit ''vfio-pci '', Group 1 (many1 nonspace), lit '': '', Many dot, alts [lit ''error'',
       lit ''failed'', lit ''timeout'']])
       1 Warning CatKVM 1 0]"

text \<open>User space crashes, worth reporting for hypervisor processes.\<close>

definition crash_rules :: "kmsgRule list" where
  "crash_rules = [
     mk_rule ''vm.segfault''
       (seqs [Bol, Group 1 (many1 nonspace), lit ''['', Group 2 (many1 digit), lit '']: segfault at''])
       2 Critical CatLifecycle 1 2,
     mk_rule ''vm.trap''
       (seqs [Bol, lit ''traps: '', Group 1 (many1 nonspace), lit ''['', Group 2 (many1 digit),
       lit ''] '', alts [lit ''general protection'', lit ''trap'']])
       2 Critical CatLifecycle 1 2]"

definition kmsgRules :: "kmsgRule list" where
  "kmsgRules = kernel_rules @ memory_rules @ hardware_rules @ storage_rules @ network_rules @ kvm_rules @ crash_rules"

definition kvmNoise :: re where
  "kvmNoise =
     alts [seqs [liti ''ignored '', alts [liti ''rd'', liti ''wr''], liti ''msr''],
     liti ''unhandled rdmsr'', liti ''unhandled wrmsr'', liti ''kvm_set_msr_common'',
     liti ''apic_access'', liti ''SMT enabled'', liti ''TSC scaling'', liti ''disabled by bios'']"

section \<open>Classification\<close>

type_synonym PIDLookup = "int \<Rightarrow> string \<times> string \<times> bool"

definition firstWords :: "string \<Rightarrow> nat \<Rightarrow> string" where
  "firstWords s n = Join (take n (Fields s)) '' ''"

definition kmsg_pid :: "PIDLookup option \<Rightarrow> kmsgRule \<Rightarrow> (nat \<times> string) list \<Rightarrow> string \<times> string \<times> bool" where
  "kmsg_pid lookup kr m =
     (if 0 < kr_pidGroup kr then
        (case lookup of
           None \<Rightarrow> ([], [], False)
         | Some f \<Rightarrow> (case Atoi (submatch m (kr_pidGroup kr)) of Inl _ \<Rightarrow> ([], [], False) | Inr pid \<Rightarrow> f pid))
      else ([], [], False))"

definition kmsg_alert :: "Record \<Rightarrow> PIDLookup option \<Rightarrow> string \<Rightarrow> kmsgRule \<Rightarrow> (nat \<times> string) list \<Rightarrow> Alert option" where
  "kmsg_alert r lookup msg kr m =
     (let (domainID, domainName, inVM) = kmsg_pid lookup kr m;
          a = zero_alert\<lparr>a_Rule := kr_rule kr, a_Severity := kr_sev kr, a_Category := kr_cat kr, a_Source := ''kmsg'',
                a_Message := msg, a_Last := rec_Time r,
                a_Subject := (if 0 < kr_subject kr \<and> kr_subject kr < 1 + kr_groups kr then submatch m (kr_subject kr) else []),
                a_DomainID := domainID, a_DomainName := domainName\<rparr>;
          result = (if kr_rule kr = ''kvm.message'' then
                      (if 4 < rec_Priority r \<or> MatchString kvmNoise msg then None else Some (a\<lparr>a_Severity := Warning\<rparr>))
                    else if kr_rule kr = ''vm.segfault'' \<or> kr_rule kr = ''vm.trap'' then
                      (if \<not> inVM then None else Some a)
                    else if kr_rule kr = ''mem.oom_kill'' then
                      Some ((if inVM then a\<lparr>a_Severity := Critical\<rparr> else a)
                              \<lparr>a_Key := ''mem.oom_kill|'' @ submatch m (kr_pidGroup kr)\<rparr>)
                    else Some a)
      in map_option (\<lambda>a. if a_Key a = [] then a\<lparr>a_Key := a_Rule a @ ''|'' @ a_DomainID a @ ''|'' @ a_Subject a\<rparr> else a) result)"

text \<open>The first rule that matches decides.\<close>

fun try_rules :: "Record \<Rightarrow> PIDLookup option \<Rightarrow> string \<Rightarrow> kmsgRule list \<Rightarrow> Alert option" where
  "try_rules r lookup msg [] =
     (if rec_Priority r \<le> 2
      then Some (zero_alert\<lparr>a_Rule := ''kernel.critical'', a_Severity := Warning, a_Category := CatKernel, a_Source := ''kmsg'',
             a_Message := msg, a_Last := rec_Time r, a_Key := ''kernel.critical|'' @ firstWords msg 3\<rparr>)
      else None)"
| "try_rules r lookup msg (kr # krs) =
     (case FindSubmatch (kr_re kr) msg of
        None \<Rightarrow> try_rules r lookup msg krs
      | Some m \<Rightarrow> kmsg_alert r lookup msg kr m)"

definition FromKmsg :: "Record \<Rightarrow> PIDLookup option \<Rightarrow> Alert option" where
  "FromKmsg r lookup =
     (if rec_Facility r \<noteq> 0 then None else try_rules r lookup (TrimSpace (rec_Message r)) kmsgRules)"

text \<open>
  \<open>FollowKmsg\<close> returns the alerts raised and, once a read fails, the error; a cancelled
  context makes any error a normal end. \<open>since\<close> is the current time less the replay period.
\<close>

datatype follow_end = FollowBlocked | FollowDone | FollowFailed string

function FollowKmsg ::
  "bool \<Rightarrow> gtime \<Rightarrow> gtime \<Rightarrow> PIDLookup option \<Rightarrow> kmsg_read list \<Rightarrow> Alert list \<times> follow_end" where
  "FollowKmsg cancelled since boot lookup rs =
     (case Next boot rs of
        (NextBlocked, _) \<Rightarrow> ([], FollowBlocked)
      | (NextError e, _) \<Rightarrow> ([], if cancelled then FollowDone else FollowFailed e)
      | (NextRecord r, rs') \<Rightarrow>
          let (as, end) = FollowKmsg cancelled since boot lookup rs'
          in (if rec_Time r < since then as
              else (case FromKmsg r lookup of None \<Rightarrow> as | Some a \<Rightarrow> a # as), end))"
  by pat_completeness auto

termination
  by (relation "measure (\<lambda>(_, _, _, _, rs). length rs)") (auto dest: Next_shorter[OF sym])

declare FollowKmsg.simps [simp del]

section \<open>What the rules guarantee\<close>

lemma kmsg_alert_rule: "kmsg_alert r lk msg kr m = Some a \<Longrightarrow> a_Rule a = kr_rule kr \<and> a_Last a = rec_Time r \<and> a_Message a = msg"
  by (auto simp: kmsg_alert_def Let_def split: prod.splits if_splits)

lemma try_rules_cases:
  "try_rules r lk msg krs = Some a \<Longrightarrow>
   (\<exists>kr \<in> set krs. \<exists>m. FindSubmatch (kr_re kr) msg = Some m \<and> kmsg_alert r lk msg kr m = Some a) \<or> a_Rule a = ''kernel.critical''"
  by (induction krs) (auto split: option.splits if_splits)

lemma try_rules_lacks: "list_all (\<lambda>kr. lacks msg (kr_re kr)) krs \<Longrightarrow> try_rules r lk msg (krs @ krs') = try_rules r lk msg krs'"
  by (induction krs) (auto simp: FindSubmatch_lacks)

lemma kr_rule_mk [simp]: "kr_rule (mk_rule n r g s c su p) = n"
  by (simp add: mk_rule_def)

lemma rule_names:
  "map kr_rule kernel_rules = [''kernel.oops'', ''kernel.panic'', ''kernel.soft_lockup'', ''kernel.hard_lockup'',
     ''kernel.rcu_stall'', ''kernel.hung_task'', ''kernel.bug'', ''kernel.warning'', ''kernel.hrtimer'', ''kernel.clocksource'']"
  "map kr_rule memory_rules = [''mem.oom_kill'', ''mem.oom_kill'', ''mem.alloc_failure'', ''hw.memory_failure'']"
  "map kr_rule hardware_rules = [''hw.mce'', ''hw.edac_ue'', ''hw.edac_ce'', ''hw.pcie_aer'', ''hw.pcie_aer'', ''hw.thermal'']"
  "map kr_rule storage_rules = [''io.disk_errors'', ''io.disk_errors'', ''io.nvme'', ''io.scsi'', ''io.ata'', ''io.fs_error'',
     ''io.md'', ''io.blk_mq_hang'']"
  "map kr_rule network_rules = [''net.tx_timeout'', ''net.link_down'']"
  "map kr_rule kvm_rules = [''kvm.message'', ''kvm.message'', ''kvm.vfio'']"
  "map kr_rule crash_rules = [''vm.segfault'', ''vm.trap'']"
  by (simp_all only: kernel_rules_def memory_rules_def hardware_rules_def storage_rules_def network_rules_def
      kvm_rules_def crash_rules_def list.map kr_rule_mk)

lemma rule_of_list: "kr \<in> set krs \<Longrightarrow> map kr_rule krs = ns \<Longrightarrow> kr_rule kr \<in> set ns"
  by auto

lemma oom_rules:
  assumes "kr \<in> set kmsgRules" "kr_rule kr = ''mem.oom_kill''"
  shows "kr \<in> {memory_rules ! 0, memory_rules ! 1}"
proof -
  have "kr \<notin> set kernel_rules" "kr \<notin> set hardware_rules" "kr \<notin> set storage_rules" "kr \<notin> set network_rules"
    "kr \<notin> set kvm_rules" "kr \<notin> set crash_rules"
    using rule_of_list[of kr, OF _ rule_names(1)] rule_of_list[of kr, OF _ rule_names(3)] rule_of_list[of kr, OF _ rule_names(4)]
      rule_of_list[of kr, OF _ rule_names(5)] rule_of_list[of kr, OF _ rule_names(6)] rule_of_list[of kr, OF _ rule_names(7)]
    unfolding assms(2) by auto
  then obtain i where i: "i < length memory_rules" "kr = memory_rules ! i"
    using assms(1) by (auto simp: kmsgRules_def in_set_conv_nth)
  have len: "length memory_rules = 4" using arg_cong[OF rule_names(2), of length] by simp
  have "map kr_rule memory_rules ! i = ''mem.oom_kill''" using i assms(2) by simp
  then have "i = 0 \<or> i = 1" using i(1) len unfolding rule_names(2) by (auto simp: less_Suc_eq numeral_eq_Suc)
  then show ?thesis using i(2) by auto
qed

lemma oom_rule_0: "memory_rules ! 0 = mk_rule ''mem.oom_kill''
   (seqs [Bol, lit ''Out of memory'', Many dot, lit '': Killed process '', Group 1 (many1 digit),
     lit '' ('', Group 2 (Many (\<lambda>c. \<not> (c \<in> set '')''))), lit '')'']) 2 Warning CatMemory 2 1"
  by (simp add: memory_rules_def)

lemma oom_rule_1: "memory_rules ! 1 = mk_rule ''mem.oom_kill''
   (seqs [Bol, lit ''Memory cgroup out of memory: Killed process '', Group 1 (many1 digit),
     lit '' ('', Group 2 (Many (\<lambda>c. \<not> (c \<in> set '')''))), lit '')'']) 2 Warning CatMemory 2 1"
  by (simp add: memory_rules_def)

text \<open>The tail both patterns share: a pid, captured as group 1, between known words.\<close>

lemma oom_tail:
  assumes m: "matches (seqs [lit w, Group 1 (many1 digit), lit '' ('', Group 2 (Many P), lit '')'']) (p, s, []) (p', s', g)"
  shows "\<exists>ds t. s = w @ ds @ '' ('' @ t \<and> ds \<noteq> [] \<and> (\<forall>c \<in> set ds. digit c) \<and> submatch g 1 = ds"
proof -
  obtain st1 st2 st3 st4 where
    1: "matches (lit w) (p, s, []) st1" and 2: "matches (Group 1 (many1 digit)) st1 st2"
    and 3: "matches (lit '' ('') st2 st3" and 4: "matches (Group 2 (Many P)) st3 st4"
    and 5: "matches (lit '')'') st4 (p', s', g)"
    using m unfolding matches_seqs by blast
  from 1 obtain p1 s1 where a: "s = w @ s1" "st1 = (p1, s1, [])" by (auto simp: matches_lit)
  from matches_Group_many1[OF 2[unfolded a(2)]] obtain ds p2 s2 where
    b: "s1 = ds @ s2" "ds \<noteq> []" "\<forall>c \<in> set ds. digit c" "st2 = (p2, s2, [(1, ds)])" by auto
  from 3 b(4) obtain p3 s3 where c: "s2 = '' ('' @ s3" "st3 = (p3, s3, [(1, ds)])" by (auto simp: matches_lit)
  from 4[unfolded c(2)] obtain p4 s4 g4 where d: "matches (Many P) (p3, s3, [(1, ds)]) (p4, s4, g4)"
    "st4 = (p4, s4, (2, take (length s3 - length s4) s3) # g4)" by (auto elim: matches_elims)
  from matches_Many_all[OF d(1) refl] have "g4 = [(1, ds)]" by auto
  with 5 d(2) have "submatch g 1 = ds" by (auto simp: matches_lit submatch_def mget_def)
  with a b c show ?thesis by auto
qed

lemma oom_capture:
  assumes kr: "kr \<in> set kmsgRules" "kr_rule kr = ''mem.oom_kill''" and m: "FindSubmatch (kr_re kr) msg = Some g"
  shows "kr_pidGroup kr = 1 \<and> (\<exists>u ds t. msg = u @ ''Killed process '' @ ds @ '' ('' @ t \<and> ds \<noteq> [] \<and> (\<forall>c \<in> set ds. digit c) \<and> submatch g 1 = ds)"
proof -
  have "find_from (kr_re kr) None msg = Some g" using m by (simp add: FindSubmatch_def)
  from find_from_sound[OF this] obtain u p s p' s' where
    msg: "msg = u @ s" and mt: "matches (kr_re kr) (p, s, []) (p', s', g)" by blast
  consider "kr = memory_rules ! 0" | "kr = memory_rules ! 1" using oom_rules[OF kr] by blast
  then show ?thesis
  proof cases
    case 1
    let ?tail = "seqs [lit '': Killed process '', Group 1 (many1 digit), lit '' ('', Group 2 (Many (\<lambda>c. \<not> (c \<in> set '')''))), lit '')'']"
    from mt obtain st1 st2 st3 where bol: "matches Bol (p, s, []) st1" and out: "matches (lit ''Out of memory'') st1 st2"
      and dots: "matches (Many dot) st2 st3" and tail: "matches ?tail st3 (p', s', g)"
      by (simp only: 1 oom_rule_0 mk_rule_def kmsgRule.simps matches_seqs(2)[of Bol] matches_seqs(2)[of "lit ''Out of memory''"]
          matches_seqs(2)[of "Many dot"]) blast
    have "st1 = (p, s, [])" using bol by (auto elim: matches_elims)
    with out obtain t2 p2 where o: "s = ''Out of memory'' @ t2" "st2 = (p2, t2, [])" by (auto simp: matches_lit)
    obtain p3 s3 g3 where st3: "st3 = (p3, s3, g3)" by (cases st3)
    from matches_Many_all[OF dots refl] o(2) st3 obtain w where w: "t2 = w @ s3" "g3 = []" by auto
    from tail st3 w(2) have "matches ?tail (p3, s3, []) (p', s', g)" by simp
    from oom_tail[OF this] obtain ds t where ds: "s3 = '': Killed process '' @ ds @ '' ('' @ t" "ds \<noteq> []"
      "\<forall>c \<in> set ds. digit c" "submatch g 1 = ds" by blast
    have "msg = (u @ ''Out of memory'' @ w @ '': '') @ ''Killed process '' @ ds @ '' ('' @ t" using msg o(1) w(1) ds(1) by simp
    then show ?thesis using ds 1 by (metis kmsgRule.select_convs(7) mk_rule_def oom_rule_0)
  next
    case 2
    let ?tail = "seqs [lit ''Memory cgroup out of memory: Killed process '', Group 1 (many1 digit), lit '' ('', Group 2 (Many (\<lambda>c. \<not> (c \<in> set '')''))), lit '')'']"
    from mt obtain st1 where "matches Bol (p, s, []) st1" and tail: "matches ?tail st1 (p', s', g)"
      by (simp only: 2 oom_rule_1 mk_rule_def kmsgRule.simps matches_seqs(2)[of Bol]) blast
    then have "matches ?tail (p, s, []) (p', s', g)" by (auto elim: matches_elims)
    from oom_tail[OF this] obtain ds t where ds: "s = ''Memory cgroup out of memory: Killed process '' @ ds @ '' ('' @ t" "ds \<noteq> []"
      "\<forall>c \<in> set ds. digit c" "submatch g 1 = ds" by blast
    have "msg = (u @ ''Memory cgroup out of memory: '') @ ''Killed process '' @ ds @ '' ('' @ t" using msg ds(1) by simp
    then show ?thesis using ds 2 by (metis kmsgRule.select_convs(7) mk_rule_def oom_rule_1)
  qed
qed

lemma FromKmsg_oom:
  assumes "FromKmsg r lk = Some a" "a_Rule a = ''mem.oom_kill''"
  shows "\<exists>u ds t. TrimSpace (rec_Message r) = u @ ''Killed process '' @ ds @ '' ('' @ t \<and> ds \<noteq> [] \<and> (\<forall>c \<in> set ds. digit c) \<and>
    a_Key a = ''mem.oom_kill|'' @ ds"
proof -
  let ?msg = "TrimSpace (rec_Message r)"
  have "try_rules r lk ?msg kmsgRules = Some a" using assms(1) by (simp add: FromKmsg_def split: if_splits)
  from try_rules_cases[OF this] assms(2) obtain kr m where kr: "kr \<in> set kmsgRules" "FindSubmatch (kr_re kr) ?msg = Some m"
    "kmsg_alert r lk ?msg kr m = Some a" by auto
  then have rule: "kr_rule kr = ''mem.oom_kill''" using kmsg_alert_rule assms(2) by metis
  have "a_Key a = ''mem.oom_kill|'' @ submatch m (kr_pidGroup kr)"
    using kr(3) rule by (auto simp: kmsg_alert_def Let_def split: prod.splits)
  with oom_capture[OF kr(1) rule kr(2)] show ?thesis by metis
qed

section \<open>Following the log\<close>

text \<open>The records a reader yields before its first error.\<close>

fun records_of :: "gtime \<Rightarrow> kmsg_read list \<Rightarrow> Record list" where
  "records_of boot [] = []"
| "records_of boot (ReadError e # rs) = []"
| "records_of boot (ReadData s # rs) = (case Parse s boot of Some r \<Rightarrow> r # records_of boot rs | None \<Rightarrow> records_of boot rs)"
| "records_of boot (_ # rs) = records_of boot rs"

lemma records_of_Next:
  "records_of boot rs = (case Next boot rs of (NextRecord r, rs') \<Rightarrow> r # records_of boot rs' | _ \<Rightarrow> [])"
  by (induction boot rs rule: Next.induct) (auto split: option.splits)

lemma FollowKmsg_alerts:
  "fst (FollowKmsg cancelled since boot lk rs) =
   List.map_filter (\<lambda>r. if rec_Time r < since then None else FromKmsg r lk) (records_of boot rs)"
proof (induction cancelled since boot lk rs rule: FollowKmsg.induct)
  case (1 cancelled since boot lk rs)
  obtain n rs' where n: "Next boot rs = (n, rs')" by (cases "Next boot rs")
  show ?case
  proof (cases n)
    case (NextRecord r)
    have IH: "fst (FollowKmsg cancelled since boot lk rs') =
      List.map_filter (\<lambda>r. if rec_Time r < since then None else FromKmsg r lk) (records_of boot rs')"
      using "1.IH"[OF n[symmetric] NextRecord] by simp
    show ?thesis
      unfolding FollowKmsg.simps[of cancelled since boot lk rs] records_of_Next[of boot rs]
      using n NextRecord IH by (simp add: List.map_filter_simps split_beta Let_def split: option.split)
  next
    case (NextError e)
    then show ?thesis
      unfolding FollowKmsg.simps[of cancelled since boot lk rs] records_of_Next[of boot rs]
      using n by (simp add: List.map_filter_simps)
  next
    case NextBlocked
    then show ?thesis
      unfolding FollowKmsg.simps[of cancelled since boot lk rs] records_of_Next[of boot rs]
      using n by (simp add: List.map_filter_simps)
  qed
qed

end
