(* ===== verification/Sink.thy ===== *)
theory Sink
  imports Engine Go_Strings
begin

text \<open>
  \<open>internal/sink/sink.go\<close>: the sinks of the headless mode. A transition becomes a record of
  fields in journald's native datagram format, or one JSON object. The JSON encoder and the
  shortest form of a float are arguments.
\<close>

section \<open>Which transitions are written\<close>

definition Emitted :: "Transition \<Rightarrow> bool" where
  "Emitted t \<longleftrightarrow> t \<noteq> Repeated"

record SinkRecord =
  sr_Time :: gtime
  sr_Transition :: string
  sr_Alert :: Alert

definition JSONWrite :: "(SinkRecord \<Rightarrow> string) \<Rightarrow> gtime \<Rightarrow> Alert \<Rightarrow> Transition \<Rightarrow> string" where
  "JSONWrite encode now a t =
     (if \<not> Emitted t then []
      else encode \<lparr>sr_Time = now, sr_Transition = TransitionString t, sr_Alert = a\<rparr> @ [CHR 0x0A])"

definition priority :: "Alert \<Rightarrow> Transition \<Rightarrow> int" where
  "priority a t =
     (if t = Cleared then 5
      else case a_Severity a of Critical \<Rightarrow> 2 | Warning \<Rightarrow> 4 | Info \<Rightarrow> 6)"

section \<open>Journal records\<close>

definition times :: string where
  "times = [CHR 0xC3, CHR 0x97]"

definition journal_message :: "Alert \<Rightarrow> Transition \<Rightarrow> string" where
  "journal_message a t =
     TransitionString t @ '': '' @ AlertString a @ (if 1 < a_Count a then '' ('' @ times @ show_int (a_Count a) @ '')'' else [])"

definition journal_fields :: "(float64 \<Rightarrow> string) \<Rightarrow> Alert \<Rightarrow> Transition \<Rightarrow> (string \<times> string) list" where
  "journal_fields sprint a t =
     [(''MESSAGE'', journal_message a t), (''PRIORITY'', show_int (priority a t)), (''SYSLOG_IDENTIFIER'', ''hyperview''),
      (''HYPERVIEW_TRANSITION'', TransitionString t), (''HYPERVIEW_ALERT_ID'', show_nat (unat (a_ID a))),
      (''HYPERVIEW_RULE'', a_Rule a), (''HYPERVIEW_SEVERITY'', SeverityString (a_Severity a)),
      (''HYPERVIEW_CATEGORY'', CategoryString (a_Category a)), (''HYPERVIEW_KIND'', KindString (a_Kind a)),
      (''HYPERVIEW_SOURCE'', a_Source a), (''HYPERVIEW_COUNT'', show_int (a_Count a))] @
     filter (\<lambda>f. snd f \<noteq> [])
       [(''HYPERVIEW_DOMAIN'', a_DomainName a), (''HYPERVIEW_DOMAIN_ID'', a_DomainID a), (''HYPERVIEW_SUBJECT'', a_Subject a)] @
     (if a_Kind a = KindCondition then [(''HYPERVIEW_VALUE'', sprint (a_Value a))] else [])"

text \<open>\<open>binary.Write\<close> of a \<open>uint64\<close>, least significant byte first.\<close>

fun le_bytes :: "nat \<Rightarrow> nat \<Rightarrow> string" where
  "le_bytes 0 n = []"
| "le_bytes (Suc k) n = char_of (n mod 256) # le_bytes k (n div 256)"

definition encode_field :: "string \<times> string \<Rightarrow> string" where
  "encode_field f =
     (if CHR 0x0A \<in> set (snd f)
      then fst f @ [CHR 0x0A] @ le_bytes 8 (length (snd f) mod 2 ^ 64) @ snd f @ [CHR 0x0A]
      else fst f @ ''='' @ snd f @ [CHR 0x0A])"

definition encode_fields :: "(string \<times> string) list \<Rightarrow> string" where
  "encode_fields fs = concat (map encode_field fs)"

text \<open>\<open>None\<close> is no datagram; \<open>send\<close> is whether the socket takes it, and a failure goes to the error output.\<close>

definition JournalWrite ::
  "(float64 \<Rightarrow> string) \<Rightarrow> (string \<Rightarrow> string option) \<Rightarrow> Alert \<Rightarrow> Transition \<Rightarrow> string option \<times> string" where
  "JournalWrite sprint send a t =
     (if \<not> Emitted t then (None, [])
      else let b = encode_fields (journal_fields sprint a t)
           in (Some b, case send b of
                         None \<Rightarrow> []
                       | Some err \<Rightarrow> ''hyperview: journal write failed: '' @ err @ '': '' @ journal_message a t @ [CHR 0x0A]))"

section \<open>Running under the journal\<close>

text \<open>\<open>fstat\<close> of the standard streams: device and inode, if the call succeeds.\<close>

definition UnderJournald :: "string \<Rightarrow> (uint64 \<times> uint64) option list \<Rightarrow> bool" where
  "UnderJournald stream fstats =
     (let (dev, ino, ok) = Cut stream (CHR '':'')
      in ok \<and> list_ex (\<lambda>st. case st of None \<Rightarrow> False
                                     | Some (d, i) \<Rightarrow> show_nat (unat d) = dev \<and> show_nat (unat i) = ino) fstats)"

text \<open>Levels of \<open>log/slog\<close>: debug is -4, info 0, warn 4, error 8.\<close>

definition log_priority :: "int \<Rightarrow> int" where
  "log_priority l = (if 8 \<le> l then 3 else if 4 \<le> l then 4 else if l < 0 then 7 else 6)"

definition HandleLog :: "('r \<Rightarrow> string + string) \<Rightarrow> ('r \<Rightarrow> int) \<Rightarrow> 'r \<Rightarrow> string + string" where
  "HandleLog text lvl r =
     (case text r of Inl e \<Rightarrow> Inl e | Inr line \<Rightarrow> Inr (''<'' @ show_int (log_priority (lvl r)) @ ''>'' @ line))"

section \<open>Reading a datagram back\<close>

text \<open>
  The receiver's side of the protocol: a name up to the first \<open>=\<close> or line end. After \<open>=\<close>
  the value goes to the end of the line, after a line end comes its length in eight bytes.
\<close>

fun le_value :: "string \<Rightarrow> nat" where
  "le_value [] = 0"
| "le_value (c # s) = of_char c + 256 * le_value s"

definition split_name :: "string \<Rightarrow> string \<times> string" where
  "split_name s = (takeWhile (\<lambda>c. c \<noteq> CHR ''='' \<and> c \<noteq> CHR 0x0A) s, dropWhile (\<lambda>c. c \<noteq> CHR ''='' \<and> c \<noteq> CHR 0x0A) s)"

definition next_field :: "string \<Rightarrow> ((string \<times> string) \<times> string) option" where
  "next_field s =
     (let (name, rest) = split_name s
      in case rest of
           [] \<Rightarrow> None
         | c # rest \<Rightarrow>
             if c = CHR ''='' then
               (let v = takeWhile (\<lambda>c. c \<noteq> CHR 0x0A) rest; rest' = dropWhile (\<lambda>c. c \<noteq> CHR 0x0A) rest
                in case rest' of [] \<Rightarrow> None | _ # rest'' \<Rightarrow> Some ((name, v), rest''))
             else (let n = le_value (take 8 rest); body = drop 8 rest
                   in if length rest < 8 \<or> length body \<le> n then None else Some ((name, take n body), drop (Suc n) body)))"

fun decode_fuel :: "nat \<Rightarrow> string \<Rightarrow> (string \<times> string) list option" where
  "decode_fuel 0 s = (if s = [] then Some [] else None)"
| "decode_fuel (Suc k) s =
     (if s = [] then Some []
      else case next_field s of
             None \<Rightarrow> None
           | Some (f, rest) \<Rightarrow> map_option (\<lambda>fs. f # fs) (decode_fuel k rest))"

text \<open>Every field takes at least one byte, so the length of the datagram is fuel enough.\<close>

definition decode_fields :: "string \<Rightarrow> (string \<times> string) list option" where
  "decode_fields s = decode_fuel (length s) s"

definition field_ok :: "string \<times> string \<Rightarrow> bool" where
  "field_ok f \<longleftrightarrow> CHR ''='' \<notin> set (fst f) \<and> CHR 0x0A \<notin> set (fst f) \<and> length (snd f) < 2 ^ 64"

lemma length_le_bytes [simp]: "length (le_bytes k n) = k"
  by (induction k arbitrary: n) simp_all

lemma le_value_bytes: "n < 256 ^ k \<Longrightarrow> le_value (le_bytes k n) = n"
proof (induction k arbitrary: n)
  case 0
  then show ?case by simp
next
  case (Suc k)
  then have "n div 256 < 256 ^ k" by (simp add: less_mult_imp_div_less mult.commute)
  from Suc.IH[OF this] show ?case by simp
qed

lemma split_name_hit:
  assumes "CHR ''='' \<notin> set n" "CHR 0x0A \<notin> set n" "c = CHR ''='' \<or> c = CHR 0x0A"
  shows "split_name (n @ c # s) = (n, c # s)"
  using assms unfolding split_name_def by (induction n) auto

lemma next_field_encode:
  assumes "field_ok f"
  shows "next_field (encode_field f @ s) = Some (f, s)"
proof -
  obtain n v where f: "f = (n, v)" by (cases f)
  have n: "CHR ''='' \<notin> set n" "CHR 0x0A \<notin> set n" and v: "length v < 2 ^ 64" using assms f by (simp_all add: field_ok_def)
  show ?thesis
  proof (cases "CHR 0x0A \<in> set v")
    case True
    have len: "le_value (le_bytes 8 (length v)) = length v" using v by (intro le_value_bytes) simp
    have "encode_field f @ s = n @ CHR 0x0A # (le_bytes 8 (length v) @ v @ [CHR 0x0A] @ s)"
      using True v by (simp add: encode_field_def f)
    then show ?thesis using split_name_hit[OF n, of "CHR 0x0A"] len by (simp add: next_field_def f)
  next
    case False
    have "encode_field f @ s = n @ CHR ''='' # (v @ CHR 0x0A # s)" using False by (simp add: encode_field_def f)
    moreover have "takeWhile (\<lambda>c. c \<noteq> CHR 0x0A) (v @ CHR 0x0A # s) = v" "dropWhile (\<lambda>c. c \<noteq> CHR 0x0A) (v @ CHR 0x0A # s) = CHR 0x0A # s"
      using False by (auto simp: takeWhile_append dropWhile_append)
    ultimately show ?thesis using split_name_hit[OF n, of "CHR ''=''"] by (simp add: next_field_def f)
  qed
qed

lemma encode_field_pos: "1 \<le> length (encode_field f)"
  by (simp add: encode_field_def)

lemma decode_fuel_encode:
  "list_all field_ok fs \<Longrightarrow> length fs \<le> k \<Longrightarrow> decode_fuel k (encode_fields fs) = Some fs"
proof (induction fs arbitrary: k)
  case Nil
  then show ?case by (cases k) (simp_all add: encode_fields_def)
next
  case (Cons f fs)
  then obtain j where k: "k = Suc j" by (cases k) auto
  have "encode_fields (f # fs) = encode_field f @ encode_fields fs" by (simp add: encode_fields_def)
  moreover have "encode_field f \<noteq> []" using encode_field_pos[of f] by auto
  ultimately show ?case using Cons k next_field_encode[of f "encode_fields fs"] by simp
qed

lemma length_encode_fields: "length fs \<le> length (encode_fields fs)"
proof (induction fs)
  case Nil
  then show ?case by simp
next
  case (Cons f fs)
  then show ?case using encode_field_pos[of f] by (simp add: encode_fields_def del: length_greater_0_conv)
qed

lemma decode_encode_fields: "list_all field_ok fs \<Longrightarrow> decode_fields (encode_fields fs) = Some fs"
  unfolding decode_fields_def by (rule decode_fuel_encode) (simp_all add: length_encode_fields)

lemma journal_fields_ok:
  assumes "list_all (\<lambda>f. length (snd f) < 2 ^ 64) (journal_fields sprint a t)"
  shows "list_all field_ok (journal_fields sprint a t)"
  using assms unfolding journal_fields_def field_ok_def by (auto simp: list_all_iff)

lemma journal_field_names: "distinct (map fst (journal_fields sprint a t))"
  by (simp add: journal_fields_def)

end
