(* ===== verification/Event_Properties.thy ===== *)
theory Event_Properties
  imports Detect_Facts Kmsg_Rules Sink
begin

text \<open>
  The properties of the event sources: the detector over the store's snapshots, the kernel
  log, the events of the probes, and the sink that writes what the engine announces.
\<close>

section \<open>The detector\<close>

text \<open>
  Whatever the store holds, the samples of one tick have distinct keys, so the engine
  tracks one condition per sample, as long as domain identifiers are unique and hold no bar,
  and vCPU numbers, interface names and disk names are unique where they are used.
\<close>

lemma detector_samples_distinct:
  assumes "tick_names_ok host doms"
  shows "distinct (map sample_key (run_samples ord d host doms))"
  using assms by (rule distinct_run_keys)

text \<open>
  From its second tick on, the detector raises \<open>vm.appeared\<close> for exactly the domains
  that were not there at the tick before, and \<open>vm.disappeared\<close> for exactly those that are
  gone, in whatever order it visits its map.
\<close>

lemma detector_lifecycle_events:
  assumes "is_order ordp"
    and "d' = fst (fst (DetectorRun ordc orde ordp now clock host doms (d, e)))"
  shows "(alerts_of_rule ''vm.appeared'' (run_events ordp d' doms') = d_ID ` set doms' - d_ID ` set doms) \<and>
    (alerts_of_rule ''vm.disappeared'' (run_events ordp d' doms') = d_ID ` set doms - d_ID ` set doms')"
proof -
  have d': "d' = d\<lparr>dt_prev := current_domains doms, dt_primed := True\<rparr>" by (simp add: assms(2) DetectorRun_detector)
  have "set (mkeys (dt_prev d')) = d_ID ` set doms" using current_None_iff[of doms] by (auto simp: d' in_mkeys_iff)
  then show ?thesis
    using run_appeared[OF assms(1), of d' doms'] run_disappeared[OF assms(1), of d' doms'] by (simp add: d')
qed

section \<open>The kernel log\<close>

text \<open>
  C17: A record written in the format of \<open>/dev/kmsg\<close>, its message escaped byte by byte as
  the kernel does it, is read back with priority and facility split, its time on the wall
  clock, the message with every byte as it was logged, and its fields.
\<close>

theorem kmsg_record_roundtrip:
  assumes "0 \<le> prio" "prio < 2 ^ 63" "sq < 2 ^ 64" "usec < 2 ^ 63 div 1000"
    and "CHR '';'' \<notin> set flags" "CHR '','' \<notin> set flags"
    and "newline \<notin> set (escape must msg)"
    and "\<forall>(k, v) \<in> set fs. CHR ''='' \<notin> set k \<and> newline \<notin> set k \<and> newline \<notin> set v"
  shows "Parse (format_record prio sq usec flags (escape must msg) fs) boot =
    Some \<lparr>rec_Priority = prio mod 8, rec_Facility = prio div 8, rec_Seq = sq, rec_Time = boot + int usec * 1000,
      rec_Message = msg, rec_Fields = foldl (\<lambda>m (k, v). AList.update k v m) [] fs\<rparr>"
  using Parse_format[OF assms] by (simp only: unescape_escape)

theorem kmsg_record_roundtrip_witness:
  "Parse (format_record 6 339 5140900 ''-'' (escape (\<lambda>c. c = newline) [CHR ''a'', newline, CHR ''b'']) [(''SUBSYSTEM'', ''acpi'')]) 1000 =
    Some \<lparr>rec_Priority = 6, rec_Facility = 0, rec_Seq = 339, rec_Time = 1000 + 5140900000,
      rec_Message = [CHR ''a'', newline, CHR ''b''], rec_Fields = [(''SUBSYSTEM'', ''acpi'')]\<rparr>"
proof -
  have "newline \<notin> set (escape (\<lambda>c. c = newline) [CHR ''a'', newline, CHR ''b''])" by code_simp
  then show ?thesis
    using kmsg_record_roundtrip[of 6 339 5140900 "''-''" "\<lambda>c. c = newline" "[CHR ''a'', newline, CHR ''b'']" "[(''SUBSYSTEM'', ''acpi'')]" 1000]
    by simp
qed

text \<open>
  Following the log raises, in order, the classification of every record the reader
  yields that is not older than the replay period, and nothing else; lines that cannot be
  parsed and overruns are skipped.
\<close>

lemma follow_raises_matches:
  "fst (FollowKmsg cancelled oldest boot lookup reads) =
   List.map_filter (\<lambda>r. if rec_Time r < oldest then None else FromKmsg r lookup) (records_of boot reads)"
  by (rule FollowKmsg_alerts)

text \<open>
  The matcher that decides the rules of the kernel log accepts exactly the texts in
  which the pattern matches somewhere, by the declarative meaning of patterns.
\<close>

lemma regex_matcher_correct:
  "MatchString r s \<longleftrightarrow> (\<exists>u s' st. s = u @ s' \<and> matches r (if u = [] then None else Some (last u), s', []) st)"
  by (rule MatchString_iff)

definition ex_oom_event :: Event where
  "ex_oom_event = \<lparr>ev_Time = 0, ev_Type = EvOOMVictim, ev_TGID = 4, ev_TID = 4, ev_CPU = 0,
     ev_A = 0, ev_B = 0, ev_C = 0, ev_D = 0, ev_Comm = ''qemu''\<rparr>"

definition ex_oom_record :: "string \<Rightarrow> Record" where
  "ex_oom_record msg = \<lparr>rec_Priority = 3, rec_Facility = 0, rec_Seq = 1, rec_Time = second, rec_Message = msg, rec_Fields = []\<rparr>"

text \<open>
  C18: Whenever the rules classify a record of the kernel log as an OOM kill, its message names
  the victim (\<open>Killed process\<close>, a decimal number, the command in brackets), and its key is the
  key of the event that the probe reports for a victim exactly if that number is the
  victim's: the engine merges the two reports of one kill, whether or not the process belongs
  to a domain, and never the reports of different victims.
\<close>

theorem oom_reports_share_key:
  assumes "FromKmsg r lookup = Some a" and "a_Rule a = ''mem.oom_kill''"
    and "ev_Type ev = EvOOMVictim" and "FromProbeEvent files names ev did dname = (names', b, ok)"
  shows "ok \<and> a_Rule b = a_Rule a \<and>
    (\<exists>u pid t. TrimSpace (rec_Message r) = u @ ''Killed process '' @ pid @ '' ('' @ t \<and> pid \<noteq> [] \<and> list_all digit pid \<and>
       (a_Key a = a_Key b \<longleftrightarrow> pid = show_nat (unat (ev_TGID ev))))"
proof -
  have b: "ok \<and> a_Rule b = ''mem.oom_kill'' \<and> a_Key b = ''mem.oom_kill|'' @ show_nat (unat (ev_TGID ev))"
    using assms(3,4) by (auto simp: FromProbeEvent_def Let_def oom_alert_def show_w_def ev_defs split: if_splits)
  obtain u ds t where "TrimSpace (rec_Message r) = u @ ''Killed process '' @ ds @ '' ('' @ t" "ds \<noteq> []" "\<forall>c \<in> set ds. digit c"
    "a_Key a = ''mem.oom_kill|'' @ ds"
    using FromKmsg_oom[OF assms(1,2)] by blast
  with b assms(2) show ?thesis by (intro conjI exI[of _ u] exI[of _ ds] exI[of _ t]) (simp_all add: list_all_iff)
qed

lemma ex_oom_alert:
  "\<exists>a. FromKmsg (ex_oom_record ''Memory cgroup out of memory: Killed process 4 ()'') None = Some a \<and>
     a_Rule a = ''mem.oom_kill'' \<and> a_Key a = ''mem.oom_kill|4''"
proof -
  let ?msg = "''Memory cgroup out of memory: Killed process 4 ()''"
  have 1: "list_all (\<lambda>kr. lacks ?msg (kr_re kr)) (kernel_rules @ [memory_rules ! 0])" by code_simp
  have 2: "FindSubmatch (kr_re (memory_rules ! 1)) ?msg = Some [(2, []), (1, ''4'')]" by code_simp
  have 3: "kmsgRules = (kernel_rules @ [memory_rules ! 0]) @ memory_rules ! 1 # drop 2 memory_rules @ hardware_rules @ storage_rules @
     network_rules @ kvm_rules @ crash_rules" by (simp add: kmsgRules_def memory_rules_def)
  have 4: "TrimSpace ?msg = ?msg" by code_simp
  have "FromKmsg (ex_oom_record ?msg) None = kmsg_alert (ex_oom_record ?msg) None ?msg (memory_rules ! 1) [(2, []), (1, ''4'')]"
    unfolding FromKmsg_def 3 ex_oom_record_def Record.simps 4 try_rules_lacks[OF 1] by (simp add: 2[simplified])
  then show ?thesis unfolding oom_rule_1
    by (simp add: kmsg_alert_def kmsg_pid_def mk_rule_def submatch_def mget_def zero_alert_def)
qed

theorem oom_reports_share_key_witness:
  "\<exists>a names b ok. FromKmsg (ex_oom_record ''Memory cgroup out of memory: Killed process 4 ()'') None = Some a \<and>
     FromProbeEvent (\<lambda>_. None) [] ex_oom_event [] [] = (names, b, ok) \<and> ok \<and> a_Rule b = a_Rule a \<and> a_Key a = a_Key b"
proof -
  let ?r = "ex_oom_record ''Memory cgroup out of memory: Killed process 4 ()''"
  obtain a where a: "FromKmsg ?r None = Some a" "a_Rule a = ''mem.oom_kill''" "a_Key a = ''mem.oom_kill|4''" using ex_oom_alert by blast
  obtain names b ok where b: "FromProbeEvent (\<lambda>_. None) [] ex_oom_event [] [] = (names, b, ok)" by (metis prod.collapse)
  have ev: "ev_Type ex_oom_event = EvOOMVictim" by (simp add: ex_oom_event_def)
  have "digit_char 4 = CHR ''4''" by code_simp
  then have "a_Key b = ''mem.oom_kill|4''"
    using b by (auto simp: FromProbeEvent_def Let_def oom_alert_def ex_oom_event_def ev_defs show_w_def show_nat_def show_base.simps)
  then show ?thesis using oom_reports_share_key[OF a(1,2) ev b] a b by metis
qed

section \<open>Events of the probes\<close>










section \<open>The journal\<close>

text \<open>
  C20: The datagram sent to the journal is read back, by the rules of the journal's protocol,
  as the fields of the record, each value with every byte it had, line ends included, and no
  name twice. Repeats are not sent; every other transition is.
\<close>

theorem journal_datagram_roundtrip:
  assumes "list_all (\<lambda>f. length (snd f) < 2 ^ 64) (journal_fields sprint a t)"
  shows "(fst (JournalWrite sprint send a t) = None \<longleftrightarrow> t = Repeated) \<and>
    (fst (JournalWrite sprint send a t) = Some b \<longrightarrow> decode_fields b = Some (journal_fields sprint a t)) \<and>
    (distinct (map fst (journal_fields sprint a t)))"
  using decode_encode_fields[OF journal_fields_ok[OF assms]] journal_field_names
  by (auto simp: JournalWrite_def Emitted_def Let_def)

theorem journal_datagram_roundtrip_witness:
  "decode_fields (the (fst (JournalWrite (\<lambda>_. ''0'') (\<lambda>_. None) (zero_alert\<lparr>a_Message := [CHR ''x'', newline]\<rparr>) Raised)))
   = Some (journal_fields (\<lambda>_. ''0'') (zero_alert\<lparr>a_Message := [CHR ''x'', newline]\<rparr>) Raised)"
proof -
  let ?a = "zero_alert\<lparr>a_Message := [CHR ''x'', newline]\<rparr>"
  have small: "list_all (\<lambda>f. length (snd f) < 2 ^ 64) (journal_fields (\<lambda>_. ''0'') ?a Raised)"
    by (simp add: journal_fields_def journal_message_def AlertString_def zero_alert_def priority_def show_int_def show_nat_def show_base.simps)
  have "fst (JournalWrite (\<lambda>_. ''0'') (\<lambda>_. None) ?a Raised) \<noteq> None"
    using journal_datagram_roundtrip[OF small, of "\<lambda>_. None"] by simp
  then show ?thesis
    using journal_datagram_roundtrip[OF small, of "\<lambda>_. None" "the (fst (JournalWrite (\<lambda>_. ''0'') (\<lambda>_. None) ?a Raised))"] by auto
qed

end
