(* ===== verification/Discover.thy ===== *)
theory Discover
  imports Store Go_Strings
begin

text \<open>
  \<open>internal/collect/discover.go\<close>: finding the processes that own a KVM virtual machine
  from \<open>/proc\<close>, reading their command lines, and finding the domain a host pid belongs to.
  The file system is an argument: what a directory lists, where a link points, what a
  file holds, each absent when the call fails.
\<close>

section \<open>Files\<close>

record procfs =
  pf_ReadDir :: "string \<Rightarrow> string list option"
  pf_Readlink :: "string \<Rightarrow> string option"
  pf_ReadFile :: "string \<Rightarrow> string option"

text \<open>\<open>filepath.Join\<close> of parts that need no cleaning, and \<open>filepath.Base\<close>.\<close>

definition path_join :: "string list \<Rightarrow> string" where
  "path_join ps = Join ps ''/''"

definition path_base :: "string \<Rightarrow> string" where
  "path_base p =
     (if p = [] then ''.''
      else let q = TrimRight p (CHR ''/'')
           in if q = [] then ''/'' else rev (takeWhile (\<lambda>c. c \<noteq> CHR ''/'') (rev q)))"

section \<open>Processes\<close>

record KVMProcess =
  kp_PID :: int
  kp_Start :: uint64
  kp_Comm :: string
  kp_Source :: string
  kp_Name :: string
  kp_UUID :: string
  kp_MemMiB :: uint64
  kp_Taps :: "string list"
  kp_Cmdline :: "string list"

definition zero_process :: KVMProcess where
  "zero_process = \<lparr>kp_PID = 0, kp_Start = 0, kp_Comm = [], kp_Source = [], kp_Name = [], kp_UUID = [], kp_MemMiB = 0,
     kp_Taps = [], kp_Cmdline = []\<rparr>"

subsection \<open>Command lines\<close>

fun find_opt :: "string \<Rightarrow> string list \<Rightarrow> string option" where
  "find_opt key [] = None"
| "find_opt key (part # parts) =
     (case CutPrefix part (key @ ''='') of (v, True) \<Rightarrow> Some v | (_, False) \<Rightarrow> find_opt key parts)"

definition qemuOpt :: "string \<Rightarrow> string \<Rightarrow> string" where
  "qemuOpt s key =
     (let parts = Split s (CHR '','')
      in case find_opt key parts of
           Some v \<Rightarrow> v
         | None \<Rightarrow> if parts \<noteq> [] \<and> \<not> Contains (hd parts) ''='' then hd parts else [])"

definition parseQemuMem :: "string \<Rightarrow> uint64" where
  "parseQemuMem s =
     (let v = qemuOpt s ''size''
      in if v = [] then 0
         else let (mult, v) =
                (if last v = CHR ''G'' \<or> last v = CHR ''g'' then (1024, butlast v)
                 else if last v = CHR ''T'' \<or> last v = CHR ''t'' then (1024 * 1024, butlast v)
                 else if last v = CHR ''M'' \<or> last v = CHR ''m'' then (1, butlast v)
                 else (1, v))
              in case ParseUint v 10 64 of Inl _ \<Rightarrow> 0 | Inr n \<Rightarrow> of_nat n * mult)"

definition hypervisor_source :: "string \<Rightarrow> string \<Rightarrow> string" where
  "hypervisor_source exe comm =
     (if HasPrefix exe ''qemu'' \<or> HasPrefix comm ''qemu'' \<or> comm = ''kvm'' then ''qemu''
      else if Contains exe ''firecracker'' \<or> comm = ''firecracker'' then ''firecracker''
      else if Contains exe ''cloud-hypervisor'' \<or> comm = ''cloud-hypervisor'' then ''cloud-hypervisor''
      else if Contains exe ''crosvm'' \<or> comm = ''crosvm'' then ''crosvm''
      else if exe = ''lkvm'' \<or> comm = ''lkvm'' then ''kvmtool''
      else ''kvm'')"

text \<open>One argument of the loop over \<open>args\<close>; \<open>arg\<close> is the argument after it, or empty.\<close>

definition parse_arg :: "string \<Rightarrow> string \<Rightarrow> KVMProcess \<Rightarrow> KVMProcess" where
  "parse_arg a arg p =
     (if a = ''-name'' then p\<lparr>kp_Name := qemuOpt arg ''guest''\<rparr>
      else if a = ''-uuid'' then p\<lparr>kp_UUID := arg\<rparr>
      else if a = ''-m'' then p\<lparr>kp_MemMiB := parseQemuMem arg\<rparr>
      else if a = ''--id'' \<or> a = ''-id'' then
        (if kp_Name p = [] \<and> kp_Source p = ''firecracker'' then p\<lparr>kp_Name := arg\<rparr> else p)
      else if a = ''--name'' then (if kp_Name p = [] then p\<lparr>kp_Name := arg\<rparr> else p)
      else p)"

fun parse_args :: "string list \<Rightarrow> KVMProcess \<Rightarrow> KVMProcess" where
  "parse_args [] p = p"
| "parse_args (a # rest) p = parse_args rest (parse_arg a (case rest of [] \<Rightarrow> [] | b # _ \<Rightarrow> b) p)"

definition parseHypervisorCmdline :: "KVMProcess \<Rightarrow> KVMProcess" where
  "parseHypervisorCmdline p =
     (let exe = (case kp_Cmdline p of [] \<Rightarrow> [] | a # _ \<Rightarrow> path_base a);
          p = parse_args (kp_Cmdline p) (p\<lparr>kp_Source := hypervisor_source exe (kp_Comm p)\<rparr>)
      in if kp_Name p = [] then p\<lparr>kp_Name := kp_Comm p @ ''-'' @ show_int (kp_PID p)\<rparr> else p)"

subsection \<open>Files of one process\<close>

text \<open>Field 22 of \<open>/proc/pid/stat\<close>; the fields start after the last closing parenthesis.\<close>

definition after_last :: "char \<Rightarrow> string \<Rightarrow> string option" where
  "after_last c s = (if c \<in> set s then Some (rev (takeWhile (\<lambda>x. x \<noteq> c) (rev s))) else None)"

definition start_of_stat :: "string \<Rightarrow> uint64 \<times> bool" where
  "start_of_stat b =
     (case after_last (CHR '')'') b of
        None \<Rightarrow> (0, False)
      | Some s \<Rightarrow>
          let f = Fields s
          in if length f < 20 then (0, False)
             else (of_nat (ParseUint_value (f ! 19) 10 64), \<not> isl (ParseUint (f ! 19) 10 64)))"

definition startTime :: "procfs \<Rightarrow> string \<Rightarrow> int \<Rightarrow> uint64 \<times> bool" where
  "startTime fs rt pid =
     (case pf_ReadFile fs (path_join [rt, show_int pid, ''stat'']) of None \<Rightarrow> (0, False) | Some b \<Rightarrow> start_of_stat b)"

fun first_tap :: "string list \<Rightarrow> string" where
  "first_tap [] = []"
| "first_tap (line # ls) = (case CutPrefix line ''iff:'' of (v, True) \<Rightarrow> TrimSpace v | (_, False) \<Rightarrow> first_tap ls)"

definition tapFromFdinfo :: "procfs \<Rightarrow> string \<Rightarrow> string" where
  "tapFromFdinfo fs path = (case pf_ReadFile fs path of None \<Rightarrow> [] | Some b \<Rightarrow> first_tap (Split b (CHR 0x0A)))"

definition inspect :: "procfs \<Rightarrow> string \<Rightarrow> int \<Rightarrow> KVMProcess option" where
  "inspect fs rt pid =
     (let fdDir = path_join [rt, show_int pid, ''fd'']
      in case pf_ReadDir fs fdDir of
           None \<Rightarrow> None
         | Some fds \<Rightarrow>
             let target = (\<lambda>fd. pf_Readlink fs (path_join [fdDir, fd]));
                 isVM = list_ex (\<lambda>fd. target fd = Some ''anon_inode:kvm-vm'') fds;
                 tunFDs = filter (\<lambda>fd. target fd = Some ''/dev/net/tun'') fds;
                 base = path_join [rt, show_int pid]
             in if \<not> isVM then None
                else let p = zero_process\<lparr>kp_PID := pid, kp_Start := fst (startTime fs rt pid)\<rparr>;
                         p = (case pf_ReadFile fs (path_join [base, ''comm'']) of
                                None \<Rightarrow> p | Some b \<Rightarrow> p\<lparr>kp_Comm := TrimSpace b\<rparr>);
                         p = (case pf_ReadFile fs (path_join [base, ''cmdline'']) of
                                None \<Rightarrow> p | Some b \<Rightarrow> p\<lparr>kp_Cmdline := Split (TrimRight b (CHR 0x00)) (CHR 0x00)\<rparr>);
                         taps = filter (\<lambda>tap. tap \<noteq> [])
                                  (map (\<lambda>fd. tapFromFdinfo fs (path_join [base, ''fdinfo'', fd])) tunFDs);
                         p = p\<lparr>kp_Taps := taps\<rparr>
                     in Some (parseHypervisorCmdline p))"

section \<open>The index\<close>

record ProcessIndex =
  pi_root :: string
  pi_interval :: duration
  pi_lastScan :: gtime
  pi_procs :: "(int, KVMProcess) gomap"

definition NewProcessIndex :: "duration \<Rightarrow> ProcessIndex" where
  "NewProcessIndex interval = \<lparr>pi_root = ''/proc'', pi_interval = interval, pi_lastScan = 0, pi_procs = []\<rparr>"

definition scan :: "procfs \<Rightarrow> string \<Rightarrow> (int, KVMProcess) gomap" where
  "scan fs rt =
     (case pf_ReadDir fs rt of
        None \<Rightarrow> []
      | Some entries \<Rightarrow>
          foldl (\<lambda>out e. case Atoi e of
                           Inl _ \<Rightarrow> out
                         | Inr pid \<Rightarrow> (case inspect fs rt pid of None \<Rightarrow> out | Some p \<Rightarrow> AList.update pid p out))
            [] entries)"

definition Refresh :: "procfs \<Rightarrow> gtime \<Rightarrow> ProcessIndex \<Rightarrow> ProcessIndex" where
  "Refresh fs now i =
     (if time_sub now (pi_lastScan i) < pi_interval i
      then i\<lparr>pi_procs := mfilter (\<lambda>pid p. case startTime fs (pi_root i) pid of
                                             (start, True) \<Rightarrow> start = kp_Start p | (_, False) \<Rightarrow> False) (pi_procs i)\<rparr>
      else i\<lparr>pi_lastScan := now, pi_procs := scan fs (pi_root i)\<rparr>)"

definition All :: "int range_order \<Rightarrow> ProcessIndex \<Rightarrow> KVMProcess list" where
  "All ord i = List.map_filter (map_of (pi_procs i)) (ord (mkeys (pi_procs i)))"

definition ByUUID :: "int range_order \<Rightarrow> string \<Rightarrow> ProcessIndex \<Rightarrow> KVMProcess \<times> bool" where
  "ByUUID ord uuid i =
     (case List.find (\<lambda>p. kp_UUID p \<noteq> [] \<and> EqualFold (kp_UUID p) uuid) (All ord i) of
        None \<Rightarrow> (zero_process, False) | Some p \<Rightarrow> (p, True))"

section \<open>The domain of a pid\<close>

fun tgid_line :: "int \<Rightarrow> string list \<Rightarrow> int" where
  "tgid_line pid [] = pid"
| "tgid_line pid (line # ls) =
     (case CutPrefix line ''Tgid:'' of
        (v, True) \<Rightarrow> (case Atoi (TrimSpace v) of Inl _ \<Rightarrow> pid | Inr n \<Rightarrow> n)
      | (_, False) \<Rightarrow> tgid_line pid ls)"

definition tgid_of :: "procfs \<Rightarrow> int \<Rightarrow> int" where
  "tgid_of fs pid =
     (case pf_ReadFile fs (''/proc/'' @ show_int pid @ ''/status'') of
        None \<Rightarrow> pid | Some b \<Rightarrow> tgid_line pid (Split b (CHR 0x0A)))"

definition owns_pid :: "int \<Rightarrow> int \<Rightarrow> DomainSnapshot \<Rightarrow> bool" where
  "owns_pid pid tgid d \<longleftrightarrow>
     0 < d_PID d \<and> (d_PID d = pid \<or> d_PID d = tgid \<or> list_ex (\<lambda>v. v_TID v = pid) (d_VCPUs d))"

definition DomainByPID :: "procfs \<Rightarrow> string range_order \<Rightarrow> DomainStore \<Rightarrow> int \<Rightarrow> DomainSnapshot \<times> bool" where
  "DomainByPID fs ord s pid =
     (case List.find (owns_pid pid (tgid_of fs pid)) (Snapshot ord s) of
        None \<Rightarrow> (zero_snapshot, False) | Some d \<Rightarrow> (d, True))"

section \<open>Option strings\<close>

text \<open>What QEMU itself accepts: key and value pairs, a key without the two separators, a value without the comma.\<close>

definition format_opts :: "(string \<times> string) list \<Rightarrow> string" where
  "format_opts kvs = Join (map (\<lambda>(k, v). k @ ''='' @ v) kvs) '',''"

definition opts_wf :: "(string \<times> string) list \<Rightarrow> bool" where
  "opts_wf kvs \<longleftrightarrow> kvs \<noteq> [] \<and> list_all (\<lambda>(k, v). CHR ''='' \<notin> set k \<and> CHR '','' \<notin> set k \<and> CHR '','' \<notin> set v) kvs"

lemma HasPrefix_key:
  assumes "CHR ''='' \<notin> set k" and "CHR ''='' \<notin> set key"
  shows "HasPrefix (k @ ''='' @ v) (key @ ''='') \<longleftrightarrow> k = key"
proof
  assume "HasPrefix (k @ ''='' @ v) (key @ ''='')"
  then obtain t where eq: "k @ CHR ''='' # v = key @ CHR ''='' # t" by (auto simp: HasPrefix_iff)
  have "takeWhile (\<lambda>c. c \<noteq> CHR ''='') (k @ CHR ''='' # v) = k"
    using assms(1) by (auto simp: takeWhile_append)
  moreover have "takeWhile (\<lambda>c. c \<noteq> CHR ''='') (key @ CHR ''='' # t) = key"
    using assms(2) by (auto simp: takeWhile_append)
  ultimately show "k = key" using eq by metis
next
  assume "k = key"
  then show "HasPrefix (k @ ''='' @ v) (key @ ''='')"
    using HasPrefix_append[of "key @ ''=''" v] by simp
qed

lemma CutPrefix_key:
  assumes "CHR ''='' \<notin> set k" and "CHR ''='' \<notin> set key"
  shows "CutPrefix (k @ ''='' @ v) (key @ ''='') = (if k = key then (v, True) else (k @ ''='' @ v, False))"
  using HasPrefix_key[OF assms, of v] by (auto simp: CutPrefix_def)

lemma find_opt_format:
  assumes "CHR ''='' \<notin> set key" and "list_all (\<lambda>(k, v). CHR ''='' \<notin> set k) kvs"
  shows "find_opt key (map (\<lambda>(k, v). k @ ''='' @ v) kvs) = map_of kvs key"
  using assms(2)
proof (induction kvs)
  case Nil
  then show ?case by simp
next
  case (Cons kv kvs)
  obtain k v where kv: "kv = (k, v)" by (cases kv)
  with Cons.prems have "CHR ''='' \<notin> set k" by simp
  from CutPrefix_key[OF this assms(1), of v] Cons kv show ?case by simp
qed

lemma Split_format_opts: "opts_wf kvs \<Longrightarrow> Split (format_opts kvs) (CHR '','') = map (\<lambda>(k, v). k @ ''='' @ v) kvs"
  unfolding format_opts_def by (rule Split_Join) (auto simp: opts_wf_def list_all_iff)

lemma Contains_eq: "Contains (k @ ''='' @ v) ''=''"
  using Contains_append[of k "''=''" v] by simp

lemma qemuOpt_format:
  assumes "opts_wf kvs" and "CHR ''='' \<notin> set key"
  shows "qemuOpt (format_opts kvs) key = (case map_of kvs key of None \<Rightarrow> [] | Some v \<Rightarrow> v)"
proof -
  have opt: "find_opt key (Split (format_opts kvs) (CHR '','')) = map_of kvs key"
    using assms find_opt_format[OF assms(2), of kvs]
    by (simp add: Split_format_opts opts_wf_def list_all_iff case_prod_unfold)
  obtain k v kvs' where kvs: "kvs = (k, v) # kvs'" using assms(1) by (cases kvs) (auto simp: opts_wf_def)
  have "Contains (hd (Split (format_opts kvs) (CHR '',''))) ''=''"
    unfolding Split_format_opts[OF assms(1)] using Contains_eq[of k v] by (simp add: kvs)
  then show ?thesis unfolding qemuOpt_def Let_def opt by (auto split: option.splits)
qed

lemma CutPrefix_bare:
  assumes "CHR ''='' \<notin> set s"
  shows "CutPrefix s (key @ ''='') = (s, False)"
proof -
  have "\<not> HasPrefix s (key @ ''='')" using assms by (auto simp: HasPrefix_iff)
  then show ?thesis by (simp add: CutPrefix_def)
qed

lemma Contains_single: "Contains s [c] \<longleftrightarrow> c \<in> set s"
  by (induction s) (auto simp: HasPrefix_def)

text \<open>A bare leading value is what is meant when the key is not given.\<close>

lemma qemuOpt_bare:
  assumes "CHR ''='' \<notin> set s" and "CHR '','' \<notin> set s"
  shows "qemuOpt s key = s"
  using assms by (simp add: qemuOpt_def Split_no_sep CutPrefix_bare Contains_single)

subsection \<open>Memory sizes\<close>

fun mem_unit :: "char option \<Rightarrow> nat" where
  "mem_unit (Some c) = (if c = CHR ''G'' \<or> c = CHR ''g'' then 1024
                        else if c = CHR ''T'' \<or> c = CHR ''t'' then 1024 * 1024 else 1)"
| "mem_unit None = 1"

definition is_mem_unit :: "char option \<Rightarrow> bool" where
  "is_mem_unit u \<longleftrightarrow> (case u of None \<Rightarrow> True | Some c \<Rightarrow> c \<in> set ''MmGgTt'')"

definition format_mem :: "nat \<Rightarrow> char option \<Rightarrow> string" where
  "format_mem n u = show_nat n @ (case u of None \<Rightarrow> [] | Some c \<Rightarrow> [c])"

lemma last_show_nat: "48 \<le> (of_char (last (show_nat n)) :: nat) \<and> (of_char (last (show_nat n)) :: nat) \<le> 57"
  by (rule show_nat_digits[of _ n]) simp

lemma parseQemuMem_of_opt:
  assumes "qemuOpt s ''size'' = format_mem n u" and "is_mem_unit u" and "n < 2 ^ 64"
  shows "parseQemuMem s = of_nat (n * mem_unit u)"
proof (cases u)
  case None
  have "last (show_nat n) \<notin> set ''GgTtMm''" using last_show_nat[of n] by auto
  then show ?thesis
    using assms None by (simp add: parseQemuMem_def format_mem_def ParseUint_show_nat)
next
  case (Some c)
  then have "c \<in> set ''MmGgTt''" using assms(2) by (simp add: is_mem_unit_def)
  with assms Some show ?thesis
    by (auto simp: parseQemuMem_def format_mem_def ParseUint_show_nat)
qed

section \<open>The start time in a stat line\<close>

definition is_word_field :: "string \<Rightarrow> bool" where
  "is_word_field f \<longleftrightarrow> f \<noteq> [] \<and> list_all (\<lambda>c. \<not> is_space c \<and> c \<noteq> CHR '')'') f"

lemma fields_acc_word: "list_all (\<lambda>c. \<not> is_space c) f \<Longrightarrow> fields_acc w (f @ s) = fields_acc (w @ f) s"
  by (induction f arbitrary: w) auto

lemma Fields_Join:
  assumes "list_all (\<lambda>f. f \<noteq> [] \<and> list_all (\<lambda>c. \<not> is_space c) f) fs" and "list_all is_space e"
  shows "Fields (Join fs '' '' @ e) = fs"
proof -
  have tail: "fields_acc w e = (if w = [] then [] else [w])" for w
    using assms(2) by (induction e arbitrary: w) auto
  have sp: "is_space (CHR '' '')" by (simp add: is_space_def)
  show ?thesis
    using assms(1) unfolding Fields_def
  proof (induction fs rule: induct_list012)
    case 1
    then show ?case by (simp add: tail)
  next
    case (2 f)
    then have "list_all (\<lambda>c. \<not> is_space c) f" "f \<noteq> []" by simp_all
    with fields_acc_word[of f "[]" e] show ?case by (simp add: tail)
  next
    case (3 f g fs)
    then have "list_all (\<lambda>c. \<not> is_space c) f" "f \<noteq> []" by simp_all
    with 3 fields_acc_word[of f "[]" "'' '' @ Join (g # fs) '' '' @ e"] sp show ?case by simp
  qed
qed

lemma after_last_append: "c \<notin> set s \<Longrightarrow> after_last c (p @ c # s) = Some s"
  by (simp add: after_last_def takeWhile_append)

lemma set_Join: "c \<in> set (Join fs sep) \<Longrightarrow> (\<exists>f \<in> set fs. c \<in> set f) \<or> c \<in> set sep"
  by (induction fs sep rule: Join.induct) auto

text \<open>The command name may hold anything, blanks and parentheses included.\<close>

definition stat_line :: "int \<Rightarrow> string \<Rightarrow> string list \<Rightarrow> string" where
  "stat_line pid comm fs = show_int pid @ '' ('' @ comm @ '') '' @ Join fs '' '' @ [CHR 0x0A]"

lemma start_of_stat_line:
  assumes "list_all is_word_field fs" and "20 \<le> length fs" and "fs ! 19 = show_nat start" and "start < 2 ^ 64"
  shows "start_of_stat (stat_line pid comm fs) = (of_nat start, True)"
proof -
  let ?rest = "CHR '' '' # Join fs '' '' @ [CHR 0x0A]"
  have "CHR '')'' \<notin> set (Join fs '' '')"
  proof
    assume "CHR '')'' \<in> set (Join fs '' '')"
    then obtain f where "f \<in> set fs" "CHR '')'' \<in> set f" using set_Join[of "CHR '')''" fs "'' ''"] by auto
    then show False using assms(1) unfolding list_all_iff is_word_field_def by blast
  qed
  then have no: "CHR '')'' \<notin> set ?rest" by simp
  have "stat_line pid comm fs = (show_int pid @ '' ('' @ comm) @ CHR '')'' # ?rest" by (simp add: stat_line_def)
  then have last: "after_last (CHR '')'') (stat_line pid comm fs) = Some ?rest"
    using after_last_append[OF no] by metis
  have "Fields ?rest = fs"
    using Fields_Join[of fs "[CHR 0x0A]"] assms(1) by (simp add: Fields_def is_space_def is_word_field_def list_all_iff)
  with last assms show ?thesis
    by (simp add: start_of_stat_def ParseUint_show_nat ParseUint_value_def)
qed

section \<open>What the index holds\<close>

definition listed :: "procfs \<Rightarrow> string \<Rightarrow> int \<Rightarrow> bool" where
  "listed fs rt pid \<longleftrightarrow> (\<exists>entries. pf_ReadDir fs rt = Some entries \<and> (\<exists>e \<in> set entries. Atoi e = Inr pid))"

definition owns_vm :: "procfs \<Rightarrow> string \<Rightarrow> int \<Rightarrow> bool" where
  "owns_vm fs rt pid \<longleftrightarrow>
     (\<exists>fds. pf_ReadDir fs (path_join [rt, show_int pid, ''fd'']) = Some fds \<and>
        (\<exists>fd \<in> set fds. pf_Readlink fs (path_join [path_join [rt, show_int pid, ''fd''], fd]) = Some ''anon_inode:kvm-vm''))"

lemma parse_arg_keeps [simp]:
  "kp_PID (parse_arg a b p) = kp_PID p" "kp_Start (parse_arg a b p) = kp_Start p"
  "kp_Comm (parse_arg a b p) = kp_Comm p" "kp_Taps (parse_arg a b p) = kp_Taps p"
  by (simp_all add: parse_arg_def)

lemma parse_args_keeps [simp]:
  "kp_PID (parse_args as p) = kp_PID p" "kp_Start (parse_args as p) = kp_Start p"
  by (induction as p rule: parse_args.induct) simp_all

lemma parseHypervisorCmdline_keeps [simp]:
  "kp_PID (parseHypervisorCmdline p) = kp_PID p" "kp_Start (parseHypervisorCmdline p) = kp_Start p"
  by (simp_all add: parseHypervisorCmdline_def Let_def)

lemma parseHypervisorCmdline_named: "kp_Name (parseHypervisorCmdline p) \<noteq> []"
  by (simp add: parseHypervisorCmdline_def Let_def)

lemma inspect_Some_iff: "(\<exists>p. inspect fs rt pid = Some p) \<longleftrightarrow> owns_vm fs rt pid"
  by (auto simp: inspect_def owns_vm_def Let_def list_ex_iff split: option.splits if_splits)

lemma inspect_facts:
  assumes "inspect fs rt pid = Some p"
  shows "kp_PID p = pid" and "kp_Start p = fst (startTime fs rt pid)" and "kp_Name p \<noteq> []"
  using assms
  by (auto simp: inspect_def Let_def parseHypervisorCmdline_named split: option.splits if_splits)

lemma map_of_scan_loop:
  "map_of (foldl (\<lambda>out e. case Atoi e of
                           Inl _ \<Rightarrow> out
                         | Inr pid \<Rightarrow> (case inspect fs rt pid of None \<Rightarrow> out | Some p \<Rightarrow> AList.update pid p out)) m es) pid
   = (if (\<exists>e \<in> set es. Atoi e = Inr pid) \<and> inspect fs rt pid \<noteq> None then inspect fs rt pid else map_of m pid)"
  by (induction es arbitrary: m) (auto simp: gomap_simps split: sum.splits option.splits)

lemma map_of_scan:
  "map_of (scan fs rt) pid = (if listed fs rt pid then inspect fs rt pid else None)"
  by (auto simp: scan_def listed_def map_of_scan_loop split: option.splits)

lemma wf_scan_loop:
  "wf_map m \<Longrightarrow> wf_map (foldl (\<lambda>out e. case Atoi e of
                           Inl _ \<Rightarrow> out
                         | Inr pid \<Rightarrow> (case inspect fs rt pid of None \<Rightarrow> out | Some p \<Rightarrow> AList.update pid p out)) m es)"
  by (induction es arbitrary: m) (auto split: sum.splits option.splits)

lemma wf_scan [simp]: "wf_map (scan fs rt)"
  by (auto simp: scan_def wf_scan_loop split: option.splits)

definition index_wf :: "ProcessIndex \<Rightarrow> bool" where
  "index_wf i \<longleftrightarrow> wf_map (pi_procs i) \<and> (\<forall>pid p. map_of (pi_procs i) pid = Some p \<longrightarrow> kp_PID p = pid \<and> kp_Name p \<noteq> [])"

lemma index_wf_New [simp]: "index_wf (NewProcessIndex d)"
  by (simp add: index_wf_def NewProcessIndex_def)

lemma map_of_Refresh:
  assumes "index_wf i"
  shows "map_of (pi_procs (Refresh fs now i)) pid =
    (if time_sub now (pi_lastScan i) < pi_interval i
     then (case map_of (pi_procs i) pid of
             None \<Rightarrow> None
           | Some p \<Rightarrow> if startTime fs (pi_root i) pid = (kp_Start p, True) then Some p else None)
     else if listed fs (pi_root i) pid then inspect fs (pi_root i) pid else None)"
  using assms
  by (auto simp: Refresh_def index_wf_def map_of_mfilter map_of_scan split: option.splits prod.splits bool.splits)

lemma index_wf_Refresh: "index_wf i \<Longrightarrow> index_wf (Refresh fs now i)"
proof -
  assume wf: "index_wf i"
  then have "wf_map (pi_procs (Refresh fs now i))" by (simp add: Refresh_def index_wf_def)
  moreover have "kp_PID p = pid \<and> kp_Name p \<noteq> []" if "map_of (pi_procs (Refresh fs now i)) pid = Some p" for pid p
    using that wf inspect_facts[of fs "pi_root i" pid p] unfolding map_of_Refresh[OF wf]
    by (auto simp: index_wf_def split: if_splits option.splits)
  ultimately show ?thesis by (simp add: index_wf_def)
qed

lemma All_facts:
  assumes "index_wf i" and "is_order ord"
  shows "distinct (map kp_PID (All ord i))" and "p \<in> set (All ord i) \<longleftrightarrow> map_of (pi_procs i) (kp_PID p) = Some p"
proof -
  have set: "set (ord (mkeys (pi_procs i))) = set (mkeys (pi_procs i))" using assms(2) by (rule is_order_set)
  have "All ord i = map (the \<circ> map_of (pi_procs i)) (ord (mkeys (pi_procs i)))"
    unfolding All_def by (rule map_filter_in_map) (simp add: set in_mkeys_iff)
  moreover have "kp_PID (the (map_of (pi_procs i) k)) = k" if "k \<in> set (ord (mkeys (pi_procs i)))" for k
    using that assms(1) by (auto simp: set in_mkeys_iff index_wf_def)
  ultimately have "map kp_PID (All ord i) = ord (mkeys (pi_procs i))" by (simp add: map_idI)
  then show "distinct (map kp_PID (All ord i))"
    using assms by (simp add: is_order_distinct distinct_mkeys index_wf_def)
  show "p \<in> set (All ord i) \<longleftrightarrow> map_of (pi_procs i) (kp_PID p) = Some p"
    unfolding All_def map_filter_Some mem_Collect_eq set in_mkeys_iff Bex_def using assms(1) by (auto simp: index_wf_def)
qed

end
