(* ===== verification/Domain_Loop.thy ===== *)
theory Domain_Loop
  imports Store
begin

text \<open>
  Collectors walk over a snapshot of the store and change one domain after the other. What
  such a loop makes of each domain is proved once, from the contract of one step.
\<close>

section \<open>The latest snapshots\<close>

definition latest_of :: "DomainStore \<Rightarrow> string \<Rightarrow> DomainSnapshot option" where
  "latest_of s i = map_option en_latest (map_of (st_domains s) i)"

lemma latest_of_Mutate: "latest_of (fst (Mutate i f s)) k = (if k = i then map_option f (latest_of s i) else latest_of s k)"
  by (auto simp: latest_of_def Mutate_def gomap_simps split: option.splits)

lemma latest_of_Upsert:
  "latest_of (Upsert i f s) k =
    (if k = i then Some (f (case latest_of s i of None \<Rightarrow> zero_snapshot\<lparr>d_ID := i\<rparr> | Some d \<Rightarrow> d)) else latest_of s k)"
  by (auto simp: latest_of_def Upsert_def Let_def gomap_simps newEntry_def split: option.splits)

lemma latest_of_MutateHost [simp]: "latest_of (MutateHost f s) = latest_of s"
  by (simp add: latest_of_def MutateHost_def fun_eq_iff)

text \<open>Every entry of the store carries its key as identity.\<close>

definition ids_ok :: "DomainStore \<Rightarrow> bool" where
  "ids_ok s \<longleftrightarrow> wf_map (st_domains s) \<and> (\<forall>i d. latest_of s i = Some d \<longrightarrow> d_ID d = i)"

lemma ids_ok_new: "ids_ok NewDomainStore"
  by (simp add: ids_ok_def latest_of_def NewDomainStore_def)

lemma wf_Upsert: "wf_map (st_domains s) \<Longrightarrow> wf_map (st_domains (Upsert i f s))"
  by (simp add: Upsert_def Let_def)

lemma wf_Mutate: "wf_map (st_domains s) \<Longrightarrow> wf_map (st_domains (fst (Mutate i f s)))"
  by (simp add: Mutate_def split: option.splits)

lemma ids_ok_Upsert: "ids_ok s \<Longrightarrow> (\<And>d. d_ID (f d) = d_ID d) \<Longrightarrow> ids_ok (Upsert i f s)"
  by (auto simp: ids_ok_def latest_of_Upsert wf_Upsert split: if_splits option.splits)

lemma ids_ok_Mutate: "ids_ok s \<Longrightarrow> (\<And>d. d_ID (f d) = d_ID d) \<Longrightarrow> ids_ok (fst (Mutate i f s))"
  by (auto simp: ids_ok_def latest_of_Mutate wf_Mutate split: if_splits option.splits)

lemma d_ID_clone [simp]: "d_ID (clone d) = d_ID d"
  by (simp add: clone_def)

lemma in_Snapshot_iff: "is_order ord \<Longrightarrow> x \<in> set (Snapshot ord s) \<longleftrightarrow> (\<exists>i d. latest_of s i = Some d \<and> x = clone d)"
  unfolding Snapshot_def set_sort map_filter_Some is_order_set by (auto simp: in_mkeys_iff latest_of_def)

lemma distinct_Snapshot_ids:
  assumes "is_order ord" and "ids_ok s"
  shows "distinct (map d_ID (Snapshot ord s))"
proof -
  let ?f = "\<lambda>i. map_option (\<lambda>e. clone (en_latest e)) (map_of (st_domains s) i)" and ?ks = "ord (mkeys (st_domains s))"
  have "List.map_filter ?f ?ks = map (the \<circ> ?f) ?ks"
    by (rule map_filter_in_map) (simp add: is_order_set[OF assms(1)] in_mkeys_iff)
  moreover have "map d_ID (map (the \<circ> ?f) ?ks) = ?ks"
  proof -
    have "d_ID ((the \<circ> ?f) k) = k" if "k \<in> set ?ks" for k
    proof -
      have "map_of (st_domains s) k \<noteq> None" using that unfolding is_order_set[OF assms(1)] in_mkeys_iff .
      then obtain e where e: "map_of (st_domains s) k = Some e" by blast
      then have "latest_of s k = Some (en_latest e)" by (simp add: latest_of_def)
      then show ?thesis using assms(2) e by (simp add: ids_ok_def)
    qed
    then show ?thesis unfolding map_map by (intro map_idI) simp
  qed
  moreover have "distinct ?ks" using assms(2) unfolding is_order_distinct[OF assms(1)] by (simp add: distinct_mkeys ids_ok_def)
  ultimately have "distinct (map d_ID (List.map_filter ?f ?ks))" by simp
  moreover have "mset (map d_ID (Snapshot ord s)) = mset (map d_ID (List.map_filter ?f ?ks))"
    by (simp add: Snapshot_def)
  ultimately show ?thesis using mset_eq_imp_distinct_iff by blast
qed

section \<open>Loops over domains\<close>

text \<open>
  A step may change the state of the collector, which keeps an invariant, and the domain it
  is about: \<open>made snap d d'\<close> says what it may make of it.
\<close>

locale domain_loop =
  fixes step :: "'c \<times> DomainStore \<Rightarrow> DomainSnapshot \<Rightarrow> 'c \<times> DomainStore"
    and inv :: "'c \<Rightarrow> bool"
    and made :: "DomainSnapshot \<Rightarrow> DomainSnapshot \<Rightarrow> DomainSnapshot \<Rightarrow> bool"
  assumes inv_step: "inv c \<Longrightarrow> inv (fst (step (c, s) snap))"
    and frame_step: "i \<noteq> d_ID snap \<Longrightarrow> latest_of (snd (step (c, s) snap)) i = latest_of s i"
    and none_step: "latest_of s i = None \<Longrightarrow> latest_of (snd (step (c, s) snap)) i = None"
    and made_step: "inv c \<Longrightarrow> latest_of s (d_ID snap) = Some d \<Longrightarrow>
      \<exists>d'. latest_of (snd (step (c, s) snap)) (d_ID snap) = Some d' \<and> made snap d d'"
begin

lemma inv_loop: "inv c \<Longrightarrow> inv (fst (foldl step (c, s) snaps))"
proof (induction snaps arbitrary: c s)
  case (Cons snap snaps)
  then show ?case using inv_step[of c s snap] by (cases "step (c, s) snap") simp
qed simp

lemma frame_loop: "i \<notin> d_ID ` set snaps \<Longrightarrow> latest_of (snd (foldl step (c, s) snaps)) i = latest_of s i"
proof (induction snaps arbitrary: c s)
  case (Cons snap snaps)
  then show ?case using frame_step[of i snap c s] by (cases "step (c, s) snap") simp
qed simp

lemma none_loop: "latest_of s i = None \<Longrightarrow> latest_of (snd (foldl step (c, s) snaps)) i = None"
proof (induction snaps arbitrary: c s)
  case (Cons snap snaps)
  then show ?case using none_step[of s i c snap] by (cases "step (c, s) snap") simp
qed simp

lemma made_loop:
  assumes "inv c" and "distinct (map d_ID snaps)" and "snap \<in> set snaps" and "latest_of s (d_ID snap) = Some d"
  shows "\<exists>d'. latest_of (snd (foldl step (c, s) snaps)) (d_ID snap) = Some d' \<and> made snap d d'"
  using assms
proof (induction snaps arbitrary: c s)
  case (Cons x snaps)
  obtain c' s' where step: "step (c, s) x = (c', s')" by (cases "step (c, s) x")
  show ?case
  proof (cases "snap = x")
    case True
    then have "latest_of (snd (foldl step (c', s') snaps)) (d_ID snap) = latest_of s' (d_ID snap)"
      using Cons.prems(2) by (intro frame_loop) auto
    then show ?thesis using made_step[of c s x d] Cons.prems step True by simp
  next
    case False
    then have "snap \<in> set snaps" "d_ID snap \<noteq> d_ID x" using Cons.prems(2,3) by (auto simp: image_iff)
    then show ?thesis
      using Cons.IH[of c' s'] Cons.prems False step inv_step[of c s x] frame_step[of "d_ID snap" x c s] by auto
  qed
qed simp

text \<open>A walk over the snapshot of the store itself.\<close>

lemma walk:
  assumes "inv c" and "is_order ord" and "ids_ok s" and "\<And>d. latest_of s i = Some d \<Longrightarrow> clone d = d"
  shows "case latest_of s i of
      None \<Rightarrow> latest_of (snd (foldl step (c, s) (Snapshot ord s))) i = None
    | Some d \<Rightarrow> \<exists>d'. latest_of (snd (foldl step (c, s) (Snapshot ord s))) i = Some d' \<and> made d d d'"
proof (cases "latest_of s i")
  case None
  then show ?thesis using none_loop by simp
next
  case (Some d)
  then have "d \<in> set (Snapshot ord s)" using assms(4)[of d] unfolding in_Snapshot_iff[OF assms(2)] by metis
  moreover have "d_ID d = i" using assms(3) Some by (simp add: ids_ok_def)
  ultimately show ?thesis
    using made_loop[OF assms(1) distinct_Snapshot_ids[OF assms(2,3)], of d s d] Some by simp
qed

end

end
