(* ===== verification/Qmp.thy ===== *)
theory Qmp
  imports Discover Domain_Loop
begin

text \<open>
  \<open>internal/collect/qmp.go\<close>: finding the monitor socket of a QEMU process, one exchange
  with the monitor, the rates of its disks, and the collector with its background polls.
  The text of JSON is left to the decoder: a line of the monitor is what decoding it gives.
\<close>

section \<open>Finding the socket\<close>

definition chardev_server :: "string \<Rightarrow> bool" where
  "chardev_server v \<longleftrightarrow> list_ex (\<lambda>kv. kv = ''server'' \<or> kv = ''server=on'') (Split v (CHR '',''))"

text \<open>The loop over the pairs of neighbouring arguments; \<open>Inl\<close> is the early return.\<close>

fun socket_loop :: "(string, string) gomap \<Rightarrow> string list \<Rightarrow> string list \<Rightarrow> string + (string, string) gomap \<times> string list" where
  "socket_loop chardevs monitors (a # v # rest) =
     (let opt = TrimPrefix a ''-''
      in if opt \<in> set [''-qmp'', ''qmp'', ''-qmp-pretty'', ''qmp-pretty''] then
           (case CutPrefix v ''unix:'' of
              (path, True) \<Rightarrow>
                let (path, flags, _) = Cut path (CHR '','')
                in if Contains ('','' @ flags) '',server'' then Inl path else socket_loop chardevs monitors (v # rest)
            | (_, False) \<Rightarrow> socket_loop chardevs monitors (v # rest))
         else if opt = ''chardev'' \<or> opt = ''-chardev'' then
           (if \<not> HasPrefix v ''socket,'' then socket_loop chardevs monitors (v # rest)
            else let ident = qemuOpt v ''id''; path = qemuOpt v ''path''
                 in if chardev_server v \<and> ident \<noteq> [] \<and> path \<noteq> []
                    then socket_loop (AList.update ident path chardevs) monitors (v # rest)
                    else socket_loop chardevs monitors (v # rest))
         else if opt = ''mon'' \<or> opt = ''-mon'' then
           (if qemuOpt v ''mode'' = ''control''
            then socket_loop chardevs (monitors @ [qemuOpt v ''chardev'']) (v # rest)
            else socket_loop chardevs monitors (v # rest))
         else socket_loop chardevs monitors (v # rest))"
| "socket_loop chardevs monitors _ = Inr (chardevs, monitors)"

definition qmpSocket :: "string list \<Rightarrow> string" where
  "qmpSocket args =
     (case socket_loop [] [] args of
        Inl path \<Rightarrow> path
      | Inr (chardevs, monitors) \<Rightarrow> (case List.map_filter (map_of chardevs) monitors of [] \<Rightarrow> [] | p # _ \<Rightarrow> p))"

section \<open>What the monitor says\<close>

record qmpStats =
  qs_RdBytes :: uint64
  qs_WrBytes :: uint64
  qs_RdOps :: uint64
  qs_WrOps :: uint64
  qs_FailedRd :: int
  qs_FailedWr :: int
  qs_FailedFlush :: int

record qmpBlockStats =
  qb_Device :: string
  qb_QDev :: string
  qb_NodeName :: string
  qb_Stats :: qmpStats

definition qmp_name :: "qmpBlockStats \<Rightarrow> string" where
  "qmp_name b =
     (if qb_Device b \<noteq> [] then qb_Device b
      else case CutPrefix (qb_QDev b) ''/machine/peripheral/'' of
             (rest, True) \<Rightarrow> fst (Cut rest (CHR ''/''))
           | (_, False) \<Rightarrow> if qb_QDev b \<noteq> [] then qb_QDev b else qb_NodeName b)"

record qmpMigrate =
  qm_Status :: string
  qm_TotalTime :: uint64
  qm_ExpectedDowntime :: uint64
  qm_Total :: uint64
  qm_Remaining :: uint64
  qm_Transferred :: uint64
  qm_DirtyPagesRate :: uint64
  qm_Mbps :: float64

definition qmpState :: "string \<Rightarrow> string \<times> string" where
  "qmpState s =
     (if s = ''running'' then (''running'', [])
      else if s = ''guest-panicked'' then (''crashed'', s)
      else if s = ''shutdown'' then (''shutdown'', [])
      else if s = ''suspended'' then (''pmsuspended'', [])
      else if s = ''paused'' then (''paused'', ''user'')
      else (''paused'', s))"

record qmpResult =
  qr_at :: gtime
  qr_state :: string
  qr_reason :: string
  qr_blk :: "qmpBlockStats list"
  qr_disks :: "DiskStat list"
  qr_migration :: "MigrationStat option"

subsection \<open>One command\<close>

text \<open>
  \<open>'j\<close> stands for the raw JSON of a \<open>return\<close>. The lines still to come end with the error
  the read then gives; \<open>cn_wfail\<close> says which commands cannot be written.
\<close>

datatype 'j qmp_line = Malformed string | Response (rsp_Event: string) (rsp_Error: "string option") (rsp_Return: "'j option")

record 'j qmpConn =
  cn_lines :: "'j qmp_line list"
  cn_rerr :: string
  cn_wfail :: "string \<Rightarrow> string option"

fun exec_loop :: "string \<Rightarrow> string \<Rightarrow> ('j \<Rightarrow> 'a option) \<Rightarrow> 'j qmp_line list \<Rightarrow> (string + 'a) \<times> 'j qmp_line list" where
  "exec_loop rerr cmd dec [] = (Inl rerr, [])"
| "exec_loop rerr cmd dec (Malformed e # ls) = (Inl e, ls)"
| "exec_loop rerr cmd dec (Response ev er rt # ls) =
     (if ev \<noteq> [] then exec_loop rerr cmd dec ls
      else case er of
             Some desc \<Rightarrow> (Inl (cmd @ '': '' @ desc), ls)
           | None \<Rightarrow> (case rt of
                        None \<Rightarrow> (Inl (cmd @ '': empty response''), ls)
                      | Some j \<Rightarrow> (case dec j of None \<Rightarrow> (Inl ''json'', ls) | Some x \<Rightarrow> (Inr x, ls))))"

definition exec :: "string \<Rightarrow> ('j \<Rightarrow> 'a option) \<Rightarrow> 'j qmpConn \<Rightarrow> (string + 'a) \<times> 'j qmpConn" where
  "exec cmd dec c =
     (case cn_wfail c cmd of
        Some e \<Rightarrow> (Inl e, c)
      | None \<Rightarrow> let (r, ls) = exec_loop (cn_rerr c) cmd dec (cn_lines c) in (r, c\<lparr>cn_lines := ls\<rparr>))"

subsection \<open>One poll\<close>

text \<open>The decoders of the replies, and an entry of \<open>query-block\<close>.\<close>

record qmpBlock =
  bl_Device :: string
  bl_QDev :: string
  bl_Inserted :: bool

record 'j decoders =
  de_status :: "'j \<Rightarrow> string option"
  de_block :: "'j \<Rightarrow> qmpBlock list option"
  de_stats :: "'j \<Rightarrow> qmpBlockStats list option"
  de_migrate :: "'j \<Rightarrow> qmpMigrate option"

definition with_media :: "qmpBlock list \<Rightarrow> qmpBlockStats list \<Rightarrow> qmpBlockStats list" where
  "with_media block stats =
     (let withMedia = map (\<lambda>b. bl_Device b @ ''|'' @ bl_QDev b) (filter bl_Inserted block)
      in filter (\<lambda>st. qb_Device st @ ''|'' @ qb_QDev st \<in> set withMedia) stats)"

definition migration_of :: "qmpMigrate \<Rightarrow> MigrationStat option" where
  "migration_of m =
     (if qm_Status m = [] \<or> qm_Status m = ''none'' then None
      else Some \<lparr>mig_Status = (if qm_Status m \<in> set [''completed'', ''failed'', ''cancelled''] then qm_Status m else ''active''),
             mig_Operation = ''migration-out'', mig_ElapsedMs = qm_TotalTime m, mig_MemTotal = qm_Total m,
             mig_MemProcessed = qm_Transferred m, mig_MemRemaining = qm_Remaining m, mig_DirtyPageRate = qm_DirtyPagesRate m,
             mig_Bps = word_of_int \<lfloor>qm_Mbps m * 1000000 / 8\<rfloor>, mig_ExpectedDownMs = qm_ExpectedDowntime m\<rparr>)"

definition query_block :: "'j decoders \<Rightarrow> 'j qmpConn \<Rightarrow> qmpBlockStats list \<times> 'j qmpConn" where
  "query_block de c =
     (case exec ''query-block'' (de_block de) c of
        (Inl _, c) \<Rightarrow> ([], c)
      | (Inr block, c) \<Rightarrow> (case exec ''query-blockstats'' (de_stats de) c of
                             (Inl _, c) \<Rightarrow> ([], c)
                           | (Inr stats, c) \<Rightarrow> (with_media block stats, c)))"

definition query_migrate :: "'j decoders \<Rightarrow> 'j qmpConn \<Rightarrow> MigrationStat option" where
  "query_migrate de c = (case exec ''query-migrate'' (de_migrate de) c of (Inl _, _) \<Rightarrow> None | (Inr m, _) \<Rightarrow> migration_of m)"

text \<open>\<open>dial\<close> is the connection or the error of dialling; \<open>now\<close> the time read in the middle.\<close>

definition query :: "'j decoders \<Rightarrow> gtime \<Rightarrow> string + 'j qmpConn \<Rightarrow> string + qmpResult" where
  "query de now dial =
     (case dial of
        Inl e \<Rightarrow> Inl e
      | Inr c \<Rightarrow>
          (case cn_lines c of
             [] \<Rightarrow> Inl (cn_rerr c)
           | greeting # ls \<Rightarrow>
               (case exec ''qmp_capabilities'' (\<lambda>_. Some ()) (c\<lparr>cn_lines := ls\<rparr>) of
                  (Inl e, _) \<Rightarrow> Inl e
                | (Inr _, c) \<Rightarrow>
                    (case exec ''query-status'' (de_status de) c of
                       (Inl e, _) \<Rightarrow> Inl e
                     | (Inr status, c) \<Rightarrow>
                         let (state, reason) = qmpState status;
                             (blk, c) = query_block de c
                         in Inr \<lparr>qr_at = now, qr_state = state, qr_reason = reason, qr_blk = blk, qr_disks = [],
                                 qr_migration = query_migrate de c\<rparr>))))"

subsection \<open>Rates between two polls\<close>

definition blk_rate :: "qmpResult \<Rightarrow> qmpResult \<Rightarrow> uint64 \<Rightarrow> uint64 \<Rightarrow> float64" where
  "blk_rate prev cur c p =
     (let dt = seconds (time_sub (qr_at cur) (qr_at prev))
      in if c < p \<or> dt \<le> 0 then 0 else float_of_uint64 (c - p) / dt)"

definition old_stats :: "qmpResult option \<Rightarrow> (string, qmpBlockStats) gomap" where
  "old_stats prev =
     (case prev of None \<Rightarrow> [] | Some r \<Rightarrow> foldl (\<lambda>m b. AList.update (qmp_name b) b m) [] (qr_blk r))"

definition disk_of :: "qmpResult option \<Rightarrow> qmpResult \<Rightarrow> qmpBlockStats \<Rightarrow> DiskStat" where
  "disk_of prev cur b =
     (let st = qb_Stats b;
          d = \<lparr>k_Dev = qmp_name b, k_RdBps = 0, k_WrBps = 0, k_RdIOPS = 0, k_WrIOPS = 0,
               k_ErrsTotal = qs_FailedRd st + qs_FailedWr st + qs_FailedFlush st\<rparr>
      in case (prev, map_of (old_stats prev) (qmp_name b)) of
           (Some p, Some o') \<Rightarrow>
             d\<lparr>k_RdBps := blk_rate p cur (qs_RdBytes st) (qs_RdBytes (qb_Stats o')),
               k_WrBps := blk_rate p cur (qs_WrBytes st) (qs_WrBytes (qb_Stats o')),
               k_RdIOPS := blk_rate p cur (qs_RdOps st) (qs_RdOps (qb_Stats o')),
               k_WrIOPS := blk_rate p cur (qs_WrOps st) (qs_WrOps (qb_Stats o'))\<rparr>
         | _ \<Rightarrow> d)"

definition blockRates :: "qmpResult option \<Rightarrow> qmpResult \<Rightarrow> DiskStat list" where
  "blockRates prev cur = map (disk_of prev cur) (filter (\<lambda>b. qmp_name b \<noteq> []) (qr_blk cur))"

section \<open>The collector\<close>

record QMPCollector =
  qc_interval :: duration
  qc_timeout :: duration
  qc_results :: "(string, qmpResult) gomap"
  qc_polling :: "(string, bool) gomap"
  qc_tried :: "(string, bool) gomap"
  qc_warned :: "(string, bool) gomap"

definition NewQMPCollector :: "duration \<Rightarrow> duration \<Rightarrow> QMPCollector" where
  "NewQMPCollector interval timeout =
     \<lparr>qc_interval = interval, qc_timeout = timeout, qc_results = [], qc_polling = [], qc_tried = [], qc_warned = []\<rparr>"

type_synonym target = "string \<times> string"

definition qmp_targets :: "int range_order \<Rightarrow> string range_order \<Rightarrow> ProcessIndex \<Rightarrow> DomainStore \<Rightarrow> target list" where
  "qmp_targets ordi ord i s =
     (let procs = foldl (\<lambda>m p. AList.update (kp_PID p) p m) [] (All ordi i)
      in List.map_filter (\<lambda>d.
           if d_Source d \<noteq> ''qemu'' then None
           else case map_of procs (d_PID d) of
                  None \<Rightarrow> None
                | Some p \<Rightarrow> let sock = qmpSocket (kp_Cmdline p) in if sock \<noteq> [] then Some (d_ID d, sock) else None)
         (Snapshot ord s))"

text \<open>The first critical section: the targets to poll synchronously.\<close>

definition claim_target :: "QMPCollector \<times> target list \<Rightarrow> target \<Rightarrow> QMPCollector \<times> target list" where
  "claim_target acc t =
     (let (c, first) = acc
      in if \<not> mget False (qc_tried c) (fst t) \<and> \<not> mget False (qc_polling c) (fst t)
         then (c\<lparr>qc_tried := AList.update (fst t) True (qc_tried c), qc_polling := AList.update (fst t) True (qc_polling c)\<rparr>,
               first @ [t])
         else (c, first))"

definition claim_first :: "target list \<Rightarrow> QMPCollector \<Rightarrow> QMPCollector \<times> target list" where
  "claim_first ts c = foldl claim_target (c, []) ts"

text \<open>The end of a poll, with the answer of \<open>query\<close>.\<close>

definition poll :: "target \<Rightarrow> string + qmpResult \<Rightarrow> QMPCollector \<Rightarrow> QMPCollector" where
  "poll t answer c =
     (let (i, sock) = t;
          c = c\<lparr>qc_polling := AList.delete i (qc_polling c)\<rparr>
      in case answer of
           Inl err \<Rightarrow> if mget False (qc_warned c) sock then c else c\<lparr>qc_warned := AList.update sock True (qc_warned c)\<rparr>
         | Inr r \<Rightarrow>
             c\<lparr>qc_warned := AList.delete sock (qc_warned c),
               qc_results := AList.update i (r\<lparr>qr_disks := blockRates (map_of (qc_results c) i) r\<rparr>) (qc_results c)\<rparr>)"

definition apply_result :: "qmpResult \<Rightarrow> DomainSnapshot \<Rightarrow> DomainSnapshot" where
  "apply_result r cur =
     (let cur = cur\<lparr>d_State := qr_state r, d_Reason := qr_reason r\<rparr>;
          cur = (if 0 < length (qr_disks r) then cur\<lparr>d_Disks := qr_disks r\<rparr> else cur)
      in cur\<lparr>d_Migration := qr_migration r\<rparr>)"

text \<open>The second critical section: for each target, a background poll if one is due, and its result if it is fresh.\<close>

definition apply_target ::
  "gtime \<Rightarrow> QMPCollector \<times> DomainStore \<times> target list \<Rightarrow> target \<Rightarrow> QMPCollector \<times> DomainStore \<times> target list" where
  "apply_target now acc t =
     (let (c, s, started) = acc;
          r = map_of (qc_results c) (fst t);
          due = (case r of None \<Rightarrow> True | Some r \<Rightarrow> qc_interval c \<le> time_sub now (qr_at r)) \<and> \<not> mget False (qc_polling c) (fst t);
          (c, started) = (if due then (c\<lparr>qc_polling := AList.update (fst t) True (qc_polling c)\<rparr>, started @ [t]) else (c, started))
      in case r of
           None \<Rightarrow> (c, s, started)
         | Some r \<Rightarrow> if 3 * qc_interval c < time_sub now (qr_at r) then (c, s, started)
                     else (c, fst (Mutate (fst t) (apply_result r) s), started))"

definition forget :: "target list \<Rightarrow> QMPCollector \<Rightarrow> QMPCollector" where
  "forget ts c =
     (let gone = (\<lambda>i. map_of (qc_tried c) i \<noteq> None \<and> i \<notin> fst ` set ts \<and> \<not> mget False (qc_polling c) i)
      in c\<lparr>qc_results := mfilter (\<lambda>i _. \<not> gone i) (qc_results c), qc_tried := mfilter (\<lambda>i _. \<not> gone i) (qc_tried c)\<rparr>)"

definition collect_apply :: "gtime \<Rightarrow> target list \<Rightarrow> QMPCollector \<Rightarrow> DomainStore \<Rightarrow> QMPCollector \<times> DomainStore \<times> target list" where
  "collect_apply now ts c s =
     (let (c, s, started) = foldl (apply_target now) (c, s, []) ts in (forget ts c, s, started))"

section \<open>Polls in flight\<close>

text \<open>
  The collector runs in one goroutine, its background polls in others, and each critical
  section is atomic. A state holds the collector, the store, the polls in flight and where
  \<open>Collect\<close> is: outside, or waiting for the polls of its first part to end. Other
  collectors may change the store at any time.
\<close>

datatype phase = Idle | Waiting gtime "target list" "target list"

record qmp_sys =
  qy_c :: QMPCollector
  qy_store :: DomainStore
  qy_flight :: "target list"
  qy_phase :: phase

inductive qmp_step :: "qmp_sys \<Rightarrow> qmp_sys \<Rightarrow> bool" where
  collect_begin:
    "qy_phase y = Idle \<Longrightarrow> ts = qmp_targets ordi ord i (qy_store y) \<Longrightarrow> claim_first ts (qy_c y) = (c, first) \<Longrightarrow>
     qmp_step y (y\<lparr>qy_c := c, qy_flight := qy_flight y @ first, qy_phase := Waiting now ts first\<rparr>)"
| poll_ends:
    "t \<in> set (qy_flight y) \<Longrightarrow> qmp_step y (y\<lparr>qy_c := poll t answer (qy_c y), qy_flight := remove1 t (qy_flight y)\<rparr>)"
| collect_ends:
    "qy_phase y = Waiting now ts first \<Longrightarrow> set first \<inter> set (qy_flight y) = {} \<Longrightarrow>
     collect_apply now ts (qy_c y) (qy_store y) = (c, s, started) \<Longrightarrow>
     qmp_step y (y\<lparr>qy_c := c, qy_store := s, qy_flight := qy_flight y @ started, qy_phase := Idle\<rparr>)"
| store_changes: "qmp_step y (y\<lparr>qy_store := s\<rparr>)"

inductive_cases qmp_stepE: "qmp_step y y'"

definition qmp_initial :: "qmp_sys \<Rightarrow> bool" where
  "qmp_initial y \<longleftrightarrow>
     (\<exists>interval timeout. qy_c y = NewQMPCollector interval timeout) \<and> qy_flight y = [] \<and> qy_phase y = Idle"

definition polled_ids :: "target list \<Rightarrow> string set" where
  "polled_ids ts = fst ` set ts"

definition qmp_maps_wf :: "QMPCollector \<Rightarrow> bool" where
  "qmp_maps_wf c \<longleftrightarrow> wf_map (qc_results c) \<and> wf_map (qc_polling c) \<and> wf_map (qc_tried c) \<and> False \<notin> ran (map_of (qc_tried c))"

definition flight_inv :: "QMPCollector \<Rightarrow> target list \<Rightarrow> bool" where
  "flight_inv c flight \<longleftrightarrow>
     qmp_maps_wf c \<and> distinct (map fst flight) \<and>
     (\<forall>i. map_of (qc_polling c) i = (if i \<in> polled_ids flight then Some True else None)) \<and>
     dom (map_of (qc_results c)) \<union> polled_ids flight \<subseteq> dom (map_of (qc_tried c))"

definition qmp_inv :: "qmp_sys \<Rightarrow> bool" where
  "qmp_inv y \<longleftrightarrow>
     flight_inv (qy_c y) (qy_flight y) \<and>
     (case qy_phase y of Idle \<Rightarrow> True | Waiting _ ts _ \<Rightarrow> polled_ids ts \<subseteq> dom (map_of (qc_tried (qy_c y))))"

subsection \<open>The invariant\<close>

lemma polled_ids_simps [simp]:
  "polled_ids [] = {}" "polled_ids (t # ts) = insert (fst t) (polled_ids ts)" "polled_ids (ts @ us) = polled_ids ts \<union> polled_ids us"
  by (auto simp: polled_ids_def)

lemma polled_ids_remove1: "distinct (map fst ts) \<Longrightarrow> t \<in> set ts \<Longrightarrow> polled_ids (remove1 t ts) = polled_ids ts - {fst t}"
  by (induction ts) (auto simp: polled_ids_def)

lemma distinct_ids_iff: "distinct (map fst (ts @ [t])) \<longleftrightarrow> distinct (map fst ts) \<and> fst t \<notin> polled_ids ts"
  by (auto simp: polled_ids_def)

lemma flight_polling: "flight_inv c flight \<Longrightarrow> mget False (qc_polling c) i \<longleftrightarrow> i \<in> polled_ids flight"
  by (auto simp: flight_inv_def mget_def)

lemma flight_tried: "flight_inv c flight \<Longrightarrow> mget False (qc_tried c) i \<longleftrightarrow> i \<in> dom (map_of (qc_tried c))"
  unfolding flight_inv_def qmp_maps_wf_def mget_def ran_def
  by (cases "map_of (qc_tried c) i") (auto, metis (full_types))

lemma flight_inv_try:
  "flight_inv c flight \<Longrightarrow> flight_inv (c\<lparr>qc_tried := AList.update i True (qc_tried c)\<rparr>) flight"
  by (auto simp: flight_inv_def qmp_maps_wf_def gomap_simps ran_def)

lemma flight_inv_start:
  assumes "flight_inv c flight" and "fst t \<notin> polled_ids flight" and "fst t \<in> dom (map_of (qc_tried c))"
  shows "flight_inv (c\<lparr>qc_polling := AList.update (fst t) True (qc_polling c)\<rparr>) (flight @ [t])"
  using assms unfolding flight_inv_def distinct_ids_iff by (simp add: qmp_maps_wf_def gomap_simps)

lemma claim_target_inv:
  assumes "flight_inv c (flight @ first)" and "claim_target (c, first) t = (c', first')"
  shows "flight_inv c' (flight @ first')"
    and "dom (map_of (qc_tried c')) = insert (fst t) (dom (map_of (qc_tried c)))"
proof -
  let ?tried = "c\<lparr>qc_tried := AList.update (fst t) True (qc_tried c)\<rparr>"
  let ?new = "\<not> mget False (qc_tried c) (fst t) \<and> \<not> mget False (qc_polling c) (fst t)"
  have "flight_inv c' (flight @ first') \<and> dom (map_of (qc_tried c')) = insert (fst t) (dom (map_of (qc_tried c)))"
  proof (cases ?new)
    case True
    then have out: "fst t \<notin> polled_ids (flight @ first)" using flight_polling[OF assms(1)] by simp
    have "flight_inv ?tried (flight @ first)" using assms(1) by (rule flight_inv_try)
    from flight_inv_start[OF this out] assms(2) True show ?thesis by (auto simp: claim_target_def gomap_simps)
  next
    case False
    then have "fst t \<in> dom (map_of (qc_tried c))"
      using assms(1) flight_polling[OF assms(1), of "fst t"] flight_tried[OF assms(1), of "fst t"]
      unfolding flight_inv_def by blast
    with False assms show ?thesis by (auto simp: claim_target_def split: if_splits)
  qed
  then show "flight_inv c' (flight @ first')"
    and "dom (map_of (qc_tried c')) = insert (fst t) (dom (map_of (qc_tried c)))" by blast+
qed

lemma claim_first_inv:
  assumes "flight_inv c (flight @ first)" and "foldl claim_target (c, first) ts = (c', first')"
  shows "flight_inv c' (flight @ first') \<and> dom (map_of (qc_tried c')) = dom (map_of (qc_tried c)) \<union> polled_ids ts"
  using assms
proof (induction ts arbitrary: c first)
  case Nil
  then show ?case by simp
next
  case (Cons t ts)
  obtain c1 f1 where step: "claim_target (c, first) t = (c1, f1)" by fastforce
  from Cons.IH[OF claim_target_inv(1)[OF Cons.prems(1) step]] Cons.prems(2) step claim_target_inv(2)[OF Cons.prems(1) step]
  show ?case by simp
qed

lemma poll_inv:
  assumes "flight_inv c flight" and "t \<in> set flight"
  shows "flight_inv (poll t answer c) (remove1 t flight)" and "qc_tried (poll t answer c) = qc_tried c"
proof -
  obtain i sock where t: "t = (i, sock)" by (cases t)
  have d: "distinct (map fst flight)" using assms(1) by (simp add: flight_inv_def)
  have ids: "polled_ids (remove1 t flight) = polled_ids flight - {i}" using polled_ids_remove1[OF d assms(2)] t by simp
  have dr: "distinct (map fst (remove1 t flight))"
    using d by (induction flight) (auto dest: notin_set_remove1 set_remove1_subset[THEN subsetD])
  have i: "i \<in> polled_ids flight" using assms(2) t by (force simp: polled_ids_def)
  show "qc_tried (poll t answer c) = qc_tried c" by (simp add: poll_def t Let_def split: sum.splits)
  show "flight_inv (poll t answer c) (remove1 t flight)"
    using assms(1) i dr unfolding flight_inv_def ids
    by (auto simp: poll_def t Let_def qmp_maps_wf_def gomap_simps split: sum.splits)
qed

lemma apply_target_inv:
  assumes "flight_inv c (flight @ started)" and "apply_target now (c, s, started) t = (c', s', started')"
    and "fst t \<in> dom (map_of (qc_tried c))"
  shows "flight_inv c' (flight @ started') \<and> qc_tried c' = qc_tried c \<and> qc_results c' = qc_results c \<and> qc_interval c' = qc_interval c"
proof -
  let ?launch = "c\<lparr>qc_polling := AList.update (fst t) True (qc_polling c)\<rparr>"
  consider "c' = c" "started' = started"
    | "c' = ?launch" "started' = started @ [t]" "\<not> mget False (qc_polling c) (fst t)"
    using assms(2) by (auto simp: apply_target_def Let_def split: if_splits option.splits)
  then show ?thesis
  proof cases
    case 1
    then show ?thesis using assms(1) by simp
  next
    case 2
    then have "fst t \<notin> polled_ids (flight @ started)" using flight_polling[OF assms(1)] by simp
    from flight_inv_start[OF assms(1) this assms(3)] 2 show ?thesis by simp
  qed
qed

lemma apply_loop_inv:
  assumes "flight_inv c (flight @ started)" and "foldl (apply_target now) (c, s, started) ts = (c', s', started')"
    and "polled_ids ts \<subseteq> dom (map_of (qc_tried c))"
  shows "flight_inv c' (flight @ started') \<and> qc_tried c' = qc_tried c \<and> qc_results c' = qc_results c \<and> qc_interval c' = qc_interval c"
  using assms
proof (induction ts arbitrary: c s started)
  case Nil
  then show ?case by simp
next
  case (Cons t ts)
  obtain c1 s1 st1 where step: "apply_target now (c, s, started) t = (c1, s1, st1)" by (cases "apply_target now (c, s, started) t")
  have inv: "flight_inv c1 (flight @ st1) \<and> qc_tried c1 = qc_tried c \<and> qc_results c1 = qc_results c \<and> qc_interval c1 = qc_interval c"
    using apply_target_inv[OF Cons.prems(1) step] Cons.prems(3) by simp
  then show ?case using Cons.IH[of c1 st1 s1] Cons.prems step by simp
qed

lemma forget_inv:
  assumes "flight_inv c flight"
  shows "flight_inv (forget ts c) flight"
    and "dom (map_of (qc_results (forget ts c))) \<subseteq> polled_ids ts \<union> polled_ids flight"
    and "dom (map_of (qc_tried (forget ts c))) \<subseteq> polled_ids ts \<union> polled_ids flight"
proof -
  have wf: "qmp_maps_wf c" using assms by (simp add: flight_inv_def)
  have poll: "mget False (qc_polling c) i \<longleftrightarrow> i \<in> polled_ids flight" for i using assms by (rule flight_polling)
  have res: "map_of (qc_results (forget ts c)) i =
      (if i \<in> dom (map_of (qc_tried c)) \<and> i \<notin> polled_ids ts \<and> i \<notin> polled_ids flight then None else map_of (qc_results c) i)" for i
    using wf by (auto simp: forget_def qmp_maps_wf_def map_of_mfilter poll polled_ids_def split: option.splits)
  have tried: "map_of (qc_tried (forget ts c)) i =
      (if i \<notin> polled_ids ts \<and> i \<notin> polled_ids flight then None else map_of (qc_tried c) i)" for i
    using wf by (auto simp: forget_def qmp_maps_wf_def map_of_mfilter poll polled_ids_def split: option.splits)
  have "False \<notin> ran (map_of (qc_tried (forget ts c)))"
    using wf by (auto simp: qmp_maps_wf_def ran_def tried split: if_splits)
  then have maps: "qmp_maps_wf (forget ts c)" using wf by (simp add: qmp_maps_wf_def forget_def Let_def)
  have pol: "qc_polling (forget ts c) = qc_polling c" by (simp add: forget_def Let_def)
  have sub: "dom (map_of (qc_results c)) \<union> polled_ids flight \<subseteq> dom (map_of (qc_tried c))"
    using assms by (simp add: flight_inv_def)
  have "dom (map_of (qc_results (forget ts c))) \<union> polled_ids flight \<subseteq> dom (map_of (qc_tried (forget ts c)))"
  proof
    fix i assume "i \<in> dom (map_of (qc_results (forget ts c))) \<union> polled_ids flight"
    then show "i \<in> dom (map_of (qc_tried (forget ts c)))"
      using sub unfolding dom_def by (auto simp: res tried split: if_splits)
  qed
  then show "flight_inv (forget ts c) flight" using assms maps by (simp add: flight_inv_def pol)
  show "dom (map_of (qc_results (forget ts c))) \<subseteq> polled_ids ts \<union> polled_ids flight"
    using sub by (auto simp: dom_def res split: if_splits)
  show "dom (map_of (qc_tried (forget ts c))) \<subseteq> polled_ids ts \<union> polled_ids flight"
    by (auto simp: dom_def tried split: if_splits)
qed

lemma collect_apply_inv:
  assumes "flight_inv c flight" and "collect_apply now ts c s = (c', s', started)" and "polled_ids ts \<subseteq> dom (map_of (qc_tried c))"
  shows "flight_inv c' (flight @ started)"
    and "dom (map_of (qc_tried c')) \<subseteq> polled_ids ts \<union> polled_ids (flight @ started)"
    and "dom (map_of (qc_results c')) \<subseteq> polled_ids ts \<union> polled_ids (flight @ started)"
proof -
  obtain c1 where loop: "foldl (apply_target now) (c, s, []) ts = (c1, s', started)" and c': "c' = forget ts c1"
    using assms(2) by (auto simp: collect_apply_def split: prod.splits)
  have "flight_inv c1 (flight @ started)" using apply_loop_inv[OF _ loop assms(3), of flight] assms(1) by simp
  from forget_inv[OF this, of ts] c'
  show "flight_inv c' (flight @ started)"
    and "dom (map_of (qc_tried c')) \<subseteq> polled_ids ts \<union> polled_ids (flight @ started)"
    and "dom (map_of (qc_results c')) \<subseteq> polled_ids ts \<union> polled_ids (flight @ started)" by simp_all
qed

lemma qmp_inv_initial: "qmp_initial y \<Longrightarrow> qmp_inv y"
  by (auto simp: qmp_initial_def qmp_inv_def flight_inv_def qmp_maps_wf_def NewQMPCollector_def)

lemma qmp_inv_step:
  assumes "qmp_step y y'" and "qmp_inv y"
  shows "qmp_inv y'"
  using assms
proof cases
  case (collect_begin ts ordi ord i c first now)
  have "flight_inv (qy_c y) (qy_flight y @ [])" using assms(2) by (simp add: qmp_inv_def)
  from claim_first_inv[OF this] collect_begin show ?thesis by (simp add: qmp_inv_def claim_first_def)
next
  case (poll_ends t answer)
  have "flight_inv (qy_c y) (qy_flight y)" using assms(2) by (simp add: qmp_inv_def)
  from poll_inv[OF this poll_ends(2), of answer] poll_ends assms(2) show ?thesis
    by (simp add: qmp_inv_def split: phase.splits)
next
  case (collect_ends now ts first c s started)
  have "flight_inv (qy_c y) (qy_flight y)" "polled_ids ts \<subseteq> dom (map_of (qc_tried (qy_c y)))"
    using assms(2) collect_ends(2) by (simp_all add: qmp_inv_def)
  from collect_apply_inv(1)[OF this(1) collect_ends(4) this(2)] collect_ends show ?thesis by (simp add: qmp_inv_def)
next
  case (store_changes s)
  with assms(2) show ?thesis by (simp add: qmp_inv_def split: phase.splits)
qed

lemma qmp_inv_reachable:
  assumes "qmp_step\<^sup>*\<^sup>* y0 y" and "qmp_initial y0"
  shows "qmp_inv y"
  using assms by (induction rule: rtranclp_induct) (auto intro: qmp_inv_initial qmp_inv_step)

subsection \<open>What a tick writes\<close>

definition fresh_result :: "gtime \<Rightarrow> target list \<Rightarrow> QMPCollector \<Rightarrow> string \<Rightarrow> qmpResult option" where
  "fresh_result now ts c i =
     (if i \<in> polled_ids ts
      then (case map_of (qc_results c) i of
              None \<Rightarrow> None | Some r \<Rightarrow> if 3 * qc_interval c < time_sub now (qr_at r) then None else Some r)
      else None)"

lemma apply_result_idem [simp]: "apply_result r (apply_result r x) = apply_result r x"
  by (simp add: apply_result_def Let_def)

definition after_apply :: "qmpResult option \<Rightarrow> DomainSnapshot option \<Rightarrow> DomainSnapshot option" where
  "after_apply r x = (case r of None \<Rightarrow> x | Some r \<Rightarrow> map_option (apply_result r) x)"

lemma apply_target_store:
  assumes "apply_target now (c, s, started) t = (c', s', started')"
  shows "latest_of s' i = after_apply (fresh_result now [t] c i) (latest_of s i)"
    and "fresh_result now ts c' i = fresh_result now ts c i"
  using assms
  by (auto simp: apply_target_def Let_def fresh_result_def after_apply_def latest_of_Mutate split: if_splits option.splits)

lemma fresh_result_Cons: "fresh_result now (t # ts) c i = (if i = fst t then fresh_result now [t] c i else fresh_result now ts c i)"
  by (auto simp: fresh_result_def)

lemma apply_loop_store:
  assumes "foldl (apply_target now) (c, s, started) ts = (c', s', started')"
  shows "latest_of s' i = after_apply (fresh_result now ts c i) (latest_of s i)"
  using assms
proof (induction ts arbitrary: c s started)
  case Nil
  then show ?case by (simp add: fresh_result_def after_apply_def)
next
  case (Cons t ts)
  obtain c1 s1 st1 where step: "apply_target now (c, s, started) t = (c1, s1, st1)" by (cases "apply_target now (c, s, started) t")
  have "latest_of s' i = after_apply (fresh_result now ts c1 i) (latest_of s1 i)"
    using Cons.IH[of c1 s1 st1] Cons.prems step by simp
  then have "latest_of s' i = after_apply (fresh_result now ts c i) (after_apply (fresh_result now [t] c i) (latest_of s i))"
    by (simp add: apply_target_store[OF step])
  then show ?case
    unfolding fresh_result_Cons[of now t ts]
    by (auto simp: fresh_result_def after_apply_def option.map_comp o_def split: option.splits)
qed

lemma collect_apply_store:
  assumes "collect_apply now ts c s = (c', s', started)"
  shows "latest_of s' i = after_apply (fresh_result now ts c i) (latest_of s i)"
  using assms apply_loop_store by (auto simp: collect_apply_def split: prod.splits)

section \<open>Sockets given as character devices\<close>

definition socket_chardev :: "(string \<times> string) list \<Rightarrow> string" where
  "socket_chardev kvs = ''socket,'' @ format_opts kvs"

text \<open>
  The bare leading value \<open>socket\<close> is what \<open>qemuOpt\<close> returns for every key that is not given,
  so neither the name nor the path of such a device is ever found empty.
\<close>

lemma Split_socket: "opts_wf kvs \<Longrightarrow> Split (socket_chardev kvs) (CHR '','') = ''socket'' # map (\<lambda>(k, v). k @ ''='' @ v) kvs"
  using Split_append[of "CHR '',''" "''socket''" "format_opts kvs"]
  by (simp add: socket_chardev_def Split_format_opts)

lemma qemuOpt_socket:
  assumes "opts_wf kvs" and "CHR ''='' \<notin> set key"
  shows "qemuOpt (socket_chardev kvs) key = (case map_of kvs key of None \<Rightarrow> ''socket'' | Some v \<Rightarrow> v)"
proof -
  have "find_opt key (map (\<lambda>(k, v). k @ ''='' @ v) kvs) = map_of kvs key"
    using assms by (intro find_opt_format) (auto simp: opts_wf_def list_all_iff)
  moreover have "CutPrefix ''socket'' (key @ ''='') = (''socket'', False)" by (rule CutPrefix_bare) simp
  ultimately show ?thesis
    using Contains_single[of "''socket''" "CHR ''=''"] by (simp add: qemuOpt_def Split_socket[OF assms(1)] split: option.splits)
qed

lemma chardev_server_iff:
  assumes "opts_wf kvs"
  shows "chardev_server (socket_chardev kvs) \<longleftrightarrow> (''server'', ''on'') \<in> set kvs"
proof -
  have eq: "k @ ''='' @ v \<noteq> ''server''" for k v :: string
  proof
    assume "k @ ''='' @ v = ''server''"
    then have "CHR ''='' \<in> set ''server''" by (metis append_Cons in_set_conv_decomp)
    then show False by simp
  qed
  have on: "k @ ''='' @ v = ''server=on'' \<longleftrightarrow> k = ''server'' \<and> v = ''on''" if "CHR ''='' \<notin> set k" for k v :: string
  proof
    assume a: "k @ ''='' @ v = ''server=on''"
    then have "HasPrefix (k @ ''='' @ v) (''server'' @ ''='')" by (simp add: HasPrefix_def)
    then have "k = ''server''" using HasPrefix_key[OF that, of "''server''" v] by simp
    then show "k = ''server'' \<and> v = ''on''" using a by simp
  qed simp
  have "k @ ''='' @ v = ''server=on'' \<longleftrightarrow> k = ''server'' \<and> v = ''on''" if "(k, v) \<in> set kvs" for k v
    using that assms by (intro on) (auto simp: opts_wf_def list_all_iff)
  then show ?thesis
    unfolding chardev_server_def Split_socket[OF assms] list_ex_iff using eq by fastforce
qed

definition is_qmp_option :: "string \<Rightarrow> bool" where
  "is_qmp_option a \<longleftrightarrow> TrimPrefix a ''-'' \<in> set [''-qmp'', ''qmp'', ''-qmp-pretty'', ''qmp-pretty'', ''chardev'', ''-chardev'', ''mon'', ''-mon'']"

lemma socket_loop_skip: "\<not> is_qmp_option a \<Longrightarrow> socket_loop ch mo (a # v # rest) = socket_loop ch mo (v # rest)"
  by (simp add: is_qmp_option_def)

lemma socket_loop_chardev:
  assumes "HasPrefix v ''socket,''"
  shows "socket_loop ch mo (''-chardev'' # v # rest) =
    socket_loop (if chardev_server v \<and> qemuOpt v ''id'' \<noteq> [] \<and> qemuOpt v ''path'' \<noteq> []
                 then AList.update (qemuOpt v ''id'') (qemuOpt v ''path'') ch else ch) mo (v # rest)"
proof -
  have "TrimPrefix ''-chardev'' ''-'' = ''chardev''" by (simp add: gostring_eval)
  with assms show ?thesis by (simp add: Let_def)
qed

lemma socket_loop_mon:
  "socket_loop ch mo [''-mon'', v] =
    Inr (ch, if qemuOpt v ''mode'' = ''control'' then mo @ [qemuOpt v ''chardev''] else mo)"
proof -
  have "TrimPrefix ''-mon'' ''-'' = ''mon''" by (simp add: gostring_eval)
  then show ?thesis by (simp add: Let_def)
qed

lemma socket_chardev_no_option: "\<not> is_qmp_option (socket_chardev kvs)"
  by (simp add: is_qmp_option_def socket_chardev_def gostring_eval)

lemma qmpSocket_chardev:
  assumes "opts_wf kvs" and "\<not> is_qmp_option exe" and "map_of kvs ''id'' = Some i" and "i \<noteq> []" and "CHR '','' \<notin> set i"
    and "map_of kvs ''path'' \<noteq> Some []"
  shows "qmpSocket [exe, ''-chardev'', socket_chardev kvs, ''-mon'', format_opts [(''chardev'', i), (''mode'', ''control'')]] =
    (if (''server'', ''on'') \<in> set kvs then (case map_of kvs ''path'' of None \<Rightarrow> ''socket'' | Some p \<Rightarrow> p) else [])"
proof -
  let ?mon = "format_opts [(''chardev'', i), (''mode'', ''control'')]"
  have wf: "opts_wf [(''chardev'', i), (''mode'', ''control'')]" using assms(5) by (simp add: opts_wf_def)
  have mode: "qemuOpt ?mon ''mode'' = ''control''" using qemuOpt_format[OF wf, of "''mode''"] by simp
  have chardev: "qemuOpt ?mon ''chardev'' = i" using qemuOpt_format[OF wf, of "''chardev''"] by simp
  have pre: "HasPrefix (socket_chardev kvs) ''socket,''" by (simp add: socket_chardev_def HasPrefix_def)
  have ident: "qemuOpt (socket_chardev kvs) ''id'' = i" using qemuOpt_socket[OF assms(1), of "''id''"] assms(3) by simp
  have path: "qemuOpt (socket_chardev kvs) ''path'' \<noteq> []"
    using qemuOpt_socket[OF assms(1), of "''path''"] assms(6) by (simp split: option.splits)
  have server: "chardev_server (socket_chardev kvs) \<longleftrightarrow> (''server'', ''on'') \<in> set kvs" by (rule chardev_server_iff[OF assms(1)])
  have "socket_loop [] [] [exe, ''-chardev'', socket_chardev kvs, ''-mon'', ?mon] =
      Inr (if (''server'', ''on'') \<in> set kvs then [(i, qemuOpt (socket_chardev kvs) ''path'')] else [], [i])"
    unfolding socket_loop_skip[OF assms(2)] socket_loop_chardev[OF pre] socket_loop_skip[OF socket_chardev_no_option]
      socket_loop_mon by (simp add: ident path server assms(4) mode chardev)
  then show ?thesis
    using qemuOpt_socket[OF assms(1), of "''path''"] by (simp add: qmpSocket_def List.map_filter_simps split: option.splits)
qed

section \<open>Rates\<close>

lemma blk_rate_nonneg: "0 \<le> blk_rate prev cur c p"
proof -
  have "0 \<le> float_of_uint64 (c - p)" unfolding float_of_uint64_def by (rule of_nat_0_le_iff)
  then show ?thesis by (auto simp: blk_rate_def Let_def not_le intro!: divide_nonneg_nonneg)
qed

lemma map_of_old_stats:
  "map_of (old_stats (Some r)) n = List.find (\<lambda>b. qmp_name b = n) (rev (qr_blk r))"
proof -
  have "map_of (foldl (\<lambda>m b. AList.update (qmp_name b) b m) m bs) n =
      (case List.find (\<lambda>b. qmp_name b = n) (rev bs) of None \<Rightarrow> map_of m n | Some b \<Rightarrow> Some b)" for m bs
    by (induction bs rule: rev_induct) (auto simp: gomap_simps split: option.splits)
  then show ?thesis by (simp add: old_stats_def split: option.splits)
qed

end
