(* ===== verification/Rate_Monad.thy ===== *)
theory Rate_Monad
  imports Rate "HOL-Library.State_Monad"
begin

text \<open>
  Collectors compute the rates of many counters in a row. The rate tracker is the state of a
  state monad, and \<open>reads\<close> is the contract of such a computation: which counters it
  observes, in which order.
\<close>

definition rateM :: "string \<Rightarrow> float64 \<Rightarrow> gtime \<Rightarrow> (rateTracker, float64) state" where
  "rateM key v now = State (\<lambda>r. let (r', x) = rate key v now r in (x, r'))"

definition observe_all :: "gtime \<Rightarrow> (string \<times> float64) list \<Rightarrow> rateTracker \<Rightarrow> rateTracker" where
  "observe_all now obs r = foldl (\<lambda>r (k, v). observe k v now r) r obs"

definition reads :: "gtime \<Rightarrow> (rateTracker, 'a) state \<Rightarrow> string list \<Rightarrow> bool" where
  "reads now m ks \<longleftrightarrow> (\<forall>r. \<exists>obs. map fst obs = ks \<and> snd (run_state m r) = observe_all now obs r)"

lemma observe_all_simps [simp]:
  "observe_all now [] r = r" "observe_all now ((k, v) # obs) r = observe_all now obs (observe k v now r)"
  "observe_all now (obs @ obs') r = observe_all now obs' (observe_all now obs r)"
  by (simp_all add: observe_all_def)

lemma reads_return [simp, intro]: "reads now (State_Monad.return x) []"
  by (simp add: reads_def)

lemma reads_rateM [simp, intro]: "reads now (rateM k v now) [k]"
  unfolding reads_def rateM_def rate_def by (intro allI exI[of _ "[(k, v)]"]) simp

lemma reads_bind:
  assumes "reads now m ks" and "\<And>x. reads now (f x) ls"
  shows "reads now (State_Monad.bind m f) (ks @ ls)"
  unfolding reads_def
proof
  fix r
  obtain obs where obs: "map fst obs = ks" "snd (run_state m r) = observe_all now obs r"
    using assms(1) by (auto simp: reads_def)
  let ?x = "fst (run_state m r)" and ?r = "snd (run_state m r)"
  obtain obs' where obs': "map fst obs' = ls" "snd (run_state (f ?x) ?r) = observe_all now obs' ?r"
    using assms(2)[of ?x] by (auto simp: reads_def)
  show "\<exists>obs. map fst obs = ks @ ls \<and> snd (run_state (State_Monad.bind m f) r) = observe_all now obs r"
    using obs obs' by (intro exI[of _ "obs @ obs'"]) (simp add: case_prod_unfold)
qed

lemma reads_then: "reads now m ks \<Longrightarrow> (\<And>x. reads now (f x) ls) \<Longrightarrow> kls = ks @ ls \<Longrightarrow> reads now (State_Monad.bind m f) kls"
  using reads_bind by blast

lemma reads_rate_then: "(\<And>x. reads now (f x) ls) \<Longrightarrow> reads now (State_Monad.bind (rateM k v now) f) (k # ls)"
  using reads_bind[OF reads_rateM, of now f ls k v] by simp

lemma reads_traverse:
  assumes "\<And>x. x \<in> set xs \<Longrightarrow> reads now (f x) (g x)"
  shows "reads now (State_Monad.traverse_list f xs) (concat (map g xs))"
  using assms
proof (induction xs)
  case Nil
  then show ?case by simp
next
  case (Cons x xs)
  have "reads now (State_Monad.traverse_list f xs) (concat (map g xs))" using Cons by simp
  then have "reads now (State_Monad.bind (State_Monad.traverse_list f xs) (\<lambda>ys. State_Monad.return (y # ys))) (concat (map g xs))" for y
    using reads_bind[of now "State_Monad.traverse_list f xs" "concat (map g xs)" "\<lambda>ys. State_Monad.return (y # ys)" "[]"] by simp
  from reads_bind[OF _ this, of "f x" "g x"] Cons.prems show ?case by simp
qed

text \<open>What the tracker knows of a counter after a computation, and what it computes for it.\<close>

lemma map_of_observe_all:
  "k \<notin> fst ` set obs \<Longrightarrow> map_of (rt_prev (observe_all now obs r)) k = map_of (rt_prev r) k"
  by (induction obs arbitrary: r) (auto simp: map_of_observe)

lemma reads_keeps:
  assumes "reads now m ks" and "k \<notin> set ks"
  shows "map_of (rt_prev (snd (run_state m r))) k = map_of (rt_prev r) k"
proof -
  obtain obs where "map fst obs = ks" "snd (run_state m r) = observe_all now obs r" using assms(1) by (auto simp: reads_def)
  then show ?thesis using assms(2) map_of_observe_all[of k obs now r] by (metis image_set)
qed

definition rate_value :: "rateTracker \<Rightarrow> string \<Rightarrow> float64 \<Rightarrow> gtime \<Rightarrow> float64" where
  "rate_value r k v now = snd (rate k v now r)"

lemma rate_value_cong: "map_of (rt_prev r) k = map_of (rt_prev r') k \<Longrightarrow> rate_value r k v now = rate_value r' k v now"
  by (simp add: rate_value_def rate_def)

lemma run_rateM [simp]: "run_state (rateM k v now) r = (rate_value r k v now, observe k v now r)"
  by (simp add: rateM_def rate_value_def rate_def)

lemma rate_value_nonneg: "0 \<le> rate_value r k v now"
  unfolding rate_value_def by (rule rate_nonneg)

text \<open>A counter observed for the second time gives its increase per second.\<close>

lemma rate_value_known:
  assumes "map_of (rt_prev r) k = Some p" and "rs_v p \<le> v" and "rs_t p < now"
  shows "rate_value r k v now = (v - rs_v p) / seconds (time_sub now (rs_t p))"
proof -
  have "0 < time_sub now (rs_t p)" using assms(3) by (simp add: time_sub_pos_iff)
  then show ?thesis using assms by (simp add: rate_value_def rate_def Let_def)
qed

lemma rate_value_observe [simp]: "k \<noteq> k' \<Longrightarrow> rate_value (observe k' v' now' r) k v now = rate_value r k v now"
  by (rule rate_value_cong) (simp add: map_of_observe)

end
