(* ===== verification/Scan.thy ===== *)
theory Scan
  imports Discover Rate_Monad
begin

text \<open>
  \<open>internal/collect/scan.go\<close>: the collector for the KVM processes no other discoverer owns.
  Network statistics come from the tap devices, disk throughput from \<open>/proc/pid/io\<close>.
\<close>

section \<open>Counters\<close>

definition readUint :: "procfs \<Rightarrow> string \<Rightarrow> uint64" where
  "readUint fs path =
     (case pf_ReadFile fs path of None \<Rightarrow> 0 | Some b \<Rightarrow> of_nat (ParseUint_value (TrimSpace b) 10 64))"

definition zero_iface :: IfaceStat where
  "zero_iface = \<lparr>i_Name = [], i_Ifindex = 0, i_RxBps = 0, i_TxBps = 0, i_RxPps = 0, i_TxPps = 0, i_RxErrs = 0,
     i_TxErrs = 0, i_RxDrops = 0, i_TxDrops = 0, i_DropRate = 0, i_KernelDropRate = 0, i_DropReasons = []\<rparr>"

text \<open>What a tap device sends is what the guest receives, so the directions are swapped.\<close>

definition tapStat :: "procfs \<Rightarrow> string \<Rightarrow> string \<Rightarrow> gtime \<Rightarrow> string \<Rightarrow> (rateTracker, IfaceStat) state" where
  "tapStat fs sysNet ident now tap =
     (let dir = path_join [sysNet, tap];
          rd = (\<lambda>n. readUint fs (path_join [dir, ''statistics'', n]));
          k = ident @ ''/'' @ tap;
          rxB = rd ''tx_bytes''; txB = rd ''rx_bytes''; rxP = rd ''tx_packets''; txP = rd ''rx_packets'';
          rxD = rd ''tx_dropped''; txD = rd ''rx_dropped''
      in do {
           rxb \<leftarrow> rateM (k @ ''/rxb'') (float_of_uint64 rxB) now;
           txb \<leftarrow> rateM (k @ ''/txb'') (float_of_uint64 txB) now;
           rxp \<leftarrow> rateM (k @ ''/rxp'') (float_of_uint64 rxP) now;
           txp \<leftarrow> rateM (k @ ''/txp'') (float_of_uint64 txP) now;
           drop \<leftarrow> rateM (k @ ''/drop'') (float_of_uint64 (rxD + txD)) now;
           State_Monad.return (zero_iface\<lparr>i_Name := tap, i_Ifindex := sint (readUint fs (path_join [dir, ''ifindex''])),
             i_RxBps := rxb, i_TxBps := txb, i_RxPps := rxp, i_TxPps := txp,
             i_RxErrs := rd ''tx_errors'', i_TxErrs := rd ''rx_errors'', i_RxDrops := rxD, i_TxDrops := txD, i_DropRate := drop\<rparr>)
         })"

definition tapStats :: "procfs \<Rightarrow> string \<Rightarrow> string \<Rightarrow> gtime \<Rightarrow> string list \<Rightarrow> (rateTracker, IfaceStat list) state" where
  "tapStats fs sysNet ident now taps = State_Monad.traverse_list (tapStat fs sysNet ident now) taps"

definition io_line :: "uint64 \<times> uint64 \<Rightarrow> string \<Rightarrow> uint64 \<times> uint64" where
  "io_line acc l =
     (let (rd, wr) = acc
      in case Cut l (CHR '':'') of
           (k, v, False) \<Rightarrow> (rd, wr)
         | (k, v, True) \<Rightarrow>
             let n = of_nat (ParseUint_value (TrimSpace v) 10 64)
             in if k = ''read_bytes'' then (n, wr) else if k = ''write_bytes'' then (rd, n) else (rd, wr))"

definition processIO :: "procfs \<Rightarrow> string \<Rightarrow> gtime \<Rightarrow> int \<Rightarrow> (rateTracker, DiskStat list) state" where
  "processIO fs ident now pid =
     (case pf_ReadFile fs (''/proc/'' @ show_int pid @ ''/io'') of
        None \<Rightarrow> State_Monad.return []
      | Some b \<Rightarrow>
          let (rd, wr) = foldl io_line (0, 0) (scan_lines b);
              k = ident @ ''/io''
          in do {
               rdb \<leftarrow> rateM (k @ ''/rd'') (float_of_uint64 rd) now;
               wrb \<leftarrow> rateM (k @ ''/wr'') (float_of_uint64 wr) now;
               State_Monad.return [\<lparr>k_Dev = ''(all)'', k_RdBps = rdb, k_WrBps = wrb, k_RdIOPS = 0, k_WrIOPS = 0, k_ErrsTotal = -1\<rparr>]
             })"

section \<open>The collector\<close>

record ScanCollector =
  sc_rates :: rateTracker
  sc_alive :: "string list"
  sc_sysNet :: string

definition NewScanCollector :: ScanCollector where
  "NewScanCollector = \<lparr>sc_rates = newRateTracker, sc_alive = [], sc_sysNet = ''/sys/class/net''\<rparr>"

definition scan_id :: "KVMProcess \<Rightarrow> string" where
  "scan_id p = ''pid-'' @ show_int (kp_PID p) @ ''-'' @ show_nat (unat (kp_Start p))"

definition scan_stats :: "procfs \<Rightarrow> string \<Rightarrow> gtime \<Rightarrow> KVMProcess \<Rightarrow> (rateTracker, IfaceStat list \<times> DiskStat list) state" where
  "scan_stats fs sysNet now p =
     do {
       ifaces \<leftarrow> tapStats fs sysNet (scan_id p) now (kp_Taps p);
       disks \<leftarrow> processIO fs (scan_id p) now (kp_PID p);
       State_Monad.return (ifaces, disks)
     }"

definition scan_update :: "KVMProcess \<Rightarrow> IfaceStat list \<Rightarrow> DiskStat list \<Rightarrow> DomainSnapshot \<Rightarrow> DomainSnapshot" where
  "scan_update p ifaces disks d =
     d\<lparr>d_Name := kp_Name p, d_UUID := kp_UUID p, d_Source := kp_Source p, d_PID := kp_PID p, d_State := ''running'',
       d_Mem := (d_Mem d)\<lparr>m_MaxKiB := kp_MemMiB p * 1024\<rparr>, d_Ifaces := ifaces, d_Disks := disks\<rparr>"

text \<open>One process; the loop skips those another discoverer claims.\<close>

definition scan_process ::
  "procfs \<Rightarrow> gtime \<Rightarrow> (int, bool) gomap \<Rightarrow> ScanCollector \<times> DomainStore \<Rightarrow> KVMProcess \<Rightarrow> ScanCollector \<times> DomainStore" where
  "scan_process fs now claimed acc p =
     (let (sc, s) = acc
      in if mget False claimed (kp_PID p) then (sc, s)
         else let ((ifaces, disks), r) = run_state (scan_stats fs (sc_sysNet sc) now p) (sc_rates sc)
              in (sc\<lparr>sc_alive := sc_alive sc @ [scan_id p], sc_rates := r\<rparr>, Upsert (scan_id p) (scan_update p ifaces disks) s))"

definition ScanCollect ::
  "procfs \<Rightarrow> int range_order \<Rightarrow> (int, bool) gomap \<Rightarrow> gtime \<Rightarrow> ScanCollector \<times> ProcessIndex \<times> DomainStore \<Rightarrow>
   ScanCollector \<times> ProcessIndex \<times> DomainStore" where
  "ScanCollect fs ord claimed now x =
     (let (sc, i, s) = x;
          i = Refresh fs now i;
          (sc, s) = foldl (scan_process fs now claimed) (sc\<lparr>sc_alive := []\<rparr>, s) (All ord i)
      in (sc\<lparr>sc_rates := sweep (sc_rates sc)\<rparr>, i, s))"

section \<open>What it reports\<close>

definition unclaimed :: "(int, bool) gomap \<Rightarrow> KVMProcess list \<Rightarrow> KVMProcess list" where
  "unclaimed claimed ps = filter (\<lambda>p. \<not> mget False claimed (kp_PID p)) ps"

lemma scan_loop_alive:
  "sc_alive (fst (foldl (scan_process fs now claimed) (sc, s) ps)) = sc_alive sc @ map scan_id (unclaimed claimed ps)"
  by (induction ps arbitrary: sc s) (auto simp: unclaimed_def scan_process_def case_prod_unfold Let_def)

lemma dash_split:
  assumes "show_nat a @ CHR ''-'' # u = show_nat b @ CHR ''-'' # v"
  shows "a = b" and "u = v"
proof -
  have no: "CHR ''-'' \<notin> set (show_nat n)" for n by (rule show_nat_no_char) simp
  have "Cut (show_nat a @ CHR ''-'' # u) (CHR ''-'') = (show_nat a, u, True)" "Cut (show_nat b @ CHR ''-'' # v) (CHR ''-'') = (show_nat b, v, True)"
    using no by simp_all
  then have "show_nat a = show_nat b" "u = v" unfolding assms by simp_all
  then show "a = b" "u = v" by simp_all
qed

lemma show_nat_head: "show_nat n = CHR ''-'' # s \<Longrightarrow> False"
  using show_nat_digits[of "CHR ''-''" n] by simp

lemma scan_id_inj:
  assumes "scan_id p = scan_id q"
  shows "kp_PID p = kp_PID q \<and> kp_Start p = kp_Start q"
proof -
  let ?u = "show_nat (unat (kp_Start p))" and ?v = "show_nat (unat (kp_Start q))"
  have eq: "show_int (kp_PID p) @ CHR ''-'' # ?u = show_int (kp_PID q) @ CHR ''-'' # ?v" using assms by (simp add: scan_id_def)
  have mixed: "show_nat a @ CHR ''-'' # u \<noteq> CHR ''-'' # w" for a u w
  proof
    assume "show_nat a @ CHR ''-'' # u = CHR ''-'' # w"
    then obtain s where "show_nat a = CHR ''-'' # s" by (cases "show_nat a") auto
    then show False by (rule show_nat_head)
  qed
  consider "0 \<le> kp_PID p" "0 \<le> kp_PID q" | "kp_PID p < 0" "kp_PID q < 0" | "0 \<le> kp_PID p" "kp_PID q < 0" | "kp_PID p < 0" "0 \<le> kp_PID q"
    by linarith
  then have "kp_PID p = kp_PID q \<and> ?u = ?v"
  proof cases
    case 1
    then show ?thesis using dash_split[of "nat (kp_PID p)" ?u "nat (kp_PID q)" ?v] eq by (simp add: show_int_def)
  next
    case 2
    then show ?thesis using dash_split[of "nat (- kp_PID p)" ?u "nat (- kp_PID q)" ?v] eq by (simp add: show_int_def)
  next
    case 3
    then show ?thesis using mixed[of "nat (kp_PID p)" ?u] eq by (simp add: show_int_def)
  next
    case 4
    then show ?thesis using mixed[of "nat (kp_PID q)" ?v] eq[symmetric] by (simp add: show_int_def)
  qed
  then show ?thesis by (simp add: word_unat_eq_iff)
qed

lemma distinct_scan_ids:
  assumes "distinct (map kp_PID ps)"
  shows "distinct (map scan_id (unclaimed claimed ps))"
proof -
  have "distinct (map kp_PID (unclaimed claimed ps))" unfolding unclaimed_def using assms by (rule distinct_map_filter)
  moreover have "inj_on scan_id (set (unclaimed claimed ps))"
  proof (rule inj_onI)
    fix p q assume pq: "p \<in> set (unclaimed claimed ps)" "q \<in> set (unclaimed claimed ps)" "scan_id p = scan_id q"
    then have "kp_PID p = kp_PID q" using scan_id_inj by blast
    then show "p = q" using assms pq by (simp add: unclaimed_def distinct_map inj_on_def)
  qed
  ultimately show ?thesis by (simp add: distinct_map)
qed

text \<open>The counters a process observes.\<close>

definition tap_keys :: "string \<Rightarrow> string \<Rightarrow> string list" where
  "tap_keys ident tap = map (\<lambda>c. ident @ ''/'' @ tap @ c) [''/rxb'', ''/txb'', ''/rxp'', ''/txp'', ''/drop'']"

lemma reads_tapStat: "reads now (tapStat fs sysNet ident now tap) (tap_keys ident tap)"
  unfolding tapStat_def Let_def tap_keys_def by (auto intro!: reads_rate_then)

lemma reads_tapStats: "reads now (tapStats fs sysNet ident now taps) (concat (map (tap_keys ident) taps))"
  unfolding tapStats_def by (rule reads_traverse) (rule reads_tapStat)

lemma run_tapStat:
  "fst (run_state (tapStat fs sysNet ident now tap) r) =
    (let rd = (\<lambda>n. readUint fs (path_join [path_join [sysNet, tap], ''statistics'', n]));
         rt = (\<lambda>c v. rate_value r (ident @ ''/'' @ tap @ c) (float_of_uint64 v) now)
     in zero_iface\<lparr>i_Name := tap, i_Ifindex := sint (readUint fs (path_join [path_join [sysNet, tap], ''ifindex''])),
          i_RxBps := rt ''/rxb'' (rd ''tx_bytes''), i_TxBps := rt ''/txb'' (rd ''rx_bytes''),
          i_RxPps := rt ''/rxp'' (rd ''tx_packets''), i_TxPps := rt ''/txp'' (rd ''rx_packets''),
          i_RxErrs := rd ''tx_errors'', i_TxErrs := rd ''rx_errors'', i_RxDrops := rd ''tx_dropped'', i_TxDrops := rd ''rx_dropped'',
          i_DropRate := rt ''/drop'' (rd ''tx_dropped'' + rd ''rx_dropped'')\<rparr>)"
  by (simp add: tapStat_def Let_def)

lemma mkeys_Upsert: "set (mkeys (st_domains (Upsert i f s))) = insert i (set (mkeys (st_domains s)))"
  by (auto simp: Upsert_def Let_def in_mkeys_iff gomap_simps split: if_splits)

lemma scan_loop_domains:
  "set (mkeys (st_domains (snd (foldl (scan_process fs now claimed) (sc, s) ps)))) =
   set (mkeys (st_domains s)) \<union> scan_id ` set (unclaimed claimed ps)"
  by (induction ps arbitrary: sc s) (auto simp: unclaimed_def scan_process_def case_prod_unfold Let_def mkeys_Upsert)

lemma ScanCollect_alive:
  assumes "ScanCollect fs ord claimed now (sc, i, s) = (sc', i', s')"
  shows "sc_alive sc' = map scan_id (unclaimed claimed (All ord i'))"
    and "i' = Refresh fs now i"
    and "set (mkeys (st_domains s')) = set (mkeys (st_domains s)) \<union> set (sc_alive sc')"
  using assms
  by (auto simp: ScanCollect_def Let_def case_prod_unfold scan_loop_alive scan_loop_domains)

end
