(* ===== verification/Host_Stats.thy ===== *)
theory Host_Stats
  imports Store
begin

text \<open>
  \<open>internal/collect/host.go\<close>: CPU, memory, load and pressure of the host. What the procfs
  library reads is an argument, absent when a read fails; memory fields may be missing.
\<close>

record CPUTotal =
  cpu_User :: float64
  cpu_Nice :: float64
  cpu_System :: float64
  cpu_Idle :: float64
  cpu_Iowait :: float64
  cpu_IRQ :: float64
  cpu_SoftIRQ :: float64
  cpu_Steal :: float64

record Meminfo =
  mi_MemTotal :: "uint64 option"
  mi_MemAvailable :: "uint64 option"
  mi_SwapTotal :: "uint64 option"
  mi_SwapFree :: "uint64 option"

text \<open>The averages of a resource over ten seconds, some and full.\<close>

type_synonym psi_avgs = "float64 option \<times> float64 option"

record host_readings =
  hr_NumCPU :: int
  hr_Stat :: "(CPUTotal \<times> nat) option"
  hr_Meminfo :: "Meminfo option"
  hr_Load1 :: "float64 option"
  hr_Uptime :: "int option"
  hr_PSI :: "string \<Rightarrow> psi_avgs option"

record HostCollector =
  hc_prevBusy :: float64
  hc_prevAll :: float64
  hc_hostname :: string
  hc_kernel :: string
  hc_arch :: string

definition deref :: "uint64 option \<Rightarrow> uint64" where
  "deref p = (case p of None \<Rightarrow> 0 | Some v \<Rightarrow> v)"

definition psi_read :: "(string \<Rightarrow> psi_avgs option) \<Rightarrow> string \<Rightarrow> float64 \<times> float64 \<times> bool" where
  "psi_read f res =
     (case f res of
        None \<Rightarrow> (0, 0, False)
      | Some (sm, fl) \<Rightarrow> (case sm of None \<Rightarrow> 0 | Some v \<Rightarrow> v, case fl of None \<Rightarrow> 0 | Some v \<Rightarrow> v, True))"

definition psi :: "(string \<Rightarrow> psi_avgs option) \<Rightarrow> PSIStat" where
  "psi f =
     (let (cpuSome, _, ok1) = psi_read f ''cpu'';
          (memSome, memFull, ok2) = psi_read f ''memory'';
          (ioSome, ioFull, ok3) = psi_read f ''io''
      in \<lparr>psi_Available = (ok1 \<and> ok2 \<and> ok3), psi_CPUSome = cpuSome, psi_MemSome = memSome, psi_MemFull = memFull,
          psi_IOSome = ioSome, psi_IOFull = ioFull\<rparr>)"

definition cpu_idle :: "CPUTotal \<Rightarrow> float64" where
  "cpu_idle c = cpu_Idle c + cpu_Iowait c"

definition cpu_all :: "CPUTotal \<Rightarrow> float64" where
  "cpu_all c = cpu_User c + cpu_Nice c + cpu_System c + cpu_IRQ c + cpu_SoftIRQ c + cpu_Steal c + cpu_idle c"

definition cpu_usage :: "(CPUTotal \<times> nat) option \<Rightarrow> HostCollector \<times> HostStat \<Rightarrow> HostCollector \<times> HostStat" where
  "cpu_usage st x =
     (let (hc, h) = x
      in case st of
           None \<Rightarrow> (hc, h)
         | Some (c, n) \<Rightarrow>
             let allt = cpu_all c; busy = allt - cpu_idle c;
                 h = (if 0 < hc_prevAll hc \<and> hc_prevAll hc < allt
                      then h\<lparr>ho_CPUPercent := 100 * (busy - hc_prevBusy hc) / (allt - hc_prevAll hc)\<rparr> else h)
             in (hc\<lparr>hc_prevBusy := busy, hc_prevAll := allt\<rparr>, h\<lparr>ho_CPUs := max (int n) 1\<rparr>))"

definition HostCollect :: "host_readings \<Rightarrow> HostCollector \<times> DomainStore \<Rightarrow> HostCollector \<times> DomainStore" where
  "HostCollect hr x =
     (let (hc, s) = x;
          h = zero_host\<lparr>ho_Hostname := hc_hostname hc, ho_Kernel := hc_kernel hc, ho_Arch := hc_arch hc, ho_CPUs := hr_NumCPU hr\<rparr>;
          (hc, h) = cpu_usage (hr_Stat hr) (hc, h);
          h = (case hr_Meminfo hr of
                 None \<Rightarrow> h
               | Some mi \<Rightarrow> h\<lparr>ho_MemTotalKiB := deref (mi_MemTotal mi), ho_MemAvailKiB := deref (mi_MemAvailable mi),
                               ho_SwapTotalKiB := deref (mi_SwapTotal mi), ho_SwapFreeKiB := deref (mi_SwapFree mi)\<rparr>);
          h = (case hr_Load1 hr of None \<Rightarrow> h | Some l \<Rightarrow> h\<lparr>ho_Load1 := l\<rparr>);
          h = (case hr_Uptime hr of None \<Rightarrow> h | Some u \<Rightarrow> h\<lparr>ho_Uptime := u * second\<rparr>);
          h = h\<lparr>ho_PSI := psi (hr_PSI hr)\<rparr>
      in (hc, MutateHost (\<lambda>cur. h\<lparr>ho_Disks := ho_Disks cur\<rparr>) s))"

section \<open>Usage is a percentage\<close>

text \<open>Between two readings no counter falls, and the busy time is part of the whole.\<close>

definition cpu_le :: "CPUTotal \<Rightarrow> CPUTotal \<Rightarrow> bool" where
  "cpu_le a b \<longleftrightarrow> cpu_User a \<le> cpu_User b \<and> cpu_Nice a \<le> cpu_Nice b \<and> cpu_System a \<le> cpu_System b \<and> cpu_Idle a \<le> cpu_Idle b \<and>
     cpu_Iowait a \<le> cpu_Iowait b \<and> cpu_IRQ a \<le> cpu_IRQ b \<and> cpu_SoftIRQ a \<le> cpu_SoftIRQ b \<and> cpu_Steal a \<le> cpu_Steal b"

definition remembers :: "CPUTotal \<Rightarrow> HostCollector \<Rightarrow> bool" where
  "remembers c hc \<longleftrightarrow> hc_prevAll hc = cpu_all c \<and> hc_prevBusy hc = cpu_all c - cpu_idle c"

lemma cpu_usage_remembers: "remembers c (fst (cpu_usage (Some (c, n)) x))"
  by (cases x) (simp add: cpu_usage_def remembers_def Let_def)

lemma cpu_percent_bounds:
  assumes "remembers a hc" and "cpu_le a b" and "ho_CPUPercent h = 0"
  shows "0 \<le> ho_CPUPercent (snd (cpu_usage (Some (b, n)) (hc, h))) \<and> ho_CPUPercent (snd (cpu_usage (Some (b, n)) (hc, h))) \<le> 100"
proof (cases "0 < hc_prevAll hc \<and> hc_prevAll hc < cpu_all b")
  case True
  let ?busy = "(cpu_all b - cpu_idle b) - hc_prevBusy hc" and ?span = "cpu_all b - hc_prevAll hc"
  have span: "0 < ?span" using True by simp
  have lo: "0 \<le> ?busy" and hi: "?busy \<le> ?span"
    using assms(1,2) by (simp_all add: remembers_def cpu_le_def cpu_all_def cpu_idle_def)
  have "100 * ?busy / ?span \<le> 100" using span hi by (simp add: divide_le_eq)
  moreover have "0 \<le> 100 * ?busy / ?span" using span lo by simp
  ultimately show ?thesis using True by (simp add: cpu_usage_def Let_def)
next
  case False
  then show ?thesis using assms(3) by (auto simp: cpu_usage_def Let_def)
qed

lemma HostCollect_disks: "ho_Disks (st_host (snd (HostCollect hr (hc, s)))) = ho_Disks (st_host s)"
  by (simp add: HostCollect_def Let_def MutateHost_def case_prod_unfold)

lemma HostCollect_domains: "st_domains (snd (HostCollect hr (hc, s))) = st_domains s"
  by (simp add: HostCollect_def Let_def MutateHost_def case_prod_unfold)

lemma HostCollect_percent:
  "ho_CPUPercent (st_host (snd (HostCollect hr (hc, s)))) = ho_CPUPercent (snd (cpu_usage (hr_Stat hr) (hc, zero_host)))"
  by (auto simp: HostCollect_def Let_def MutateHost_def case_prod_unfold cpu_usage_def zero_host_def split: option.splits)

end
