(* ===== verification/Host_Properties.thy ===== *)
theory Host_Properties
  imports Qmp Config Scan Host_Stats
begin

text \<open>
  The properties of the discovery of virtual machines on the host, of the QEMU monitor and
  of the configuration.
\<close>

section \<open>Processes\<close>

text \<open>
  C21: After a refresh of the index every process in it has the start time its pid has now,
  so a pid that was reused is never taken for the machine it belonged to. When the scan is
  due the index holds exactly the listed processes that own a machine; in between it only
  loses processes, namely those whose start time changed or cannot be read.
\<close>

theorem refresh_tracks_processes:
  assumes "index_wf i"
  shows "(map_of (pi_procs (Refresh fs now i)) pid = Some p \<longrightarrow>
      kp_PID p = pid \<and> kp_Start p = fst (startTime fs (pi_root i) pid)) \<and>
    (time_sub now (pi_lastScan i) < pi_interval i \<longrightarrow>
      (map_of (pi_procs (Refresh fs now i)) pid = Some p \<longleftrightarrow>
       map_of (pi_procs i) pid = Some p \<and> startTime fs (pi_root i) pid = (kp_Start p, True))) \<and>
    (\<not> time_sub now (pi_lastScan i) < pi_interval i \<longrightarrow>
      ((\<exists>p. map_of (pi_procs (Refresh fs now i)) pid = Some p) \<longleftrightarrow>
       listed fs (pi_root i) pid \<and> owns_vm fs (pi_root i) pid)) \<and>
    (index_wf (Refresh fs now i))"
proof (intro conjI)
  show "index_wf (Refresh fs now i)" using assms by (rule index_wf_Refresh)
  show "time_sub now (pi_lastScan i) < pi_interval i \<longrightarrow>
      (map_of (pi_procs (Refresh fs now i)) pid = Some p \<longleftrightarrow>
       map_of (pi_procs i) pid = Some p \<and> startTime fs (pi_root i) pid = (kp_Start p, True))"
    unfolding map_of_Refresh[OF assms] by (auto split: option.splits)
  show "\<not> time_sub now (pi_lastScan i) < pi_interval i \<longrightarrow>
      ((\<exists>p. map_of (pi_procs (Refresh fs now i)) pid = Some p) \<longleftrightarrow>
       listed fs (pi_root i) pid \<and> owns_vm fs (pi_root i) pid)"
    unfolding map_of_Refresh[OF assms] using inspect_Some_iff[of fs "pi_root i" pid] by simp
  show "map_of (pi_procs (Refresh fs now i)) pid = Some p \<longrightarrow>
      kp_PID p = pid \<and> kp_Start p = fst (startTime fs (pi_root i) pid)"
    unfolding map_of_Refresh[OF assms] using assms inspect_facts[of fs "pi_root i" pid p]
    by (auto simp: index_wf_def split: if_splits option.splits)
qed

text \<open>A host with one QEMU process, number 7.\<close>

definition ex_stat :: string where
  "ex_stat = stat_line 7 ''a) b ('' (replicate 19 ''0'' @ [''55''])"

definition ex_fs :: procfs where
  "ex_fs = \<lparr>pf_ReadDir = (\<lambda>p. if p = ''/proc'' then Some [''7'', ''self''] else if p = ''/proc/7/fd'' then Some [''3''] else None),
     pf_Readlink = (\<lambda>p. if p = ''/proc/7/fd/3'' then Some ''anon_inode:kvm-vm'' else None),
     pf_ReadFile = (\<lambda>p. if p = ''/proc/7/stat'' then Some ex_stat
        else if p = ''/proc/7/comm'' then Some ''qemu'' else None)\<rparr>"

theorem refresh_tracks_processes_witness:
  "(\<exists>p. map_of (pi_procs (Refresh ex_fs (10 * second) (NewProcessIndex second))) 7 = Some p) \<and>
   index_wf (Refresh ex_fs (10 * second) (NewProcessIndex second))"
proof -
  let ?i = "NewProcessIndex second"
  have root: "pi_root ?i = ''/proc''" by (simp add: NewProcessIndex_def)
  have seven: "show_int 7 = ''7''" by code_simp
  have "Atoi ''7'' = Inr 7" by (simp add: Atoi_def ParseUint_def digit_val_def Let_def)
  then have "listed ex_fs ''/proc'' 7" by (simp add: listed_def ex_fs_def)
  moreover have "owns_vm ex_fs ''/proc'' 7" by (simp add: owns_vm_def seven path_join_def ex_fs_def)
  moreover have "\<not> time_sub (10 * second) (pi_lastScan ?i) < pi_interval ?i"
    by (simp add: NewProcessIndex_def time_sub_def max_duration_def min_duration_def second_def)
  ultimately show ?thesis
    using refresh_tracks_processes[OF index_wf_New, where fs = ex_fs and now = "10 * second" and pid = 7]
      root by metis
qed

text \<open>
  An option string as QEMU prints it gives every key the value of its first
  occurrence and a missing key nothing; the memory size in it is read with its unit, and
  exactly as long as the number of mebibytes fits 64 bits.
\<close>

lemma qemu_options_roundtrip:
  assumes "opts_wf kvs" and "CHR ''='' \<notin> set key"
  shows "(qemuOpt (format_opts kvs) key = (case map_of kvs key of None \<Rightarrow> [] | Some v \<Rightarrow> v)) \<and>
    (map_of kvs ''size'' = Some (format_mem n u) \<and> is_mem_unit u \<and> n * mem_unit u < 2 ^ 64 \<longrightarrow>
      unat (parseQemuMem (format_opts kvs)) = n * mem_unit u)"
proof (intro conjI)
  show "qemuOpt (format_opts kvs) key = (case map_of kvs key of None \<Rightarrow> [] | Some v \<Rightarrow> v)" using assms by (rule qemuOpt_format)
  show "map_of kvs ''size'' = Some (format_mem n u) \<and> is_mem_unit u \<and> n * mem_unit u < 2 ^ 64 \<longrightarrow>
      unat (parseQemuMem (format_opts kvs)) = n * mem_unit u"
  proof
    assume a: "map_of kvs ''size'' = Some (format_mem n u) \<and> is_mem_unit u \<and> n * mem_unit u < 2 ^ 64"
    have "1 \<le> mem_unit u" by (cases u) auto
    then have "n \<le> n * mem_unit u" by (cases "mem_unit u") auto
    then have n: "n < 2 ^ 64" using a by linarith
    have "qemuOpt (format_opts kvs) ''size'' = format_mem n u" using qemuOpt_format[OF assms(1), of "''size''"] a by simp
    then have "parseQemuMem (format_opts kvs) = of_nat (n * mem_unit u)" using a n by (intro parseQemuMem_of_opt) simp_all
    then show "unat (parseQemuMem (format_opts kvs)) = n * mem_unit u"
      using a by (simp add: unat_of_nat del: of_nat_mult)
  qed
qed

section \<open>The QEMU monitor\<close>

text \<open>
  C22: In every interleaving of the collector with its background polls, at most one poll
  per domain is in flight, and it is exactly the polls in flight that are marked as polling.
\<close>

theorem qmp_one_poll_per_domain:
  assumes "qmp_initial y0" and "qmp_step\<^sup>*\<^sup>* y0 y"
  shows "(distinct (map fst (qy_flight y))) \<and>
    (mget False (qc_polling (qy_c y)) i \<longleftrightarrow> i \<in> fst ` set (qy_flight y))"
proof -
  have inv: "flight_inv (qy_c y) (qy_flight y)" using qmp_inv_reachable[OF assms(2,1)] by (simp add: qmp_inv_def)
  then have "distinct (map fst (qy_flight y))" by (simp add: flight_inv_def)
  moreover have "mget False (qc_polling (qy_c y)) i \<longleftrightarrow> i \<in> fst ` set (qy_flight y)"
    using flight_polling[OF inv] by (simp add: polled_ids_def)
  ultimately show ?thesis by blast
qed

definition ex_sys :: qmp_sys where
  "ex_sys = \<lparr>qy_c = NewQMPCollector second second, qy_store = NewDomainStore, qy_flight = [], qy_phase = Idle\<rparr>"

theorem qmp_one_poll_per_domain_witness:
  "\<exists>y. qmp_step\<^sup>*\<^sup>* ex_sys y \<and> qy_phase y \<noteq> Idle \<and> distinct (map fst (qy_flight y))"
proof -
  obtain c first where cl: "claim_first (qmp_targets id id (NewProcessIndex second) (qy_store ex_sys)) (qy_c ex_sys) = (c, first)"
    by fastforce
  let ?y = "ex_sys\<lparr>qy_c := c, qy_flight := qy_flight ex_sys @ first,
      qy_phase := Waiting 0 (qmp_targets id id (NewProcessIndex second) (qy_store ex_sys)) first\<rparr>"
  have step: "qmp_step ex_sys ?y" by (rule collect_begin[OF _ refl cl]) (simp add: ex_sys_def)
  have "qmp_initial ex_sys" by (auto simp: qmp_initial_def ex_sys_def)
  from qmp_one_poll_per_domain[OF this r_into_rtranclp[of qmp_step, OF step]] step
  show ?thesis by (intro exI[of _ ?y]) auto
qed

text \<open>
  A control monitor on a socket character device is polled at the path of the device if
  the device is a server. If the device has no path, because it listens on a TCP port, the
  word \<open>socket\<close> is taken for its path.
\<close>

lemma qmp_chardev_socket:
  assumes "opts_wf kvs" and "\<not> is_qmp_option exe" and "map_of kvs ''id'' = Some i" and "i \<noteq> []" and "CHR '','' \<notin> set i"
    and "map_of kvs ''path'' \<noteq> Some []"
  shows "qmpSocket [exe, ''-chardev'', socket_chardev kvs, ''-mon'', format_opts [(''chardev'', i), (''mode'', ''control'')]] =
    (if (''server'', ''on'') \<in> set kvs then (case map_of kvs ''path'' of None \<Rightarrow> ''socket'' | Some p \<Rightarrow> p) else [])"
  using assms by (rule qmpSocket_chardev)

section \<open>The configuration\<close>

text \<open>
  Loading succeeds without a file only when none was named, and then with the defaults
  the decoder was given; with a file it succeeds exactly when the file can be decoded, has no
  unknown key and holds values in range. A loaded configuration has an interval of at least
  100 milliseconds, a positive history, and a clear ratio in the half-open unit interval or
  one that is no number.
\<close>

lemma load_errors:
  assumes "\<And>f c c'. decode f c = TomlNotExist c' \<Longrightarrow> c' = c"
  shows "(snd (Load decode path) = None \<longleftrightarrow>
      (case decode (if path = [] then DefaultPath else path) Default of
         TomlNotExist c \<Rightarrow> path = [] | TomlError e c \<Rightarrow> False | TomlDecoded c ks \<Rightarrow> ks = [] \<and> config_ok c)) \<and>
    (snd (Load decode path) = None \<longrightarrow> config_ok (fst (Load decode path)))"
proof (intro conjI)
  show "snd (Load decode path) = None \<longleftrightarrow>
      (case decode (if path = [] then DefaultPath else path) Default of
         TomlNotExist c \<Rightarrow> path = [] | TomlError e c \<Rightarrow> False | TomlDecoded c ks \<Rightarrow> ks = [] \<and> config_ok c)"
    by (auto simp: Load_def Let_def validate_None_iff split: toml_result.splits list.splits)
  show "snd (Load decode path) = None \<longrightarrow> config_ok (fst (Load decode path))"
    using assms Default_ok
    by (auto simp: Load_def Let_def validate_None_iff split: toml_result.splits list.splits if_splits)
qed

end
