(* ===== verification/Proc.thy ===== *)
theory Proc
  imports Domain_Loop Rate_Monad Regex "HOL-Library.Signed_Division"
begin

text \<open>
  \<open>internal/collect/proc.go\<close>: resident memory, page faults and vCPU threads of the processes
  behind the domains. What the procfs library reads is an argument.
\<close>

section \<open>Thread names\<close>

text \<open>The name of a vCPU thread: QEMU, Firecracker, cloud-hypervisor, kvmtool and crosvm.\<close>

definition vcpuThreadRe :: re where
  "vcpuThreadRe = seqs [Bol,
     alts [seqs [lit ''CPU '', Group 1 (many1 digit), lit ''/KVM''],
           seqs [lit ''fc_vcpu '', Group 2 (many1 digit)],
           seqs [lit ''vcpu'', Group 3 (many1 digit)],
           seqs [lit ''kvm-vcpu-'', Group 4 (many1 digit)],
           seqs [lit ''crosvm_vcpu'', Group 5 (many1 digit)]],
     Eol]"

fun first_group :: "(nat \<times> string) list \<Rightarrow> nat list \<Rightarrow> int \<times> bool" where
  "first_group m [] = (0, False)"
| "first_group m (i # is) =
     (if submatch m i \<noteq> []
      then (case Atoi (submatch m i) of Inr n \<Rightarrow> (n, True) | Inl ErrSyntax \<Rightarrow> (0, False) | Inl ErrRange \<Rightarrow> (2 ^ 63 - 1, False))
      else first_group m is)"

definition vcpuIndex :: "string \<Rightarrow> int \<times> bool" where
  "vcpuIndex comm = (case FindSubmatch vcpuThreadRe comm of None \<Rightarrow> (0, False) | Some m \<Rightarrow> first_group m [1, 2, 3, 4, 5])"

section \<open>The collector\<close>

text \<open>What the procfs library reads of a process or thread, and its three calls.\<close>

record ProcStat =
  ps_ResidentMemory :: int
  ps_MinFlt :: uint64
  ps_MajFlt :: uint64
  ps_CPUTime :: float64
  ps_Processor :: uint64

record proc_fs =
  pr_Proc :: "int \<Rightarrow> bool"
  pr_Stat :: "int \<Rightarrow> ProcStat option"
  pr_AllThreads :: "int \<Rightarrow> (int \<times> string option) list option"
  pr_ThreadStat :: "int \<Rightarrow> int \<Rightarrow> ProcStat option"

record vcpuThreads =
  vt_tids :: "(int, int) gomap"
  vt_fetched :: gtime

record ProcCollector =
  pc_rates :: rateTracker
  pc_threads :: "(int, vcpuThreads) gomap"

definition threadRefresh :: duration where
  "threadRefresh = 10 * second"

definition NewProcCollector :: ProcCollector where
  "NewProcCollector = \<lparr>pc_rates = newRateTracker, pc_threads = []\<rparr>"

definition add_thread :: "(int, int) gomap \<Rightarrow> int \<times> string option \<Rightarrow> (int, int) gomap" where
  "add_thread m t =
     (case snd t of
        None \<Rightarrow> m
      | Some comm \<Rightarrow> (case vcpuIndex comm of (idx, True) \<Rightarrow> AList.update idx (fst t) m | (_, False) \<Rightarrow> m))"

definition find_threads :: "proc_fs \<Rightarrow> int \<Rightarrow> gtime \<Rightarrow> ProcCollector \<Rightarrow> ProcCollector \<times> vcpuThreads" where
  "find_threads fs pid now pc =
     (let fresh = (let vt = \<lparr>vt_tids = (case pr_AllThreads fs pid of None \<Rightarrow> [] | Some ts \<Rightarrow> foldl add_thread [] ts), vt_fetched = now\<rparr>
                   in (pc\<lparr>pc_threads := AList.update pid vt (pc_threads pc)\<rparr>, vt))
      in case map_of (pc_threads pc) pid of
           None \<Rightarrow> fresh
         | Some vt \<Rightarrow> if time_sub now (vt_fetched vt) < threadRefresh then (pc, vt) else fresh)"

definition thread_stat :: "proc_fs \<Rightarrow> int \<Rightarrow> gtime \<Rightarrow> int \<times> int \<Rightarrow> (rateTracker, VCPUStat) state" where
  "thread_stat fs pid now x =
     (let (idx, tid) = x;
          v = \<lparr>v_Index = idx, v_TID = tid, v_CPUPercent = 0, v_HostCPU = -1, v_ExitRate = 0, v_RunqAvgUs = 0, v_RunqP99Us = 0,
               v_RunqMaxUs = 0, v_HaltWaitRate = 0\<rparr>
      in case pr_ThreadStat fs pid tid of
           None \<Rightarrow> State_Monad.return v
         | Some st \<Rightarrow> do {
             r \<leftarrow> rateM (show_int pid @ ''/'' @ show_int tid @ ''/cpu'') (ps_CPUTime st) now;
             State_Monad.return (v\<lparr>v_CPUPercent := r * 100, v_HostCPU := sint (ps_Processor st)\<rparr>)
           })"

text \<open>The threads in the order of their vCPU; an index without a thread is skipped.\<close>

definition vcpu_count :: "(int, int) gomap \<Rightarrow> int" where
  "vcpu_count m = foldl (\<lambda>n idx. max n (idx + 1)) 0 (mkeys m)"

definition known_threads :: "(int, int) gomap \<Rightarrow> (int \<times> int) list" where
  "known_threads m = List.map_filter (\<lambda>idx. map_option (Pair idx) (map_of m idx)) [0..vcpu_count m - 1]"

definition threadCPU :: "proc_fs \<Rightarrow> int \<Rightarrow> gtime \<Rightarrow> vcpuThreads \<Rightarrow> (rateTracker, VCPUStat list) state" where
  "threadCPU fs pid now vt = State_Monad.traverse_list (thread_stat fs pid now) (known_threads (vt_tids vt))"

text \<open>What the eBPF collector wrote about a thread is kept as long as the thread is the same.\<close>

definition merge_vcpus :: "VCPUStat list \<Rightarrow> VCPUStat list \<Rightarrow> VCPUStat list" where
  "merge_vcpus old new =
     map (\<lambda>(i, v). if i < length old \<and> v_TID (old ! i) = v_TID v
            then (old ! i)\<lparr>v_CPUPercent := v_CPUPercent v, v_HostCPU := v_HostCPU v\<rparr> else v)
       (enumerate 0 new)"

definition proc_update ::
  "uint64 \<Rightarrow> float64 \<Rightarrow> float64 \<Rightarrow> VCPUStat list option \<Rightarrow> vcpuThreads \<Rightarrow> DomainSnapshot \<Rightarrow> DomainSnapshot" where
  "proc_update rss minor major own vt d =
     (let d = d\<lparr>d_Mem := (d_Mem d)\<lparr>m_RssKiB := rss, m_MinorFltRate := minor, m_MajorFltRate := major\<rparr>\<rparr>;
          d = (case own of None \<Rightarrow> d | Some vcpus \<Rightarrow> d\<lparr>d_VCPUs := merge_vcpus (d_VCPUs d) vcpus\<rparr>)
      in d\<lparr>d_VCPUs := map (\<lambda>v. v\<lparr>v_TID := mget 0 (vt_tids vt) (v_Index v)\<rparr>) (d_VCPUs d)\<rparr>)"

definition fault_rates :: "int \<Rightarrow> gtime \<Rightarrow> ProcStat \<Rightarrow> (rateTracker, float64 \<times> float64) state" where
  "fault_rates pid now st =
     do {
       minor \<leftarrow> rateM (show_int pid @ ''/minflt'') (float_of_uint64 (ps_MinFlt st)) now;
       major \<leftarrow> rateM (show_int pid @ ''/majflt'') (float_of_uint64 (ps_MajFlt st)) now;
       State_Monad.return (minor, major)
     }"

definition own_vcpus :: "proc_fs \<Rightarrow> DomainSnapshot \<Rightarrow> gtime \<Rightarrow> vcpuThreads \<Rightarrow> (rateTracker, VCPUStat list option) state" where
  "own_vcpus fs snap now vt =
     (if d_Source snap = ''libvirt'' then State_Monad.return None
      else do { vs \<leftarrow> threadCPU fs (d_PID snap) now vt; State_Monad.return (Some vs) })"

text \<open>One domain. The pid counts as live even when the process cannot be read.\<close>

definition proc_stat :: "proc_fs \<Rightarrow> DomainSnapshot \<Rightarrow> ProcStat option" where
  "proc_stat fs snap = (if d_PID snap \<le> 0 \<or> \<not> pr_Proc fs (d_PID snap) then None else pr_Stat fs (d_PID snap))"

definition proc_domain ::
  "proc_fs \<Rightarrow> gtime \<Rightarrow> (ProcCollector \<times> int list) \<times> DomainStore \<Rightarrow> DomainSnapshot \<Rightarrow> (ProcCollector \<times> int list) \<times> DomainStore" where
  "proc_domain fs now acc snap =
     (let ((pc, live), s) = acc; pid = d_PID snap; live = (if pid \<le> 0 then live else live @ [pid])
      in case proc_stat fs snap of
           None \<Rightarrow> ((pc, live), s)
         | Some st \<Rightarrow>
             let rss = word_of_int (ps_ResidentMemory st sdiv 1024);
                 ((minor, major), r) = run_state (fault_rates pid now st) (pc_rates pc);
                 (pc, vt) = find_threads fs pid now (pc\<lparr>pc_rates := r\<rparr>);
                 (own, r) = run_state (own_vcpus fs snap now vt) (pc_rates pc)
             in ((pc\<lparr>pc_rates := r\<rparr>, live), fst (Mutate (d_ID snap) (proc_update rss minor major own vt) s)))"

definition ProcCollect :: "proc_fs \<Rightarrow> string range_order \<Rightarrow> gtime \<Rightarrow> ProcCollector \<times> DomainStore \<Rightarrow> ProcCollector \<times> DomainStore" where
  "ProcCollect fs ord now x =
     (let (pc, s) = x;
          ((pc, live), s) = foldl (proc_domain fs now) ((pc, []), s) (Snapshot ord s)
      in (pc\<lparr>pc_threads := mfilter (\<lambda>pid _. pid \<in> set live) (pc_threads pc), pc_rates := sweep (pc_rates pc)\<rparr>, s))"

section \<open>Names and indices\<close>

definition thread_names :: "(nat \<times> string \<times> string) list" where
  "thread_names = [(1, ''CPU '', ''/KVM''), (2, ''fc_vcpu '', []), (3, ''vcpu'', []), (4, ''kvm-vcpu-'', []), (5, ''crosvm_vcpu'', [])]"

lemma matches_many1_digits: "u \<noteq> [] \<Longrightarrow> \<forall>c \<in> set u. P c \<Longrightarrow> matches (many1 P) (p, u @ s, g) (Some (last u), s, g)"
proof (induction u arbitrary: p)
  case (Cons c u)
  have "matches (Many P) (Some c, u @ s, g) (if u = [] then Some c else Some (last u), s, g)"
    using Cons.prems(2)
  proof (induction u arbitrary: c)
    case (Cons d u)
    then show ?case using m_Many_S[of P d "u @ s" g _ "Some c"] Cons.IH[of d] by auto
  qed (simp add: m_Many_0)
  moreover have "matches (Set P) (p, c # u @ s, g) (Some c, u @ s, g)" using Cons.prems by (intro m_Set) simp
  ultimately show ?case unfolding many1_def by (auto simp: matches_Seq split: if_splits)
qed simp

lemma matches_Group_digits:
  assumes "u \<noteq> []" and "\<forall>c \<in> set u. P c"
  shows "matches (Group n (many1 P)) (p, u @ s, g) (Some (last u), s, (n, u) # g)"
  using m_Group[OF matches_many1_digits[OF assms, of p s g], of n] by simp

lemma matches_name_iff:
  "(\<exists>p'. matches (seqs [lit pre, Group n (many1 digit), lit suf]) (p, s, []) (p', [], g)) \<longleftrightarrow>
   (\<exists>u. s = pre @ u @ suf \<and> u \<noteq> [] \<and> (\<forall>c \<in> set u. digit c) \<and> g = [(n, u)])"
  (is "?l \<longleftrightarrow> ?r")
proof
  assume ?l
  then show ?r by (auto simp: matches_seqs matches_lit dest!: matches_Group_many1)
next
  assume ?r
  then obtain u where u: "s = pre @ u @ suf" "u \<noteq> []" "\<forall>c \<in> set u. digit c" "g = [(n, u)]" by blast
  let ?p = "if pre = [] then p else Some (last pre)" and ?p' = "Some (last (u @ suf))"
  have "matches (lit pre) (p, s, []) (?p, u @ suf, [])" using u(1) by (auto simp: matches_lit)
  moreover have "matches (Group n (many1 digit)) (?p, u @ suf, []) (Some (last u), suf, g)"
    using matches_Group_digits[OF u(2,3), of n ?p suf "[]"] u(4) by simp
  moreover have "matches (lit suf) (Some (last u), suf, g) (?p', [], g)" using u(2) by (auto simp: matches_lit)
  ultimately have "matches (seqs [lit pre, Group n (many1 digit), lit suf]) (p, s, []) (?p', [], g)"
    unfolding seqs_def foldr.simps comp_apply id_apply using m_Seq m_Eps by meson
  then show ?l by blast
qed

lemma matches_seqs2_lit: "matches (seqs [a, b]) st st' \<longleftrightarrow> matches (seqs [a, b, lit []]) st st'"
proof (cases st')
  case (fields p s g)
  then show ?thesis by (auto simp: matches_seqs matches_lit)
qed

lemma matches_Alt: "matches (Alt a b) st st' \<longleftrightarrow> matches a st st' \<or> matches b st st'"
  by (auto elim: matches_elims intro: m_Alt1 m_Alt2)

lemma matches_Bol: "matches Bol (p, s, g) st \<longleftrightarrow> p = None \<and> st = (p, s, g)"
  by (auto elim: matches_elims intro: m_Bol)

lemma matches_Eol: "matches Eol st st' \<longleftrightarrow> st' = st \<and> fst (snd st) = []"
  by (cases st) (auto elim: matches_elims intro: m_Eol)

lemma matches_anchored:
  "matches (seqs [Bol, a, Eol]) (p, s, []) (p', s', g) \<longleftrightarrow> p = None \<and> s' = [] \<and> matches a (p, s, []) (p', [], g)"
  by (auto simp: matches_seqs matches_Bol matches_Eol)

lemma matches_vcpuThreadRe:
  "(\<exists>p' s'. matches vcpuThreadRe (p, s, []) (p', s', g)) \<longleftrightarrow>
   p = None \<and> (\<exists>(n, pre, suf) \<in> set thread_names. \<exists>u. s = pre @ u @ suf \<and> u \<noteq> [] \<and> (\<forall>c \<in> set u. digit c) \<and> g = [(n, u)])"
proof -
  let ?m = "\<lambda>n pre suf. \<exists>p'. matches (seqs [lit pre, Group n (many1 digit), lit suf]) (p, s, []) (p', [], g)"
  have "(\<exists>p' s'. matches vcpuThreadRe (p, s, []) (p', s', g)) \<longleftrightarrow> p = None \<and>
    (?m 1 ''CPU '' ''/KVM'' \<or> ?m 2 ''fc_vcpu '' [] \<or> ?m 3 ''vcpu'' [] \<or> ?m 4 ''kvm-vcpu-'' [] \<or> ?m 5 ''crosvm_vcpu'' [])"
    unfolding vcpuThreadRe_def matches_anchored alts.simps matches_Alt matches_seqs2_lit by blast
  then show ?thesis unfolding matches_name_iff by (auto simp: thread_names_def)
qed

lemma digit_of_show_nat: "c \<in> set (show_nat n) \<Longrightarrow> digit c"
  using show_nat_digits by (simp add: digit_def in_range_def)

lemma first_group_single: "n \<in> set ns \<Longrightarrow> u \<noteq> [] \<Longrightarrow> first_group [(n, u)] ns =
  (case Atoi u of Inr k \<Rightarrow> (k, True) | Inl ErrSyntax \<Rightarrow> (0, False) | Inl ErrRange \<Rightarrow> (2 ^ 63 - 1, False))"
  by (induction ns) (auto simp: submatch_def mget_def)

text \<open>The heads of the five forms differ, so a name has one of them only.\<close>

lemma thread_name_unique:
  assumes "(n, pre, suf) \<in> set thread_names" and "(n', pre', suf') \<in> set thread_names" and "pre @ u @ suf = pre' @ u' @ suf'"
  shows "n' = n" "u' = u"
  using assms by (auto simp: thread_names_def)

lemma FindSubmatch_is_name:
  assumes "FindSubmatch vcpuThreadRe s = Some g"
  shows "\<exists>(n, pre, suf) \<in> set thread_names. \<exists>u. s = pre @ u @ suf \<and> u \<noteq> [] \<and> (\<forall>c \<in> set u. digit c) \<and> g = [(n, u)]"
proof -
  from find_from_sound[OF assms[unfolded FindSubmatch_def]] obtain w p' s' p'' s'' where
    w: "s = w @ s'" "w \<noteq> [] \<longrightarrow> p' = Some (last w)" "matches vcpuThreadRe (p', s', []) (p'', s'', g)" by blast
  then have "\<exists>p'' s''. matches vcpuThreadRe (p', s', []) (p'', s'', g)" by blast
  note name = this[unfolded matches_vcpuThreadRe]
  then have "w = []" using w(2) by (cases w) simp_all
  then show ?thesis using name w(1) by simp
qed

lemma FindSubmatch_name:
  assumes "(n, pre, suf) \<in> set thread_names" and "u \<noteq> []" and "\<forall>c \<in> set u. digit c"
  shows "FindSubmatch vcpuThreadRe (pre @ u @ suf) = Some [(n, u)]"
proof -
  let ?s = "pre @ u @ suf"
  have "\<exists>p' s'. matches vcpuThreadRe (None, ?s, []) (p', s', [(n, u)])"
    unfolding matches_vcpuThreadRe using assms by blast
  then obtain st where "matches vcpuThreadRe (None, ?s, []) st" by blast
  from find_from_complete[OF this, of ?s "[]" None] obtain g where g: "FindSubmatch vcpuThreadRe ?s = Some g"
    by (auto simp: FindSubmatch_def)
  from FindSubmatch_is_name[OF g] obtain n' pre' suf' u' where
    "(n', pre', suf') \<in> set thread_names" "?s = pre' @ u' @ suf'" "g = [(n', u')]" by blast
  then show ?thesis using thread_name_unique[OF assms(1)] g by metis
qed

lemma vcpuIndex_iff:
  "vcpuIndex comm = (k, True) \<longleftrightarrow>
   (\<exists>(n, pre, suf) \<in> set thread_names. \<exists>u. comm = pre @ u @ suf \<and> u \<noteq> [] \<and> (\<forall>c \<in> set u. digit c) \<and> Atoi u = Inr k)"
  (is "?l \<longleftrightarrow> ?r")
proof
  assume ?r
  then obtain n pre suf u where name: "(n, pre, suf) \<in> set thread_names" "comm = pre @ u @ suf" "u \<noteq> []" "\<forall>c \<in> set u. digit c" "Atoi u = Inr k"
    by blast
  have "n \<in> set [1, 2, 3, 4, 5]" using name(1) by (auto simp: thread_names_def)
  then show ?l using FindSubmatch_name[OF name(1,3,4)] first_group_single[of n "[1, 2, 3, 4, 5]" u] name by (simp add: vcpuIndex_def)
next
  assume l: ?l
  then obtain g where g: "FindSubmatch vcpuThreadRe comm = Some g" by (auto simp: vcpuIndex_def split: option.splits)
  from FindSubmatch_is_name[OF g] obtain n pre suf u where
    name: "(n, pre, suf) \<in> set thread_names" "comm = pre @ u @ suf" "u \<noteq> []" "\<forall>c \<in> set u. digit c" "g = [(n, u)]" by blast
  have "n \<in> set [1, 2, 3, 4, 5]" using name(1) by (auto simp: thread_names_def)
  from first_group_single[OF this name(3)] have "Atoi u = Inr k"
    using l g name(5) by (simp add: vcpuIndex_def split: sum.splits num_error.splits)
  then show ?r using name by blast
qed

section \<open>The loop over the domains\<close>

abbreviation thread_of :: "VCPUStat \<Rightarrow> int \<times> int" where
  "thread_of v \<equiv> (v_Index v, v_TID v)"

lemma thread_of_thread_stat: "thread_of (fst (run_state (thread_stat fs pid now x) r)) = x"
  by (auto simp: thread_stat_def Let_def case_prod_unfold split: option.splits)

lemma run_traverse_map:
  assumes "\<And>x r. f (fst (run_state (m x) r)) = g x"
  shows "map f (fst (run_state (State_Monad.traverse_list m xs) r)) = map g xs"
proof (induction xs arbitrary: r)
  case (Cons x xs)
  then show ?case using assms by (simp add: case_prod_unfold)
qed simp

lemma threads_threadCPU: "map thread_of (fst (run_state (threadCPU fs pid now vt) r)) = known_threads (vt_tids vt)"
  unfolding threadCPU_def using run_traverse_map[of thread_of "thread_stat fs pid now" "\<lambda>x. x"] thread_of_thread_stat
  by simp

text \<open>Which threads belong to a process does not change within one collection.\<close>

lemma find_threads_rates: "snd (find_threads fs p now (pc\<lparr>pc_rates := r\<rparr>)) = snd (find_threads fs p now pc)"
  by (auto simp: find_threads_def Let_def split: option.splits)

lemma find_threads_again:
  "snd (find_threads fs p now ((fst (find_threads fs q now (pc\<lparr>pc_rates := r\<rparr>)))\<lparr>pc_rates := r'\<rparr>)) = snd (find_threads fs p now pc)"
  by (auto simp: find_threads_def Let_def gomap_simps threadRefresh_def second_def split: option.splits)

text \<open>What the collector may make of a domain, given the threads of every process.\<close>

definition proc_own :: "DomainSnapshot \<Rightarrow> vcpuThreads \<Rightarrow> VCPUStat list option \<Rightarrow> bool" where
  "proc_own snap vt own \<longleftrightarrow>
     (case own of
        None \<Rightarrow> d_Source snap = ''libvirt''
      | Some vs \<Rightarrow> d_Source snap \<noteq> ''libvirt'' \<and> map thread_of vs = known_threads (vt_tids vt))"

definition proc_made ::
  "proc_fs \<Rightarrow> (int \<Rightarrow> vcpuThreads) \<Rightarrow> DomainSnapshot \<Rightarrow> DomainSnapshot \<Rightarrow> DomainSnapshot \<Rightarrow> bool" where
  "proc_made fs vts snap d d' \<longleftrightarrow>
     (case proc_stat fs snap of
        None \<Rightarrow> d' = d
      | Some st \<Rightarrow> \<exists>minor major own. 0 \<le> minor \<and> 0 \<le> major \<and> proc_own snap (vts (d_PID snap)) own \<and>
          d' = proc_update (word_of_int (ps_ResidentMemory st sdiv 1024)) minor major own (vts (d_PID snap)) d)"

lemma own_vcpus_own: "proc_own snap vt (fst (run_state (own_vcpus fs snap now vt) r))"
  using threads_threadCPU[of fs "d_PID snap" now vt r]
  by (simp add: proc_own_def own_vcpus_def case_prod_unfold)

lemma run_fault_rates:
  "0 \<le> fst (fst (run_state (fault_rates pid now st) r))" "0 \<le> snd (fst (run_state (fault_rates pid now st) r))"
  by (simp_all add: fault_rates_def rate_value_nonneg)

lemma proc_domain_store:
  assumes "\<forall>p. snd (find_threads fs p now pc) = vts p"
  shows "proc_stat fs snap = None \<Longrightarrow> snd (proc_domain fs now ((pc, live), s) snap) = s"
    and "proc_stat fs snap = Some st \<Longrightarrow> \<exists>minor major own. 0 \<le> minor \<and> 0 \<le> major \<and> proc_own snap (vts (d_PID snap)) own \<and>
      snd (proc_domain fs now ((pc, live), s) snap) =
      fst (Mutate (d_ID snap) (proc_update (word_of_int (ps_ResidentMemory st sdiv 1024)) minor major own (vts (d_PID snap))) s)"
    and "\<forall>p. snd (find_threads fs p now (fst (fst (proc_domain fs now ((pc, live), s) snap)))) = vts p"
proof -
  show "proc_stat fs snap = None \<Longrightarrow> snd (proc_domain fs now ((pc, live), s) snap) = s"
    by (simp add: proc_domain_def Let_def)
  show "\<forall>p. snd (find_threads fs p now (fst (fst (proc_domain fs now ((pc, live), s) snap)))) = vts p"
    using assms by (auto simp: proc_domain_def Let_def case_prod_unfold find_threads_again split: option.splits)
  assume st: "proc_stat fs snap = Some st"
  let ?fr = "run_state (fault_rates (d_PID snap) now st) (pc_rates pc)"
  let ?ft = "find_threads fs (d_PID snap) now (pc\<lparr>pc_rates := snd ?fr\<rparr>)"
  have vt: "snd ?ft = vts (d_PID snap)" using assms find_threads_rates by metis
  show "\<exists>minor major own. 0 \<le> minor \<and> 0 \<le> major \<and> proc_own snap (vts (d_PID snap)) own \<and>
      snd (proc_domain fs now ((pc, live), s) snap) =
      fst (Mutate (d_ID snap) (proc_update (word_of_int (ps_ResidentMemory st sdiv 1024)) minor major own (vts (d_PID snap))) s)"
    using run_fault_rates own_vcpus_own[of snap "snd ?ft" fs now "pc_rates (fst ?ft)"] unfolding vt[symmetric]
    by (intro exI[of _ "fst (fst ?fr)"] exI[of _ "snd (fst ?fr)"] exI[of _ "fst (run_state (own_vcpus fs snap now (snd ?ft)) (pc_rates (fst ?ft)))"])
      (simp add: proc_domain_def Let_def st case_prod_unfold)
qed

interpretation proc: domain_loop "proc_domain fs now" "\<lambda>(pc, live). \<forall>p. snd (find_threads fs p now pc) = vts p" "proc_made fs vts"
proof
  fix c :: "ProcCollector \<times> int list" and s snap d i
  obtain pc live where c: "c = (pc, live)" by (cases c)
  let ?s' = "snd (proc_domain fs now (c, s) snap)"
  note store = proc_domain_store[of fs now pc "\<lambda>p. snd (find_threads fs p now pc)", simplified]
  show "case fst (proc_domain fs now (c, s) snap) of (pc, live) \<Rightarrow> \<forall>p. snd (find_threads fs p now pc) = vts p"
    if "case c of (pc, live) \<Rightarrow> \<forall>p. snd (find_threads fs p now pc) = vts p"
    using that proc_domain_store(3)[of fs now pc vts live s snap] by (simp add: c case_prod_unfold)
  show "i \<noteq> d_ID snap \<Longrightarrow> latest_of ?s' i = latest_of s i"
  proof (cases "proc_stat fs snap")
    case (Some st)
    then show "i \<noteq> d_ID snap \<Longrightarrow> latest_of ?s' i = latest_of s i"
      using store(2)[of snap st live s] by (auto simp: c latest_of_Mutate)
  qed (simp add: c store)
  show "latest_of s i = None \<Longrightarrow> latest_of ?s' i = None"
  proof (cases "proc_stat fs snap")
    case (Some st)
    then show "latest_of s i = None \<Longrightarrow> latest_of ?s' i = None"
      using store(2)[of snap st live s] by (auto simp: c latest_of_Mutate)
  qed (simp add: c store)
  assume inv: "case c of (pc, live) \<Rightarrow> \<forall>p. snd (find_threads fs p now pc) = vts p" and d: "latest_of s (d_ID snap) = Some d"
  have inv': "\<forall>p. snd (find_threads fs p now pc) = vts p" using inv by (simp add: c)
  show "\<exists>d'. latest_of ?s' (d_ID snap) = Some d' \<and> proc_made fs vts snap d d'"
  proof (cases "proc_stat fs snap")
    case None
    then show ?thesis using d proc_domain_store(1)[OF inv'] by (simp add: proc_made_def c)
  next
    case (Some st)
    from proc_domain_store(2)[OF inv' this, of live s] obtain minor major own where
      "0 \<le> minor" "0 \<le> major" "proc_own snap (vts (d_PID snap)) own"
      "?s' = fst (Mutate (d_ID snap) (proc_update (word_of_int (ps_ResidentMemory st sdiv 1024)) minor major own (vts (d_PID snap))) s)"
      unfolding c by blast
    then show ?thesis unfolding proc_made_def Some option.case by (simp add: latest_of_Mutate d) blast
  qed
qed

section \<open>What is left in a domain\<close>

lemma foldl_max_ge: "(n::int) \<le> foldl (\<lambda>n idx. max n (idx + 1)) n ks"
proof (induction ks arbitrary: n)
  case (Cons k ks)
  have "n \<le> max n (k + 1)" by simp
  also have "\<dots> \<le> foldl (\<lambda>n idx. max n (idx + 1)) (max n (k + 1)) ks" by (rule Cons)
  finally show ?case by simp
qed simp

lemma foldl_max_gt: "k \<in> set ks \<Longrightarrow> (k::int) < foldl (\<lambda>n idx. max n (idx + 1)) n ks"
proof (induction ks arbitrary: n)
  case (Cons x ks)
  then show ?case using foldl_max_ge[of "max n (x + 1)" ks] by (cases "k = x") simp_all
qed simp

lemma map_fst_known: "map fst (known_threads m) = filter (\<lambda>i. map_of m i \<noteq> None) [0..vcpu_count m - 1]"
proof -
  have "map fst (List.map_filter (\<lambda>idx. map_option (Pair idx) (map_of m idx)) is) = filter (\<lambda>i. map_of m i \<noteq> None) is" for "is"
    by (induction "is") (auto simp: List.map_filter_def)
  then show ?thesis by (simp add: known_threads_def)
qed

lemma known_threads_sorted: "sorted (map fst (known_threads m)) \<and> distinct (map fst (known_threads m))"
  unfolding map_fst_known using sorted_filter[of "\<lambda>i. i" "[0..vcpu_count m - 1]" "\<lambda>i. map_of m i \<noteq> None"] by simp

lemma in_known_threads: "(i, t) \<in> set (known_threads m) \<longleftrightarrow> 0 \<le> i \<and> map_of m i = Some t"
proof
  assume "0 \<le> i \<and> map_of m i = Some t"
  moreover then have "i < vcpu_count m" using foldl_max_gt[of i "mkeys m" 0] by (simp add: vcpu_count_def in_mkeys_iff)
  ultimately show "(i, t) \<in> set (known_threads m)"
    unfolding known_threads_def map_filter_Some by auto
qed (auto simp: known_threads_def map_filter_Some)

lemma Atoi_digits_nonneg: "\<forall>c \<in> set u. digit c \<Longrightarrow> Atoi u = Inr k \<Longrightarrow> 0 \<le> k"
  by (cases u) (auto simp: Atoi_def digit_def in_range_def Let_def split: sum.splits if_splits)

lemma vcpuIndex_nonneg: "vcpuIndex comm = (k, True) \<Longrightarrow> 0 \<le> k"
  unfolding vcpuIndex_iff using Atoi_digits_nonneg by fast

lemma length_merge_vcpus [simp]: "length (merge_vcpus old new) = length new"
  by (simp add: merge_vcpus_def)

lemma thread_of_update:
  assumes "map thread_of vs = known_threads (vt_tids vt)"
  shows "length (d_VCPUs (proc_update rss minor major (Some vs) vt d)) = length (known_threads (vt_tids vt))"
    and "map thread_of (d_VCPUs (proc_update rss minor major (Some vs) vt d)) = known_threads (vt_tids vt) \<longleftrightarrow>
      (\<forall>n < length (d_VCPUs d). n < length (known_threads (vt_tids vt)) \<longrightarrow>
        v_TID (d_VCPUs d ! n) = snd (known_threads (vt_tids vt) ! n) \<longrightarrow> v_Index (d_VCPUs d ! n) = fst (known_threads (vt_tids vt) ! n))"
proof -
  let ?k = "known_threads (vt_tids vt)" and ?new = "d_VCPUs (proc_update rss minor major (Some vs) vt d)" and ?old = "d_VCPUs d"
  let ?idx = "\<lambda>n. if n < length ?old \<and> v_TID (?old ! n) = snd (?k ! n) then v_Index (?old ! n) else fst (?k ! n)"
  have len: "length vs = length ?k" using arg_cong[OF assms, of length] by simp
  then show new: "length ?new = length ?k" by (simp add: proc_update_def merge_vcpus_def Let_def)
  have vs: "v_Index (vs ! n) = fst (?k ! n)" "v_TID (vs ! n) = snd (?k ! n)" if "n < length ?k" for n
    using that arg_cong[OF assms, of "\<lambda>xs. fst (xs ! n)"] arg_cong[OF assms, of "\<lambda>xs. snd (xs ! n)"] by (simp_all add: len)
  have at: "thread_of (?new ! n) = (?idx n, mget 0 (vt_tids vt) (?idx n))" if "n < length ?k" for n
    using that vs[OF that] len by (simp add: proc_update_def merge_vcpus_def nth_enumerate_eq Let_def)
  have tid: "mget 0 (vt_tids vt) (fst (?k ! n)) = snd (?k ! n)" if "n < length ?k" for n
    using nth_mem[OF that] in_known_threads[of "fst (?k ! n)" "snd (?k ! n)" "vt_tids vt"] by (simp add: mget_def)
  have "map thread_of ?new = ?k \<longleftrightarrow> (\<forall>n < length ?k. thread_of (?new ! n) = ?k ! n)"
    by (simp add: list_eq_iff_nth_eq new)
  also have "\<dots> \<longleftrightarrow> (\<forall>n < length ?k. ?idx n = fst (?k ! n))"
  proof (rule all_cong)
    fix n assume n: "n < length ?k"
    have "(?idx n, mget 0 (vt_tids vt) (?idx n)) = ?k ! n \<longleftrightarrow> ?idx n = fst (?k ! n)" using tid[OF n] by (auto simp: prod_eq_iff)
    then show "thread_of (?new ! n) = ?k ! n \<longleftrightarrow> ?idx n = fst (?k ! n)" unfolding at[OF n] .
  qed
  also have "\<dots> \<longleftrightarrow> (\<forall>n < length ?old. n < length ?k \<longrightarrow> v_TID (?old ! n) = snd (?k ! n) \<longrightarrow> v_Index (?old ! n) = fst (?k ! n))" by auto
  finally show "map thread_of ?new = ?k \<longleftrightarrow> \<dots>" .
qed

lemma ProcCollect_store:
  "snd (ProcCollect fs ord now (pc, s)) = snd (foldl (proc_domain fs now) ((pc, []), s) (Snapshot ord s))"
  by (simp add: ProcCollect_def Let_def case_prod_unfold)

lemma ProcCollect_domain:
  assumes "is_order ord" and "ids_ok s" and "\<And>d. latest_of s i = Some d \<Longrightarrow> clone d = d"
  shows "case latest_of s i of
      None \<Rightarrow> latest_of (snd (ProcCollect fs ord now (pc, s))) i = None
    | Some d \<Rightarrow> \<exists>d'. latest_of (snd (ProcCollect fs ord now (pc, s))) i = Some d' \<and>
        proc_made fs (\<lambda>p. snd (find_threads fs p now pc)) d d d'"
  unfolding ProcCollect_store
  using proc.walk[of fs now "\<lambda>p. snd (find_threads fs p now pc)" "(pc, [])", OF _ assms] by simp

text \<open>The thread cache only remembers processes of domains that are still there.\<close>

lemma ProcCollect_threads:
  assumes "map_of (pc_threads (fst (ProcCollect fs ord now (pc, s)))) pid = Some vt"
  shows "\<exists>d \<in> set (Snapshot ord s). d_PID d = pid \<and> 0 < pid"
proof -
  have live: "set (snd (fst (foldl (proc_domain fs now) ((pc, live), s) ds))) = set live \<union> {d_PID d |d. d \<in> set ds \<and> 0 < d_PID d}" for pc live s ds
  proof (induction ds arbitrary: pc live s)
    case (Cons d ds)
    obtain pc' live' s' where step: "proc_domain fs now ((pc, live), s) d = ((pc', live'), s')" by (metis prod.collapse)
    then have "set live' = set live \<union> (if 0 < d_PID d then {d_PID d} else {})"
      by (auto simp: proc_domain_def Let_def case_prod_unfold split: option.splits if_splits)
    then show ?case using Cons step by auto
  qed simp
  have keep: "k \<in> P" if "map_of (mfilter (\<lambda>k _. k \<in> P) m) k = Some v" for P :: "int set" and m :: "(int, vcpuThreads) gomap" and k v
    using that by (induction m) (auto simp: mfilter_def split: if_splits)
  from assms have "map_of (mfilter (\<lambda>k _. k \<in> set (snd (fst (foldl (proc_domain fs now) ((pc, []), s) (Snapshot ord s)))))
      (pc_threads (fst (fst (foldl (proc_domain fs now) ((pc, []), s) (Snapshot ord s)))))) pid = Some vt"
    by (simp add: ProcCollect_def Let_def case_prod_unfold)
  from keep[OF this] show ?thesis unfolding live by auto
qed

lemma map_of_add_threads:
  "map_of (foldl add_thread m ts) i =
    (case List.find (\<lambda>(t, c). map_option vcpuIndex c = Some (i, True)) (rev ts) of Some (t, c) \<Rightarrow> Some t | None \<Rightarrow> map_of m i)"
proof (induction ts rule: rev_induct)
  case (snoc x ts)
  obtain t c where x: "x = (t, c)" by (cases x)
  show ?case
  proof (cases c)
    case (Some comm)
    obtain k b where "vcpuIndex comm = (k, b)" by (cases "vcpuIndex comm")
    then show ?thesis using snoc by (cases b) (auto simp: x Some add_thread_def gomap_simps)
  qed (use snoc in \<open>simp add: x add_thread_def\<close>)
qed simp

end
