(* ===== verification/Libvirt.thy ===== *)
theory Libvirt
  imports Scan Domain_Loop Poller
begin

text \<open>
  \<open>internal/collect/libvirt.go\<close>: domains as libvirt reports them. What the daemon answers
  during one collection and what the XML decoder makes of a description are arguments;
  the enumerations of the client library appear by their names.
\<close>

section \<open>Names\<close>

datatype DomainState =
    DomainRunning | DomainBlocked | DomainPaused | DomainShutdown | DomainShutoff | DomainCrashed | DomainPmsuspended | OtherState int

datatype MemoryStatTag =
    StatActualBalloon | StatAvailable | StatUsable | StatUnused | StatRss | StatSwapIn | StatSwapOut | StatHugetlbPgfail | OtherStat int

datatype TypedParamValue =
    ParamInt32 int | ParamUint32 uint32 | ParamInt64 int | ParamUint64 uint64 | ParamFloat64 float64 | ParamOther

fun domainStateName :: "DomainState \<Rightarrow> string" where
  "domainStateName DomainRunning = ''running''"
| "domainStateName DomainBlocked = ''blocked''"
| "domainStateName DomainPaused = ''paused''"
| "domainStateName DomainShutdown = ''shutdown''"
| "domainStateName DomainShutoff = ''shut off''"
| "domainStateName DomainCrashed = ''crashed''"
| "domainStateName DomainPmsuspended = ''pmsuspended''"
| "domainStateName (OtherState n) = ''unknown''"

fun reason_names :: "DomainState \<Rightarrow> string list" where
  "reason_names DomainRunning = ['''', ''booted'', ''migrated'', ''restored'', ''from snapshot'', ''unpaused'',
     ''migration cancelled'', ''save cancelled'', ''wakeup'', ''crashed'', ''postcopy'', ''postcopy failed'']"
| "reason_names DomainPaused = ['''', ''user'', ''migration'', ''save'', ''dump'', ''ioerror'', ''watchdog'',
     ''from snapshot'', ''shutting down'', ''snapshot'', ''crashed'', ''starting up'',
     ''postcopy'', ''postcopy failed'', ''api error'']"
| "reason_names DomainShutoff = ['''', ''shutdown'', ''destroyed'', ''crashed'', ''migrated'', ''saved'',
     ''failed'', ''from snapshot'', ''daemon'']"
| "reason_names DomainCrashed = ['''', ''panicked'']"
| "reason_names _ = []"

definition domainStateReason :: "DomainState \<Rightarrow> int \<Rightarrow> string" where
  "domainStateReason state reason =
     (let names = reason_names state
      in if 0 \<le> reason \<and> reason < int (length names) then names ! nat reason else [])"

definition nonNeg :: "int \<Rightarrow> uint64" where
  "nonNeg v = (if v < 0 then 0 else word_of_int v)"

fun typedParamUint :: "TypedParamValue \<Rightarrow> uint64" where
  "typedParamUint (ParamInt32 x) = word_of_int (max x 0)"
| "typedParamUint (ParamUint32 x) = ucast x"
| "typedParamUint (ParamInt64 x) = word_of_int (max x 0)"
| "typedParamUint (ParamUint64 x) = x"
| "typedParamUint (ParamFloat64 x) = word_of_int \<lfloor>max x 0\<rfloor>"
| "typedParamUint ParamOther = 0"

definition jobOperation :: "uint64 \<Rightarrow> string" where
  "jobOperation op = (if op = 4 then ''migration-in'' else if op = 5 then ''migration-out'' else show_nat (unat op))"

text \<open>\<open>%x\<close> of bytes: two digits each.\<close>

definition hex_byte :: "8 word \<Rightarrow> string" where
  "hex_byte b = [digit_char (unat b div 16), digit_char (unat b mod 16)]"

definition hex_bytes :: "8 word list \<Rightarrow> string" where
  "hex_bytes bs = concat (map hex_byte bs)"

definition slice :: "'a list \<Rightarrow> nat \<Rightarrow> nat \<Rightarrow> 'a list" where
  "slice xs a b = take (b - a) (drop a xs)"

definition formatUUID :: "8 word list \<Rightarrow> string" where
  "formatUUID u = hex_bytes (slice u 0 4) @ ''-'' @ hex_bytes (slice u 4 6) @ ''-'' @ hex_bytes (slice u 6 8) @ ''-'' @
     hex_bytes (slice u 8 10) @ ''-'' @ hex_bytes (slice u 10 16)"

section \<open>The daemon\<close>

record LibvirtDomain =
  ld_Name :: string
  ld_UUID :: "8 word list"
  ld_ID :: int

record VcpuInfo =
  vi_Number :: uint32
  vi_CPUTime :: uint64
  vi_CPU :: int

record DiskXML =
  dx_Device :: string
  dx_File :: string
  dx_Dev :: string
  dx_Target :: string

record domainXML =
  dx_Disks :: "DiskXML list"
  dx_Interfaces :: "string list"

record IfaceCounters =
  ic_rxB :: int
  ic_rxP :: int
  ic_rxE :: int
  ic_rxD :: int
  ic_txB :: int
  ic_txP :: int
  ic_txE :: int
  ic_txD :: int

record BlockCounters =
  bc_rdReq :: int
  bc_rdB :: int
  bc_wrReq :: int
  bc_wrB :: int
  bc_errs :: int

text \<open>
  Errors are their messages; a failing \<open>DomainGetInfo\<close> reports no vCPUs. \<open>lv_ctxErr\<close> is the
  state of the context before each domain.
\<close>

record daemon =
  lv_IsConnected :: bool
  lv_Stat :: "string \<Rightarrow> bool"
  lv_Dial :: "string \<Rightarrow> string option"
  lv_Connect :: "string \<Rightarrow> string option"
  lv_ListAllDomains :: "string + LibvirtDomain list"
  lv_ctxErr :: "nat \<Rightarrow> string option"
  lv_GetState :: "LibvirtDomain \<Rightarrow> (DomainState \<times> int) option"
  lv_GetInfo :: "LibvirtDomain \<Rightarrow> (uint64 \<times> nat) option"
  lv_GetVcpus :: "LibvirtDomain \<Rightarrow> nat \<Rightarrow> VcpuInfo list option"
  lv_MemoryStats :: "LibvirtDomain \<Rightarrow> (MemoryStatTag \<times> uint64) list option"
  lv_XML :: "LibvirtDomain \<Rightarrow> domainXML option"
  lv_InterfaceStats :: "LibvirtDomain \<Rightarrow> string \<Rightarrow> IfaceCounters option"
  lv_BlockStats :: "LibvirtDomain \<Rightarrow> string \<Rightarrow> BlockCounters option"
  lv_GetJobStats :: "LibvirtDomain \<Rightarrow> (int \<times> (string \<times> TypedParamValue) list) option"

section \<open>The collector\<close>

record DiskSource =
  ds_Target :: string
  ds_Path :: string

record cachedXML =
  cx_domID :: int
  cx_fetched :: gtime
  cx_disks :: "DiskSource list"
  cx_ifaces :: "string list"
  cx_ifindex :: "(string, int) gomap"

text \<open>
  \<open>lc_l\<close> says whether there is a client; \<open>lc_periods\<close> collects the calls that set the period
  of the memory statistics.
\<close>

record LibvirtCollector =
  lc_sockets :: "string list"
  lc_l :: bool
  lc_sock :: string
  lc_rates :: rateTracker
  lc_xmlCache :: "(string, cachedXML) gomap"
  lc_statsPeriod :: "(string, int) gomap"
  lc_alive :: "string list"
  lc_pids :: "(string, int) gomap"
  lc_lastOK :: gtime
  lc_periods :: "LibvirtDomain list"

definition DefaultLibvirtSockets :: "string list" where
  "DefaultLibvirtSockets = [''/run/libvirt/libvirt-sock'', ''/run/libvirt/virtqemud-sock'',
     ''/run/libvirt/libvirt-sock-ro'', ''/run/libvirt/virtqemud-sock-ro'']"

definition xmlRefresh :: duration where
  "xmlRefresh = 30 * second"

definition NewLibvirtCollector :: "string list \<Rightarrow> LibvirtCollector" where
  "NewLibvirtCollector sockets =
     \<lparr>lc_sockets = (if sockets = [] then DefaultLibvirtSockets else sockets), lc_l = False, lc_sock = [], lc_rates = newRateTracker,
      lc_xmlCache = [], lc_statsPeriod = [], lc_alive = [], lc_pids = [], lc_lastOK = 0, lc_periods = []\<rparr>"

definition PIDs :: "LibvirtCollector \<Rightarrow> (int, bool) gomap" where
  "PIDs lc = foldl (\<lambda>out (_, pid). AList.update pid True out) [] (lc_pids lc)"

definition Connected :: "LibvirtCollector \<Rightarrow> string" where
  "Connected lc = (if lc_l lc then lc_sock lc else [])"

definition disconnect :: "LibvirtCollector \<Rightarrow> LibvirtCollector" where
  "disconnect lc = lc\<lparr>lc_l := False, lc_sock := []\<rparr>"

fun try_sockets :: "daemon \<Rightarrow> string list \<Rightarrow> string list \<Rightarrow> LibvirtCollector \<Rightarrow> LibvirtCollector \<times> string option" where
  "try_sockets w [] errs lc = (lc, Some (if errs = [] then ''no libvirt socket found'' else Join errs [CHR 0x0A]))"
| "try_sockets w (sock # socks) errs lc =
     (if \<not> lv_Stat w sock then try_sockets w socks errs lc
      else case lv_Dial w sock of
             Some err \<Rightarrow> try_sockets w socks (errs @ [sock @ '': '' @ err]) lc
           | None \<Rightarrow>
               (case lv_Connect w sock of
                  Some err \<Rightarrow> try_sockets w socks (errs @ [sock @ '': '' @ err]) lc
                | None \<Rightarrow> (lc\<lparr>lc_l := True, lc_sock := sock\<rparr>, None)))"

definition connect :: "daemon \<Rightarrow> LibvirtCollector \<Rightarrow> LibvirtCollector \<times> string option" where
  "connect w lc =
     (if lc_l lc \<and> lv_IsConnected w then (lc, None) else try_sockets w (lc_sockets lc) [] (disconnect lc))"

definition expirePIDs :: "gtime \<Rightarrow> LibvirtCollector \<Rightarrow> LibvirtCollector" where
  "expirePIDs now lc = (if discoveryGrace < time_sub now (lc_lastOK lc) then lc\<lparr>lc_pids := []\<rparr> else lc)"

text \<open>The pid file of a domain.\<close>

fun read_pid :: "procfs \<Rightarrow> string \<Rightarrow> string list \<Rightarrow> int" where
  "read_pid fs name [] = 0"
| "read_pid fs name (dir # dirs) =
     (case pf_ReadFile fs (path_join [dir, name @ ''.pid'']) of
        None \<Rightarrow> read_pid fs name dirs
      | Some b \<Rightarrow> (case Atoi (TrimSpace b) of
                     Inr pid \<Rightarrow> if 0 < pid then pid else read_pid fs name dirs
                   | Inl _ \<Rightarrow> read_pid fs name dirs))"

definition libvirtPID :: "procfs \<Rightarrow> string \<Rightarrow> int" where
  "libvirtPID fs name = read_pid fs name [''/run/libvirt/qemu'', ''/var/run/libvirt/qemu'']"

text \<open>The description of the devices, kept for half a minute or until the domain restarts.\<close>

definition xml_disk :: "DiskXML \<Rightarrow> DiskSource option" where
  "xml_disk k =
     (if dx_Target k = [] \<or> dx_Device k = ''cdrom'' \<or> dx_Device k = ''floppy'' then None
      else Some \<lparr>ds_Target = dx_Target k, ds_Path = (if dx_File k = [] then dx_Dev k else dx_File k)\<rparr>)"

definition cache_xml :: "procfs \<Rightarrow> LibvirtDomain \<Rightarrow> gtime \<Rightarrow> domainXML \<Rightarrow> cachedXML" where
  "cache_xml fs d now dx =
     (let names = filter (\<lambda>n. n \<noteq> []) (dx_Interfaces dx)
      in \<lparr>cx_domID = ld_ID d, cx_fetched = now, cx_disks = List.map_filter xml_disk (dx_Disks dx), cx_ifaces = names,
          cx_ifindex = foldl (\<lambda>m n. AList.update n (sint (readUint fs (path_join [''/sys/class/net'', n, ''ifindex'']))) m) [] names\<rparr>)"

definition get_xml :: "procfs \<Rightarrow> daemon \<Rightarrow> LibvirtDomain \<Rightarrow> string \<Rightarrow> gtime \<Rightarrow> LibvirtCollector \<Rightarrow> LibvirtCollector \<times> cachedXML option" where
  "get_xml fs w d uuid now lc =
     (let c = map_of (lc_xmlCache lc) uuid
      in if (case c of None \<Rightarrow> False | Some x \<Rightarrow> cx_domID x = ld_ID d \<and> time_sub now (cx_fetched x) < xmlRefresh) then (lc, c)
         else case lv_XML w d of
                None \<Rightarrow> (lc, c)
              | Some dx \<Rightarrow> (lc\<lparr>lc_xmlCache := AList.update uuid (cache_xml fs d now dx) (lc_xmlCache lc)\<rparr>, Some (cache_xml fs d now dx)))"

definition DiskSources :: "string \<Rightarrow> LibvirtCollector \<Rightarrow> DiskSource list" where
  "DiskSources i lc = (case map_of (lc_xmlCache lc) i of None \<Rightarrow> [] | Some c \<Rightarrow> [] @ cx_disks c)"

section \<open>Statistics of a running domain\<close>

definition vcpu_stat :: "string \<Rightarrow> gtime \<Rightarrow> VcpuInfo \<Rightarrow> (rateTracker, VCPUStat) state" where
  "vcpu_stat uuid now info =
     do {
       r \<leftarrow> rateM (uuid @ ''/vcpu'' @ show_nat (unat (vi_Number info))) (float_of_uint64 (vi_CPUTime info)) now;
       State_Monad.return \<lparr>v_Index = int (unat (vi_Number info)), v_TID = 0, v_CPUPercent = r / 10 ^ 7, v_HostCPU = vi_CPU info,
         v_ExitRate = 0, v_RunqAvgUs = 0, v_RunqP99Us = 0, v_RunqMaxUs = 0, v_HaltWaitRate = 0\<rparr>
     }"

definition memory_stat :: "string \<Rightarrow> gtime \<Rightarrow> MemStat \<Rightarrow> MemoryStatTag \<times> uint64 \<Rightarrow> (rateTracker, MemStat) state" where
  "memory_stat uuid now m ms =
     (let v = snd ms
      in case fst ms of
           StatActualBalloon \<Rightarrow> State_Monad.return (m\<lparr>m_BalloonKiB := v\<rparr>)
         | StatAvailable \<Rightarrow> State_Monad.return (m\<lparr>m_AvailableKiB := v\<rparr>)
         | StatUsable \<Rightarrow> State_Monad.return (m\<lparr>m_UsableKiB := v\<rparr>)
         | StatUnused \<Rightarrow> State_Monad.return (m\<lparr>m_UnusedKiB := v\<rparr>)
         | StatRss \<Rightarrow> State_Monad.return (m\<lparr>m_RssKiB := v\<rparr>)
         | StatSwapIn \<Rightarrow> do { r \<leftarrow> rateM (uuid @ ''/swapin'') (float_of_uint64 v) now; State_Monad.return (m\<lparr>m_SwapInRate := r\<rparr>) }
         | StatSwapOut \<Rightarrow> do { r \<leftarrow> rateM (uuid @ ''/swapout'') (float_of_uint64 v) now; State_Monad.return (m\<lparr>m_SwapOutRate := r\<rparr>) }
         | StatHugetlbPgfail \<Rightarrow> State_Monad.return (m\<lparr>m_HugetlbFail := v\<rparr>)
         | OtherStat _ \<Rightarrow> State_Monad.return m)"

fun memory_stats :: "string \<Rightarrow> gtime \<Rightarrow> MemStat \<Rightarrow> (MemoryStatTag \<times> uint64) list \<Rightarrow> (rateTracker, MemStat) state" where
  "memory_stats uuid now m [] = State_Monad.return m"
| "memory_stats uuid now m (ms # mss) = do { m' \<leftarrow> memory_stat uuid now m ms; memory_stats uuid now m' mss }"

definition iface_stat :: "daemon \<Rightarrow> LibvirtDomain \<Rightarrow> string \<Rightarrow> gtime \<Rightarrow> cachedXML \<Rightarrow> string \<Rightarrow> (rateTracker, IfaceStat option) state" where
  "iface_stat w d uuid now x ifname =
     (case lv_InterfaceStats w d ifname of
        None \<Rightarrow> State_Monad.return None
      | Some c \<Rightarrow>
          let k = uuid @ ''/net/'' @ ifname
          in do {
               rxb \<leftarrow> rateM (k @ ''/rxb'') (of_int (ic_rxB c)) now;
               txb \<leftarrow> rateM (k @ ''/txb'') (of_int (ic_txB c)) now;
               rxp \<leftarrow> rateM (k @ ''/rxp'') (of_int (ic_rxP c)) now;
               txp \<leftarrow> rateM (k @ ''/txp'') (of_int (ic_txP c)) now;
               drop \<leftarrow> rateM (k @ ''/drop'') (float_of_uint64 (nonNeg (ic_rxD c) + nonNeg (ic_txD c))) now;
               State_Monad.return (Some (zero_iface\<lparr>i_Name := ifname, i_Ifindex := mget 0 (cx_ifindex x) ifname,
                 i_RxBps := rxb, i_TxBps := txb, i_RxPps := rxp, i_TxPps := txp, i_RxErrs := nonNeg (ic_rxE c), i_TxErrs := nonNeg (ic_txE c),
                 i_RxDrops := nonNeg (ic_rxD c), i_TxDrops := nonNeg (ic_txD c), i_DropRate := drop\<rparr>))
             })"

definition disk_stat :: "daemon \<Rightarrow> LibvirtDomain \<Rightarrow> string \<Rightarrow> gtime \<Rightarrow> DiskSource \<Rightarrow> (rateTracker, DiskStat option) state" where
  "disk_stat w d uuid now disk =
     (case lv_BlockStats w d (ds_Target disk) of
        None \<Rightarrow> State_Monad.return None
      | Some c \<Rightarrow>
          let k = uuid @ ''/blk/'' @ ds_Target disk
          in do {
               rdb \<leftarrow> rateM (k @ ''/rdb'') (of_int (bc_rdB c)) now;
               wrb \<leftarrow> rateM (k @ ''/wrb'') (of_int (bc_wrB c)) now;
               rdr \<leftarrow> rateM (k @ ''/rdr'') (of_int (bc_rdReq c)) now;
               wrr \<leftarrow> rateM (k @ ''/wrr'') (of_int (bc_wrReq c)) now;
               State_Monad.return (Some \<lparr>k_Dev = ds_Target disk, k_RdBps = rdb, k_WrBps = wrb, k_RdIOPS = rdr, k_WrIOPS = wrr, k_ErrsTotal = bc_errs c\<rparr>)
             })"

definition job_status :: "int \<Rightarrow> string" where
  "job_status typ = mget [] [(1, ''active''), (2, ''active''), (3, ''completed''), (4, ''failed''), (5, ''cancelled'')] typ"

definition jobStats :: "daemon \<Rightarrow> LibvirtDomain \<Rightarrow> MigrationStat option" where
  "jobStats w d =
     (case lv_GetJobStats w d of
        None \<Rightarrow> None
      | Some (typ, params) \<Rightarrow>
          if typ = 0 then None
          else let p = foldl (\<lambda>m (f, v). AList.update f (typedParamUint v) m) [] params;
                   op = jobOperation (mget 0 p ''operation'')
               in if op \<noteq> ''migration-out'' \<and> op \<noteq> ''migration-in'' then None
                  else Some \<lparr>mig_Status = job_status typ, mig_Operation = op, mig_ElapsedMs = mget 0 p ''time_elapsed'',
                    mig_MemTotal = mget 0 p ''memory_total'', mig_MemProcessed = mget 0 p ''memory_processed'',
                    mig_MemRemaining = mget 0 p ''memory_remaining'', mig_DirtyPageRate = mget 0 p ''memory_dirty_rate'',
                    mig_Bps = mget 0 p ''memory_bps'', mig_ExpectedDownMs = mget 0 p ''downtime''\<rparr>)"

definition with_rates :: "(rateTracker, 'a) state \<Rightarrow> LibvirtCollector \<Rightarrow> LibvirtCollector \<times> 'a" where
  "with_rates m lc = (let (x, r) = run_state m (lc_rates lc) in (lc\<lparr>lc_rates := r\<rparr>, x))"

definition running_vcpus :: "daemon \<Rightarrow> LibvirtDomain \<Rightarrow> string \<Rightarrow> nat \<Rightarrow> gtime \<Rightarrow> (rateTracker, VCPUStat list) state" where
  "running_vcpus w d uuid nrVCPU now =
     (if nrVCPU = 0 then State_Monad.return []
      else case lv_GetVcpus w d nrVCPU of
             None \<Rightarrow> State_Monad.return []
           | Some infos \<Rightarrow> State_Monad.traverse_list (vcpu_stat uuid now) infos)"

definition set_period :: "LibvirtDomain \<Rightarrow> string \<Rightarrow> LibvirtCollector \<Rightarrow> LibvirtCollector" where
  "set_period d uuid lc =
     (if mget 0 (lc_statsPeriod lc) uuid \<noteq> ld_ID d
      then lc\<lparr>lc_periods := lc_periods lc @ [d], lc_statsPeriod := AList.update uuid (ld_ID d) (lc_statsPeriod lc)\<rparr> else lc)"

definition device_stats :: "daemon \<Rightarrow> LibvirtDomain \<Rightarrow> string \<Rightarrow> gtime \<Rightarrow> cachedXML option \<Rightarrow> (rateTracker, IfaceStat list \<times> DiskStat list) state" where
  "device_stats w d uuid now c =
     (case c of
        None \<Rightarrow> State_Monad.return ([], [])
      | Some x \<Rightarrow> do {
          ifaces \<leftarrow> State_Monad.traverse_list (iface_stat w d uuid now x) (cx_ifaces x);
          disks \<leftarrow> State_Monad.traverse_list (disk_stat w d uuid now) (cx_disks x);
          State_Monad.return (List.map_filter (\<lambda>o'. o') ifaces, List.map_filter (\<lambda>o'. o') disks)
        })"

definition collectRunning ::
  "procfs \<Rightarrow> daemon \<Rightarrow> LibvirtDomain \<Rightarrow> string \<Rightarrow> nat \<Rightarrow> gtime \<Rightarrow> LibvirtCollector \<times> DomainSnapshot \<Rightarrow> LibvirtCollector \<times> DomainSnapshot" where
  "collectRunning fs w d uuid nrVCPU now x =
     (let (lc, snap) = x;
          (lc, vcpus) = with_rates (running_vcpus w d uuid nrVCPU now) lc;
          lc = set_period d uuid lc;
          (lc, mem) = (case lv_MemoryStats w d of
                         None \<Rightarrow> (lc, d_Mem snap)
                       | Some stats \<Rightarrow> with_rates (memory_stats uuid now (d_Mem snap) stats) lc);
          (lc, c) = get_xml fs w d uuid now lc;
          (lc, ifaces, disks) = with_rates (device_stats w d uuid now c) lc
      in (lc, snap\<lparr>d_VCPUs := vcpus, d_Mem := mem, d_Ifaces := ifaces, d_Disks := disks, d_Migration := jobStats w d\<rparr>))"

section \<open>Merging and collecting\<close>

definition merge_vcpu :: "VCPUStat list \<Rightarrow> nat \<times> VCPUStat \<Rightarrow> VCPUStat" where
  "merge_vcpu old iv =
     (let (i, v) = iv
      in if i < length old then (old ! i)\<lparr>v_Index := v_Index v, v_CPUPercent := v_CPUPercent v, v_HostCPU := v_HostCPU v\<rparr> else v)"

definition merge_mem :: "MemStat \<Rightarrow> MemStat \<Rightarrow> MemStat" where
  "merge_mem cur n =
     (let m = (if 0 < m_RssKiB cur then n\<lparr>m_RssKiB := m_RssKiB cur\<rparr> else n)
      in m\<lparr>m_MinorFltRate := m_MinorFltRate cur, m_MajorFltRate := m_MajorFltRate cur\<rparr>)"

definition mergeLibvirt :: "DomainSnapshot \<Rightarrow> DomainSnapshot \<Rightarrow> DomainSnapshot" where
  "mergeLibvirt n cur =
     (let cur = cur\<lparr>d_Name := d_Name n, d_UUID := d_UUID n, d_Source := d_Source n, d_PID := d_PID n, d_State := d_State n,
                    d_Reason := d_Reason n, d_Migration := d_Migration n, d_Mem := merge_mem (d_Mem cur) (d_Mem n),
                    d_VCPUs := map (merge_vcpu (d_VCPUs cur)) (enumerate 0 (d_VCPUs n)),
                    d_Ifaces := d_Ifaces n, d_Disks := d_Disks n\<rparr>
      in if \<not> Running n \<and> d_State n \<noteq> ''paused'' then cur\<lparr>d_KVM := zero_kvm\<rparr> else cur)"

record libvirt_loop =
  ll_lc :: LibvirtCollector
  ll_alive :: "string list"
  ll_pids :: "(string, int) gomap"
  ll_seen :: "string list"
  ll_store :: DomainStore

definition domain_pid :: "procfs \<Rightarrow> int range_order \<Rightarrow> ProcessIndex option \<Rightarrow> string \<Rightarrow> string \<Rightarrow> int" where
  "domain_pid fs ord index uuid name =
     (let pid = libvirtPID fs name
      in if pid = 0 then (case index of None \<Rightarrow> 0 | Some ix \<Rightarrow> (case ByUUID ord uuid ix of (p, True) \<Rightarrow> kp_PID p | (_, False) \<Rightarrow> 0))
         else pid)"

definition libvirt_snapshot ::
  "procfs \<Rightarrow> int range_order \<Rightarrow> daemon \<Rightarrow> gtime \<Rightarrow> ProcessIndex option \<Rightarrow> LibvirtDomain \<Rightarrow> DomainState \<Rightarrow> int \<Rightarrow> LibvirtCollector \<Rightarrow>
   LibvirtCollector \<times> DomainSnapshot" where
  "libvirt_snapshot fs ord w now index d state reason lc =
     (let uuid = formatUUID (ld_UUID d);
          snap = zero_snapshot\<lparr>d_ID := uuid, d_Name := ld_Name d, d_UUID := uuid, d_Source := ''libvirt'',
                   d_State := domainStateName state, d_Reason := domainStateReason state reason\<rparr>;
          (snap, nrVCPU) = (case lv_GetInfo w d of
                              None \<Rightarrow> (snap, 0)
                            | Some (maxMem, nr) \<Rightarrow> (snap\<lparr>d_Mem := (d_Mem snap)\<lparr>m_MaxKiB := maxMem\<rparr>\<rparr>, nr))
      in if state = DomainRunning \<or> state = DomainPaused
         then collectRunning fs w d uuid nrVCPU now (lc, snap\<lparr>d_PID := domain_pid fs ord index uuid (ld_Name d)\<rparr>)
         else (lc, snap))"

text \<open>A domain that is neither running nor paused has no pid.\<close>

definition libvirt_domain ::
  "procfs \<Rightarrow> int range_order \<Rightarrow> daemon \<Rightarrow> gtime \<Rightarrow> ProcessIndex option \<Rightarrow> libvirt_loop \<Rightarrow> LibvirtDomain \<Rightarrow> libvirt_loop" where
  "libvirt_domain fs ord w now index acc d =
     (let uuid = formatUUID (ld_UUID d); acc = acc\<lparr>ll_seen := ll_seen acc @ [uuid]\<rparr>
      in case lv_GetState w d of
           None \<Rightarrow> acc
         | Some (state, reason) \<Rightarrow>
             let (lc, snap) = libvirt_snapshot fs ord w now index d state reason (ll_lc acc)
             in acc\<lparr>ll_lc := lc, ll_alive := ll_alive acc @ [uuid],
                    ll_pids := (if 0 < d_PID snap then AList.update uuid (d_PID snap) (ll_pids acc) else ll_pids acc),
                    ll_store := Upsert uuid (mergeLibvirt snap) (ll_store acc)\<rparr>)"

fun libvirt_domains ::
  "procfs \<Rightarrow> int range_order \<Rightarrow> daemon \<Rightarrow> gtime \<Rightarrow> ProcessIndex option \<Rightarrow> nat \<Rightarrow> libvirt_loop \<Rightarrow> LibvirtDomain list \<Rightarrow> libvirt_loop \<times> string option" where
  "libvirt_domains fs ord w now index n acc [] = (acc, None)"
| "libvirt_domains fs ord w now index n acc (d # ds) =
     (case lv_ctxErr w n of
        Some err \<Rightarrow> (acc, Some err)
      | None \<Rightarrow> libvirt_domains fs ord w now index (n + 1) (libvirt_domain fs ord w now index acc d) ds)"

definition forget_unseen :: "string list \<Rightarrow> LibvirtCollector \<Rightarrow> LibvirtCollector" where
  "forget_unseen seen lc =
     lc\<lparr>lc_statsPeriod := mfilter (\<lambda>uuid _. uuid \<in> set seen \<or> map_of (lc_xmlCache lc) uuid = None) (lc_statsPeriod lc),
        lc_xmlCache := mfilter (\<lambda>uuid _. uuid \<in> set seen) (lc_xmlCache lc)\<rparr>"

definition LibvirtCollect ::
  "procfs \<Rightarrow> int range_order \<Rightarrow> daemon \<Rightarrow> gtime \<Rightarrow> LibvirtCollector \<times> ProcessIndex option \<times> DomainStore \<Rightarrow>
   (LibvirtCollector \<times> ProcessIndex option \<times> DomainStore) \<times> string option" where
  "LibvirtCollect fs ord w now x =
     (let (lc, index, s) = x
      in case connect w lc of
           (lc, Some err) \<Rightarrow> ((expirePIDs now lc, index, s), Some (''libvirt unavailable: '' @ err))
         | (lc, None) \<Rightarrow>
             (case lv_ListAllDomains w of
                Inl err \<Rightarrow> ((expirePIDs now (disconnect lc), index, s), Some err)
              | Inr domains \<Rightarrow>
                  let index = map_option (Refresh fs now) index
                  in case libvirt_domains fs ord w now index 0
                            \<lparr>ll_lc = lc, ll_alive = [], ll_pids = [], ll_seen = [], ll_store = s\<rparr> domains of
                       (acc, Some err) \<Rightarrow> ((ll_lc acc, index, ll_store acc), Some err)
                     | (acc, None) \<Rightarrow>
                         let lc = forget_unseen (ll_seen acc) (ll_lc acc)
                         in ((lc\<lparr>lc_rates := sweep (lc_rates lc), lc_alive := ll_alive acc, lc_pids := ll_pids acc, lc_lastOK := now\<rparr>,
                              index, ll_store acc), None)))"

section \<open>Identities\<close>

lemma of_char_digit_char: "n < 16 \<Longrightarrow> of_char (digit_char n) = (if n < 10 then 48 + n else 87 + n)"
  by (auto simp: digit_char_def)

lemma digit_char_inj: "a < 16 \<Longrightarrow> b < 16 \<Longrightarrow> digit_char a = digit_char b \<longleftrightarrow> a = b"
proof
  assume ab: "a < 16" "b < 16" and "digit_char a = digit_char b"
  then have "(of_char (digit_char a) :: nat) = of_char (digit_char b)" by simp
  then show "a = b" unfolding of_char_digit_char[OF ab(1)] of_char_digit_char[OF ab(2)] by (simp split: if_splits)
qed simp

lemma hex_digits: "unat (x :: 8 word) div 16 < 16" "unat (x :: 8 word) mod 16 < 16"
  using unsigned_less[of x, where ?'a = nat] by (simp_all add: less_mult_imp_div_less)

lemma hex_byte_inj: "hex_byte a = hex_byte b \<Longrightarrow> a = b"
proof -
  assume "hex_byte a = hex_byte b"
  then have "unat a div 16 = unat b div 16" "unat a mod 16 = unat b mod 16"
    using digit_char_inj hex_digits by (simp_all add: hex_byte_def)
  then show "a = b" by (metis div_mult_mod_eq word_unat_eq_iff)
qed

lemma hex_bytes_append: "hex_bytes (xs @ ys) = hex_bytes xs @ hex_bytes ys"
  by (simp add: hex_bytes_def)

lemma length_hex_bytes [simp]: "length (hex_bytes bs) = 2 * length bs"
  by (induction bs) (simp_all add: hex_bytes_def hex_byte_def)

lemma hex_bytes_inj: "hex_bytes as = hex_bytes bs \<Longrightarrow> as = bs"
proof (induction as arbitrary: bs)
  case Nil
  then show ?case by (cases bs) (simp_all add: hex_bytes_def hex_byte_def)
next
  case (Cons a as)
  then show ?case
  proof (cases bs)
    case (Cons b bs')
    then have "hex_byte a = hex_byte b" "hex_bytes as = hex_bytes bs'" using Cons.prems by (simp_all add: hex_bytes_def hex_byte_def)
    then show ?thesis using Cons.IH[of bs'] hex_byte_inj Cons by simp
  qed (simp add: hex_bytes_def hex_byte_def)
qed

lemma slice_join: "a \<le> b \<Longrightarrow> b \<le> c \<Longrightarrow> slice xs a b @ slice xs b c = slice xs a c"
  using take_add[of "b - a" "c - b" "drop a xs"] by (simp add: slice_def)

lemma slices_join: "length u = 16 \<Longrightarrow> slice u 0 4 @ slice u 4 6 @ slice u 6 8 @ slice u 8 10 @ slice u 10 16 = u"
  by (simp add: slice_join) (simp add: slice_def)

lemma formatUUID_inj:
  assumes "length u = 16" and "length v = 16" and "formatUUID u = formatUUID v"
  shows "u = v"
proof -
  have len: "length (slice x a b) = b - a" if "length x = 16" "b \<le> 16" for x :: "8 word list" and a b
    using that by (simp add: slice_def)
  have "hex_bytes (slice u 0 4) = hex_bytes (slice v 0 4)" "hex_bytes (slice u 4 6) = hex_bytes (slice v 4 6)"
    "hex_bytes (slice u 6 8) = hex_bytes (slice v 6 8)" "hex_bytes (slice u 8 10) = hex_bytes (slice v 8 10)"
    "hex_bytes (slice u 10 16) = hex_bytes (slice v 10 16)"
    using assms(3) len[OF assms(1)] len[OF assms(2)] by (simp_all add: formatUUID_def)
  then show ?thesis using slices_join[OF assms(1)] slices_join[OF assms(2)] hex_bytes_inj by metis
qed

lemma digit_char_not_p: "n < 16 \<Longrightarrow> digit_char n \<noteq> CHR ''p''"
proof
  assume n: "n < 16" and "digit_char n = CHR ''p''"
  then have "of_char (digit_char n) = (112 :: nat)" by simp
  then show False unfolding of_char_digit_char[OF n] using n by (simp split: if_splits)
qed

lemma not_p_hex_bytes: "CHR ''p'' \<notin> set (hex_bytes bs)"
  using digit_char_not_p[OF hex_digits(1)] digit_char_not_p[OF hex_digits(2)]
  by (auto simp: hex_bytes_def hex_byte_def dest: sym)

text \<open>An identity made from a UUID is never one of a scanned process.\<close>

lemma formatUUID_not_scan_id: "formatUUID u \<noteq> scan_id p"
proof
  assume "formatUUID u = scan_id p"
  moreover have "CHR ''p'' \<notin> set (formatUUID u)" using not_p_hex_bytes by (simp add: formatUUID_def)
  ultimately show False by (simp add: scan_id_def)
qed

section \<open>What a collection reports\<close>

definition reported :: "daemon \<Rightarrow> LibvirtDomain list \<Rightarrow> LibvirtDomain list" where
  "reported w ds = filter (\<lambda>d. lv_GetState w d \<noteq> None) ds"

definition uuid_of :: "LibvirtDomain \<Rightarrow> string" where
  "uuid_of d = formatUUID (ld_UUID d)"

definition live_state :: "daemon \<Rightarrow> LibvirtDomain \<Rightarrow> bool" where
  "live_state w d \<longleftrightarrow> (case lv_GetState w d of None \<Rightarrow> False | Some (state, _) \<Rightarrow> state = DomainRunning \<or> state = DomainPaused)"

definition snap_of :: "procfs \<Rightarrow> int range_order \<Rightarrow> daemon \<Rightarrow> ProcessIndex option \<Rightarrow> LibvirtDomain \<Rightarrow> DomainSnapshot \<Rightarrow> bool" where
  "snap_of fs ord w index d snap \<longleftrightarrow>
     d_ID snap = uuid_of d \<and> d_UUID snap = uuid_of d \<and> d_Name snap = ld_Name d \<and> d_Source snap = ''libvirt'' \<and>
     (\<exists>state reason. lv_GetState w d = Some (state, reason) \<and> d_State snap = domainStateName state \<and>
       d_Reason snap = domainStateReason state reason) \<and>
     d_PID snap = (if live_state w d then domain_pid fs ord index (uuid_of d) (ld_Name d) else 0)"

lemma collectRunning_keeps:
  "d_ID (snd (collectRunning fs w d uuid nr now (lc, snap))) = d_ID snap"
  "d_UUID (snd (collectRunning fs w d uuid nr now (lc, snap))) = d_UUID snap"
  "d_Name (snd (collectRunning fs w d uuid nr now (lc, snap))) = d_Name snap"
  "d_Source (snd (collectRunning fs w d uuid nr now (lc, snap))) = d_Source snap"
  "d_State (snd (collectRunning fs w d uuid nr now (lc, snap))) = d_State snap"
  "d_Reason (snd (collectRunning fs w d uuid nr now (lc, snap))) = d_Reason snap"
  "d_PID (snd (collectRunning fs w d uuid nr now (lc, snap))) = d_PID snap"
  by (simp_all add: collectRunning_def Let_def case_prod_unfold)

lemma libvirt_snapshot_snap:
  assumes "lv_GetState w d = Some (state, reason)"
  shows "snap_of fs ord w index d (snd (libvirt_snapshot fs ord w now index d state reason lc))"
  using assms unfolding snap_of_def libvirt_snapshot_def Let_def
  by (auto simp: live_state_def uuid_of_def collectRunning_keeps zero_snapshot_def split: option.splits)

lemma libvirt_domain_silent:
  assumes "lv_GetState w d = None"
  shows "libvirt_domain fs ord w now index acc d = acc\<lparr>ll_seen := ll_seen acc @ [uuid_of d]\<rparr>"
  using assms by (simp add: libvirt_domain_def uuid_of_def)

lemma libvirt_domain_known:
  assumes "lv_GetState w d \<noteq> None"
  obtains snap where "snap_of fs ord w index d snap"
    "ll_store (libvirt_domain fs ord w now index acc d) = Upsert (uuid_of d) (mergeLibvirt snap) (ll_store acc)"
    "ll_alive (libvirt_domain fs ord w now index acc d) = ll_alive acc @ [uuid_of d]"
    "ll_pids (libvirt_domain fs ord w now index acc d) =
      (if 0 < d_PID snap then AList.update (uuid_of d) (d_PID snap) (ll_pids acc) else ll_pids acc)"
proof -
  obtain state reason where st: "lv_GetState w d = Some (state, reason)" using assms by auto
  show thesis
    by (rule that[OF libvirt_snapshot_snap[OF st, of fs ord index now "ll_lc acc"]])
      (simp_all add: libvirt_domain_def st Let_def case_prod_unfold uuid_of_def)
qed

lemma reported_Cons: "reported w (d # ds) = (if lv_GetState w d = None then reported w ds else d # reported w ds)"
  by (simp add: reported_def)

definition merged :: "DomainSnapshot \<Rightarrow> string \<Rightarrow> DomainSnapshot option \<Rightarrow> DomainSnapshot" where
  "merged snap i old = mergeLibvirt snap (case old of None \<Rightarrow> zero_snapshot\<lparr>d_ID := i\<rparr> | Some d \<Rightarrow> d)"

text \<open>The outcome of the loop, from what was there before it.\<close>

definition same_at :: "string \<Rightarrow> libvirt_loop \<Rightarrow> libvirt_loop \<Rightarrow> bool" where
  "same_at i acc acc' \<longleftrightarrow> latest_of (ll_store acc') i = latest_of (ll_store acc) i \<and> map_of (ll_pids acc') i = map_of (ll_pids acc) i"

definition domain_done ::
  "procfs \<Rightarrow> int range_order \<Rightarrow> daemon \<Rightarrow> ProcessIndex option \<Rightarrow> libvirt_loop \<Rightarrow> libvirt_loop \<Rightarrow> LibvirtDomain \<Rightarrow> bool" where
  "domain_done fs ord w index acc acc' d \<longleftrightarrow>
     (\<exists>snap. snap_of fs ord w index d snap \<and>
       latest_of (ll_store acc') (uuid_of d) = Some (merged snap (uuid_of d) (latest_of (ll_store acc) (uuid_of d))) \<and>
       map_of (ll_pids acc') (uuid_of d) = (if 0 < d_PID snap then Some (d_PID snap) else map_of (ll_pids acc) (uuid_of d)))"

definition loop_done ::
  "procfs \<Rightarrow> int range_order \<Rightarrow> daemon \<Rightarrow> ProcessIndex option \<Rightarrow> LibvirtDomain list \<Rightarrow> libvirt_loop \<Rightarrow> libvirt_loop \<Rightarrow> bool" where
  "loop_done fs ord w index ds acc acc' \<longleftrightarrow>
     ll_alive acc' = ll_alive acc @ map uuid_of (reported w ds) \<and>
     (\<forall>i. i \<notin> uuid_of ` set (reported w ds) \<longrightarrow> same_at i acc acc') \<and>
     (\<forall>d \<in> set (reported w ds). domain_done fs ord w index acc acc' d)"

lemma domain_done_cong:
  "same_at (uuid_of d) acc1 acc2 \<Longrightarrow> domain_done fs ord w index acc2 acc' d \<longleftrightarrow> domain_done fs ord w index acc1 acc' d"
  "same_at (uuid_of d) acc' acc'' \<Longrightarrow> domain_done fs ord w index acc acc'' d \<longleftrightarrow> domain_done fs ord w index acc acc' d"
  by (simp_all add: same_at_def domain_done_def)

lemma same_at_refl [simp]: "same_at i acc acc"
  by (simp add: same_at_def)

lemma same_at_trans: "same_at i acc1 acc2 \<Longrightarrow> same_at i acc2 acc3 \<Longrightarrow> same_at i acc1 acc3"
  by (simp add: same_at_def)

lemma libvirt_domain_done:
  assumes "lv_GetState w d \<noteq> None"
  shows "domain_done fs ord w index acc (libvirt_domain fs ord w now index acc d) d"
    and "i \<noteq> uuid_of d \<Longrightarrow> same_at i acc (libvirt_domain fs ord w now index acc d)"
    and "ll_alive (libvirt_domain fs ord w now index acc d) = ll_alive acc @ [uuid_of d]"
proof -
  let ?acc = "libvirt_domain fs ord w now index acc d"
  obtain snap where snap: "snap_of fs ord w index d snap"
    "ll_store ?acc = Upsert (uuid_of d) (mergeLibvirt snap) (ll_store acc)" "ll_alive ?acc = ll_alive acc @ [uuid_of d]"
    "ll_pids ?acc = (if 0 < d_PID snap then AList.update (uuid_of d) (d_PID snap) (ll_pids acc) else ll_pids acc)"
    using libvirt_domain_known[OF assms] by blast
  show "domain_done fs ord w index acc ?acc d"
    unfolding domain_done_def by (rule exI[of _ snap]) (simp add: snap latest_of_Upsert merged_def gomap_simps)
  show "i \<noteq> uuid_of d \<Longrightarrow> same_at i acc ?acc" by (simp add: same_at_def snap latest_of_Upsert gomap_simps)
  show "ll_alive ?acc = ll_alive acc @ [uuid_of d]" by (rule snap(3))
qed

lemma loop_done_step:
  assumes known: "lv_GetState w d \<noteq> None" and fresh: "uuid_of d \<notin> uuid_of ` set (reported w ds)"
    and rest: "loop_done fs ord w index ds (libvirt_domain fs ord w now index acc d) acc'"
  shows "loop_done fs ord w index (d # ds) acc acc'"
proof -
  let ?acc = "libvirt_domain fs ord w now index acc d"
  note one = libvirt_domain_done(1)[OF known, of fs ord index acc now] and others = libvirt_domain_done(2)[OF known, of _ acc fs ord now index]
  have rep: "reported w (d # ds) = d # reported w ds" using known by (simp add: reported_Cons)
  have last_d: "same_at (uuid_of d) ?acc acc'" using rest fresh by (simp add: loop_done_def)
  have "domain_done fs ord w index acc acc' d" using one domain_done_cong(2)[OF last_d] by blast
  moreover have "domain_done fs ord w index acc acc' x" if x: "x \<in> set (reported w ds)" for x
  proof -
    have "uuid_of x \<noteq> uuid_of d" using fresh x by (metis imageI)
    from domain_done_cong(1)[OF others[OF this], of fs ord w index acc'] show ?thesis
      using rest x unfolding loop_done_def by blast
  qed
  moreover have "same_at i acc acc'" if "i \<notin> uuid_of ` set (d # reported w ds)" for i
    using that rest same_at_trans[OF others] by (simp add: loop_done_def)
  moreover have "ll_alive acc' = ll_alive acc @ map uuid_of (d # reported w ds)"
    using rest libvirt_domain_done(3)[OF known, of fs ord now index acc] by (simp add: loop_done_def)
  ultimately show ?thesis unfolding loop_done_def rep by simp
qed

lemma loop_done_silent:
  assumes "lv_GetState w d = None" and "loop_done fs ord w index ds (acc\<lparr>ll_seen := seen\<rparr>) acc'"
  shows "loop_done fs ord w index (d # ds) acc acc'"
proof -
  have same: "same_at i acc (acc\<lparr>ll_seen := seen\<rparr>)" for i by (simp add: same_at_def)
  have "reported w (d # ds) = reported w ds" using assms(1) by (simp add: reported_Cons)
  then show ?thesis
    using assms(2) domain_done_cong(1)[OF same] same_at_trans[OF same] unfolding loop_done_def by simp
qed

lemma libvirt_domains_done:
  assumes "\<forall>n. lv_ctxErr w n = None" and "distinct (map uuid_of ds)"
  shows "snd (libvirt_domains fs ord w now index n acc ds) = None \<and>
    loop_done fs ord w index ds acc (fst (libvirt_domains fs ord w now index n acc ds))"
  using assms(2)
proof (induction ds arbitrary: n acc)
  case Nil
  then show ?case by (simp add: loop_done_def reported_def)
next
  case (Cons d ds)
  let ?acc = "libvirt_domain fs ord w now index acc d"
  have IH: "snd (libvirt_domains fs ord w now index (n + 1) ?acc ds) = None"
    "loop_done fs ord w index ds ?acc (fst (libvirt_domains fs ord w now index (n + 1) ?acc ds))"
    using Cons by simp_all
  show ?case
  proof (cases "lv_GetState w d")
    case None
    then show ?thesis
      using IH assms(1) loop_done_silent[OF None] by (simp add: libvirt_domain_silent)
  next
    case (Some x)
    have "uuid_of d \<notin> uuid_of ` set (reported w ds)" using Cons.prems by (auto simp: reported_def)
    from loop_done_step[OF _ this IH(2)] Some IH(1) assms(1) show ?thesis by simp
  qed
qed

text \<open>A collection that reaches the daemon.\<close>

lemma LibvirtCollect_ok:
  assumes "snd (connect w lc) = None" and "lv_ListAllDomains w = Inr ds" and "\<forall>n. lv_ctxErr w n = None" and "distinct (map uuid_of ds)"
    and "LibvirtCollect fs ord w now (lc, index, s) = ((lc', index', s'), err)"
  shows "err = None" and "index' = map_option (Refresh fs now) index" and "lc_alive lc' = map uuid_of (reported w ds)" and "lc_lastOK lc' = now"
    and "loop_done fs ord w index' ds \<lparr>ll_lc = fst (connect w lc), ll_alive = [], ll_pids = [], ll_seen = [], ll_store = s\<rparr>
      \<lparr>ll_lc = lc', ll_alive = lc_alive lc', ll_pids = lc_pids lc', ll_seen = map uuid_of ds, ll_store = s'\<rparr>"
proof -
  let ?acc = "\<lparr>ll_lc = fst (connect w lc), ll_alive = [], ll_pids = [], ll_seen = [], ll_store = s\<rparr>"
  let ?ix = "map_option (Refresh fs now) index"
  note run = libvirt_domains_done[OF assms(3,4), of fs ord now ?ix 0 ?acc]
  obtain acc where acc: "libvirt_domains fs ord w now ?ix 0 ?acc ds = (acc, None)" and loop: "loop_done fs ord w ?ix ds ?acc acc"
    using run by (metis prod.collapse)
  obtain lc1 where lc1: "connect w lc = (lc1, None)" using assms(1) by (metis prod.collapse)
  have res: "err = None" "index' = ?ix" "lc_alive lc' = ll_alive acc" "lc_pids lc' = ll_pids acc" "lc_lastOK lc' = now" "s' = ll_store acc"
    using assms(5) acc by (auto simp: LibvirtCollect_def Let_def lc1 assms(2))
  show "err = None" "index' = ?ix" "lc_lastOK lc' = now" by (simp_all add: res)
  show "lc_alive lc' = map uuid_of (reported w ds)" using loop by (simp add: res loop_done_def)
  show "loop_done fs ord w index' ds ?acc
      \<lparr>ll_lc = lc', ll_alive = lc_alive lc', ll_pids = lc_pids lc', ll_seen = map uuid_of ds, ll_store = s'\<rparr>"
    using loop unfolding loop_done_def domain_done_def same_at_def by (simp add: res)
qed

text \<open>A collection that does not: the store stays, and the claim on processes lapses after the grace period.\<close>

lemma disconnect_simps [simp]:
  "lc_pids (disconnect lc) = lc_pids lc" "lc_lastOK (disconnect lc) = lc_lastOK lc" "lc_alive (disconnect lc) = lc_alive lc"
  "lc_l (disconnect lc) = False"
  by (simp_all add: disconnect_def)

lemma try_sockets_keeps:
  "lc_pids (fst (try_sockets w socks errs lc)) = lc_pids lc" "lc_lastOK (fst (try_sockets w socks errs lc)) = lc_lastOK lc"
  "lc_alive (fst (try_sockets w socks errs lc)) = lc_alive lc"
  by (induction socks arbitrary: errs) (auto split: option.splits)

lemma connect_keeps:
  "lc_pids (fst (connect w lc)) = lc_pids lc" "lc_lastOK (fst (connect w lc)) = lc_lastOK lc" "lc_alive (fst (connect w lc)) = lc_alive lc"
  by (simp_all add: connect_def try_sockets_keeps)

definition lapsed :: "gtime \<Rightarrow> LibvirtCollector \<Rightarrow> bool" where
  "lapsed now lc \<longleftrightarrow> discoveryGrace < time_sub now (lc_lastOK lc)"

lemma LibvirtCollect_down:
  assumes "snd (connect w lc) \<noteq> None \<or> (\<exists>e. lv_ListAllDomains w = Inl e)"
    and "LibvirtCollect fs ord w now (lc, index, s) = ((lc', index', s'), err)"
  shows "err \<noteq> None" and "s' = s" and "lc_alive lc' = lc_alive lc" and "lc_pids lc' = (if lapsed now lc then [] else lc_pids lc)"
  using assms connect_keeps[of w lc]
  by (auto simp: LibvirtCollect_def expirePIDs_def lapsed_def Let_def split: prod.splits option.splits sum.splits if_splits)

text \<open>The first socket that exists and accepts the connection is used.\<close>

lemma try_sockets_ok:
  "snd (try_sockets w socks errs lc) = None \<longleftrightarrow> (\<exists>sock \<in> set socks. lv_Stat w sock \<and> lv_Dial w sock = None \<and> lv_Connect w sock = None)"
  by (induction socks arbitrary: errs) (auto split: option.splits)

lemma try_sockets_first:
  assumes "snd (try_sockets w socks errs lc) = None"
  shows "lc_l (fst (try_sockets w socks errs lc)) \<and>
    List.find (\<lambda>sock. lv_Stat w sock \<and> lv_Dial w sock = None \<and> lv_Connect w sock = None) socks =
      Some (lc_sock (fst (try_sockets w socks errs lc)))"
  using assms by (induction socks arbitrary: errs) (auto split: option.splits)

section \<open>One domain per process\<close>

lemma mget_PIDs: "wf_map (lc_pids lc) \<Longrightarrow> mget False (PIDs lc) pid \<longleftrightarrow> (\<exists>i. map_of (lc_pids lc) i = Some pid)"
proof -
  have "mget False (foldl (\<lambda>out (_, pid). AList.update pid True out) out m) pid \<longleftrightarrow> mget False out pid \<or> pid \<in> snd ` set m"
    for out and m :: "(string, int) gomap"
    by (induction m arbitrary: out) (auto simp: mget_update)
  then have "mget False (PIDs lc) pid \<longleftrightarrow> pid \<in> snd ` set (lc_pids lc)" by (simp add: PIDs_def mget_def)
  moreover assume wf: "wf_map (lc_pids lc)"
  moreover have "pid \<in> snd ` set (lc_pids lc) \<longleftrightarrow> (\<exists>i. (i, pid) \<in> set (lc_pids lc))" by force
  ultimately show ?thesis by (simp add: in_set_iff_map_of[OF wf])
qed

lemma scan_step_latest:
  "mget False claimed (kp_PID p) \<Longrightarrow> scan_process fs now claimed (sc, s) p = (sc, s)"
  "i \<noteq> scan_id p \<Longrightarrow> latest_of (snd (scan_process fs now claimed (sc, s) p)) i = latest_of s i"
  "\<not> mget False claimed (kp_PID p) \<Longrightarrow>
    \<exists>d. latest_of (snd (scan_process fs now claimed (sc, s) p)) (scan_id p) = Some d \<and> d_PID d = kp_PID p"
  by (auto simp: scan_process_def Let_def case_prod_unfold latest_of_Upsert scan_update_def)

lemma scan_loop_frame:
  "i \<notin> scan_id ` set (unclaimed claimed ps) \<Longrightarrow>
    latest_of (snd (foldl (scan_process fs now claimed) (sc, s) ps)) i = latest_of s i"
proof (induction ps arbitrary: sc s)
  case (Cons p ps)
  obtain sc' s' where step: "scan_process fs now claimed (sc, s) p = (sc', s')" by fastforce
  have "latest_of s' i = latest_of s i"
  proof (cases "mget False claimed (kp_PID p)")
    case False
    then have "i \<noteq> scan_id p" using Cons.prems by (auto simp: unclaimed_def)
    then show ?thesis using scan_step_latest(2)[of i p fs now claimed sc s] step by simp
  qed (use scan_step_latest(1)[of claimed p fs now sc s] step in simp)
  then show ?case using Cons step by (auto simp: unclaimed_def split: if_splits)
qed simp

lemma scan_loop_latest:
  "distinct (map scan_id (unclaimed claimed ps)) \<Longrightarrow> p \<in> set (unclaimed claimed ps) \<Longrightarrow>
    \<exists>d. latest_of (snd (foldl (scan_process fs now claimed) (sc, s) ps)) (scan_id p) = Some d \<and> d_PID d = kp_PID p"
proof (induction ps arbitrary: sc s)
  case (Cons q ps)
  obtain sc' s' where step: "scan_process fs now claimed (sc, s) q = (sc', s')" by fastforce
  show ?case
  proof (cases "p \<in> set (unclaimed claimed ps)")
    case True
    then show ?thesis using Cons step by (auto simp: unclaimed_def split: if_splits)
  next
    case False
    then have pq: "p = q" "\<not> mget False claimed (kp_PID q)" using Cons.prems(2) by (auto simp: unclaimed_def split: if_splits)
    then have "scan_id q \<notin> scan_id ` set (unclaimed claimed ps)" using Cons.prems(1) by (simp add: unclaimed_def)
    from scan_loop_frame[OF this, of fs now sc' s'] show ?thesis
      using scan_step_latest(3)[OF pq(2), of fs now sc s] step pq(1) by simp
  qed
qed (simp add: unclaimed_def)

lemma libvirt_domain_pids_wf: "wf_map (ll_pids acc) \<Longrightarrow> wf_map (ll_pids (libvirt_domain fs ord w now index acc d))"
  by (auto simp: libvirt_domain_def Let_def case_prod_unfold split: option.splits)

lemma libvirt_domains_pids_wf: "wf_map (ll_pids acc) \<Longrightarrow> wf_map (ll_pids (fst (libvirt_domains fs ord w now index n acc ds)))"
  by (induction ds arbitrary: n acc) (auto simp: libvirt_domain_pids_wf split: option.splits)

lemma LibvirtCollect_pids_wf:
  assumes "wf_map (lc_pids lc)" and "LibvirtCollect fs ord w now (lc, index, s) = ((lc', index', s'), err)"
    and "snd (connect w lc) = None" and "lv_ListAllDomains w = Inr ds" and "\<forall>n. lv_ctxErr w n = None" and "distinct (map uuid_of ds)"
  shows "wf_map (lc_pids lc')"
proof -
  let ?acc = "\<lparr>ll_lc = fst (connect w lc), ll_alive = [], ll_pids = [], ll_seen = [], ll_store = s\<rparr>"
  let ?run = "libvirt_domains fs ord w now (map_option (Refresh fs now) index) 0 ?acc ds"
  obtain lc1 where lc1: "connect w lc = (lc1, None)" using assms(3) by (metis prod.collapse)
  have "snd ?run = None" using libvirt_domains_done[OF assms(5,6)] by blast
  then obtain acc where run: "?run = (acc, None)" by (metis prod.collapse)
  have "wf_map (ll_pids acc)" using libvirt_domains_pids_wf[of ?acc fs ord w now "map_option (Refresh fs now) index" 0 ds] run by simp
  then show ?thesis using assms(2) run by (auto simp: LibvirtCollect_def Let_def lc1 assms(4))
qed

lemma d_PID_merged [simp]: "d_PID (merged snap i old) = d_PID snap"
  by (simp add: merged_def mergeLibvirt_def Let_def)

text \<open>After the scanner ran, the domains it reports are those of processes no one claimed, with their pids.\<close>

lemma scanned_process:
  assumes scan: "ScanCollect fs ord claimed now (sc, ix, s) = (sc', ix', s')" and wf: "index_wf ix" "is_order ord"
    and j: "j \<in> set (sc_alive sc')" "latest_of s' j = Some e"
  shows "\<exists>p \<in> set (All ord ix'). j = scan_id p \<and> d_PID e = kp_PID p \<and> \<not> mget False claimed (kp_PID p)"
    and "distinct (map kp_PID (All ord ix'))"
proof -
  let ?ps = "All ord ix'"
  have ix': "ix' = Refresh fs now ix" by (rule ScanCollect_alive(2)[OF scan])
  show pids: "distinct (map kp_PID ?ps)" unfolding ix' by (intro All_facts(1) index_wf_Refresh wf)
  then have dist: "distinct (map scan_id (unclaimed claimed ?ps))" by (rule distinct_scan_ids)
  have s': "s' = snd (foldl (scan_process fs now claimed) (sc\<lparr>sc_alive := []\<rparr>, s) ?ps)"
    using scan by (auto simp: ScanCollect_def Let_def case_prod_unfold)
  obtain p where p: "p \<in> set (unclaimed claimed ?ps)" "j = scan_id p" using j(1) ScanCollect_alive(1)[OF scan] by auto
  have "d_PID e = kp_PID p" using scan_loop_latest[OF dist p(1), of fs now "sc\<lparr>sc_alive := []\<rparr>" s] j(2) p(2) unfolding s' by auto
  then show "\<exists>p \<in> set ?ps. j = scan_id p \<and> d_PID e = kp_PID p \<and> \<not> mget False claimed (kp_PID p)"
    using p by (auto simp: unclaimed_def)
qed

text \<open>A domain of libvirt with a pid has claimed that pid, and the scanner leaves it alone.\<close>

lemma libvirt_claims:
  assumes collect: "LibvirtCollect fs ord w now (lc, Some ix, s) = ((lc', Some ix', s'), err)"
    and ok: "snd (connect w lc) = None" "lv_ListAllDomains w = Inr ds" "\<forall>n. lv_ctxErr w n = None" "distinct (map uuid_of ds)" "wf_map (lc_pids lc)"
    and scan: "ScanCollect fs' ord' claimed now' (sc, ix', s') = (sc', ix'', s'')"
    and i: "i \<in> set (lc_alive lc')" "latest_of s'' i = Some d" "0 < d_PID d"
  shows "map_of (lc_pids lc') i = Some (d_PID d)" and "mget False (PIDs lc') (d_PID d)" and "i \<notin> set (sc_alive sc')"
proof -
  note res = LibvirtCollect_ok[OF ok(1-4) collect]
  let ?ps = "All ord' (Refresh fs' now' ix')"
  have s'': "s'' = snd (foldl (scan_process fs' now' claimed) (sc\<lparr>sc_alive := []\<rparr>, s') ?ps)"
    using scan by (auto simp: ScanCollect_def Let_def case_prod_unfold)
  obtain x where x: "x \<in> set (reported w ds)" "i = uuid_of x" using i(1) res(3) by auto
  then have ne: "i \<notin> scan_id ` set (unclaimed claimed ?ps)" using formatUUID_not_scan_id by (auto simp: uuid_of_def)
  then show "i \<notin> set (sc_alive sc')" using ScanCollect_alive(1,2)[OF scan] by simp
  have "latest_of s' i = Some d" using i(2) scan_loop_frame[OF ne] unfolding s'' by simp
  moreover obtain snap where "latest_of s' i = Some (merged snap i (latest_of s i))" "map_of (lc_pids lc') i = (if 0 < d_PID snap then Some (d_PID snap) else None)"
    using res(5) x unfolding loop_done_def domain_done_def by auto
  ultimately show "map_of (lc_pids lc') i = Some (d_PID d)" using i(3) by auto
  then show "mget False (PIDs lc') (d_PID d)" using mget_PIDs[OF LibvirtCollect_pids_wf[OF ok(5) collect ok(1-4)]] by blast
qed

section \<open>What the merge keeps\<close>

lemma mergeLibvirt_rss:
  "m_RssKiB (d_Mem (mergeLibvirt n cur)) = (if 0 < m_RssKiB (d_Mem cur) then m_RssKiB (d_Mem cur) else m_RssKiB (d_Mem n))"
  by (simp add: mergeLibvirt_def merge_mem_def Let_def)

text \<open>Once a resident size is known, no later report of libvirt changes it.\<close>

lemma rss_stays:
  assumes "0 < m_RssKiB (d_Mem cur)"
  shows "m_RssKiB (d_Mem (foldl (\<lambda>cur n. mergeLibvirt n cur) cur ns)) = m_RssKiB (d_Mem cur)"
  using assms by (induction ns arbitrary: cur) (simp_all add: mergeLibvirt_rss)

end
