(* ===== verification/Tracefs.thy ===== *)
theory Tracefs
  imports Discover
begin

text \<open>
  \<open>internal/probe/tracefs.go\<close>: the layout of a tracepoint as the kernel describes it. The
  outcome of opening a file is an argument.
\<close>

record Field =
  fi_Name :: string
  fi_Offset :: uint32
  fi_Size :: uint32

datatype format_error = BadOffset string | BadSize string

definition before_bracket :: "string \<Rightarrow> string" where
  "before_bracket n = takeWhile (\<lambda>c. c \<noteq> CHR ''['') n"

definition parse_part :: "string \<Rightarrow> Field \<Rightarrow> string \<Rightarrow> format_error + Field" where
  "parse_part line fd part =
     (case Cut (TrimSpace part) (CHR '':'') of
        (k, v, False) \<Rightarrow> Inr fd
      | (k, v, True) \<Rightarrow>
          if k = ''field''
          then let decl = Fields v in Inr (if decl = [] then fd else fd\<lparr>fi_Name := before_bracket (last decl)\<rparr>)
          else if k = ''offset''
          then (case ParseUint v 10 32 of Inl _ \<Rightarrow> Inl (BadOffset line) | Inr o' \<Rightarrow> Inr (fd\<lparr>fi_Offset := of_nat o'\<rparr>))
          else if k = ''size''
          then (case ParseUint v 10 32 of Inl _ \<Rightarrow> Inl (BadSize line) | Inr s \<Rightarrow> Inr (fd\<lparr>fi_Size := of_nat s\<rparr>))
          else Inr fd)"

fun parse_parts :: "string \<Rightarrow> Field \<Rightarrow> string list \<Rightarrow> format_error + Field" where
  "parse_parts line fd [] = Inr fd"
| "parse_parts line fd (part # parts) =
     (case parse_part line fd part of Inl e \<Rightarrow> Inl e | Inr fd' \<Rightarrow> parse_parts line fd' parts)"

fun parse_lines :: "(string, Field) gomap \<Rightarrow> string list \<Rightarrow> format_error + (string, Field) gomap" where
  "parse_lines fds [] = Inr fds"
| "parse_lines fds (text # lines) =
     (let line = TrimSpace text
      in if \<not> HasPrefix line ''field:'' then parse_lines fds lines
         else case parse_parts line \<lparr>fi_Name = [], fi_Offset = 0, fi_Size = 0\<rparr> (Split line (CHR '';'')) of
                Inl e \<Rightarrow> Inl e
              | Inr fd \<Rightarrow> parse_lines (if fi_Name fd = [] then fds else AList.update (fi_Name fd) fd fds) lines)"

definition parseFormat :: "string \<Rightarrow> format_error + (string, Field) gomap" where
  "parseFormat content = parse_lines [] (scan_lines content)"

section \<open>Finding the description\<close>

datatype open_result = Opened string | NotExist string | OpenFailed string

datatype tracefs_error = FormatError format_error | NotAvailable string string | OpenErrors "open_result list"

definition tracefsRoots :: "string list" where
  "tracefsRoots = [''/sys/kernel/tracing'', ''/sys/kernel/debug/tracing'']"

definition allNotExist :: "open_result list \<Rightarrow> bool" where
  "allNotExist errs \<longleftrightarrow> list_all (\<lambda>e. case e of NotExist _ \<Rightarrow> True | _ \<Rightarrow> False) errs"

fun try_roots :: "(string \<Rightarrow> open_result) \<Rightarrow> string \<Rightarrow> string \<Rightarrow> string list \<Rightarrow> open_result list \<Rightarrow> tracefs_error + (string, Field) gomap" where
  "try_roots op grp name [] errs = Inl (if allNotExist errs then NotAvailable grp name else OpenErrors errs)"
| "try_roots op grp name (rt # rts) errs =
     (case op (path_join [rt, ''events'', grp, name, ''format'']) of
        Opened content \<Rightarrow> (case parseFormat content of Inl e \<Rightarrow> Inl (FormatError e) | Inr fds \<Rightarrow> Inr fds)
      | err \<Rightarrow> try_roots op grp name rts (errs @ [err]))"

definition tracepointFormat :: "(string \<Rightarrow> open_result) \<Rightarrow> string \<Rightarrow> string \<Rightarrow> tracefs_error + (string, Field) gomap" where
  "tracepointFormat op grp name = try_roots op grp name tracefsRoots []"

section \<open>The kernel's format\<close>

text \<open>
  A field as the kernel prints it: declaration, offset, size and sign, each ended by a
  semicolon. The declaration is a type, the name and the length of an array if it is one.
\<close>

definition format_field :: "string list \<Rightarrow> string \<Rightarrow> bool \<Rightarrow> Field \<Rightarrow> string" where
  "format_field ty dims sg f =
     CHR 0x09 # ''field:'' @ Join (ty @ [fi_Name f @ dims]) '' '' @ '';'' @
     CHR 0x09 # ''offset:'' @ show_nat (unat (fi_Offset f)) @ '';'' @
     CHR 0x09 # ''size:'' @ show_nat (unat (fi_Size f)) @ '';'' @
     CHR 0x09 # ''signed:'' @ (if sg then ''1'' else ''0'') @ '';''"

definition word_ok :: "string \<Rightarrow> bool" where
  "word_ok w \<longleftrightarrow> w \<noteq> [] \<and> list_all (\<lambda>c. \<not> is_space c) w \<and> CHR '';'' \<notin> set w"

definition field_ok :: "string list \<Rightarrow> string \<Rightarrow> Field \<Rightarrow> bool" where
  "field_ok ty dims f \<longleftrightarrow> list_all word_ok ty \<and> word_ok (fi_Name f) \<and> CHR ''['' \<notin> set (fi_Name f) \<and>
     list_all (\<lambda>c. \<not> is_space c) dims \<and> CHR '';'' \<notin> set dims \<and> (dims = [] \<or> hd dims = CHR ''['')"

lemma before_bracket_dims: "CHR ''['' \<notin> set n \<Longrightarrow> dims = [] \<or> hd dims = CHR ''['' \<Longrightarrow> before_bracket (n @ dims) = n"
  unfolding before_bracket_def by (cases dims) (auto simp: takeWhile_append)

lemma is_space_tab [simp]: "is_space (CHR 0x09)" "is_space (CHR '' '')" "\<not> is_space (CHR ''f'')" "\<not> is_space (CHR '';'')"
  "\<not> is_space (CHR ''o'')" "\<not> is_space (CHR ''s'')"
  by (simp_all add: is_space_def)

lemma TrimSpace_tab: "TrimSpace (CHR 0x09 # s) = TrimSpace s"
  by (simp add: TrimSpace_def)

lemma show_nat_no_space: "c \<in> set (show_nat n) \<Longrightarrow> \<not> is_space c \<and> c \<noteq> CHR '';'' \<and> c \<noteq> CHR '':''"
  using show_nat_digits[of c n] by (auto simp: is_space_def)

lemma TrimSpace_number:
  assumes "k \<noteq> []" and "\<not> is_space (hd k)"
  shows "TrimSpace (CHR 0x09 # k @ show_nat n) = k @ show_nat n"
  unfolding TrimSpace_tab using assms show_nat_no_space[of "last (show_nat n)" n]
  by (intro TrimSpace_keep) (auto simp: hd_append)

lemma last_in_nonspace: "word_ok w \<Longrightarrow> \<not> is_space (hd w) \<and> \<not> is_space (last w)"
  by (cases w) (auto simp: word_ok_def list_all_iff)

lemma parse_declaration:
  assumes "field_ok ty dims f"
  shows "parse_part line fd (''field:'' @ Join (ty @ [fi_Name f @ dims]) '' '') = Inr (fd\<lparr>fi_Name := fi_Name f\<rparr>)"
proof -
  let ?ws = "ty @ [fi_Name f @ dims]" and ?n = "fi_Name f @ dims"
  have words: "list_all (\<lambda>f. f \<noteq> [] \<and> list_all (\<lambda>c. \<not> is_space c) f) ?ws"
    using assms by (auto simp: field_ok_def word_ok_def list_all_iff)
  have last: "last (Join ?ws '' '') = last ?n" "Join ?ws '' '' \<noteq> []"
    using assms by (induction ty rule: induct_list012) (auto simp: field_ok_def word_ok_def)
  have "?n \<noteq> []" "\<forall>c \<in> set ?n. \<not> is_space c" using words by (auto simp: list_all_iff)
  then have "\<not> is_space (last ?n)" using last_in_set by blast
  then have trim: "TrimSpace (''field:'' @ Join ?ws '' '') = ''field:'' @ Join ?ws '' ''"
    using last by (intro TrimSpace_keep) simp_all
  have "Fields (Join ?ws '' '') = ?ws" using Fields_Join[OF words, of "[]"] by simp
  moreover have "before_bracket ?n = fi_Name f" using assms by (intro before_bracket_dims) (auto simp: field_ok_def)
  moreover have "Cut (''field'' @ CHR '':'' # Join ?ws '' '') (CHR '':'') = (''field'', Join ?ws '' '', True)" by (rule Cut_hit) simp
  ultimately show ?thesis using trim by (simp add: parse_part_def)
qed

lemma parse_number:
  "parse_part line fd (CHR 0x09 # ''offset:'' @ show_nat (unat (f :: uint32))) = Inr (fd\<lparr>fi_Offset := f\<rparr>)"
  "parse_part line fd (CHR 0x09 # ''size:'' @ show_nat (unat (f :: uint32))) = Inr (fd\<lparr>fi_Size := f\<rparr>)"
proof -
  have lt: "unat f < 2 ^ 32" using unsigned_less[of f, where ?'a = nat] by simp
  have "Cut (''offset'' @ CHR '':'' # show_nat (unat f)) (CHR '':'') = (''offset'', show_nat (unat f), True)" by (rule Cut_hit) simp
  then show "parse_part line fd (CHR 0x09 # ''offset:'' @ show_nat (unat f)) = Inr (fd\<lparr>fi_Offset := f\<rparr>)"
    using TrimSpace_number[of "''offset:''" "unat f"] ParseUint_show_nat[OF lt] by (simp add: parse_part_def)
  have "Cut (''size'' @ CHR '':'' # show_nat (unat f)) (CHR '':'') = (''size'', show_nat (unat f), True)" by (rule Cut_hit) simp
  then show "parse_part line fd (CHR 0x09 # ''size:'' @ show_nat (unat f)) = Inr (fd\<lparr>fi_Size := f\<rparr>)"
    using TrimSpace_number[of "''size:''" "unat f"] ParseUint_show_nat[OF lt] by (simp add: parse_part_def)
qed

lemma parse_sign: "parse_part line fd (CHR 0x09 # ''signed:'' @ (if sg then ''1'' else ''0'')) = Inr fd"
  by (cases sg) (simp_all add: parse_part_def TrimSpace_def is_space_def Cut_def)

lemma parse_end: "parse_part line fd [] = Inr fd"
  by (simp add: parse_part_def TrimSpace_def Cut_def)

lemma format_field_trim:
  "TrimSpace (format_field ty dims sg f) = tl (format_field ty dims sg f)"
  unfolding format_field_def TrimSpace_tab by (simp add: TrimSpace_keep)

lemma Split_format_field:
  assumes "field_ok ty dims f"
  shows "Split (tl (format_field ty dims sg f)) (CHR '';'') =
    [''field:'' @ Join (ty @ [fi_Name f @ dims]) '' '', CHR 0x09 # ''offset:'' @ show_nat (unat (fi_Offset f)),
     CHR 0x09 # ''size:'' @ show_nat (unat (fi_Size f)), CHR 0x09 # ''signed:'' @ (if sg then ''1'' else ''0''), []]"
proof -
  have decl: "CHR '';'' \<notin> set (''field:'' @ Join (ty @ [fi_Name f @ dims]) '' '')"
  proof -
    have "\<forall>w \<in> set ty. CHR '';'' \<notin> set w" "CHR '';'' \<notin> set (fi_Name f)" "CHR '';'' \<notin> set dims"
      using assms by (simp_all add: field_ok_def word_ok_def list_all_iff)
    then have "\<forall>w \<in> set (ty @ [fi_Name f @ dims]). CHR '';'' \<notin> set w" by simp
    moreover have "CHR '';'' \<notin> set ('' '' :: string)" by simp
    ultimately have "CHR '';'' \<notin> set (Join (ty @ [fi_Name f @ dims]) '' '')" using set_Join by blast
    then show ?thesis by simp
  qed
  have num: "CHR '';'' \<notin> set (show_nat n)" for n using show_nat_no_space by blast
  have off: "CHR '';'' \<notin> set (CHR 0x09 # ''offset:'' @ show_nat (unat (fi_Offset f)))"
    and siz: "CHR '';'' \<notin> set (CHR 0x09 # ''size:'' @ show_nat (unat (fi_Size f)))" using num by simp_all
  have sg: "CHR '';'' \<notin> set (CHR 0x09 # ''signed:'' @ (if sg then ''1'' else ''0''))" by simp
  let ?a = "''field:'' @ Join (ty @ [fi_Name f @ dims]) '' ''" and ?b = "CHR 0x09 # ''offset:'' @ show_nat (unat (fi_Offset f))"
  let ?c = "CHR 0x09 # ''size:'' @ show_nat (unat (fi_Size f))" and ?d = "CHR 0x09 # ''signed:'' @ (if sg then ''1'' else ''0'')"
  have eq: "tl (format_field ty dims sg f) = ?a @ CHR '';'' # ?b @ CHR '';'' # ?c @ CHR '';'' # ?d @ CHR '';'' # []"
    by (simp add: format_field_def)
  show ?thesis
    unfolding eq Split_append[OF decl] Split_append[OF off] Split_append[OF siz] Split_append[OF sg] Split.simps ..
qed

text \<open>One line of the description, and a line that describes no field.\<close>

lemma parse_lines_field:
  assumes "field_ok ty dims f"
  shows "parse_lines fds (format_field ty dims sg f # lines) = parse_lines (AList.update (fi_Name f) f fds) lines"
proof -
  have "HasPrefix (TrimSpace (format_field ty dims sg f)) ''field:''"
    unfolding format_field_trim by (simp add: format_field_def HasPrefix_def)
  moreover have "fi_Name f \<noteq> []" using assms by (simp add: field_ok_def word_ok_def)
  moreover have "parse_parts line \<lparr>fi_Name = [], fi_Offset = 0, fi_Size = 0\<rparr> (Split (tl (format_field ty dims sg f)) (CHR '';'')) = Inr f" for line
    unfolding Split_format_field[OF assms] parse_parts.simps parse_declaration[OF assms] sum.case parse_number parse_sign parse_end by simp
  ultimately show ?thesis unfolding parse_lines.simps Let_def format_field_trim by simp
qed

lemma parse_lines_other: "\<not> HasPrefix (TrimSpace l) ''field:'' \<Longrightarrow> parse_lines fds (l # lines) = parse_lines fds lines"
  by simp

section \<open>Whole descriptions\<close>

datatype format_item = OtherLine string | FieldLine "string list" string bool Field

fun format_line :: "format_item \<Rightarrow> string" where
  "format_line (OtherLine l) = l"
| "format_line (FieldLine ty dims sg f) = format_field ty dims sg f"

definition format_text :: "format_item list \<Rightarrow> string" where
  "format_text items = concat (map (\<lambda>i. format_line i @ [CHR 0x0A]) items)"

fun item_ok :: "format_item \<Rightarrow> bool" where
  "item_ok (OtherLine l) \<longleftrightarrow> \<not> HasPrefix (TrimSpace l) ''field:'' \<and> CHR 0x0A \<notin> set l \<and> (l = [] \<or> last l \<noteq> CHR 0x0D)"
| "item_ok (FieldLine ty dims sg f) \<longleftrightarrow> field_ok ty dims f"

fun item_field :: "format_item \<Rightarrow> Field option" where
  "item_field (OtherLine l) = None"
| "item_field (FieldLine ty dims sg f) = Some f"

lemma Split_lines: "\<forall>l \<in> set ls. c \<notin> set l \<Longrightarrow> Split (concat (map (\<lambda>l. l @ [c]) ls)) c = ls @ [[]]"
  by (induction ls) (simp_all add: Split_append)

lemma scan_lines_text: "\<forall>l \<in> set ls. CHR 0x0A \<notin> set l \<Longrightarrow> scan_lines (concat (map (\<lambda>l. l @ [CHR 0x0A]) ls)) = map strip_cr ls"
  by (simp add: scan_lines_def Split_lines)

lemma nonspace_no_newline: "list_all (\<lambda>c. \<not> is_space c) w \<Longrightarrow> CHR 0x0A \<notin> set w"
proof
  assume "list_all (\<lambda>c. \<not> is_space c) w" "CHR 0x0A \<in> set w"
  then have "\<not> is_space (CHR 0x0A)" unfolding list_all_iff by blast
  then show False by (simp add: is_space_def)
qed

lemma format_field_no_newline:
  assumes "field_ok ty dims f"
  shows "CHR 0x0A \<notin> set (format_field ty dims sg f)"
proof -
  have "\<forall>w \<in> set ty. CHR 0x0A \<notin> set w" "CHR 0x0A \<notin> set (fi_Name f)" "CHR 0x0A \<notin> set dims"
    using assms nonspace_no_newline by (auto simp: field_ok_def word_ok_def list_all_iff)
  then have "\<forall>w \<in> set (ty @ [fi_Name f @ dims]). CHR 0x0A \<notin> set w" by simp
  moreover have "CHR 0x0A \<notin> set ('' '' :: string)" by simp
  ultimately have "CHR 0x0A \<notin> set (Join (ty @ [fi_Name f @ dims]) '' '')" using set_Join by blast
  moreover have "CHR 0x0A \<notin> set (show_nat n)" for n by (rule show_nat_no_char) simp
  ultimately show ?thesis by (simp add: format_field_def)
qed

lemma strip_cr_line: "item_ok i \<Longrightarrow> strip_cr (format_line i) = format_line i"
  by (cases i) (auto simp: strip_cr_def format_field_def)

lemma parse_lines_items:
  assumes "list_all item_ok items"
  shows "parse_lines fds (map format_line items) =
    Inr (foldl (\<lambda>m f. AList.update (fi_Name f) f m) fds (List.map_filter item_field items))"
  using assms
proof (induction items arbitrary: fds)
  case (Cons i items)
  then show ?case
  proof (cases i)
    case (FieldLine ty dims sg f)
    then show ?thesis using Cons parse_lines_field[of ty dims f fds sg] by (simp add: List.map_filter_def del: parse_lines.simps)
  qed (use Cons in \<open>simp add: List.map_filter_def parse_lines_other del: parse_lines.simps(2)\<close>)
qed (simp add: List.map_filter_def)

lemma parseFormat_text:
  assumes "list_all item_ok items"
  shows "parseFormat (format_text items) = Inr (foldl (\<lambda>m f. AList.update (fi_Name f) f m) [] (List.map_filter item_field items))"
proof -
  have one: "item_ok i \<Longrightarrow> CHR 0x0A \<notin> set (format_line i)" for i
    using format_field_no_newline by (cases i rule: format_item.exhaust) simp_all
  have "CHR 0x0A \<notin> set (format_line i)" if "i \<in> set items" for i
    using that assms one unfolding list_all_iff by blast
  then have "scan_lines (format_text items) = map strip_cr (map format_line items)"
    using scan_lines_text[of "map format_line items"] by (simp add: format_text_def comp_def)
  also have "\<dots> = map format_line items" using assms strip_cr_line by (auto simp: list_all_iff)
  finally show ?thesis unfolding parseFormat_def using parse_lines_items[OF assms] by simp
qed

lemma map_of_index_by:
  "map_of (foldl (\<lambda>m f. AList.update (key f) f m) m fs) k =
    (case List.find (\<lambda>f. key f = k) (rev fs) of None \<Rightarrow> map_of m k | Some f \<Rightarrow> Some f)"
  by (induction fs rule: rev_induct) (auto simp: gomap_simps)

end
