(* ===== verification/Probes.thy ===== *)
theory Probes
  imports Tracefs Decode Hist Kernel "HOL-Library.Sublist"
begin

text \<open>
  \<open>internal/probe/probe.go\<close>: which probes are attached and why the others are not, the maps
  shared with the BPF programs, and the channel of kernel events. The outcome of every call
  into the eBPF library is an argument.
\<close>

section \<open>Probes\<close>

definition FeatKVMExits :: string where "FeatKVMExits = ''kvm-exits''"
definition FeatKVMErrors :: string where "FeatKVMErrors = ''kvm-errors''"
definition FeatKVMIRQ :: string where "FeatKVMIRQ = ''kvm-irq''"
definition FeatKVMHalt :: string where "FeatKVMHalt = ''kvm-halt''"
definition FeatRunqueue :: string where "FeatRunqueue = ''runqueue''"
definition FeatLifecycle :: string where "FeatLifecycle = ''lifecycle''"
definition FeatBlock :: string where "FeatBlock = ''block''"
definition FeatNetDrops :: string where "FeatNetDrops = ''net-drops''"
definition FeatOOM :: string where "FeatOOM = ''oom''"
definition FeatMCE :: string where "FeatMCE = ''mce''"

definition AllFeatures :: "string list" where
  "AllFeatures = [FeatKVMExits, FeatKVMErrors, FeatKVMIRQ, FeatKVMHalt, FeatRunqueue,
     FeatLifecycle, FeatBlock, FeatNetDrops, FeatOOM, FeatMCE]"

lemmas feature_defs = FeatKVMExits_def FeatKVMErrors_def FeatKVMIRQ_def FeatKVMHalt_def FeatRunqueue_def
  FeatLifecycle_def FeatBlock_def FeatNetDrops_def FeatOOM_def FeatMCE_def

datatype ProbeState = Attached | Unavailable | Failed | Disabled

fun ProbeStateString :: "ProbeState \<Rightarrow> string" where
  "ProbeStateString Attached = ''attached''"
| "ProbeStateString Unavailable = ''unavailable''"
| "ProbeStateString Failed = ''failed''"
| "ProbeStateString Disabled = ''disabled''"

record ProbeStatus =
  st_Feature :: string
  st_Probe :: string
  st_State :: ProbeState
  st_Err :: string

record fieldVar =
  fv_field :: string
  fv_alt :: string
  fv_variable :: string
  fv_size :: uint32
  fv_optional :: bool

record probeDef =
  pd_feature :: string
  pd_prog :: string
  pd_group :: string
  pd_event :: string
  pd_btf :: bool
  pd_fields :: "fieldVar list"
  pd_fallback :: string

definition field_var :: "string \<Rightarrow> string \<Rightarrow> string \<Rightarrow> uint32 \<Rightarrow> bool \<Rightarrow> fieldVar" where
  "field_var f alt v sz opt = \<lparr>fv_field = f, fv_alt = alt, fv_variable = v, fv_size = sz, fv_optional = opt\<rparr>"

definition probe_def :: "string \<Rightarrow> string \<Rightarrow> string \<Rightarrow> string \<Rightarrow> bool \<Rightarrow> fieldVar list \<Rightarrow> string \<Rightarrow> probeDef" where
  "probe_def ft prog grp ev tpbtf fs fb =
     \<lparr>pd_feature = ft, pd_prog = prog, pd_group = grp, pd_event = ev, pd_btf = tpbtf, pd_fields = fs, pd_fallback = fb\<rparr>"

definition probeDefs :: "probeDef list" where
  "probeDefs =
    [probe_def FeatKVMExits ''kvm_exit'' ''kvm'' ''kvm_exit'' False
       [field_var ''exit_reason'' ''esr_ec'' ''off_kvm_exit_reason'' 4 False,
        field_var ''ret'' '''' ''off_kvm_exit_reason2'' 4 True] '''',
     probe_def FeatKVMErrors ''kvm_userspace_exit'' ''kvm'' ''kvm_userspace_exit'' False
       [field_var ''reason'' '''' ''off_uexit_reason'' 4 False,
        field_var ''errno'' '''' ''off_uexit_errno'' 4 False] '''',
     probe_def FeatKVMErrors ''kvm_emulate_insn'' ''kvm'' ''kvm_emulate_insn'' False
       [field_var ''failed'' '''' ''off_emul_failed'' 1 False,
        field_var ''rip'' '''' ''off_emul_rip'' 8 False] '''',
     probe_def FeatKVMErrors ''kvm_inj_exception'' ''kvm'' ''kvm_inj_exception'' False
       [field_var ''exception'' '''' ''off_exc_vector'' 1 False,
        field_var ''error_code'' '''' ''off_exc_errcode'' 4 False] '''',
     probe_def FeatKVMIRQ ''kvm_inj_virq'' ''kvm'' ''kvm_inj_virq'' False
       [] '''',
     probe_def FeatKVMHalt ''kvm_vcpu_wakeup'' ''kvm'' ''kvm_vcpu_wakeup'' False
       [field_var ''ns'' '''' ''off_wake_ns'' 8 False,
        field_var ''waited'' '''' ''off_wake_waited'' 1 False] '''',
     probe_def FeatRunqueue ''sched_wakeup'' ''sched'' ''sched_wakeup'' True
       [] '''',
     probe_def FeatRunqueue ''sched_wakeup_new'' ''sched'' ''sched_wakeup_new'' True
       [] '''',
     probe_def FeatRunqueue ''sched_switch'' ''sched'' ''sched_switch'' True
       [] '''',
     probe_def FeatLifecycle ''sched_process_exit'' ''sched'' ''sched_process_exit'' True
       [] '''',
     probe_def FeatLifecycle ''signal_generate'' ''signal'' ''signal_generate'' True
       [] '''',
     probe_def FeatBlock ''block_rq_issue'' ''block'' ''block_rq_issue'' False
       [field_var ''dev'' '''' ''off_rqi_dev'' 4 False,
        field_var ''sector'' '''' ''off_rqi_sector'' 8 False,
        field_var ''nr_sector'' '''' ''off_rqi_nr'' 4 False] '''',
     probe_def FeatBlock ''block_rq_complete'' ''block'' ''block_rq_complete'' False
       [field_var ''dev'' '''' ''off_rqc_dev'' 4 False,
        field_var ''sector'' '''' ''off_rqc_sector'' 8 False,
        field_var ''nr_sector'' '''' ''off_rqc_nr'' 4 False,
        field_var ''error'' '''' ''off_rqc_error'' 4 False] '''',
     probe_def FeatNetDrops ''kfree_skb_reason'' ''skb'' ''kfree_skb'' True
       [] ''kfree_skb'',
     probe_def FeatOOM ''oom_mark_victim'' ''oom'' ''mark_victim'' False
       [field_var ''pid'' '''' ''off_oom_pid'' 4 False] '''',
     probe_def FeatMCE ''mce_record'' ''mce'' ''mce_record'' False
       [field_var ''status'' '''' ''off_mce_status'' 8 False,
        field_var ''addr'' '''' ''off_mce_addr'' 8 False,
        field_var ''bank'' '''' ''off_mce_bank'' 1 False,
        field_var ''mcgstatus'' '''' ''off_mce_mcgstatus'' 8 False] '''']"

section \<open>Errors\<close>

text \<open>An error of the library: its message and what \<open>errors.Is\<close> and \<open>errors.As\<close> find in it.\<close>

record bpf_error =
  be_msg :: string
  be_EPERM :: bool
  be_EACCES :: bool
  be_NotExist :: bool
  be_btfNotFound :: bool
  be_NotSupported :: bool
  be_Verifier :: "string list option"

definition classify :: "bpf_error \<Rightarrow> ProbeState \<times> string" where
  "classify err =
     (let msg = (case be_Verifier err of
                   None \<Rightarrow> be_msg err
                 | Some ls \<Rightarrow> ''verifier: '' @ Join (last_n 3 ls) '' | '')
      in (if be_NotExist err \<or> be_btfNotFound err \<or> be_NotSupported err then Unavailable else Failed, msg))"

text \<open>\<open>%q\<close> of printable text with tabs.\<close>

definition quote_char :: "char \<Rightarrow> string" where
  "quote_char c =
     (if c = CHR 0x09 then [CHR 0x5C, CHR ''t''] else if c = CHR 0x22 \<or> c = CHR 0x5C then [CHR 0x5C, c] else [c])"

definition quote :: "string \<Rightarrow> string" where
  "quote s = CHR 0x22 # concat (map quote_char s) @ [CHR 0x22]"

fun open_message :: "open_result \<Rightarrow> string" where
  "open_message (Opened s) = []"
| "open_message (NotExist m) = m"
| "open_message (OpenFailed m) = m"

fun tracefs_message :: "tracefs_error \<Rightarrow> string" where
  "tracefs_message (FormatError (BadOffset l)) = ''bad offset in '' @ quote l"
| "tracefs_message (FormatError (BadSize l)) = ''bad size in '' @ quote l"
| "tracefs_message (NotAvailable grp name) = ''tracepoint '' @ grp @ '':'' @ name @ '' not available''"
| "tracefs_message (OpenErrors errs) = Join (map open_message errs) [CHR 0x0A]"

section \<open>Loading\<close>

record bpf_host =
  bh_RemoveMemlock :: "bpf_error option"
  bh_LoadSpec :: "bpf_error option"
  bh_open :: "string \<Rightarrow> open_result"
  bh_Variables :: "string list"
  bh_SetVar :: "string \<Rightarrow> uint32 \<Rightarrow> bpf_error option"
  bh_NewMaps :: "bpf_error option"
  bh_Programs :: "string list"
  bh_NewProgram :: "string \<Rightarrow> bpf_error option"
  bh_AttachTracing :: "string \<Rightarrow> bpf_error option"
  bh_Tracepoint :: "string \<Rightarrow> string \<Rightarrow> string \<Rightarrow> bpf_error option"
  bh_NewReader :: "bpf_error option"
  bh_dropEnum :: "(string \<times> uint64) list option"

type_synonym offsets = "(string, uint32) gomap"

definition find_field :: "(string, Field) gomap \<Rightarrow> fieldVar \<Rightarrow> Field option" where
  "find_field fds fv =
     (case map_of fds (fv_field fv) of
        Some f \<Rightarrow> Some f
      | None \<Rightarrow> if fv_alt fv \<noteq> [] then map_of fds (fv_alt fv) else None)"

fun resolve_loop :: "bpf_host \<Rightarrow> probeDef \<Rightarrow> (string, Field) gomap \<Rightarrow> offsets \<Rightarrow> fieldVar list \<Rightarrow> offsets \<times> string option" where
  "resolve_loop h def fds vars [] = (vars, None)"
| "resolve_loop h def fds vars (fv # fvs) =
     (case find_field fds fv of
        None \<Rightarrow>
          if fv_optional fv then resolve_loop h def fds vars fvs
          else (vars, Some (''field '' @ quote (fv_field fv) @ '' missing from '' @ pd_group def @ '':'' @ pd_event def))
      | Some f \<Rightarrow>
          if fi_Size f \<noteq> fv_size fv
          then (vars, Some (''field '' @ quote (fi_Name f) @ '' of '' @ pd_group def @ '':'' @ pd_event def @ '' has size '' @
                  show_nat (unat (fi_Size f)) @ '', expected '' @ show_nat (unat (fv_size fv))))
          else if fv_variable fv \<notin> set (bh_Variables h) then (vars, Some (''BPF object lacks variable '' @ fv_variable fv))
          else case bh_SetVar h (fv_variable fv) (fi_Offset f) of
                 Some err \<Rightarrow> (vars, Some (''set '' @ fv_variable fv @ '': '' @ be_msg err))
               | None \<Rightarrow> resolve_loop h def fds (AList.update (fv_variable fv) (fi_Offset f) vars) fvs)"

definition resolveFields :: "bpf_host \<Rightarrow> offsets \<Rightarrow> probeDef \<Rightarrow> offsets \<times> string option" where
  "resolveFields h vars def =
     (case tracepointFormat (bh_open h) (pd_group def) (pd_event def) of
        Inl e \<Rightarrow> (vars, Some (tracefs_message e))
      | Inr fds \<Rightarrow> resolve_loop h def fds vars (pd_fields def))"

definition new_status :: "probeDef \<Rightarrow> ProbeStatus" where
  "new_status def = \<lparr>st_Feature = pd_feature def, st_Probe = pd_group def @ '':'' @ pd_event def, st_State = Attached, st_Err = []\<rparr>"

definition plan_step ::
  "bpf_host \<Rightarrow> (string, bool) gomap \<Rightarrow> ProbeStatus list \<times> probeDef list \<times> offsets \<Rightarrow> probeDef \<Rightarrow> ProbeStatus list \<times> probeDef list \<times> offsets" where
  "plan_step h disabled acc def =
     (let (status, plan, vars) = acc
      in if mget False disabled (pd_feature def) then (status @ [(new_status def)\<lparr>st_State := Disabled\<rparr>], plan, vars)
         else if \<not> pd_btf def
         then (case resolveFields h vars def of
                 (vars, Some err) \<Rightarrow> (status @ [(new_status def)\<lparr>st_State := Unavailable, st_Err := err\<rparr>], plan, vars)
               | (vars, None) \<Rightarrow> (status, plan @ [def], vars))
         else (status, plan @ [def], vars))"

definition loadProgram :: "bpf_host \<Rightarrow> string \<Rightarrow> bpf_error option" where
  "loadProgram h name =
     (if name \<notin> set (bh_Programs h)
      then Some \<lparr>be_msg = ''program '' @ name @ '' not in BPF object'', be_EPERM = False, be_EACCES = False, be_NotExist = False,
        be_btfNotFound = False, be_NotSupported = False, be_Verifier = None\<rparr>
      else bh_NewProgram h name)"

text \<open>Loads a program, the fallback if it fails, and attaches it: the program, or the error.\<close>

definition attach :: "bpf_host \<Rightarrow> probeDef \<Rightarrow> bpf_error + string" where
  "attach h def =
     (let (prog, err) = (pd_prog def, loadProgram h (pd_prog def));
          (prog, err) = (if err \<noteq> None \<and> pd_fallback def \<noteq> [] then (pd_fallback def, loadProgram h (pd_fallback def)) else (prog, err))
      in case err of
           Some e \<Rightarrow> Inl e
         | None \<Rightarrow>
             (case (if pd_btf def then bh_AttachTracing h prog else bh_Tracepoint h (pd_group def) (pd_event def) prog) of
                Some e \<Rightarrow> Inl e | None \<Rightarrow> Inr prog))"

definition attach_step :: "bpf_host \<Rightarrow> ProbeStatus list \<times> string list \<Rightarrow> probeDef \<Rightarrow> ProbeStatus list \<times> string list" where
  "attach_step h acc def =
     (let (status, progs) = acc
      in case attach h def of
           Inr prog \<Rightarrow> (status @ [new_status def], progs @ [prog])
         | Inl err \<Rightarrow> (let (state, msg) = classify err in (status @ [(new_status def)\<lparr>st_State := state, st_Err := msg\<rparr>], progs)))"

section \<open>The maps shared with the BPF programs\<close>

record VMCounters =
  vc_IrqInjections :: uint64
  vc_Exceptions :: uint64
  vc_EmulFailures :: uint64
  vc_HaltPollsOk :: uint64
  vc_HaltWaits :: uint64
  vc_HaltWaitNs :: uint64

record VCPUCounters =
  pc_Exits :: uint64
  pc_HaltWaits :: uint64

text \<open>A per-CPU map has one value for every CPU. Exits are keyed by process and reason, drops by interface and reason.\<close>

record bpf_maps =
  bm_targets :: "(uint32, uint32) gomap"
  bm_target_ifaces :: "(uint32, uint32) gomap"
  bm_vm_exits :: "(uint32 \<times> uint32, uint64 list) gomap"
  bm_vm_uexits :: "(uint32 \<times> uint32, uint64 list) gomap"
  bm_vm_stats :: "(uint32, VMCounters list) gomap"
  bm_vcpu_stats :: "(uint32, VCPUCounters) gomap"
  bm_runq_hist :: "(uint32, Hist) gomap"
  bm_blk_dev_hist :: "(uint32, Hist) gomap"
  bm_blk_vm_hist :: "(uint32, Hist) gomap"
  bm_blk_errors :: "(uint32, uint64) gomap"
  bm_skb_drops :: "(uint32 \<times> uint32, uint64) gomap"

definition empty_maps :: bpf_maps where
  "empty_maps = \<lparr>bm_targets = [], bm_target_ifaces = [], bm_vm_exits = [], bm_vm_uexits = [], bm_vm_stats = [], bm_vcpu_stats = [],
     bm_runq_hist = [], bm_blk_dev_hist = [], bm_blk_vm_hist = [], bm_blk_errors = [], bm_skb_drops = []\<rparr>"

record LoadedProbes =
  pb_status :: "ProbeStatus list"
  pb_links :: "string list"
  pb_vars :: offsets
  pb_targets :: "(uint32, bool) gomap"
  pb_ifaces :: "(uint32, uint32) gomap"
  pb_maps :: bpf_maps
  pb_DropNames :: DropReasons

datatype load_error = ErrPermission | LoadError string

definition feature_rank :: "string \<Rightarrow> nat" where
  "feature_rank f = length (takeWhile (\<lambda>g. g \<noteq> f) AllFeatures)"

text \<open>The programs of the attached probes stand for their links.\<close>

definition LoadProbes :: "bpf_host \<Rightarrow> (string, bool) gomap \<Rightarrow> load_error + LoadedProbes" where
  "LoadProbes h disabled =
     (case bh_RemoveMemlock h of
        Some err \<Rightarrow> Inl (if be_EPERM err then ErrPermission else LoadError (''remove memlock limit: '' @ be_msg err))
      | None \<Rightarrow>
     (case bh_LoadSpec h of
        Some err \<Rightarrow> Inl (LoadError (''parse embedded BPF object: '' @ be_msg err))
      | None \<Rightarrow>
          let (status, plan, vars) = foldl (plan_step h disabled) ([], [], []) probeDefs
          in case bh_NewMaps h of
               Some err \<Rightarrow> Inl (if be_EPERM err \<or> be_EACCES err then ErrPermission else LoadError (''create BPF maps: '' @ be_msg err))
             | None \<Rightarrow>
                 let (status, links) = foldl (attach_step h) (status, []) plan
                 in if links = [] then Inl (LoadError ''no eBPF probe could be attached'')
                    else let drops = (if list_ex (\<lambda>s. st_Feature s = FeatNetDrops \<and> st_State s = Attached) status
                                      then loadDropReasons (bh_dropEnum h) else [])
                         in case bh_NewReader h of
                              Some err \<Rightarrow> Inl (LoadError (''open event ring buffer: '' @ be_msg err))
                            | None \<Rightarrow> Inr \<lparr>pb_status = sort_key (\<lambda>s. feature_rank (st_Feature s)) status, pb_links = links, pb_vars = vars,
                                pb_targets = [], pb_ifaces = [], pb_maps = empty_maps, pb_DropNames = drops\<rparr>))"

definition FeatureActive :: "string \<Rightarrow> LoadedProbes \<Rightarrow> bool" where
  "FeatureActive feature p \<longleftrightarrow> list_ex (\<lambda>s. st_Feature s = feature \<and> st_State s = Attached) (pb_status p)"

definition ProbesStatus :: "LoadedProbes \<Rightarrow> ProbeStatus list" where
  "ProbesStatus p = pb_status p"

text \<open>Closing detaches every program; the maps go with the collection.\<close>

definition ProbesClose :: "LoadedProbes \<Rightarrow> LoadedProbes" where
  "ProbesClose p = p\<lparr>pb_links := [], pb_maps := empty_maps\<rparr>"

section \<open>Monitored processes and interfaces\<close>

text \<open>
  Which updates and deletions of the kernel's maps succeed; their errors are ignored. A key
  that the iterator misses counts as one whose deletion fails.
\<close>

record map_ops =
  mo_upd_target :: "uint32 \<Rightarrow> bool"
  mo_del_target :: "uint32 \<Rightarrow> bool"
  mo_del_exits :: "uint32 \<times> uint32 \<Rightarrow> bool"
  mo_del_uexits :: "uint32 \<times> uint32 \<Rightarrow> bool"
  mo_del_stats :: "uint32 \<Rightarrow> bool"
  mo_del_blk :: "uint32 \<Rightarrow> bool"
  mo_upd_iface :: "uint32 \<Rightarrow> bool"
  mo_del_iface :: "uint32 \<Rightarrow> bool"
  mo_del_drops :: "uint32 \<times> uint32 \<Rightarrow> bool"

definition delete_each :: "('k \<Rightarrow> bool) \<Rightarrow> ('k, 'v) gomap \<Rightarrow> 'k list \<Rightarrow> ('k, 'v) gomap" where
  "delete_each del m ks = foldl (\<lambda>m k. if del k then AList.delete k m else m) m ks"

definition deleteKeys :: "('k \<Rightarrow> bool) \<Rightarrow> ('k \<Rightarrow> bool) \<Rightarrow> ('k, 'v) gomap \<Rightarrow> ('k, 'v) gomap" where
  "deleteKeys del match m = delete_each del m (filter match (mkeys m))"

definition SetTargets :: "map_ops \<Rightarrow> (uint32, bool) gomap \<Rightarrow> LoadedProbes \<Rightarrow> LoadedProbes" where
  "SetTargets ops tgids p =
     (let m = pb_maps p;
          tm = foldl (\<lambda>tm t. if \<not> mget False (pb_targets p) t \<and> mo_upd_target ops t then AList.update t 1 tm else tm) (bm_targets m) (mkeys tgids);
          gone = filter (\<lambda>t. \<not> mget False tgids t) (mkeys (pb_targets p));
          tm = delete_each (mo_del_target ops) tm gone;
          m = m\<lparr>bm_targets := tm\<rparr>;
          m = (if gone = [] then m
               else m\<lparr>bm_vm_exits := deleteKeys (mo_del_exits ops) (\<lambda>k. fst k \<in> set gone) (bm_vm_exits m),
                      bm_vm_uexits := deleteKeys (mo_del_uexits ops) (\<lambda>k. fst k \<in> set gone) (bm_vm_uexits m),
                      bm_vm_stats := delete_each (mo_del_stats ops) (bm_vm_stats m) gone,
                      bm_blk_vm_hist := delete_each (mo_del_blk ops) (bm_blk_vm_hist m) gone\<rparr>)
      in p\<lparr>pb_targets := tgids, pb_maps := m\<rparr>)"

definition SetIfaces :: "map_ops \<Rightarrow> (uint32, uint32) gomap \<Rightarrow> LoadedProbes \<Rightarrow> LoadedProbes" where
  "SetIfaces ops ifaces p =
     (let m = pb_maps p;
          im = foldl (\<lambda>im (idx, tgid). if map_of (pb_ifaces p) idx \<noteq> Some tgid \<and> mo_upd_iface ops idx then AList.update idx tgid im else im)
                 (bm_target_ifaces m) ifaces;
          gone = filter (\<lambda>idx. map_of ifaces idx = None) (mkeys (pb_ifaces p));
          im = delete_each (mo_del_iface ops) im gone;
          m = m\<lparr>bm_target_ifaces := im\<rparr>;
          m = (if gone = [] then m else m\<lparr>bm_skb_drops := deleteKeys (mo_del_drops ops) (\<lambda>k. fst k \<in> set gone) (bm_skb_drops m)\<rparr>)
      in p\<lparr>pb_ifaces := ifaces, pb_maps := m\<rparr>)"

section \<open>Reading the counters\<close>

definition add_exit ::
  "(uint32, (uint32, uint64) gomap) gomap \<Rightarrow> (uint32 \<times> uint32) \<times> uint64 list \<Rightarrow> (uint32, (uint32, uint64) gomap) gomap" where
  "add_exit out kv =
     (let ((tgid, reason), vals) = kv; inner = mget [] out tgid
      in AList.update tgid (AList.update reason (mget 0 inner reason + foldl (+) 0 vals) inner) out)"

definition perCPUExitMap :: "(uint32 \<times> uint32, uint64 list) gomap \<Rightarrow> (uint32, (uint32, uint64) gomap) gomap" where
  "perCPUExitMap m = foldl add_exit [] m"

definition ExitCounts :: "LoadedProbes \<Rightarrow> (uint32, (uint32, uint64) gomap) gomap" where
  "ExitCounts p = perCPUExitMap (bm_vm_exits (pb_maps p))"

definition UserExitCounts :: "LoadedProbes \<Rightarrow> (uint32, (uint32, uint64) gomap) gomap" where
  "UserExitCounts p = perCPUExitMap (bm_vm_uexits (pb_maps p))"

definition zero_counters :: VMCounters where
  "zero_counters = \<lparr>vc_IrqInjections = 0, vc_Exceptions = 0, vc_EmulFailures = 0, vc_HaltPollsOk = 0, vc_HaltWaits = 0, vc_HaltWaitNs = 0\<rparr>"

definition add_counters :: "VMCounters \<Rightarrow> VMCounters \<Rightarrow> VMCounters" where
  "add_counters s v =
     \<lparr>vc_IrqInjections = vc_IrqInjections s + vc_IrqInjections v, vc_Exceptions = vc_Exceptions s + vc_Exceptions v,
      vc_EmulFailures = vc_EmulFailures s + vc_EmulFailures v, vc_HaltPollsOk = vc_HaltPollsOk s + vc_HaltPollsOk v,
      vc_HaltWaits = vc_HaltWaits s + vc_HaltWaits v, vc_HaltWaitNs = vc_HaltWaitNs s + vc_HaltWaitNs v\<rparr>"

definition readMap :: "('k, 'v) gomap \<Rightarrow> ('k, 'v) gomap" where
  "readMap m = foldl (\<lambda>out (k, v). AList.update k v out) [] m"

definition ReadVMCounters :: "LoadedProbes \<Rightarrow> (uint32, VMCounters) gomap" where
  "ReadVMCounters p =
     foldl (\<lambda>out (tgid, vals). AList.update tgid (foldl add_counters zero_counters vals) out) [] (bm_vm_stats (pb_maps p))"

definition ReadVCPUCounters :: "LoadedProbes \<Rightarrow> (uint32, VCPUCounters) gomap" where
  "ReadVCPUCounters p = readMap (bm_vcpu_stats (pb_maps p))"

definition hists :: "(uint32, Hist) gomap \<Rightarrow> (uint32, Hist) gomap" where
  "hists raw = foldl (\<lambda>out (k, h). AList.update k h out) [] (readMap raw)"

definition RunqHists :: "LoadedProbes \<Rightarrow> (uint32, Hist) gomap" where
  "RunqHists p = hists (bm_runq_hist (pb_maps p))"

definition BlockDevHists :: "LoadedProbes \<Rightarrow> (uint32, Hist) gomap" where
  "BlockDevHists p = hists (bm_blk_dev_hist (pb_maps p))"

definition BlockVMHists :: "LoadedProbes \<Rightarrow> (uint32, Hist) gomap" where
  "BlockVMHists p = hists (bm_blk_vm_hist (pb_maps p))"

definition BlockErrors :: "LoadedProbes \<Rightarrow> (uint32, uint64) gomap" where
  "BlockErrors p = readMap (bm_blk_errors (pb_maps p))"

definition Drops :: "LoadedProbes \<Rightarrow> (uint32 \<times> uint32, uint64) gomap" where
  "Drops p = readMap (bm_skb_drops (pb_maps p))"

section \<open>Events\<close>

record HyperviewEvent =
  he_Ts :: uint64
  he_Type :: uint32
  he_Tgid :: uint32
  he_Tid :: uint32
  he_Cpu :: uint32
  he_A :: int
  he_B :: int
  he_C :: int
  he_D :: int
  he_Comm :: "8 word list"

definition cString :: "8 word list \<Rightarrow> string" where
  "cString b = map (\<lambda>c. char_of (unat c)) (takeWhile (\<lambda>c. c \<noteq> 0) b)"

text \<open>The clocks at the reading; the difference is taken in 64 bits.\<close>

definition monoToWall :: "gtime \<Rightarrow> uint64 option \<Rightarrow> uint64 \<Rightarrow> gtime" where
  "monoToWall now clk ns = (case clk of None \<Rightarrow> now | Some ts \<Rightarrow> now + sint (- (ts - ns)))"

definition event_of :: "gtime \<Rightarrow> uint64 option \<Rightarrow> HyperviewEvent \<Rightarrow> Event" where
  "event_of now clk raw =
     \<lparr>ev_Time = monoToWall now clk (he_Ts raw), ev_Type = he_Type raw, ev_TGID = he_Tgid raw, ev_TID = he_Tid raw, ev_CPU = he_Cpu raw,
      ev_A = he_A raw, ev_B = he_B raw, ev_C = he_C raw, ev_D = he_D raw, ev_Comm = cString (he_Comm raw)\<rparr>"

definition event_capacity :: nat where
  "event_capacity = 1024"

text \<open>
  The channel between the reader and its consumer, with what the consumer received. A
  record is the decoded sample and the clocks at its reading; a sample too short to decode
  is skipped, and an event is dropped when the channel is full.
\<close>

datatype ring_op = RingRecord "HyperviewEvent option" gtime "uint64 option" | Receive

fun ring_step :: "Event list \<times> Event list \<Rightarrow> ring_op \<Rightarrow> Event list \<times> Event list" where
  "ring_step (queue, got) (RingRecord None now clk) = (queue, got)"
| "ring_step (queue, got) (RingRecord (Some raw) now clk) =
     (if length queue < event_capacity then (queue @ [event_of now clk raw], got) else (queue, got))"
| "ring_step ([], got) Receive = ([], got)"
| "ring_step (ev # queue, got) Receive = (queue, got @ [ev])"

section \<open>The status of every probe\<close>

definition probe_name :: "probeDef \<Rightarrow> string" where
  "probe_name def = pd_group def @ '':'' @ pd_event def"

definition verdict :: "bpf_host \<Rightarrow> (string, bool) gomap \<Rightarrow> probeDef \<Rightarrow> ProbeState" where
  "verdict h disabled def =
     (if mget False disabled (pd_feature def) then Disabled
      else if \<not> pd_btf def \<and> snd (resolveFields h [] def) \<noteq> None then Unavailable
      else (case attach h def of Inr _ \<Rightarrow> Attached | Inl e \<Rightarrow> fst (classify e)))"

definition report :: "ProbeStatus \<Rightarrow> string \<times> string \<times> ProbeState" where
  "report s = (st_Feature s, st_Probe s, st_State s)"

definition planned :: "bpf_host \<Rightarrow> (string, bool) gomap \<Rightarrow> probeDef \<Rightarrow> bool" where
  "planned h disabled def \<longleftrightarrow> \<not> mget False disabled (pd_feature def) \<and> (pd_btf def \<or> snd (resolveFields h [] def) = None)"

abbreviation due :: "bpf_host \<Rightarrow> (string, bool) gomap \<Rightarrow> probeDef \<Rightarrow> string \<times> string \<times> ProbeState" where
  "due h disabled def \<equiv> (pd_feature def, probe_name def, verdict h disabled def)"

lemma resolve_loop_vars: "snd (resolve_loop h def fds vars fvs) = snd (resolve_loop h def fds vars' fvs)"
  by (induction fvs arbitrary: vars vars') (auto split: option.splits)

lemma resolveFields_vars: "snd (resolveFields h vars def) = snd (resolveFields h [] def)"
  using resolve_loop_vars by (auto simp: resolveFields_def split: sum.splits)

lemma plan_step_cases:
  "planned h disabled def \<Longrightarrow> \<exists>vars'. plan_step h disabled (status, plan, vars) def = (status, plan @ [def], vars')"
  "\<not> planned h disabled def \<Longrightarrow> \<exists>s vars'. plan_step h disabled (status, plan, vars) def = (status @ [s], plan, vars') \<and>
     report s = due h disabled def"
  using resolveFields_vars[of h vars def]
  by (auto simp: planned_def plan_step_def report_def verdict_def new_status_def probe_name_def split: prod.splits option.splits)

lemma plan_loop:
  "\<exists>ss vars'. foldl (plan_step h disabled) (status, plan, vars) defs = (status @ ss, plan @ filter (planned h disabled) defs, vars') \<and>
     map report ss = map (due h disabled) (filter (\<lambda>d. \<not> planned h disabled d) defs)"
proof (induction defs arbitrary: status plan vars)
  case (Cons def defs)
  show ?case
  proof (cases "planned h disabled def")
    case True
    obtain vars' where step: "plan_step h disabled (status, plan, vars) def = (status, plan @ [def], vars')"
      using plan_step_cases(1)[OF True] by blast
    show ?thesis using Cons[of status "plan @ [def]" vars'] True by (simp add: step)
  next
    case False
    obtain s vars' where step: "plan_step h disabled (status, plan, vars) def = (status @ [s], plan, vars')" "report s = due h disabled def"
      using plan_step_cases(2)[OF False] by blast
    obtain ss vars'' where "foldl (plan_step h disabled) (status @ [s], plan, vars') defs = ((status @ [s]) @ ss, plan @ filter (planned h disabled) defs, vars'')"
      "map report ss = map (due h disabled) (filter (\<lambda>d. \<not> planned h disabled d) defs)" using Cons[of "status @ [s]" plan vars'] by blast
    then show ?thesis using step False by (intro exI[of _ "s # ss"] exI[of _ vars'']) simp
  qed
qed simp

lemma attach_step_cases:
  assumes "planned h disabled def"
  shows "\<exists>s. attach_step h (status, progs) def = (status @ [s], progs @ (case attach h def of Inr p \<Rightarrow> [p] | Inl _ \<Rightarrow> [])) \<and>
    report s = due h disabled def"
proof (cases "attach h def")
  case (Inl e)
  then show ?thesis using assms
    by (cases "classify e") (auto simp: attach_step_def planned_def report_def verdict_def new_status_def probe_name_def)
next
  case (Inr p)
  then show ?thesis using assms
    by (auto simp: attach_step_def planned_def report_def verdict_def new_status_def probe_name_def)
qed

lemma attach_loop:
  assumes "list_all (planned h disabled) defs"
  shows "\<exists>ss. foldl (attach_step h) (status, progs) defs =
      (status @ ss, progs @ List.map_filter (\<lambda>d. case attach h d of Inr p \<Rightarrow> Some p | Inl _ \<Rightarrow> None) defs) \<and>
     map report ss = map (due h disabled) defs"
  using assms
proof (induction defs arbitrary: status progs)
  case (Cons def defs)
  obtain s where step: "attach_step h (status, progs) def =
      (status @ [s], progs @ (case attach h def of Inr p \<Rightarrow> [p] | Inl _ \<Rightarrow> []))" "report s = due h disabled def"
    using attach_step_cases[of h disabled def status progs] Cons.prems by auto
  obtain ss where "foldl (attach_step h) (status @ [s], progs @ (case attach h def of Inr p \<Rightarrow> [p] | Inl _ \<Rightarrow> [])) defs =
      ((status @ [s]) @ ss, (progs @ (case attach h def of Inr p \<Rightarrow> [p] | Inl _ \<Rightarrow> [])) @
        List.map_filter (\<lambda>d. case attach h d of Inr p \<Rightarrow> Some p | Inl _ \<Rightarrow> None) defs)" "map report ss = map (due h disabled) defs"
    using Cons.IH[of "status @ [s]" "progs @ (case attach h def of Inr p \<Rightarrow> [p] | Inl _ \<Rightarrow> [])"] Cons.prems by auto
  then show ?case using step by (intro exI[of _ "s # ss"]) (auto simp: List.map_filter_def split: sum.splits)
qed (simp add: List.map_filter_def)

lemma LoadProbes_ok:
  assumes "LoadProbes h disabled = Inr p"
  shows "mset (map report (pb_status p)) = mset (map (due h disabled) probeDefs)"
    and "sorted (map (\<lambda>s. feature_rank (st_Feature s)) (pb_status p))" and "pb_links p \<noteq> []"
    and "pb_links p = List.map_filter (\<lambda>d. case attach h d of Inr p \<Rightarrow> Some p | Inl _ \<Rightarrow> None) (filter (planned h disabled) probeDefs)"
proof -
  obtain ss vars where plan: "foldl (plan_step h disabled) ([], [], []) probeDefs = (ss, filter (planned h disabled) probeDefs, vars)"
    "map report ss = map (due h disabled) (filter (\<lambda>d. \<not> planned h disabled d) probeDefs)"
    using plan_loop[of h disabled "[]" "[]" "[]" probeDefs] by auto
  let ?links = "List.map_filter (\<lambda>d. case attach h d of Inr p \<Rightarrow> Some p | Inl _ \<Rightarrow> None) (filter (planned h disabled) probeDefs)"
  obtain ts where att: "foldl (attach_step h) (ss, []) (filter (planned h disabled) probeDefs) = (ss @ ts, ?links)"
    "map report ts = map (due h disabled) (filter (planned h disabled) probeDefs)"
    using attach_loop[of h disabled "filter (planned h disabled) probeDefs" ss "[]"] by (auto simp: list_all_iff)
  have p: "pb_status p = sort_key (\<lambda>s. feature_rank (st_Feature s)) (ss @ ts)" "pb_links p = ?links" "?links \<noteq> []"
    using assms unfolding LoadProbes_def plan(1) Let_def prod.case att(1)
    by (auto split: option.splits if_splits)
  have "mset (map report (pb_status p)) = image_mset (due h disabled) (mset (filter (\<lambda>d. \<not> planned h disabled d) probeDefs)) +
      image_mset (due h disabled) (mset (filter (planned h disabled) probeDefs))"
    using arg_cong[OF plan(2), of mset] arg_cong[OF att(2), of mset] by (simp add: p(1))
  also have "\<dots> = image_mset (due h disabled) (mset probeDefs)"
    unfolding mset_filter image_mset_union[symmetric] by (simp add: add.commute)
  finally show "mset (map report (pb_status p)) = mset (map (due h disabled) probeDefs)" by simp
  show "sorted (map (\<lambda>s. feature_rank (st_Feature s)) (pb_status p))" unfolding p(1) by simp
  show "pb_links p \<noteq> []" "pb_links p = ?links" using p by simp_all
qed

section \<open>What is monitored\<close>

lemma map_of_delete_each: "map_of (delete_each del m ks) x = (if x \<in> set ks \<and> del x then None else map_of m x)"
proof -
  have "map_of (foldl (\<lambda>m k. if del k then AList.delete k m else m) m ks) x = (if x \<in> set ks \<and> del x then None else map_of m x)"
    by (induction ks arbitrary: m) (auto simp: gomap_simps)
  then show ?thesis by (simp add: delete_each_def)
qed

lemma map_of_deleteKeys: "map_of (deleteKeys del P m) x = (if P x \<and> del x then None else map_of m x)"
  by (auto simp: deleteKeys_def map_of_delete_each in_mkeys_iff)

lemma map_of_update_when:
  "map_of (foldl (\<lambda>m k. if P k then AList.update k v m else m) m ks) x = (if x \<in> set ks \<and> P x then Some v else map_of m x)"
  by (induction ks arbitrary: m) (auto simp: gomap_simps)

text \<open>The map of the kernel mirrors the processes the program asked for.\<close>

definition mirrored :: "LoadedProbes \<Rightarrow> bool" where
  "mirrored p \<longleftrightarrow> (\<forall>t. map_of (bm_targets (pb_maps p)) t = (if mget False (pb_targets p) t then Some 1 else None))"

definition gone :: "(uint32, bool) gomap \<Rightarrow> LoadedProbes \<Rightarrow> uint32 list" where
  "gone tgids p = filter (\<lambda>t. \<not> mget False tgids t) (mkeys (pb_targets p))"

lemma delete_none: "deleteKeys del (\<lambda>_. False) m = m" "delete_each del m [] = m"
  by (simp_all add: deleteKeys_def delete_each_def)

lemma SetTargets_maps:
  "bm_targets (pb_maps (SetTargets ops tgids p)) =
    delete_each (mo_del_target ops)
      (foldl (\<lambda>tm t. if \<not> mget False (pb_targets p) t \<and> mo_upd_target ops t then AList.update t 1 tm else tm) (bm_targets (pb_maps p)) (mkeys tgids))
      (gone tgids p)"
  "bm_vm_exits (pb_maps (SetTargets ops tgids p)) = deleteKeys (mo_del_exits ops) (\<lambda>k. fst k \<in> set (gone tgids p)) (bm_vm_exits (pb_maps p))"
  "bm_vm_uexits (pb_maps (SetTargets ops tgids p)) = deleteKeys (mo_del_uexits ops) (\<lambda>k. fst k \<in> set (gone tgids p)) (bm_vm_uexits (pb_maps p))"
  "bm_vm_stats (pb_maps (SetTargets ops tgids p)) = delete_each (mo_del_stats ops) (bm_vm_stats (pb_maps p)) (gone tgids p)"
  "bm_blk_vm_hist (pb_maps (SetTargets ops tgids p)) = delete_each (mo_del_blk ops) (bm_blk_vm_hist (pb_maps p)) (gone tgids p)"
  "pb_targets (SetTargets ops tgids p) = tgids"
  by (simp_all add: SetTargets_def Let_def gone_def[symmetric] delete_none)

lemma in_gone: "\<forall>t. map_of (pb_targets p) t \<noteq> Some False \<Longrightarrow> t \<in> set (gone tgids p) \<longleftrightarrow> mget False (pb_targets p) t \<and> \<not> mget False tgids t"
  by (auto simp: gone_def in_mkeys_iff mget_False_iff) (metis (full_types))

text \<open>What becomes of the targets, whichever operations fail.\<close>

lemma SetTargets_targets:
  assumes "\<forall>t. map_of (pb_targets p) t \<noteq> Some False" and "\<forall>t. map_of tgids t \<noteq> Some False"
  shows "map_of (bm_targets (pb_maps (SetTargets ops tgids p))) t =
    (if mget False tgids t \<and> \<not> mget False (pb_targets p) t \<and> mo_upd_target ops t then Some 1
     else if mget False (pb_targets p) t \<and> \<not> mget False tgids t \<and> mo_del_target ops t then None
     else map_of (bm_targets (pb_maps p)) t)"
proof -
  have "map_of tgids t \<noteq> None \<longleftrightarrow> mget False tgids t" using assms(2) unfolding mget_False_iff by (metis (full_types) not_None_eq option.distinct(1))
  then show ?thesis unfolding SetTargets_maps map_of_delete_each in_gone[OF assms(1)] map_of_update_when in_mkeys_iff by auto
qed

lemma SetTargets_mirrored:
  assumes "mirrored p" and "\<forall>t. map_of (pb_targets p) t \<noteq> Some False" and "\<forall>t. map_of tgids t \<noteq> Some False"
    and "\<forall>t. mo_upd_target ops t \<and> mo_del_target ops t"
  shows "mirrored (SetTargets ops tgids p)"
  unfolding mirrored_def SetTargets_targets[OF assms(2,3)] SetTargets_maps(6) using assms(1,4) by (simp add: mirrored_def)

text \<open>The state of processes that went away is dropped, that of the others kept.\<close>

lemma SetTargets_counters:
  assumes "\<forall>t. map_of (pb_targets p) t \<noteq> Some False"
  shows "map_of (bm_vm_exits (pb_maps (SetTargets ops tgids p))) (t, r) =
      (if mget False (pb_targets p) t \<and> \<not> mget False tgids t \<and> mo_del_exits ops (t, r) then None else map_of (bm_vm_exits (pb_maps p)) (t, r))"
    and "map_of (bm_vm_uexits (pb_maps (SetTargets ops tgids p))) (t, r) =
      (if mget False (pb_targets p) t \<and> \<not> mget False tgids t \<and> mo_del_uexits ops (t, r) then None else map_of (bm_vm_uexits (pb_maps p)) (t, r))"
    and "map_of (bm_vm_stats (pb_maps (SetTargets ops tgids p))) t =
      (if mget False (pb_targets p) t \<and> \<not> mget False tgids t \<and> mo_del_stats ops t then None else map_of (bm_vm_stats (pb_maps p)) t)"
    and "map_of (bm_blk_vm_hist (pb_maps (SetTargets ops tgids p))) t =
      (if mget False (pb_targets p) t \<and> \<not> mget False tgids t \<and> mo_del_blk ops t then None else map_of (bm_blk_vm_hist (pb_maps p)) t)"
  unfolding SetTargets_maps map_of_deleteKeys map_of_delete_each fst_conv in_gone[OF assms(1)] by simp_all

section \<open>Sums over the processors\<close>

lemma foldl_plus_sum: "foldl (+) (a :: uint64) vals = a + sum_list vals"
  by (induction vals arbitrary: a) (simp_all add: add.assoc)

lemma mget_add_exit:
  "mget 0 (mget [] (add_exit out ((tg, rs), vals)) t) r =
    mget 0 (mget [] out t) r + (if t = tg \<and> r = rs then sum_list vals else 0)"
  by (simp add: add_exit_def Let_def mget_update foldl_plus_sum)

lemma perCPU_loop:
  "wf_map m \<Longrightarrow> mget 0 (mget [] (foldl add_exit out m) t) r = mget 0 (mget [] out t) r + sum_list (mget [] m (t, r))"
proof (induction m arbitrary: out)
  case (Cons x m)
  obtain tg rs vals where x: "x = ((tg, rs), vals)" by (metis prod.collapse)
  have wf: "wf_map m" and fresh: "mget [] m (tg, rs) = []"
    using Cons.prems by (auto simp: wf_map_def x intro!: mget_None) (auto simp: map_of_eq_None_iff)
  have "mget [] (x # m) (t, r) = (if t = tg \<and> r = rs then vals else mget [] m (t, r))" by (auto simp: mget_def x)
  then show ?case
    using Cons.IH[OF wf, of "add_exit out x"] mget_add_exit[of out tg rs vals t r] fresh unfolding x
    by (cases "t = tg \<and> r = rs") auto
qed (simp add: mget_def)

lemma perCPUExitMap_sum: "wf_map m \<Longrightarrow> mget 0 (mget [] (perCPUExitMap m) t) r = sum_list (mget [] m (t, r))"
  using perCPU_loop[of m "[]" t r] by (simp add: perCPUExitMap_def mget_def)

section \<open>The order of events\<close>

fun ring_read :: "ring_op list \<Rightarrow> Event list" where
  "ring_read [] = []"
| "ring_read (RingRecord (Some raw) now clk # ops) = event_of now clk raw # ring_read ops"
| "ring_read (RingRecord None now clk # ops) = ring_read ops"
| "ring_read (Receive # ops) = ring_read ops"

lemma ring_read_append: "ring_read (a @ b) = ring_read a @ ring_read b"
  by (induction a rule: ring_read.induct) simp_all

lemma ring_run:
  "foldl ring_step ([], []) ops = (queue, got) \<Longrightarrow> subseq (got @ queue) (ring_read ops) \<and> length queue \<le> event_capacity"
proof (induction ops arbitrary: queue got rule: rev_induct)
  case (snoc op' ops)
  obtain q g where qg: "foldl ring_step ([], []) ops = (q, g)" by fastforce
  then have IH: "subseq (g @ q) (ring_read ops)" "length q \<le> event_capacity" using snoc.IH by auto
  from snoc.prems have step: "ring_step (q, g) op' = (queue, got)" by (simp add: qg)
  show ?case
  proof (cases op')
    case (RingRecord raw now clk)
    show ?thesis
    proof (cases raw)
      case None
      then show ?thesis using step IH RingRecord by (simp add: ring_read_append)
    next
      case (Some r)
      then show ?thesis using step IH RingRecord
        list_emb_append_mono[OF IH(1), of "[event_of now clk r]" "[event_of now clk r]"]
        by (auto simp: ring_read_append intro: subseq_rev_drop_many split: if_splits)
    qed
  next
    case Receive
    then show ?thesis using step IH by (cases q) (auto simp: ring_read_append)
  qed
qed (simp add: event_capacity_def)

lemma ring_all:
  "foldl ring_step ([], []) ops = (queue, got) \<Longrightarrow> length (ring_read ops) \<le> event_capacity \<Longrightarrow> got @ queue = ring_read ops"
proof (induction ops arbitrary: queue got rule: rev_induct)
  case (snoc op' ops)
  obtain q g where qg: "foldl ring_step ([], []) ops = (q, g)" by fastforce
  have IH: "g @ q = ring_read ops" using snoc.IH[OF qg] snoc.prems(2) by (simp add: ring_read_append)
  have step: "ring_step (q, g) op' = (queue, got)" using snoc.prems(1) by (simp add: qg)
  show ?case
  proof (cases "(\<exists>raw now clk. op' = RingRecord (Some raw) now clk)")
    case True
    then have "length q < event_capacity" using snoc.prems(2) arg_cong[OF IH, of length] by (auto simp: ring_read_append)
    then show ?thesis using step IH True by (auto simp: ring_read_append)
  next
    case False
    then have "ring_read [op'] = []" by (cases op' rule: ring_op.exhaust) (auto split: option.splits)
    moreover have "got @ queue = g @ q" using step False by (cases "((q, g), op')" rule: ring_step.cases) auto
    ultimately show ?thesis using IH by (simp add: ring_read_append)
  qed
qed simp

end
