(* ===== verification/Ebpf.thy ===== *)
theory Ebpf
  imports Probes Rate_Monad Domain_Loop
begin

text \<open>
  \<open>internal/collect/ebpf.go\<close>: the counters and histograms of the BPF maps become rates and
  percentiles of the domains, and kernel events are attributed to domains. The computations
  over the rate tracker and the windows of the collector are a state monad. Rates are exact,
  so the order in which a map is added up does not matter; where a range loop has other
  effects its order is an argument.
\<close>

section \<open>The collector\<close>

definition histWindow :: duration where
  "histWindow = second"

record KernelEvent =
  ke_Event :: Event
  ke_DomainID :: string
  ke_DomainName :: string

text \<open>\<open>ec_blkNames\<close> is the cache of device names, a variable of the package \<open>probe\<close>.\<close>

record EBPFCollector =
  ec_rates :: rateTracker
  ec_runq :: HistWindow
  ec_blkDev :: HistWindow
  ec_blkVM :: HistWindow
  ec_owners :: "(uint32, DomainSnapshot) gomap"
  ec_lastSeen :: "(uint32, DomainSnapshot) gomap"
  ec_blkNames :: "(uint32, string) gomap"

definition NewEBPFCollector :: EBPFCollector where
  "NewEBPFCollector = \<lparr>ec_rates = newRateTracker, ec_runq = NewHistWindow histWindow, ec_blkDev = NewHistWindow histWindow,
     ec_blkVM = NewHistWindow histWindow, ec_owners = [], ec_lastSeen = [], ec_blkNames = []\<rparr>"

type_synonym 'a ebpf = "(EBPFCollector, 'a) state"

definition rateE :: "string \<Rightarrow> float64 \<Rightarrow> gtime \<Rightarrow> float64 ebpf" where
  "rateE k v now = State (\<lambda>ec. let (x, r) = run_state (rateM k v now) (ec_rates ec) in (x, ec\<lparr>ec_rates := r\<rparr>))"

definition runqE :: "uint32 \<Rightarrow> gtime \<Rightarrow> Hist \<Rightarrow> Hist ebpf" where
  "runqE k now h = State (\<lambda>ec. let (w, x) = Window k now h (ec_runq ec) in (x, ec\<lparr>ec_runq := w\<rparr>))"

definition blkVME :: "uint32 \<Rightarrow> gtime \<Rightarrow> Hist \<Rightarrow> Hist ebpf" where
  "blkVME k now h = State (\<lambda>ec. let (w, x) = Window k now h (ec_blkVM ec) in (x, ec\<lparr>ec_blkVM := w\<rparr>))"

definition blkDevE :: "uint32 \<Rightarrow> gtime \<Rightarrow> Hist \<Rightarrow> Hist ebpf" where
  "blkDevE k now h = State (\<lambda>ec. let (w, x) = Window k now h (ec_blkDev ec) in (x, ec\<lparr>ec_blkDev := w\<rparr>))"

definition devNameE :: "(string \<Rightarrow> string option) \<Rightarrow> uint32 \<Rightarrow> string ebpf" where
  "devNameE rf dev = State (\<lambda>ec. let (m, n) = BlockDevName rf dev (ec_blkNames ec) in (n, ec\<lparr>ec_blkNames := m\<rparr>))"

fun foldE :: "('a \<Rightarrow> 'b \<Rightarrow> 'a ebpf) \<Rightarrow> 'a \<Rightarrow> 'b list \<Rightarrow> 'a ebpf" where
  "foldE f a [] = State_Monad.return a"
| "foldE f a (x # xs) = do { a' \<leftarrow> f a x; foldE f a' xs }"

definition add_rate :: "string \<Rightarrow> float64 \<Rightarrow> (string, float64) gomap \<Rightarrow> (string, float64) gomap" where
  "add_rate k r m = AList.update k (mget 0 m k + r) m"

section \<open>Targets and owners\<close>

definition is_target :: "DomainSnapshot \<Rightarrow> bool" where
  "is_target d \<longleftrightarrow> 0 < d_PID d \<and> (d_State d = ''running'' \<or> d_State d = ''paused'')"

definition tgid_of_domain :: "DomainSnapshot \<Rightarrow> uint32" where
  "tgid_of_domain d = word_of_int (d_PID d)"

definition add_target ::
  "(uint32, bool) gomap \<times> (uint32, uint32) gomap \<times> (uint32, DomainSnapshot) gomap \<Rightarrow> DomainSnapshot \<Rightarrow>
   (uint32, bool) gomap \<times> (uint32, uint32) gomap \<times> (uint32, DomainSnapshot) gomap" where
  "add_target acc d =
     (let (targets, ifaces, owners) = acc; tgid = tgid_of_domain d
      in if \<not> is_target d then (targets, ifaces, owners)
         else (AList.update tgid True targets,
               foldl (\<lambda>m i. if 0 < i_Ifindex i then AList.update (word_of_int (i_Ifindex i)) tgid m else m) ifaces (d_Ifaces d),
               AList.update tgid d owners))"

definition with_last :: "(uint32, DomainSnapshot) gomap \<Rightarrow> (uint32, DomainSnapshot) gomap \<Rightarrow> (uint32, DomainSnapshot) gomap" where
  "with_last owners lastSeen =
     foldl (\<lambda>m (tgid, d). if map_of m tgid = None then AList.update tgid d m else m) owners lastSeen"

definition attribute :: "EBPFCollector \<Rightarrow> Event \<Rightarrow> KernelEvent" where
  "attribute ec ev =
     (case map_of (ec_owners ec) (ev_TGID ev) of
        Some d \<Rightarrow>
          if ev_Type ev \<noteq> EvBlockError \<and> ev_Type ev \<noteq> EvMCE
          then \<lparr>ke_Event = ev, ke_DomainID = d_ID d, ke_DomainName = d_Name d\<rparr>
          else \<lparr>ke_Event = ev, ke_DomainID = [], ke_DomainName = []\<rparr>
      | None \<Rightarrow> \<lparr>ke_Event = ev, ke_DomainID = [], ke_DomainName = []\<rparr>)"

text \<open>
  The collector with its probes, or the reason why there are none. Each event is attributed
  with the owners known when it is received.
\<close>

definition load_message :: "load_error \<Rightarrow> string" where
  "load_message e = (case e of ErrPermission \<Rightarrow> ''eBPF requires root (or CAP_BPF and CAP_PERFMON)'' | LoadError m \<Rightarrow> m)"

definition OpenEBPF :: "bpf_host \<Rightarrow> (string, bool) gomap \<Rightarrow> EBPFCollector \<times> LoadedProbes option \<times> load_error option" where
  "OpenEBPF h disabled =
     (case LoadProbes h disabled of
        Inl e \<Rightarrow> (NewEBPFCollector, None, Some e)
      | Inr p \<Rightarrow> (NewEBPFCollector, Some p, None))"

definition Enabled :: "load_error option \<Rightarrow> bool \<times> string" where
  "Enabled err = (case err of Some e \<Rightarrow> (False, load_message e) | None \<Rightarrow> (True, []))"

definition EBPFStatus :: "LoadedProbes option \<Rightarrow> ProbeStatus list" where
  "EBPFStatus po = (case po of None \<Rightarrow> [] | Some p \<Rightarrow> ProbesStatus p)"

definition EBPFClose :: "LoadedProbes option \<Rightarrow> LoadedProbes option" where
  "EBPFClose po = map_option ProbesClose po"

definition RunEvents :: "LoadedProbes option \<Rightarrow> (EBPFCollector \<times> Event) list \<Rightarrow> KernelEvent list" where
  "RunEvents po evs = (case po of None \<Rightarrow> [] | Some _ \<Rightarrow> map (\<lambda>(ec, ev). attribute ec ev) evs)"

definition CollectorDropReasonName :: "LoadedProbes option \<Rightarrow> uint32 \<Rightarrow> string" where
  "CollectorDropReasonName po r = (case po of None \<Rightarrow> show_w r | Some p \<Rightarrow> DropReasonName (pb_DropNames p) r)"

section \<open>One domain\<close>

definition add_drop ::
  "DropReasons \<Rightarrow> gtime \<Rightarrow> (uint32, (string, float64) gomap) gomap \<Rightarrow> (uint32 \<times> uint32) \<times> uint64 \<Rightarrow> (uint32, (string, float64) gomap) gomap ebpf" where
  "add_drop names now m kn =
     (let ((ifindex, reason), n) = kn
      in if Benign names reason then State_Monad.return m
         else do {
           r \<leftarrow> rateE (''drop/'' @ show_w ifindex @ ''/'' @ show_w reason) (float_of_uint64 n) now;
           State_Monad.return (AList.update ifindex (add_rate (DropReasonName names reason) r (mget [] m ifindex)) m)
         })"

definition vm_key :: "uint32 \<Rightarrow> string" where
  "vm_key tgid = ''vm/'' @ show_w tgid @ ''/''"

definition add_exit_rate ::
  "ExitArch \<Rightarrow> string \<Rightarrow> gtime \<Rightarrow> (string, float64) gomap \<times> float64 \<Rightarrow> uint32 \<times> uint64 \<Rightarrow> ((string, float64) gomap \<times> float64) ebpf" where
  "add_exit_rate arch key now acc rn =
     (let (reasons, total) = acc; (raw, n) = rn
      in do {
           r \<leftarrow> rateE (key @ ''exit/'' @ show_w raw) (float_of_uint64 n) now;
           State_Monad.return (add_rate (ExitReasonName arch (ExitReasonKey arch raw)) r reasons, total + r)
         })"

definition add_user_exit :: "string \<Rightarrow> gtime \<Rightarrow> (string, float64) gomap \<Rightarrow> uint32 \<times> uint64 \<Rightarrow> (string, float64) gomap ebpf" where
  "add_user_exit key now users rn =
     do {
       r \<leftarrow> rateE (key @ ''uexit/'' @ show_w (fst rn)) (float_of_uint64 (snd rn)) now;
       State_Monad.return (add_rate (UserExitName (fst rn)) r users)
     }"

definition kvm_stat :: "ExitArch \<Rightarrow> LoadedProbes \<Rightarrow> uint32 \<Rightarrow> gtime \<Rightarrow> KVMStat ebpf" where
  "kvm_stat arch p tgid now =
     (let key = vm_key tgid; c = mget zero_counters (ReadVMCounters p) tgid
      in do {
           rt \<leftarrow> foldE (add_exit_rate arch key now) ([], 0) (mget [] (ExitCounts p) tgid);
           users \<leftarrow> foldE (add_user_exit key now) [] (mget [] (UserExitCounts p) tgid);
           irq \<leftarrow> rateE (key @ ''irq'') (float_of_uint64 (vc_IrqInjections c)) now;
           exc \<leftarrow> rateE (key @ ''exc'') (float_of_uint64 (vc_Exceptions c)) now;
           hpoll \<leftarrow> rateE (key @ ''hpoll'') (float_of_uint64 (vc_HaltPollsOk c)) now;
           hwait \<leftarrow> rateE (key @ ''hwait'') (float_of_uint64 (vc_HaltWaits c)) now;
           State_Monad.return \<lparr>kvm_Available = True, kvm_ExitRate = snd rt, kvm_ExitReasons = fst rt, kvm_UserExits = users, kvm_IRQRate = irq,
             kvm_ExceptionRate = exc, kvm_EmulFailTotal = vc_EmulFailures c, kvm_HaltPollRate = hpoll, kvm_HaltWaitRate = hwait, kvm_RunqP99Us = 0\<rparr>
         })"

text \<open>The statistics of the threads, by vCPU, and the worst run queue latency so far.\<close>

definition add_vcpu ::
  "LoadedProbes \<Rightarrow> gtime \<Rightarrow> (int, VCPUStat) gomap \<times> float64 \<Rightarrow> VCPUStat \<Rightarrow> ((int, VCPUStat) gomap \<times> float64) ebpf" where
  "add_vcpu p now acc v =
     (let (stats, p99) = acc
      in if v_TID v \<le> 0 then State_Monad.return (stats, p99)
         else let tid = word_of_int (v_TID v) :: uint32; tkey = ''tid/'' @ show_w tid @ ''/'';
                  vc = mget \<lparr>pc_Exits = 0, pc_HaltWaits = 0\<rparr> (ReadVCPUCounters p) tid
              in do {
                   er \<leftarrow> rateE (tkey @ ''exits'') (float_of_uint64 (pc_Exits vc)) now;
                   hr \<leftarrow> rateE (tkey @ ''hwait'') (float_of_uint64 (pc_HaltWaits vc)) now;
                   (case map_of (RunqHists p) tid of
                      None \<Rightarrow> State_Monad.return (AList.update (v_Index v) (v\<lparr>v_ExitRate := er, v_HaltWaitRate := hr\<rparr>) stats, p99)
                    | Some h \<Rightarrow> do {
                        w \<leftarrow> runqE tid now h;
                        State_Monad.return
                          (AList.update (v_Index v) (v\<lparr>v_ExitRate := er, v_HaltWaitRate := hr, v_RunqAvgUs := MeanUs w,
                             v_RunqP99Us := Percentile (99 / 100) w, v_RunqMaxUs := float_of_uint64 (hi_MaxUs w)\<rparr>) stats,
                           max p99 (Percentile (99 / 100) w))
                      })
                 })"

definition block_latency :: "LoadedProbes \<Rightarrow> uint32 \<Rightarrow> gtime \<Rightarrow> (float64 \<times> float64) ebpf" where
  "block_latency p tgid now =
     (case map_of (BlockVMHists p) tgid of
        None \<Rightarrow> State_Monad.return (0, 0)
      | Some h \<Rightarrow> do { w \<leftarrow> blkVME tgid now h; State_Monad.return (MeanUs w, Percentile (99 / 100) w) })"

definition domain_stats :: "ExitArch \<Rightarrow> LoadedProbes \<Rightarrow> gtime \<Rightarrow> DomainSnapshot \<Rightarrow> (KVMStat \<times> (int, VCPUStat) gomap \<times> float64 \<times> float64) ebpf" where
  "domain_stats arch p now d =
     (let tgid = tgid_of_domain d
      in do {
           kvm \<leftarrow> kvm_stat arch p tgid now;
           sp \<leftarrow> foldE (add_vcpu p now) ([], kvm_RunqP99Us kvm) (d_VCPUs d);
           blk \<leftarrow> block_latency p tgid now;
           State_Monad.return (kvm\<lparr>kvm_RunqP99Us := snd sp\<rparr>, fst sp, fst blk, snd blk)
         })"

definition update_vcpu :: "(int, VCPUStat) gomap \<Rightarrow> VCPUStat \<Rightarrow> VCPUStat" where
  "update_vcpu stats c =
     (case map_of stats (v_Index c) of
        Some v \<Rightarrow>
          if v_TID v = v_TID c
          then c\<lparr>v_ExitRate := v_ExitRate v, v_HaltWaitRate := v_HaltWaitRate v, v_RunqAvgUs := v_RunqAvgUs v,
                 v_RunqP99Us := v_RunqP99Us v, v_RunqMaxUs := v_RunqMaxUs v\<rparr>
          else c
      | None \<Rightarrow> c)"

definition update_iface :: "(uint32, (string, float64) gomap) gomap \<Rightarrow> IfaceStat \<Rightarrow> IfaceStat" where
  "update_iface drops i =
     (let reasons = mget [] drops (word_of_int (i_Ifindex i))
      in i\<lparr>i_KernelDropRate := foldl (\<lambda>s (_, r). s + r) 0 reasons, i_DropReasons := reasons\<rparr>)"

definition ebpf_update ::
  "(uint32, (string, float64) gomap) gomap \<Rightarrow> KVMStat \<Rightarrow> (int, VCPUStat) gomap \<Rightarrow> float64 \<Rightarrow> float64 \<Rightarrow> DomainSnapshot \<Rightarrow> DomainSnapshot" where
  "ebpf_update drops kvm stats avg p99 cur =
     cur\<lparr>d_KVM := kvm, d_BlkLatAvgUs := avg, d_BlkLatP99Us := p99, d_VCPUs := map (update_vcpu stats) (d_VCPUs cur),
         d_Ifaces := map (update_iface drops) (d_Ifaces cur)\<rparr>"

definition ebpf_domain ::
  "ExitArch \<Rightarrow> LoadedProbes \<Rightarrow> gtime \<Rightarrow> (uint32, (string, float64) gomap) gomap \<Rightarrow> EBPFCollector \<times> DomainStore \<Rightarrow> DomainSnapshot \<Rightarrow>
   EBPFCollector \<times> DomainStore" where
  "ebpf_domain arch p now drops acc d =
     (let (ec, s) = acc;
          ((kvm, stats, avg, p99), ec) = run_state (domain_stats arch p now d) ec
      in (ec, fst (Mutate (d_ID d) (ebpf_update drops kvm stats avg p99) s)))"

section \<open>Host disks\<close>

definition host_disk ::
  "(string \<Rightarrow> string option) \<Rightarrow> LoadedProbes \<Rightarrow> gtime \<Rightarrow> uint32 \<Rightarrow> HostDisk ebpf" where
  "host_disk rf p now dev =
     (let h = mget zero_hist (BlockDevHists p) dev
      in do {
           w \<leftarrow> blkDevE dev now h;
           name \<leftarrow> devNameE rf dev;
           iops \<leftarrow> rateE (''blk/'' @ show_w dev) (float_of_uint64 (hi_Count h)) now;
           State_Monad.return \<lparr>hd_Name = name, hd_IOPS = iops, hd_AvgUs = MeanUs w, hd_P99Us = Percentile (99 / 100) w,
             hd_MaxUs = float_of_uint64 (hi_MaxUs w), hd_Errors = mget 0 (BlockErrors p) dev\<rparr>
         })"

definition error_disk :: "(string \<Rightarrow> string option) \<Rightarrow> LoadedProbes \<Rightarrow> uint32 \<Rightarrow> HostDisk ebpf" where
  "error_disk rf p dev =
     do {
       name \<leftarrow> devNameE rf dev;
       State_Monad.return \<lparr>hd_Name = name, hd_IOPS = 0, hd_AvgUs = 0, hd_P99Us = 0, hd_MaxUs = 0, hd_Errors = mget 0 (BlockErrors p) dev\<rparr>
     }"

text \<open>As with the snapshots, an arbitrary order before a stable sort covers an unstable one.\<close>

definition collectHostDisks ::
  "(string \<Rightarrow> string option) \<Rightarrow> uint32 range_order \<Rightarrow> LoadedProbes \<Rightarrow> gtime \<Rightarrow> EBPFCollector \<times> DomainStore \<Rightarrow> EBPFCollector \<times> DomainStore" where
  "collectHostDisks rf ord p now x =
     (let (ec, s) = x; hs = mkeys (BlockDevHists p); es = mkeys (BlockErrors p)
      in if hs = [] \<and> es = [] then (ec, s)
         else let (disks, ec) = run_state (do {
                      a \<leftarrow> State_Monad.traverse_list (host_disk rf p now) (ord hs);
                      b \<leftarrow> State_Monad.traverse_list (error_disk rf p) (filter (\<lambda>dev. map_of (BlockDevHists p) dev = None) (ord es));
                      State_Monad.return (a @ b)
                    }) ec
              in (ec, MutateHost (\<lambda>h. h\<lparr>ho_Disks := sort_key hd_Name disks\<rparr>) s))"

section \<open>A collection\<close>

record ebpf_env =
  ee_order :: "string range_order"
  ee_targets :: "uint32 range_order"
  ee_disks :: "uint32 range_order"
  ee_ops :: map_ops
  ee_arch :: ExitArch
  ee_read :: "string \<Rightarrow> string option"

text \<open>
  \<open>kern\<close> is what the BPF programs have made of the maps by the time they are read. Without
  probes nothing happens.
\<close>

definition EBPFCollect ::
  "ebpf_env \<Rightarrow> (bpf_maps \<Rightarrow> bpf_maps) \<Rightarrow> gtime \<Rightarrow> EBPFCollector \<times> LoadedProbes option \<times> DomainStore \<Rightarrow> EBPFCollector \<times> LoadedProbes option \<times> DomainStore" where
  "EBPFCollect e kern now x =
     (let (ec, po, s) = x
      in case po of
           None \<Rightarrow> (ec, None, s)
         | Some p \<Rightarrow>
             let (targets, ifaces, owners) = foldl add_target ([], [], []) (Snapshot (ee_order e) s);
                 ec = ec\<lparr>ec_owners := with_last owners (ec_lastSeen ec), ec_lastSeen := owners\<rparr>;
                 p = SetIfaces (ee_ops e) ifaces (SetTargets (ee_ops e) targets p);
                 p = p\<lparr>pb_maps := kern (pb_maps p)\<rparr>;
                 (drops, ec) = run_state (foldE (add_drop (pb_DropNames p) now) [] (Drops p)) ec;
                 (ec, s) = foldl (ebpf_domain (ee_arch e) p now drops) (ec, s)
                             (map (mget zero_snapshot owners) (ee_targets e (mkeys targets)));
                 (ec, s) = collectHostDisks (ee_read e) (ee_disks e) p now (ec, s)
             in (ec\<lparr>ec_rates := sweep (ec_rates ec), ec_runq := WindowSweep (ec_runq ec), ec_blkVM := WindowSweep (ec_blkVM ec),
                    ec_blkDev := WindowSweep (ec_blkDev ec)\<rparr>, Some p, s))"

section \<open>Rates add up\<close>

text \<open>
  The totals are sums of \<open>float64\<close> values, which depend on the order of the summands. They are
  described as left folds in the order in which the loops visit the counters, so that
  no law of addition is used.
\<close>

definition by_name :: "(string \<times> float64) list \<Rightarrow> (string, float64) gomap \<Rightarrow> bool" where
  "by_name rs m \<longleftrightarrow> distinct (map fst m) \<and> set (map fst m) = set (map fst rs) \<and>
     (\<forall>name. mget 0 m name = foldl (+) 0 (map snd (filter (\<lambda>x. fst x = name) rs)))"

definition add_rates :: "(string \<times> float64) list \<Rightarrow> (string, float64) gomap \<Rightarrow> (string, float64) gomap" where
  "add_rates rs m = foldl (\<lambda>m x. add_rate (fst x) (snd x) m) m rs"

lemma add_rates_simps [simp]: "add_rates [] m = m" "add_rates (x # rs) m = add_rates rs (add_rate (fst x) (snd x) m)"
  by (simp_all add: add_rates_def)

lemma mget_add_rate: "mget 0 (add_rate k r m) name = (if name = k then mget 0 m k + r else mget 0 m name)"
  by (simp add: add_rate_def mget_def gomap_simps)

lemma wf_add_rate [simp]: "wf_map m \<Longrightarrow> wf_map (add_rate k r m)"
  by (simp add: add_rate_def)

lemma mget_add_rates:
  "mget 0 (add_rates rs m) name = foldl (+) (mget 0 m name) (map snd (filter (\<lambda>x. fst x = name) rs))"
  by (induction rs arbitrary: m) (auto simp: mget_add_rate)

lemma wf_add_rates: "wf_map m \<Longrightarrow> wf_map (add_rates rs m)"
  by (induction rs arbitrary: m) simp_all

lemma keys_add_rates: "fst ` set (add_rates rs m) = fst ` set m \<union> fst ` set rs"
  by (induction rs arbitrary: m) (simp_all add: add_rate_def gomap_simps flip: dom_map_of_conv_image_fst)

lemma by_name_add_rates: "by_name rs (add_rates rs [])"
  using wf_add_rates[of "[]" rs] keys_add_rates[of rs "[]"] by (simp add: by_name_def mget_add_rates wf_map_def)

text \<open>A counter gives a rate of its name: the one its key and its value have at the time.\<close>

definition counted :: "(uint32 \<Rightarrow> string) \<Rightarrow> (uint32 \<Rightarrow> string) \<Rightarrow> gtime \<Rightarrow> uint32 \<times> uint64 \<Rightarrow> string \<times> float64 \<Rightarrow> bool" where
  "counted key name now c x \<longleftrightarrow> fst x = name (fst c) \<and>
     (\<exists>ec. snd x = fst (run_state (rateE (key (fst c)) (float_of_uint64 (snd c)) now) ec))"

definition exit_counted :: "ExitArch \<Rightarrow> uint32 \<Rightarrow> gtime \<Rightarrow> uint32 \<times> uint64 \<Rightarrow> string \<times> float64 \<Rightarrow> bool" where
  "exit_counted arch tgid = counted (\<lambda>raw. vm_key tgid @ ''exit/'' @ show_w raw) (\<lambda>raw. ExitReasonName arch (ExitReasonKey arch raw))"

definition user_counted :: "uint32 \<Rightarrow> gtime \<Rightarrow> uint32 \<times> uint64 \<Rightarrow> string \<times> float64 \<Rightarrow> bool" where
  "user_counted tgid = counted (\<lambda>raw. vm_key tgid @ ''uexit/'' @ show_w raw) UserExitName"

lemma exit_rates_loop:
  "\<exists>rs. list_all2 (exit_counted arch tgid now) ns rs \<and>
     fst (run_state (foldE (add_exit_rate arch (vm_key tgid) now) (m, t) ns) ec) = (add_rates rs m, foldl (+) t (map snd rs))"
proof (induction ns arbitrary: m t ec)
  case (Cons c ns)
  obtain r ec' where r: "run_state (rateE (vm_key tgid @ ''exit/'' @ show_w (fst c)) (float_of_uint64 (snd c)) now) ec = (r, ec')"
    by (metis prod.collapse)
  let ?x = "(ExitReasonName arch (ExitReasonKey arch (fst c)), r)"
  have "exit_counted arch tgid now c ?x" unfolding exit_counted_def counted_def using r by (metis fst_conv snd_conv)
  moreover obtain rs where "list_all2 (exit_counted arch tgid now) ns rs"
    "fst (run_state (foldE (add_exit_rate arch (vm_key tgid) now) (add_rate (fst ?x) r m, t + r) ns) ec') =
      (add_rates rs (add_rate (fst ?x) r m), foldl (+) (t + r) (map snd rs))"
    using Cons by blast
  ultimately show ?case using r
    by (intro exI[of _ "?x # rs"]) (simp add: add_exit_rate_def[of _ _ _ "(m, t)"] case_prod_unfold)
qed simp

lemma user_rates_loop:
  "\<exists>us. list_all2 (user_counted tgid now) ns us \<and>
     fst (run_state (foldE (add_user_exit (vm_key tgid) now) m ns) ec) = add_rates us m"
proof (induction ns arbitrary: m ec)
  case (Cons c ns)
  obtain r ec' where r: "run_state (rateE (vm_key tgid @ ''uexit/'' @ show_w (fst c)) (float_of_uint64 (snd c)) now) ec = (r, ec')"
    by (metis prod.collapse)
  have "user_counted tgid now c (UserExitName (fst c), r)" unfolding user_counted_def counted_def using r by (metis fst_conv snd_conv)
  moreover obtain us where "list_all2 (user_counted tgid now) ns us"
    "fst (run_state (foldE (add_user_exit (vm_key tgid) now) (add_rate (UserExitName (fst c)) r m) ns) ec') =
      add_rates us (add_rate (UserExitName (fst c)) r m)"
    using Cons by blast
  ultimately show ?case using r
    by (intro exI[of _ "(UserExitName (fst c), r) # us"]) (simp add: add_user_exit_def[of _ _ m] case_prod_unfold)
qed simp

definition kvm_ok :: "ExitArch \<Rightarrow> LoadedProbes \<Rightarrow> gtime \<Rightarrow> uint32 \<Rightarrow> KVMStat \<Rightarrow> bool" where
  "kvm_ok arch p now tgid k \<longleftrightarrow> kvm_Available k \<and>
     (\<exists>rs. list_all2 (exit_counted arch tgid now) (mget [] (ExitCounts p) tgid) rs \<and>
        kvm_ExitRate k = foldl (+) 0 (map snd rs) \<and> by_name rs (kvm_ExitReasons k)) \<and>
     (\<exists>us. list_all2 (user_counted tgid now) (mget [] (UserExitCounts p) tgid) us \<and> by_name us (kvm_UserExits k))"

lemma kvm_stat_ok: "kvm_ok arch p now tgid (fst (run_state (kvm_stat arch p tgid now) ec))"
proof -
  let ?xs = "mget [] (ExitCounts p) tgid" and ?ys = "mget [] (UserExitCounts p) tgid"
  obtain rs where rs: "list_all2 (exit_counted arch tgid now) ?xs rs"
    "fst (run_state (foldE (add_exit_rate arch (vm_key tgid) now) ([], 0) ?xs) ec) = (add_rates rs [], foldl (+) 0 (map snd rs))"
    using exit_rates_loop by blast
  obtain us where us: "list_all2 (user_counted tgid now) ?ys us"
    "fst (run_state (foldE (add_user_exit (vm_key tgid) now) [] ?ys)
       (snd (run_state (foldE (add_exit_rate arch (vm_key tgid) now) ([], 0) ?xs) ec))) = add_rates us []"
    using user_rates_loop by blast
  show ?thesis unfolding kvm_ok_def using rs us by_name_add_rates by (auto simp: kvm_stat_def Let_def case_prod_unfold)
qed

lemma domain_stats_ok: "kvm_ok arch p now (tgid_of_domain d) (fst (fst (run_state (domain_stats arch p now d) ec)))"
  using kvm_stat_ok by (simp add: domain_stats_def kvm_ok_def Let_def case_prod_unfold)

section \<open>What changes in a domain\<close>

text \<open>A domain without what the probes measure: the part of it that belongs to the other collectors.\<close>

definition unprobed_vcpu :: "VCPUStat \<Rightarrow> VCPUStat" where
  "unprobed_vcpu v = v\<lparr>v_ExitRate := 0, v_HaltWaitRate := 0, v_RunqAvgUs := 0, v_RunqP99Us := 0, v_RunqMaxUs := 0\<rparr>"

definition unprobed_iface :: "IfaceStat \<Rightarrow> IfaceStat" where
  "unprobed_iface i = i\<lparr>i_KernelDropRate := 0, i_DropReasons := []\<rparr>"

definition unprobed :: "DomainSnapshot \<Rightarrow> DomainSnapshot" where
  "unprobed d = d\<lparr>d_KVM := d_KVM zero_snapshot, d_BlkLatAvgUs := 0, d_BlkLatP99Us := 0, d_VCPUs := map unprobed_vcpu (d_VCPUs d),
     d_Ifaces := map unprobed_iface (d_Ifaces d)\<rparr>"

lemma unprobed_update: "unprobed (ebpf_update drops kvm stats avg p99 d) = unprobed d"
proof -
  have "unprobed_vcpu (update_vcpu stats v) = unprobed_vcpu v" for v
    by (simp add: unprobed_vcpu_def update_vcpu_def split: option.splits)
  moreover have "unprobed_iface (update_iface drops i) = unprobed_iface i" for i
    by (simp add: unprobed_iface_def update_iface_def Let_def)
  ultimately show ?thesis by (simp add: unprobed_def ebpf_update_def comp_def)
qed

lemma KVM_update: "d_KVM (ebpf_update drops kvm stats avg p99 d) = kvm"
  by (simp add: ebpf_update_def)

definition ebpf_made :: "ExitArch \<Rightarrow> LoadedProbes \<Rightarrow> gtime \<Rightarrow> DomainSnapshot \<Rightarrow> DomainSnapshot \<Rightarrow> DomainSnapshot \<Rightarrow> bool" where
  "ebpf_made arch p now snap d d' \<longleftrightarrow> kvm_ok arch p now (tgid_of_domain snap) (d_KVM d') \<and> unprobed d' = unprobed d"

interpretation ebpf: domain_loop "ebpf_domain arch p now drops" "\<lambda>_. True" "ebpf_made arch p now"
  by unfold_locales
    (auto simp: ebpf_domain_def Let_def case_prod_unfold latest_of_Mutate ebpf_made_def unprobed_update KVM_update intro: domain_stats_ok)

section \<open>Owners\<close>

definition owners_of :: "DomainSnapshot list \<Rightarrow> (uint32, DomainSnapshot) gomap" where
  "owners_of snaps = snd (snd (foldl add_target ([], [], []) snaps))"

definition targets_of :: "DomainSnapshot list \<Rightarrow> (uint32, bool) gomap" where
  "targets_of snaps = fst (foldl add_target ([], [], []) snaps)"

lemma owners_loop:
  "map_of (snd (snd (foldl add_target (t0, i0, o0) snaps))) t =
    (case List.find (\<lambda>d. is_target d \<and> tgid_of_domain d = t) (rev snaps) of Some d \<Rightarrow> Some d | None \<Rightarrow> map_of o0 t)"
  by (induction snaps rule: rev_induct)
    (auto simp: add_target_def Let_def case_prod_unfold gomap_simps split: option.splits)

lemma map_of_owners_of:
  "map_of (owners_of snaps) t = List.find (\<lambda>d. is_target d \<and> tgid_of_domain d = t) (rev snaps)"
  unfolding owners_of_def owners_loop by (simp split: option.splits)

lemma targets_loop:
  "map_of (fst (foldl add_target ([], [], []) snaps)) t =
    (if map_of (snd (snd (foldl add_target ([], [], []) snaps))) t = None then None else Some True)"
  by (induction snaps rule: rev_induct) (auto simp: add_target_def Let_def case_prod_unfold gomap_simps)

lemma map_of_targets_of: "map_of (targets_of snaps) t = (if map_of (owners_of snaps) t = None then None else Some True)"
  unfolding targets_of_def owners_of_def by (rule targets_loop)

lemma wf_targets_of: "wf_map (targets_of snaps)"
  unfolding targets_of_def
  by (induction snaps rule: rev_induct) (auto simp: add_target_def Let_def case_prod_unfold)

lemma map_of_with_last: "map_of (with_last own prev) t = (case map_of own t of Some d \<Rightarrow> Some d | None \<Rightarrow> map_of prev t)"
  unfolding with_last_def
proof (induction prev arbitrary: own)
  case (Cons x prev)
  obtain a b where x: "x = (a, b)" by (cases x)
  let ?own = "if map_of own a = None then AList.update a b own else own"
  have "map_of ?own t = (if map_of own a = None \<and> t = a then Some b else map_of own t)" by (simp add: gomap_simps)
  then show ?case using Cons[of ?own] by (auto simp: x split: option.splits)
qed (simp split: option.splits)

text \<open>The computations of a collection leave the owners alone.\<close>

definition keeps_owners :: "'a ebpf \<Rightarrow> bool" where
  "keeps_owners m \<longleftrightarrow> (\<forall>ec. ec_owners (snd (run_state m ec)) = ec_owners ec \<and> ec_lastSeen (snd (run_state m ec)) = ec_lastSeen ec)"

named_theorems keeps_rules

lemma keeps_return [keeps_rules]: "keeps_owners (State_Monad.return x)"
  by (simp add: keeps_owners_def)

lemma keeps_bind [keeps_rules]: "keeps_owners m \<Longrightarrow> (\<And>x. keeps_owners (f x)) \<Longrightarrow> keeps_owners (State_Monad.bind m f)"
  by (simp add: keeps_owners_def case_prod_unfold)

lemma keeps_primitive [keeps_rules]:
  "keeps_owners (rateE k v now)" "keeps_owners (runqE i now h)" "keeps_owners (blkVME i now h)" "keeps_owners (blkDevE i now h)"
  "keeps_owners (devNameE rf i)"
  by (simp_all add: keeps_owners_def rateE_def runqE_def blkVME_def blkDevE_def devNameE_def Let_def case_prod_unfold)

lemma keeps_foldE [keeps_rules]: "(\<And>a x. keeps_owners (f a x)) \<Longrightarrow> keeps_owners (foldE f a xs)"
  by (induction xs arbitrary: a) (auto intro!: keeps_rules)

lemma keeps_traverse [keeps_rules]: "(\<And>x. keeps_owners (f x)) \<Longrightarrow> keeps_owners (State_Monad.traverse_list f xs)"
  by (induction xs) (auto intro!: keeps_rules)

lemma keeps_steps [keeps_rules]:
  "keeps_owners (add_drop names now m kn)" "keeps_owners (add_exit_rate arch key now acc rn)" "keeps_owners (add_user_exit key now users rn)"
  "keeps_owners (add_vcpu p now acc' v)" "keeps_owners (block_latency p tgid now)" "keeps_owners (host_disk rf p now dev)"
  "keeps_owners (error_disk rf p dev)"
  by (auto simp: add_drop_def add_exit_rate_def add_user_exit_def add_vcpu_def block_latency_def host_disk_def error_disk_def Let_def
      case_prod_unfold split: option.splits intro!: keeps_rules)

lemma keeps_domain [keeps_rules]: "keeps_owners (kvm_stat arch p tgid now)" "keeps_owners (domain_stats arch p now d)"
  by (auto simp: kvm_stat_def domain_stats_def Let_def intro!: keeps_rules)

lemma keeps_ownersD:
  assumes "keeps_owners m"
  shows "ec_owners (snd (run_state m ec)) = ec_owners ec" "ec_lastSeen (snd (run_state m ec)) = ec_lastSeen ec"
  using assms by (simp_all add: keeps_owners_def)

lemma ebpf_domain_owners:
  "ec_owners (fst (foldl (ebpf_domain arch p now drops) (ec, s) ds)) = ec_owners ec"
  "ec_lastSeen (fst (foldl (ebpf_domain arch p now drops) (ec, s) ds)) = ec_lastSeen ec"
  by (induction ds arbitrary: ec s)
    (simp_all add: ebpf_domain_def Let_def case_prod_unfold keeps_ownersD[OF keeps_domain(2)])

lemma collectHostDisks_facts:
  "ec_owners (fst (collectHostDisks rf ord p now x)) = ec_owners (fst x)"
  "ec_lastSeen (fst (collectHostDisks rf ord p now x)) = ec_lastSeen (fst x)"
  "latest_of (snd (collectHostDisks rf ord p now x)) = latest_of (snd x)"
  unfolding collectHostDisks_def Let_def
  by (simp_all add: case_prod_unfold keeps_ownersD[OF keeps_traverse[OF keeps_steps(6)]] keeps_ownersD[OF keeps_traverse[OF keeps_steps(7)]])

lemma EBPFCollect_owners:
  assumes "EBPFCollect e kern now (ec, Some p, s) = (ec', po', s')"
  shows "ec_owners ec' = with_last (owners_of (Snapshot (ee_order e) s)) (ec_lastSeen ec)"
    and "ec_lastSeen ec' = owners_of (Snapshot (ee_order e) s)"
proof -
  have keeps: "keeps_owners (foldE (add_drop names now) [] ds)" for names ds by (intro keeps_rules)
  show "ec_owners ec' = with_last (owners_of (Snapshot (ee_order e) s)) (ec_lastSeen ec)"
    "ec_lastSeen ec' = owners_of (Snapshot (ee_order e) s)"
    using assms
    by (auto simp: EBPFCollect_def Let_def case_prod_unfold collectHostDisks_facts ebpf_domain_owners keeps_ownersD[OF keeps] owners_of_def)
qed

text \<open>The domains a collection works on: the owner of every target.\<close>

definition owned :: "uint32 range_order \<Rightarrow> DomainSnapshot list \<Rightarrow> DomainSnapshot list" where
  "owned ord snaps = map (mget zero_snapshot (owners_of snaps)) (ord (mkeys (targets_of snaps)))"

lemma find_SomeD: "List.find P xs = Some x \<Longrightarrow> P x \<and> x \<in> set xs"
  by (induction xs) (auto split: if_splits)

lemma targets_None_iff: "map_of (targets_of snaps) t = None \<longleftrightarrow> map_of (owners_of snaps) t = None"
  by (simp add: map_of_targets_of)

lemma owner_facts: "map_of (owners_of snaps) t = Some d \<Longrightarrow> d \<in> set snaps \<and> is_target d \<and> tgid_of_domain d = t"
  unfolding map_of_owners_of using find_SomeD[of _ "rev snaps" d] by fastforce

lemma owner_exists: "d \<in> set snaps \<Longrightarrow> is_target d \<Longrightarrow> \<exists>d'. map_of (owners_of snaps) (tgid_of_domain d) = Some d'"
proof -
  assume "d \<in> set snaps" "is_target d"
  then have "\<exists>x \<in> set (rev snaps). is_target x \<and> tgid_of_domain x = tgid_of_domain d" by auto
  then have "List.find (\<lambda>x. is_target x \<and> tgid_of_domain x = tgid_of_domain d) (rev snaps) \<noteq> None" unfolding find_None_iff by blast
  then show ?thesis unfolding map_of_owners_of by blast
qed

lemma in_owned:
  assumes "is_order ord"
  shows "d \<in> set (owned ord snaps) \<longleftrightarrow> (\<exists>t. map_of (owners_of snaps) t = Some d)"
proof -
  have "set (owned ord snaps) = mget zero_snapshot (owners_of snaps) ` {t. map_of (owners_of snaps) t \<noteq> None}"
    unfolding owned_def set_map is_order_set[OF assms] by (auto simp: in_mkeys_iff targets_None_iff)
  also have "\<dots> = {d. \<exists>t. map_of (owners_of snaps) t = Some d}" by (auto simp: image_iff) (metis mget_Some)
  finally show ?thesis by blast
qed

lemma distinct_owned:
  assumes "is_order ord" and "distinct (map d_ID snaps)"
  shows "distinct (map d_ID (owned ord snaps))"
proof -
  let ?ts = "ord (mkeys (targets_of snaps))"
  have dist: "distinct ?ts" unfolding is_order_distinct[OF assms(1)] using wf_targets_of by (rule distinct_mkeys)
  have own: "map_of (owners_of snaps) t = Some (mget zero_snapshot (owners_of snaps) t)" if "t \<in> set ?ts" for t
  proof -
    have "map_of (owners_of snaps) t \<noteq> None" using that unfolding is_order_set[OF assms(1)] in_mkeys_iff targets_None_iff .
    then show ?thesis by auto
  qed
  have "inj_on (d_ID \<circ> mget zero_snapshot (owners_of snaps)) (set ?ts)"
  proof (rule inj_onI)
    fix t u assume tu: "t \<in> set ?ts" "u \<in> set ?ts" "(d_ID \<circ> mget zero_snapshot (owners_of snaps)) t = (d_ID \<circ> mget zero_snapshot (owners_of snaps)) u"
    note a = owner_facts[OF own[OF tu(1)]] and b = owner_facts[OF own[OF tu(2)]]
    have "mget zero_snapshot (owners_of snaps) t = mget zero_snapshot (owners_of snaps) u"
      using assms(2) a b tu(3) by (auto simp: distinct_map dest: inj_onD)
    then show "t = u" using a b by metis
  qed
  then show ?thesis using dist by (simp add: owned_def distinct_map)
qed

lemma EBPFCollect_loop:
  assumes "EBPFCollect e kern now (ec, Some p, s) = (ec', po', s')"
  shows "\<exists>p' drops ec0. po' = Some p' \<and>
    latest_of s' = latest_of (snd (foldl (ebpf_domain (ee_arch e) p' now drops) (ec0, s) (owned (ee_targets e) (Snapshot (ee_order e) s))))"
  using assms
  by (auto simp: EBPFCollect_def Let_def case_prod_unfold collectHostDisks_facts owned_def owners_of_def targets_of_def) blast

lemma EBPFCollect_domain:
  assumes collect: "EBPFCollect e kern now (ec, Some p, s) = (ec', po', s')"
    and ord: "is_order (ee_order e)" "is_order (ee_targets e)" and ids: "ids_ok s"
    and pids: "inj_on tgid_of_domain {x \<in> set (Snapshot (ee_order e) s). is_target x}"
    and d: "latest_of s i = Some d" "clone d = d"
  shows "is_target d \<Longrightarrow> \<exists>p' d'. po' = Some p' \<and> latest_of s' i = Some d' \<and> ebpf_made (ee_arch e) p' now d d d'"
    and "\<not> is_target d \<Longrightarrow> latest_of s' i = Some d"
proof -
  let ?snaps = "Snapshot (ee_order e) s" and ?own = "owned (ee_targets e) (Snapshot (ee_order e) s)"
  obtain p' drops ec0 where po: "po' = Some p'"
    and loop: "latest_of s' = latest_of (snd (foldl (ebpf_domain (ee_arch e) p' now drops) (ec0, s) ?own))"
    using EBPFCollect_loop[OF collect] by blast
  have dID: "d_ID d = i" using ids d(1) by (simp add: ids_ok_def)
  have ds: "d \<in> set ?snaps" unfolding in_Snapshot_iff[OF ord(1)] using d by metis
  have dist: "distinct (map d_ID ?snaps)" using ord(1) ids by (rule distinct_Snapshot_ids)
  show "\<exists>p' d'. po' = Some p' \<and> latest_of s' i = Some d' \<and> ebpf_made (ee_arch e) p' now d d d'" if tgt: "is_target d"
  proof -
    obtain x where x: "map_of (owners_of ?snaps) (tgid_of_domain d) = Some x" using owner_exists[OF ds tgt] by blast
    have "x = d" using owner_facts[OF x] pids ds tgt by (auto dest: inj_onD)
    then have "d \<in> set ?own" unfolding in_owned[OF ord(2)] using x by blast
    from ebpf.made_loop[OF TrueI distinct_owned[OF ord(2) dist] this] show ?thesis using d(1) dID po unfolding loop by metis
  qed
  show "latest_of s' i = Some d" if tgt: "\<not> is_target d"
  proof -
    have "i \<notin> d_ID ` set ?own"
    proof
      assume "i \<in> d_ID ` set ?own"
      then obtain y t where y: "map_of (owners_of ?snaps) t = Some y" "d_ID y = i" unfolding image_iff Bex_def in_owned[OF ord(2)] by blast
      then have "y = d" using owner_facts[OF y(1)] dist ds dID by (auto simp: distinct_map dest: inj_onD)
      then show False using owner_facts[OF y(1)] tgt by simp
    qed
    from ebpf.frame_loop[OF this] show ?thesis unfolding loop using d(1) by simp
  qed
qed

end
