(* ===== verification/Collect_Properties.thy ===== *)
theory Collect_Properties
  imports Proc Libvirt Ebpf
begin

text \<open>
  The properties of the collectors that report domains and their statistics: libvirt, the
  process scanner, procfs and the BPF programs.
\<close>

section \<open>Discovery\<close>

text \<open>
  C23: When libvirt can be reached, a collection reports exactly the domains whose state it
  can read, each under its UUID, with the name, state and pid libvirt and the process index
  have for it, merged into what was known; every other domain of the store is left as it was.
\<close>

theorem libvirt_reports_domains:
  assumes "LibvirtCollect fs ord w now (lc, index, s) = ((lc', index', s'), err)"
    and "snd (connect w lc) = None" and "lv_ListAllDomains w = Inr ds" and "\<forall>n. lv_ctxErr w n = None" and "distinct (map uuid_of ds)"
  shows "err = None \<and> lc_alive lc' = map uuid_of (filter (\<lambda>d. lv_GetState w d \<noteq> None) ds) \<and>
    (\<forall>d \<in> set ds. lv_GetState w d \<noteq> None \<longrightarrow>
      (\<exists>snap. snap_of fs ord w index' d snap \<and>
        latest_of s' (uuid_of d) = Some (mergeLibvirt snap (case latest_of s (uuid_of d) of
          None \<Rightarrow> zero_snapshot\<lparr>d_ID := uuid_of d\<rparr> | Some cur \<Rightarrow> cur)) \<and>
        map_of (lc_pids lc') (uuid_of d) = (if 0 < d_PID snap then Some (d_PID snap) else None))) \<and>
    (\<forall>i. i \<notin> set (lc_alive lc') \<longrightarrow> latest_of s' i = latest_of s i)"
proof -
  note res = LibvirtCollect_ok[OF assms(2-5,1)]
  have "\<exists>snap. snap_of fs ord w index' d snap \<and>
        latest_of s' (uuid_of d) = Some (mergeLibvirt snap (case latest_of s (uuid_of d) of
          None \<Rightarrow> zero_snapshot\<lparr>d_ID := uuid_of d\<rparr> | Some cur \<Rightarrow> cur)) \<and>
        map_of (lc_pids lc') (uuid_of d) = (if 0 < d_PID snap then Some (d_PID snap) else None)"
    if "d \<in> set ds" "lv_GetState w d \<noteq> None" for d
  proof -
    have "domain_done fs ord w index' \<lparr>ll_lc = fst (connect w lc), ll_alive = [], ll_pids = [], ll_seen = [], ll_store = s\<rparr>
      \<lparr>ll_lc = lc', ll_alive = lc_alive lc', ll_pids = lc_pids lc', ll_seen = map uuid_of ds, ll_store = s'\<rparr> d"
      using res(5) that unfolding loop_done_def reported_def set_filter by blast
    then show ?thesis by (simp only: domain_done_def merged_def libvirt_loop.simps map_of.simps)
  qed
  moreover have "latest_of s' i = latest_of s i" if "i \<notin> set (lc_alive lc')" for i
    using res(3,5) that unfolding loop_done_def same_at_def by simp
  ultimately show ?thesis using res(1,3) unfolding reported_def by blast
qed

text \<open>A host whose libvirt runs one domain with pid 7, and a second machine with pid 9.\<close>

definition ex_uuid :: "8 word list" where
  "ex_uuid = replicate 16 1"

definition ex_domain :: LibvirtDomain where
  "ex_domain = \<lparr>ld_Name = ''web'', ld_UUID = ex_uuid, ld_ID = 1\<rparr>"

definition ex_daemon :: daemon where
  "ex_daemon = \<lparr>lv_IsConnected = False, lv_Stat = (\<lambda>_. True), lv_Dial = (\<lambda>_. None), lv_Connect = (\<lambda>_. None),
     lv_ListAllDomains = Inr [ex_domain], lv_ctxErr = (\<lambda>_. None), lv_GetState = (\<lambda>_. Some (DomainRunning, 1)),
     lv_GetInfo = (\<lambda>_. None), lv_GetVcpus = (\<lambda>_ _. None), lv_MemoryStats = (\<lambda>_. None), lv_XML = (\<lambda>_. None),
     lv_InterfaceStats = (\<lambda>_ _. None), lv_BlockStats = (\<lambda>_ _. None), lv_GetJobStats = (\<lambda>_. None)\<rparr>"

definition ex_files :: procfs where
  "ex_files = \<lparr>pf_ReadDir = (\<lambda>_. None), pf_Readlink = (\<lambda>_. None),
     pf_ReadFile = (\<lambda>p. if p = ''/run/libvirt/qemu/web.pid'' then Some ''7'' else
        if p = ''/proc/9/stat'' then Some (stat_line 9 ''qemu'' (replicate 19 ''0'' @ [''66''])) else None)\<rparr>"

definition ex_index :: ProcessIndex where
  "ex_index = \<lparr>pi_root = ''/proc'', pi_interval = minute, pi_lastScan = second,
     pi_procs = [(9, zero_process\<lparr>kp_PID := 9, kp_Start := 66, kp_Name := ''vm''\<rparr>)]\<rparr>"

abbreviation ex_libvirt :: "(LibvirtCollector \<times> ProcessIndex option \<times> DomainStore) \<times> string option" where
  "ex_libvirt \<equiv> LibvirtCollect ex_files id ex_daemon (2 * second) (NewLibvirtCollector [], Some ex_index, NewDomainStore)"

lemma ex_daemon_ok:
  "snd (connect ex_daemon (NewLibvirtCollector [])) = None" "lv_ListAllDomains ex_daemon = Inr [ex_domain]" "\<forall>n. lv_ctxErr ex_daemon n = None"
  "distinct (map uuid_of [ex_domain])" "lv_GetState ex_daemon d = Some (DomainRunning, 1)"
  by (simp_all add: ex_daemon_def connect_def NewLibvirtCollector_def DefaultLibvirtSockets_def)

lemma ex_pid: "domain_pid ex_files id ix (uuid_of ex_domain) (ld_Name ex_domain) = 7"
proof -
  have "TrimSpace ''7'' = ''7''" by code_simp
  then have "Atoi (TrimSpace ''7'') = Inr 7" by (simp add: Atoi_def ParseUint_def digit_val_def Let_def)
  then have "libvirtPID ex_files (ld_Name ex_domain) = 7"
    by (simp add: libvirtPID_def ex_files_def ex_domain_def path_join_def)
  then show ?thesis by (simp add: domain_pid_def)
qed

theorem libvirt_reports_domains_witness:
  "\<exists>d. latest_of (snd (snd (fst ex_libvirt))) (uuid_of ex_domain) = Some d \<and> d_PID d = 7 \<and> d_State d = ''running'' \<and>
     lc_pids (fst (fst ex_libvirt)) \<noteq> []"
proof -
  have "ex_libvirt = ((fst (fst ex_libvirt), fst (snd (fst ex_libvirt)), snd (snd (fst ex_libvirt))), snd ex_libvirt)" by simp
  note all = libvirt_reports_domains[OF this ex_daemon_ok(1-4), THEN conjunct2, THEN conjunct2, THEN conjunct1]
  have "ex_domain \<in> set [ex_domain]" "lv_GetState ex_daemon ex_domain \<noteq> None" by (simp_all add: ex_daemon_ok(5))
  from all[THEN bspec, OF this(1), rule_format, OF this(2)] obtain snap where
    snap: "snap_of ex_files id ex_daemon (fst (snd (fst ex_libvirt))) ex_domain snap"
    "latest_of (snd (snd (fst ex_libvirt))) (uuid_of ex_domain) = Some (mergeLibvirt snap (case latest_of NewDomainStore (uuid_of ex_domain) of
          None \<Rightarrow> zero_snapshot\<lparr>d_ID := uuid_of ex_domain\<rparr> | Some cur \<Rightarrow> cur))"
    "map_of (lc_pids (fst (fst ex_libvirt))) (uuid_of ex_domain) = (if 0 < d_PID snap then Some (d_PID snap) else None)"
    by blast
  have "d_PID snap = 7" "d_State snap = ''running''"
    using snap(1) ex_pid by (simp_all add: snap_of_def live_state_def ex_daemon_ok(5))
  then show ?thesis using snap(2,3) by (auto simp: mergeLibvirt_def Let_def)
qed



text \<open>
  C25: While libvirt cannot be reached or cannot list its domains, a collection fails, the
  store and the reported domains stay as they were, and the processes libvirt claimed stay
  claimed until the last success is longer ago than the grace period of the discovery; then
  all are released at once.
\<close>

theorem libvirt_outage:
  assumes "LibvirtCollect fs ord w now (lc, index, s) = ((lc', index', s'), err)"
    and "snd (connect w lc) \<noteq> None \<or> (\<exists>e. lv_ListAllDomains w = Inl e)"
  shows "err \<noteq> None \<and> s' = s \<and> lc_alive lc' = lc_alive lc \<and>
    lc_pids lc' = (if discoveryGrace < time_sub now (lc_lastOK lc) then [] else lc_pids lc)"
  using LibvirtCollect_down[OF assms(2,1)] by (simp add: lapsed_def)

definition ex_stopped :: daemon where
  "ex_stopped = ex_daemon\<lparr>lv_Stat := (\<lambda>_. False)\<rparr>"

definition ex_claims :: LibvirtCollector where
  "ex_claims = (NewLibvirtCollector [])\<lparr>lc_pids := [(uuid_of ex_domain, 7)], lc_lastOK := second\<rparr>"

theorem libvirt_outage_witness:
  "lc_pids (fst (fst (LibvirtCollect ex_files id ex_stopped (2 * second) (ex_claims, None, NewDomainStore)))) = [(uuid_of ex_domain, 7)] \<and>
   lc_pids (fst (fst (LibvirtCollect ex_files id ex_stopped (100 * second) (ex_claims, None, NewDomainStore)))) = []"
proof -
  have down: "snd (connect ex_stopped ex_claims) \<noteq> None"
    by (simp add: ex_stopped_def ex_daemon_def connect_def ex_claims_def NewLibvirtCollector_def DefaultLibvirtSockets_def disconnect_def)
  have run: "LibvirtCollect ex_files id ex_stopped now (ex_claims, None, NewDomainStore) =
    ((fst (fst (LibvirtCollect ex_files id ex_stopped now (ex_claims, None, NewDomainStore))),
      fst (snd (fst (LibvirtCollect ex_files id ex_stopped now (ex_claims, None, NewDomainStore)))),
      snd (snd (fst (LibvirtCollect ex_files id ex_stopped now (ex_claims, None, NewDomainStore))))),
     snd (LibvirtCollect ex_files id ex_stopped now (ex_claims, None, NewDomainStore)))" for now by simp
  show ?thesis
    using libvirt_outage[OF run disjI1[OF down], of "2 * second"] libvirt_outage[OF run disjI1[OF down], of "100 * second"]
    by (simp add: ex_claims_def discoveryGrace_def time_sub_def max_duration_def min_duration_def second_def)
qed

text \<open>
  Once a domain has a resident size, no collection of libvirt changes it, whatever the
  daemon reports: the size of a domain whose process is unknown stays the first one seen,
  also after the domain was shut off.
\<close>

lemma libvirt_rss_frozen:
  assumes "LibvirtCollect fs ord w now (lc, index, s) = ((lc', index', s'), err)"
    and "snd (connect w lc) = None" and "lv_ListAllDomains w = Inr ds" and "\<forall>n. lv_ctxErr w n = None" and "distinct (map uuid_of ds)"
    and "latest_of s i = Some cur" and "0 < m_RssKiB (d_Mem cur)"
  shows "\<exists>d. latest_of s' i = Some d \<and> m_RssKiB (d_Mem d) = m_RssKiB (d_Mem cur)"
proof -
  note loop = LibvirtCollect_ok(5)[OF assms(2-5,1)]
  show ?thesis
  proof (cases "i \<in> uuid_of ` set (reported w ds)")
    case True
    then obtain snap where "latest_of s' i = Some (merged snap i (Some cur))"
      using loop assms(6) unfolding loop_done_def domain_done_def by auto
    then show ?thesis using assms(7) by (simp add: merged_def mergeLibvirt_rss)
  next
    case False
    then show ?thesis using loop assms(6) unfolding loop_done_def same_at_def by simp
  qed
qed

section \<open>Threads\<close>

text \<open>
  The name of a thread is taken for that of a vCPU exactly when it is the prefix of one
  of the five hypervisors, a decimal number that fits an integer and that hypervisor's
  suffix, and the number is the index; so the index of the name a hypervisor gives the
  thread of a vCPU is that vCPU.
\<close>

lemma vcpu_thread_names:
  "(vcpuIndex comm = (k, True) \<longleftrightarrow>
     (\<exists>(n, pre, suf) \<in> set thread_names. \<exists>u. comm = pre @ u @ suf \<and> u \<noteq> [] \<and> (\<forall>c \<in> set u. digit c) \<and> Atoi u = Inr k)) \<and>
   (\<forall>(n, pre, suf) \<in> set thread_names. \<forall>i < 2 ^ 63. vcpuIndex (pre @ show_nat i @ suf) = (int i, True))"
proof -
  have "vcpuIndex (pre @ show_nat i @ suf) = (int i, True)" if "(n, pre, suf) \<in> set thread_names" "i < 2 ^ 63" for n pre suf i
  proof -
    have "int i < 2 ^ 63" using that(2) by (metis of_nat_less_iff of_nat_numeral of_nat_power)
    then have "Atoi (show_nat i) = Inr (int i)" using Atoi_show_int[of "int i"] by (simp add: show_int_def)
    then show ?thesis unfolding vcpuIndex_iff using that(1) digit_of_show_nat show_nat_neq_Nil[of i] by blast
  qed
  then show ?thesis using vcpuIndex_iff[of comm k] by blast
qed

text \<open>The threads by the names the process gives them now; none if they cannot be listed.\<close>

definition lists_threads :: "proc_fs \<Rightarrow> int \<Rightarrow> (int, int) gomap \<Rightarrow> bool" where
  "lists_threads fs pid tids \<longleftrightarrow>
     (\<forall>k. map_of tids k = (case pr_AllThreads fs pid of None \<Rightarrow> None
        | Some ts \<Rightarrow> map_option fst (List.find (\<lambda>(t, c). map_option vcpuIndex c = Some (k, True)) (rev ts))))"

text \<open>
  C26: After a collection, a domain that libvirt does not own and whose process can be read
  has the resident size of the process in KiB and as many vCPUs as the process has known vCPU
  threads. These are the threads whose names said so, the last one of two for the same vCPU,
  when they were last listed, which is in this collection unless the list of an earlier one is
  less than ten seconds old. The vCPUs are exactly these threads, in increasing order of the
  index and each with its thread's id, if and only if no thread stands at the place where the
  domain had a vCPU with the same thread id under another index: such a vCPU keeps its old
  index.
\<close>

theorem proc_collect_threads:
  assumes "is_order ord" and "ids_ok s" and "latest_of s i = Some d" and "clone d = d" and "proc_stat fs d = Some st"
    and "d_Source d \<noteq> ''libvirt''" and "find_threads fs (d_PID d) now pc = (pc', vt)" and "threads = known_threads (vt_tids vt)"
  shows "\<exists>d'. latest_of (snd (ProcCollect fs ord now (pc, s))) i = Some d' \<and>
    m_RssKiB (d_Mem d') = word_of_int (ps_ResidentMemory st sdiv 1024) \<and> length (d_VCPUs d') = length threads \<and>
    (map (\<lambda>v. (v_Index v, v_TID v)) (d_VCPUs d') = threads \<longleftrightarrow>
      (\<forall>n < length (d_VCPUs d). n < length threads \<longrightarrow>
        v_TID (d_VCPUs d ! n) = snd (threads ! n) \<longrightarrow> v_Index (d_VCPUs d ! n) = fst (threads ! n))) \<and>
    sorted (map fst threads) \<and> distinct (map fst threads) \<and> (\<forall>k t. (k, t) \<in> set threads \<longleftrightarrow> 0 \<le> k \<and> map_of (vt_tids vt) k = Some t) \<and>
    (case map_of (pc_threads pc) (d_PID d) of
       Some old \<Rightarrow> if time_sub now (vt_fetched old) < threadRefresh then vt = old else lists_threads fs (d_PID d) (vt_tids vt)
     | None \<Rightarrow> lists_threads fs (d_PID d) (vt_tids vt))"
proof -
  have vt: "snd (find_threads fs (d_PID d) now pc) = vt" using assms(7) by simp
  have cl: "\<And>x. latest_of s i = Some x \<Longrightarrow> clone x = x" using assms(3,4) by simp
  obtain d' where d': "latest_of (snd (ProcCollect fs ord now (pc, s))) i = Some d'" "proc_made fs (\<lambda>p. snd (find_threads fs p now pc)) d d d'"
    using ProcCollect_domain[OF assms(1,2), of i fs now pc, OF cl] unfolding assms(3) option.case by blast
  from d'(2) obtain minor major vs where upd: "map thread_of vs = known_threads (vt_tids vt)"
    "d' = proc_update (word_of_int (ps_ResidentMemory st sdiv 1024)) minor major (Some vs) vt d"
    using assms(5,6) vt by (auto simp: proc_made_def proc_own_def split: option.splits)
  note made = thread_of_update[OF upd(1), of "word_of_int (ps_ResidentMemory st sdiv 1024)" minor major d, folded upd(2) assms(8)]
  have fresh: "lists_threads fs (d_PID d) (case pr_AllThreads fs (d_PID d) of None \<Rightarrow> [] | Some ts \<Rightarrow> foldl add_thread [] ts)"
    by (simp add: lists_threads_def map_of_add_threads split: option.split)
  have "case map_of (pc_threads pc) (d_PID d) of
       Some old \<Rightarrow> if time_sub now (vt_fetched old) < threadRefresh then vt = old else lists_threads fs (d_PID d) (vt_tids vt)
     | None \<Rightarrow> lists_threads fs (d_PID d) (vt_tids vt)"
    using assms(7) fresh by (auto simp: find_threads_def Let_def split: option.splits if_splits)
  moreover have "m_RssKiB (d_Mem d') = word_of_int (ps_ResidentMemory st sdiv 1024)" by (simp add: upd(2) proc_update_def Let_def)
  moreover have "sorted (map fst threads) \<and> distinct (map fst threads)" unfolding assms(8) by (rule known_threads_sorted)
  moreover have "\<forall>k t. (k, t) \<in> set threads \<longleftrightarrow> 0 \<le> k \<and> map_of (vt_tids vt) k = Some t" unfolding assms(8) in_known_threads by simp
  ultimately show ?thesis using d'(1) made by (intro exI[of _ d'] conjI)  auto
qed

definition ex_vm :: DomainSnapshot where
  "ex_vm = zero_snapshot\<lparr>d_ID := ''vm'', d_PID := 7, d_State := ''running''\<rparr>"

definition ex_vms :: DomainStore where
  "ex_vms = Upsert ''vm'' (\<lambda>_. ex_vm) NewDomainStore"

lemma ex_vms_ok: "ids_ok ex_vms" "latest_of ex_vms i = (if i = ''vm'' then Some ex_vm else None)" "clone ex_vm = ex_vm"
proof -
  have "latest_of NewDomainStore = (\<lambda>_. None)" by (simp add: latest_of_def NewDomainStore_def fun_eq_iff)
  then show l: "latest_of ex_vms i = (if i = ''vm'' then Some ex_vm else None)" for i
    by (simp add: ex_vms_def latest_of_Upsert)
  have "wf_map (st_domains ex_vms)" using ids_ok_new wf_Upsert unfolding ex_vms_def ids_ok_def by blast
  then show "ids_ok ex_vms" by (simp add: ids_ok_def l ex_vm_def)
  show "clone ex_vm = ex_vm" by (simp add: ex_vm_def clone_def zero_snapshot_def zero_kvm_def cloneMap_def)
qed

definition ex_proc :: proc_fs where
  "ex_proc = \<lparr>pr_Proc = (\<lambda>_. True), pr_Stat = (\<lambda>_. Some \<lparr>ps_ResidentMemory = 4096, ps_MinFlt = 0, ps_MajFlt = 0, ps_CPUTime = 0, ps_Processor = 0\<rparr>),
     pr_AllThreads = (\<lambda>_. Some [(7, None), (8, Some ''vcpu0''), (9, None)]), pr_ThreadStat = (\<lambda>_ _. None)\<rparr>"

text \<open>A machine whose one vCPU was last seen with thread 8 and some index; the thread is named for index 0.\<close>

definition ex_smp :: "int \<Rightarrow> DomainSnapshot" where
  "ex_smp k = ex_vm\<lparr>d_VCPUs := [\<lparr>v_Index = k, v_TID = 8, v_CPUPercent = 0, v_HostCPU = 0, v_ExitRate = 5, v_RunqAvgUs = 0, v_RunqP99Us = 0,
     v_RunqMaxUs = 0, v_HaltWaitRate = 0\<rparr>]\<rparr>"

lemma ex_smp_ok: "ids_ok (Upsert ''vm'' (\<lambda>_. ex_smp k) NewDomainStore)" "latest_of (Upsert ''vm'' (\<lambda>_. ex_smp k) NewDomainStore) ''vm'' = Some (ex_smp k)"
  "clone (ex_smp k) = ex_smp k"
proof -
  have l: "latest_of (Upsert ''vm'' (\<lambda>_. ex_smp k) NewDomainStore) i = (if i = ''vm'' then Some (ex_smp k) else None)" for i
    by (simp add: latest_of_Upsert) (simp add: latest_of_def NewDomainStore_def)
  then show "latest_of (Upsert ''vm'' (\<lambda>_. ex_smp k) NewDomainStore) ''vm'' = Some (ex_smp k)" by simp
  have "wf_map (st_domains (Upsert ''vm'' (\<lambda>_. ex_smp k) NewDomainStore))" using ids_ok_new wf_Upsert unfolding ids_ok_def by blast
  moreover have "d_ID (ex_smp k) = ''vm''" by (simp add: ex_smp_def ex_vm_def)
  ultimately show "ids_ok (Upsert ''vm'' (\<lambda>_. ex_smp k) NewDomainStore)" by (simp add: ids_ok_def l)
  show "clone (ex_smp k) = ex_smp k" by (simp add: ex_smp_def ex_vm_def clone_def zero_snapshot_def zero_kvm_def cloneMap_def)
qed

theorem proc_collect_threads_witness:
  "(\<exists>d. latest_of (snd (ProcCollect ex_proc id second (NewProcCollector, Upsert ''vm'' (\<lambda>_. ex_smp 0) NewDomainStore))) ''vm'' = Some d \<and>
     m_RssKiB (d_Mem d) = 4 \<and> map (\<lambda>v. (v_Index v, v_TID v)) (d_VCPUs d) = [(0, 8)]) \<and>
   (\<exists>d. latest_of (snd (ProcCollect ex_proc id second (NewProcCollector, Upsert ''vm'' (\<lambda>_. ex_smp 1) NewDomainStore))) ''vm'' = Some d \<and>
     map (\<lambda>v. (v_Index v, v_TID v)) (d_VCPUs d) \<noteq> [(0, 8)])"
proof -
  have ord: "is_order (id :: string range_order)" by (simp add: is_order_def)
  have st: "proc_stat ex_proc (ex_smp k) = Some \<lparr>ps_ResidentMemory = 4096, ps_MinFlt = 0, ps_MajFlt = 0, ps_CPUTime = 0, ps_Processor = 0\<rparr>" for k
    by (simp add: proc_stat_def ex_proc_def ex_smp_def ex_vm_def)
  have src: "d_Source (ex_smp k) \<noteq> ''libvirt''" and pid: "d_PID (ex_smp k) = 7" for k by (simp_all add: ex_smp_def ex_vm_def zero_snapshot_def)
  have threads: "known_threads (vt_tids (snd (find_threads ex_proc 7 second NewProcCollector))) = [(0, 8)]"
  proof -
    have "(3, ''vcpu'', []) \<in> set thread_names" "\<forall>c \<in> set ''0''. digit c" "Atoi ''0'' = Inr 0"
      by (simp_all add: thread_names_def digit_def in_range_def Atoi_def ParseUint_def digit_val_def Let_def)
    then have "vcpuIndex (''vcpu'' @ ''0'' @ []) = (0, True)" unfolding vcpuIndex_iff by blast
    then have "vt_tids (snd (find_threads ex_proc 7 second NewProcCollector)) = [(0, 8)]"
      by (simp add: find_threads_def NewProcCollector_def ex_proc_def add_thread_def Let_def)
    moreover have "known_threads [(0, 8)] = [(0, 8)]" by code_simp
    ultimately show ?thesis by simp
  qed
  obtain pc' vt where ft: "find_threads ex_proc 7 second NewProcCollector = (pc', vt)" by fastforce
  then have eq: "[(0, 8)] = known_threads (vt_tids vt)" using threads by simp
  have "\<exists>d'. latest_of (snd (ProcCollect ex_proc id second (NewProcCollector, Upsert ''vm'' (\<lambda>_. ex_smp k) NewDomainStore))) ''vm'' = Some d' \<and>
      m_RssKiB (d_Mem d') = 4 \<and> (map (\<lambda>v. (v_Index v, v_TID v)) (d_VCPUs d') = [(0, 8)] \<longleftrightarrow> k = 0)" for k
    using proc_collect_threads[OF ord ex_smp_ok[of k] st src, unfolded pid, OF ft eq]
    by (auto simp: ex_smp_def signed_divide_int_def)
  from this[of 0] this[of 1] show ?thesis by auto
qed

section \<open>Probes\<close>

text \<open>
  C27: Reading the description of a tracepoint as the kernel prints it gives back every
  field: under a name, the last field of that name with its offset and size, and nothing
  under any other name, whatever the types, array lengths, signs and other lines are.
\<close>

theorem tracepoint_format_roundtrip:
  assumes "list_all item_ok items"
  shows "\<exists>fds. parseFormat (format_text items) = Inr fds \<and>
    (\<forall>name. map_of fds name = List.find (\<lambda>f. fi_Name f = name) (rev (List.map_filter item_field items)))"
  unfolding parseFormat_text[OF assms] by (simp add: map_of_index_by option.case_eq_if)

definition ex_format :: "format_item list" where
  "ex_format = [OtherLine ''name: kvm_exit'', FieldLine [''unsigned'', ''int''] '''' False \<lparr>fi_Name = ''exit_reason'', fi_Offset = 8, fi_Size = 4\<rparr>,
     FieldLine [''char''] ''[16]'' True \<lparr>fi_Name = ''comm'', fi_Offset = 12, fi_Size = 16\<rparr>]"

theorem tracepoint_format_roundtrip_witness:
  "\<exists>fds. parseFormat (format_text ex_format) = Inr fds \<and> map_of fds ''comm'' = Some \<lparr>fi_Name = ''comm'', fi_Offset = 12, fi_Size = 16\<rparr>"
proof -
  have "list_all item_ok ex_format"
    by (simp add: ex_format_def field_ok_def word_ok_def is_space_def HasPrefix_def TrimSpace_def)
  from tracepoint_format_roundtrip[OF this] show ?thesis by (auto simp: ex_format_def List.map_filter_def)
qed

text \<open>
  C28: Loading succeeds only with a program attached, and then the status has exactly one
  line for every probe, in the order of the features: disabled when its feature is, else
  unavailable when a field cannot be resolved, else the outcome of attaching it, or its
  fallback. A feature counts as active exactly when one of its probes is attached.
\<close>

theorem load_reports_every_probe:
  assumes "LoadProbes h disabled = Inr p"
  shows "mset (map report (pb_status p)) = mset (map (\<lambda>def. (pd_feature def, probe_name def, verdict h disabled def)) probeDefs) \<and>
    sorted (map (\<lambda>s. feature_rank (st_Feature s)) (pb_status p)) \<and> pb_links p \<noteq> [] \<and>
    (FeatureActive feature p \<longleftrightarrow> (\<exists>def \<in> set probeDefs. pd_feature def = feature \<and> verdict h disabled def = Attached))"
proof -
  have set: "report ` set (pb_status p) = (\<lambda>def. (pd_feature def, probe_name def, verdict h disabled def)) ` set probeDefs"
    using arg_cong[OF LoadProbes_ok(1)[OF assms], of set_mset] unfolding set_mset_mset set_map .
  have "FeatureActive feature p \<longleftrightarrow> (\<exists>nm. (feature, nm, Attached) \<in> report ` set (pb_status p))"
    unfolding FeatureActive_def list_ex_iff report_def image_iff by force
  then have "FeatureActive feature p \<longleftrightarrow> (\<exists>def \<in> set probeDefs. pd_feature def = feature \<and> verdict h disabled def = Attached)"
    unfolding set image_iff by force
  then show ?thesis using LoadProbes_ok[OF assms] by blast
qed

definition ex_host :: bpf_host where
  "ex_host = \<lparr>bh_RemoveMemlock = None, bh_LoadSpec = None, bh_open = NotExist, bh_Variables = [], bh_SetVar = (\<lambda>_ _. None), bh_NewMaps = None,
     bh_Programs = [''sched_switch''], bh_NewProgram = (\<lambda>_. None), bh_AttachTracing = (\<lambda>_. None), bh_Tracepoint = (\<lambda>_ _ _. None),
     bh_NewReader = None, bh_dropEnum = None\<rparr>"

theorem load_reports_every_probe_witness:
  "\<exists>p. LoadProbes ex_host [] = Inr p \<and> FeatureActive FeatRunqueue p \<and> length (pb_status p) = length probeDefs"
proof -
  have "case LoadProbes ex_host [] of Inr p \<Rightarrow> True | Inl _ \<Rightarrow> False" by code_simp
  then obtain p where p: "LoadProbes ex_host [] = Inr p" by (auto split: sum.splits)
  have "\<exists>def \<in> set probeDefs. pd_feature def = FeatRunqueue \<and> verdict ex_host [] def = Attached" by code_simp
  moreover have "length (map report (pb_status p)) = length probeDefs"
    using mset_eq_length[OF load_reports_every_probe[OF p, THEN conjunct1]] unfolding length_map .
  ultimately show ?thesis
    using load_reports_every_probe[OF p, of FeatRunqueue, THEN conjunct2, THEN conjunct2, THEN conjunct2] p by simp
qed

text \<open>
  C29: The program writes the processes asked for last into the kernel's map, unless they are
  there already, and deletes those that are no longer asked for, together with their entries
  in all four maps of counters; entries of other processes are never touched. This is said
  for every pattern of failing updates and deletions, whose errors the program ignores; only
  if those of the targets all succeed does the kernel's map mirror what was asked for. The
  sets of processes are Go maps to \<open>true\<close>.
\<close>

theorem targets_mirrored:
  assumes "\<forall>t. map_of (pb_targets p) t \<noteq> Some False" and "\<forall>t. map_of tgids t \<noteq> Some False"
  shows "pb_targets (SetTargets ops tgids p) = tgids \<and>
    (\<forall>t. map_of (bm_targets (pb_maps (SetTargets ops tgids p))) t =
      (if mget False tgids t \<and> \<not> mget False (pb_targets p) t \<and> mo_upd_target ops t then Some 1
       else if mget False (pb_targets p) t \<and> \<not> mget False tgids t \<and> mo_del_target ops t then None
       else map_of (bm_targets (pb_maps p)) t)) \<and>
    (mirrored p \<longrightarrow> (\<forall>t. mo_upd_target ops t \<and> mo_del_target ops t) \<longrightarrow> mirrored (SetTargets ops tgids p)) \<and>
    (\<forall>t r. map_of (bm_vm_exits (pb_maps (SetTargets ops tgids p))) (t, r) =
       (if mget False (pb_targets p) t \<and> \<not> mget False tgids t \<and> mo_del_exits ops (t, r) then None else map_of (bm_vm_exits (pb_maps p)) (t, r))) \<and>
    (\<forall>t r. map_of (bm_vm_uexits (pb_maps (SetTargets ops tgids p))) (t, r) =
       (if mget False (pb_targets p) t \<and> \<not> mget False tgids t \<and> mo_del_uexits ops (t, r) then None else map_of (bm_vm_uexits (pb_maps p)) (t, r))) \<and>
    (\<forall>t. map_of (bm_vm_stats (pb_maps (SetTargets ops tgids p))) t =
       (if mget False (pb_targets p) t \<and> \<not> mget False tgids t \<and> mo_del_stats ops t then None else map_of (bm_vm_stats (pb_maps p)) t)) \<and>
    (\<forall>t. map_of (bm_blk_vm_hist (pb_maps (SetTargets ops tgids p))) t =
       (if mget False (pb_targets p) t \<and> \<not> mget False tgids t \<and> mo_del_blk ops t then None else map_of (bm_blk_vm_hist (pb_maps p)) t))"
  using SetTargets_mirrored[OF _ assms, of ops] SetTargets_targets[OF assms, of ops] SetTargets_counters[OF assms(1), of ops tgids]
    SetTargets_maps(6)[of ops tgids p] by blast

definition ex_probes :: LoadedProbes where
  "ex_probes = \<lparr>pb_status = [], pb_links = [], pb_vars = [], pb_targets = [(7, True), (8, True)], pb_ifaces = [],
     pb_maps = empty_maps\<lparr>bm_targets := [(7, 1), (8, 1)], bm_vm_exits := [((7, 1), [5, 6]), ((8, 1), [2])]\<rparr>, pb_DropNames = []\<rparr>"

definition ex_ops :: map_ops where
  "ex_ops = \<lparr>mo_upd_target = (\<lambda>_. True), mo_del_target = (\<lambda>_. True), mo_del_exits = (\<lambda>_. True), mo_del_uexits = (\<lambda>_. True),
     mo_del_stats = (\<lambda>_. True), mo_del_blk = (\<lambda>_. True), mo_upd_iface = (\<lambda>_. True), mo_del_iface = (\<lambda>_. True), mo_del_drops = (\<lambda>_. True)\<rparr>"

theorem targets_mirrored_witness:
  "mirrored (SetTargets ex_ops [(8, True), (9, True)] ex_probes) \<and>
   map_of (bm_vm_exits (pb_maps (SetTargets ex_ops [(8, True), (9, True)] ex_probes))) (7, 1) = None \<and>
   map_of (bm_vm_exits (pb_maps (SetTargets ex_ops [(8, True), (9, True)] ex_probes))) (8, 1) = Some [2]"
proof -
  have a: "mirrored ex_probes" by (simp add: mirrored_def ex_probes_def empty_maps_def mget_def)
  have b: "\<forall>t. map_of (pb_targets ex_probes) t \<noteq> Some False" "\<forall>t. map_of [(8 :: uint32, True), (9, True)] t \<noteq> Some False"
    by (simp_all add: ex_probes_def)
  note t = targets_mirrored[OF b, of ex_ops]
  have "mirrored (SetTargets ex_ops [(8, True), (9, True)] ex_probes)" using t a by (simp add: ex_ops_def)
  then show ?thesis using t by (simp add: ex_probes_def empty_maps_def mget_def ex_ops_def)
qed

text \<open>
  Whatever is read from the ring buffer and whenever the consumer receives, what it got
  and what waits in the channel are events that were read, in their order and each at most
  once, and never more than the capacity wait. As long as no more events than that were
  read, none is lost.
\<close>

lemma events_in_order:
  assumes "foldl ring_step ([], []) ops = (queue, got)"
  shows "subseq (got @ queue) (ring_read ops) \<and> length queue \<le> event_capacity \<and>
    (length (ring_read ops) \<le> event_capacity \<longrightarrow> got @ queue = ring_read ops)"
  using ring_run[OF assms] ring_all[OF assms] by blast

section \<open>Kernel events and counters\<close>

text \<open>
  C30: A kernel event is given to the domain whose process it names: the one that was running
  or paused in the last collection, else the one of the collection before it, so the exit
  of a machine is still attributed after the machine is gone. Disk and machine check errors
  are the host's.
\<close>

theorem events_attributed:
  assumes "EBPFCollect e kern now (ec, Some p, s) = (ec1, Some p1, s1)"
    and "EBPFCollect e' kern' now' (ec1, Some p1, s2) = (ec2, p2, s3)"
  shows "ke_DomainID (attribute ec2 ev) =
    (if ev_Type ev = EvBlockError \<or> ev_Type ev = EvMCE then []
     else case List.find (\<lambda>d. is_target d \<and> tgid_of_domain d = ev_TGID ev) (rev (Snapshot (ee_order e') s2)) of
            Some d \<Rightarrow> d_ID d
          | None \<Rightarrow>
              (case List.find (\<lambda>d. is_target d \<and> tgid_of_domain d = ev_TGID ev) (rev (Snapshot (ee_order e) s)) of
                 Some d \<Rightarrow> d_ID d | None \<Rightarrow> []))"
proof -
  have "ec_owners ec2 = with_last (owners_of (Snapshot (ee_order e') s2)) (owners_of (Snapshot (ee_order e) s))"
    using EBPFCollect_owners(1)[OF assms(2)] EBPFCollect_owners(2)[OF assms(1)] by simp
  then show ?thesis unfolding attribute_def by (auto simp: map_of_with_last map_of_owners_of split: option.splits)
qed

definition ex_env :: ebpf_env where
  "ex_env = \<lparr>ee_order = id, ee_targets = id, ee_disks = id, ee_ops = ex_ops, ee_arch = ArchVMX, ee_read = (\<lambda>_. None)\<rparr>"

definition ex_exit :: Event where
  "ex_exit = \<lparr>ev_Time = 0, ev_Type = EvExit, ev_TGID = 7, ev_TID = 7, ev_CPU = 0, ev_A = 0, ev_B = 0, ev_C = 0, ev_D = 0, ev_Comm = ''qemu''\<rparr>"

lemma Snapshot_ex_vms: "Snapshot id ex_vms = [ex_vm]"
  using ex_vms_ok(3) by (simp add: ex_vms_def Upsert_def NewDomainStore_def Snapshot_def mkeys_def List.map_filter_def)

lemma EBPFCollect_probes: "\<exists>ec1 p1 s1. EBPFCollect e kern now (ec, Some p, s) = (ec1, Some p1, s1)"
  by (simp add: EBPFCollect_def Let_def case_prod_unfold)

theorem events_attributed_witness:
  "\<exists>ec1 p1 s1 ec2 p2 s2. EBPFCollect ex_env id second (NewEBPFCollector, Some ex_probes, ex_vms) = (ec1, p1, s1) \<and>
     EBPFCollect ex_env id (2 * second) (ec1, p1, NewDomainStore) = (ec2, p2, s2) \<and> ke_DomainID (attribute ec2 ex_exit) = ''vm''"
proof -
  obtain ec1 p1 s1 where one: "EBPFCollect ex_env id second (NewEBPFCollector, Some ex_probes, ex_vms) = (ec1, Some p1, s1)"
    using EBPFCollect_probes by blast
  obtain ec2 p2 s2 where two: "EBPFCollect ex_env id (2 * second) (ec1, Some p1, NewDomainStore) = (ec2, p2, s2)" by (metis prod.collapse)
  have "Snapshot id NewDomainStore = []" by (simp add: Snapshot_def NewDomainStore_def mkeys_def List.map_filter_def)
  moreover have "is_target ex_vm" "tgid_of_domain ex_vm = 7" "d_ID ex_vm = ''vm''" by (simp_all add: ex_vm_def is_target_def tgid_of_domain_def)
  ultimately have "ke_DomainID (attribute ec2 ex_exit) = ''vm''"
    using events_attributed[OF one two, of ex_exit] by (simp add: ex_env_def Snapshot_ex_vms ex_exit_def ev_defs)
  then show ?thesis using one two by blast
qed





end
