(* ===== verification/Tui_Text.thy ===== *)
theory Tui_Text
  imports Detect "HOL-Library.Signed_Division"
begin

text \<open>
  \<open>internal/tui/theme.go\<close> and \<open>internal/tui/format.go\<close>: colours, numbers, charts and the layout of
  tables. What the terminal libraries do with a text is an argument: its width in cells,
  cutting it to a width, and styling it. Text is UTF-8.
\<close>

section \<open>The terminal\<close>

text \<open>A style of the renderer; a width or height of zero and an empty colour are unset.\<close>

record style =
  sy_Foreground :: string
  sy_Background :: string
  sy_Bold :: bool
  sy_Padding :: nat
  sy_Width :: int
  sy_Height :: int
  sy_Border :: string

record border =
  bo_Top :: string
  bo_Bottom :: string
  bo_Left :: string
  bo_Right :: string
  bo_TopLeft :: string
  bo_TopRight :: string
  bo_BottomLeft :: string
  bo_BottomRight :: string

text \<open>
  \<open>tm_Center\<close> centers in a width, \<open>tm_JoinVertical\<close> stacks texts; \<open>tm_Clock\<close> and \<open>tm_Date\<close>
  format an instant as local time.
\<close>

record terminal =
  tm_Width :: "string \<Rightarrow> int"
  tm_Truncate :: "string \<Rightarrow> int \<Rightarrow> string \<Rightarrow> string"
  tm_TruncateLeft :: "string \<Rightarrow> int \<Rightarrow> string \<Rightarrow> string"
  tm_Render :: "style \<Rightarrow> string \<Rightarrow> string"
  tm_Height :: "string \<Rightarrow> int"
  tm_JoinVertical :: "string list \<Rightarrow> string"
  tm_Center :: "int \<Rightarrow> string \<Rightarrow> string"
  tm_RoundedBorder :: border
  tm_Clock :: "gtime \<Rightarrow> string"
  tm_Date :: "gtime \<Rightarrow> string"

definition rune2 :: "nat \<Rightarrow> nat \<Rightarrow> string" where
  "rune2 a b = [char_of a, char_of b]"

definition rune3 :: "nat \<Rightarrow> nat \<Rightarrow> nat \<Rightarrow> string" where
  "rune3 a b c = [char_of a, char_of b, char_of c]"

definition ellipsis :: string where "ellipsis = rune3 0xE2 0x80 0xA6"
definition en_dash :: string where "en_dash = rune3 0xE2 0x80 0x93"
definition middle_dot :: string where "middle_dot = rune2 0xC2 0xB7"
definition full_block :: string where "full_block = rune3 0xE2 0x96 0x88"
definition left_half :: string where "left_half = rune3 0xE2 0x96 0x8C"
definition bullet :: string where "bullet = rune3 0xE2 0x97 0x8F"
definition circle :: string where "circle = rune3 0xE2 0x97 0x8B"
definition cross :: string where "cross = rune3 0xE2 0x9C 0x96"
definition triangle :: string where "triangle = rune3 0xE2 0x96 0xB2"
definition check_mark :: string where "check_mark = rune3 0xE2 0x9C 0x94"
definition arrow_up :: string where "arrow_up = rune3 0xE2 0x86 0x91"
definition arrow_down :: string where "arrow_down = rune3 0xE2 0x86 0x93"

definition spaces :: "int \<Rightarrow> string" where
  "spaces n = replicate (nat n) (CHR '' '')"

definition Repeat :: "string \<Rightarrow> int \<Rightarrow> string" where
  "Repeat s n = concat (replicate (nat n) s)"

section \<open>Theme\<close>

definition colBg :: string where "colBg = ''#0f1218''"
definition colPanel :: string where "colPanel = ''#151a22''"
definition colBorder :: string where "colBorder = ''#2b3341''"
definition colFg :: string where "colFg = ''#c8d0dc''"
definition colMuted :: string where "colMuted = ''#6b7686''"
definition colDim :: string where "colDim = ''#465061''"
definition colAccent :: string where "colAccent = ''#7aa2f7''"
definition colCyan :: string where "colCyan = ''#7dcfff''"
definition colGreen :: string where "colGreen = ''#9ece6a''"
definition colAmber :: string where "colAmber = ''#e0af68''"
definition colRed :: string where "colRed = ''#f7768e''"
definition colPurple :: string where "colPurple = ''#bb9af7''"
definition colRx :: string where "colRx = ''#73daca''"
definition colTx :: string where "colTx = ''#bb9af7''"
definition colTitleBar :: string where "colTitleBar = ''#1b2130''"

definition fg :: "string \<Rightarrow> style" where
  "fg c = \<lparr>sy_Foreground = c, sy_Background = [], sy_Bold = False, sy_Padding = 0, sy_Width = 0, sy_Height = 0,
     sy_Border = []\<rparr>"

definition Bold :: "style \<Rightarrow> style" where
  "Bold s = s\<lparr>sy_Bold := True\<rparr>"

definition stBase :: style where "stBase = fg colFg"
definition stMuted :: style where "stMuted = fg colMuted"
definition stDim :: style where "stDim = fg colDim"
definition stBold :: style where "stBold = Bold (fg colFg)"
definition stAccent :: style where "stAccent = fg colAccent"
definition stLabel :: style where "stLabel = fg colMuted"
definition stTitle :: style where "stTitle = Bold (fg colAccent)"
definition stHeadRow :: style where "stHeadRow = Bold (fg colMuted)"
definition stKey :: style where "stKey = Bold (fg colAccent)"
definition stTabOn :: style where "stTabOn = (Bold (fg colBg))\<lparr>sy_Background := colAccent, sy_Padding := 1\<rparr>"
definition stTabOff :: style where "stTabOff = (fg colMuted)\<lparr>sy_Padding := 1\<rparr>"
definition stBoxHot :: style where "stBoxHot = (fg [])\<lparr>sy_Border := colAccent, sy_Padding := 1\<rparr>"

fun severityColor :: "Severity \<Rightarrow> string" where
  "severityColor Critical = colRed"
| "severityColor Warning = colAmber"
| "severityColor Info = colAccent"

fun severityIcon :: "Severity \<Rightarrow> string" where
  "severityIcon Critical = cross"
| "severityIcon Warning = triangle"
| "severityIcon Info = bullet"

definition stateColor :: "string \<Rightarrow> string \<Rightarrow> string" where
  "stateColor state reason =
     (if state = ''running'' then colGreen
      else if state \<in> set [''paused'', ''pmsuspended'', ''blocked'']
      then (if reason \<in> set [''ioerror'', ''io-error'', ''watchdog'', ''crashed'', ''internal-error'', ''postcopy failed'']
            then colRed else colAmber)
      else if state = ''crashed'' then colRed
      else colDim)"

definition levelColor :: "float64 \<Rightarrow> float64 \<Rightarrow> float64 \<Rightarrow> string" where
  "levelColor v warn crit =
     (if 0 < crit \<and> crit \<le> v then colRed else if 0 < warn \<and> warn \<le> v then colAmber else colGreen)"

section \<open>Numbers\<close>

text \<open>The loop over the units, by the number of units that are left.\<close>

fun unit_exp :: "nat \<Rightarrow> float64 \<Rightarrow> nat" where
  "unit_exp 0 v = 0"
| "unit_exp (Suc n) v = (if 1024 \<le> v then Suc (unit_exp n (v / 1024)) else 0)"

definition fmtBytes :: "float64 \<Rightarrow> string" where
  "fmtBytes b =
     (if b < 1024 then show_fixed 0 b @ ''B''
      else let e = unit_exp 5 (b / 1024);
               v = b / 1024 ^ (e + 1);
               suffix = [''KMGTPE'' ! e]
           in if 100 \<le> v then show_fixed 0 v @ suffix else show_fixed 1 v @ suffix)"

definition fmtKiB :: "uint64 \<Rightarrow> string" where
  "fmtKiB k = fmtBytes (float_of_uint64 k * 1024)"

definition fmtRate :: "float64 \<Rightarrow> string" where
  "fmtRate b = fmtBytes b @ ''/s''"

definition fmtNum :: "float64 \<Rightarrow> string" where
  "fmtNum v =
     (if 1000000 \<le> v then show_fixed 1 (v / 1000000) @ ''M''
      else if 10000 \<le> v then show_fixed 0 (v / 1000) @ ''k''
      else if 1000 \<le> v then show_fixed 1 (v / 1000) @ ''k''
      else if 10 \<le> v \<or> v = 0 then show_fixed 0 v
      else show_fixed 1 v)"

definition tui_fmtUs :: "float64 \<Rightarrow> string" where
  "tui_fmtUs us =
     (if us \<le> 0 then en_dash
      else if 1000000 \<le> us then show_fixed 2 (us / 1000000) @ ''s''
      else if 1000 \<le> us then show_fixed 1 (us / 1000) @ ''ms''
      else show_fixed 0 us @ micro @ ''s'')"

text \<open>Rounds half away from zero, like \<open>math.Round\<close>.\<close>

definition round_away :: "rat \<Rightarrow> int" where
  "round_away x = (if 0 \<le> x then \<lfloor>x + 1 / 2\<rfloor> else \<lceil>x - 1 / 2\<rceil>)"

definition fmtDuration :: "duration \<Rightarrow> string" where
  "fmtDuration d =
     (let secs = round_away (of_int d / of_int second);
          hours = secs sdiv 3600;
          days = hours sdiv 24;
          h = hours smod 24;
          m = (secs sdiv 60) smod 60
      in if 0 < days then show_int days @ ''d'' @ show_int h @ ''h''
         else if 0 < h then show_int h @ ''h'' @ show_int m @ ''m''
         else if 0 < m then show_int m @ ''m'' @ show_int (secs smod 60) @ ''s''
         else show_int secs @ ''s'')"

definition fmtKiBRate :: "float64 \<Rightarrow> string" where
  "fmtKiBRate k = fmtRate (k * 1024)"

definition fmtMs :: "uint64 \<Rightarrow> string" where
  "fmtMs ms = tui_fmtUs (float_of_uint64 ms * 1000)"

definition orDash :: "string \<Rightarrow> string" where
  "orDash s = (if s = [] then en_dash else s)"

definition orDashKiB :: "uint64 \<Rightarrow> string" where
  "orDashKiB k = (if k = 0 then en_dash else fmtKiB k)"

section \<open>Charts\<close>

definition sparkRunes :: "string list" where
  "sparkRunes = map (\<lambda>i. rune3 0xE2 0x96 (0x80 + i)) [1..<9]"

text \<open>The top of a chart: the given ceiling, or the largest value with headroom.\<close>

definition chart_top :: "float64 \<Rightarrow> float64 list \<Rightarrow> float64" where
  "chart_top ceil vals = (if ceil \<le> 0 then foldl max ceil vals * (115 / 100) else ceil)"

definition spark_cell :: "float64 \<Rightarrow> float64 \<Rightarrow> string" where
  "spark_cell peak v =
     (if peak \<le> 0 \<or> v \<le> 0 then '' ''
      else sparkRunes ! nat (min (max (round_away (v / peak * 7)) 0) 7))"

text \<open>The cells of a chart, one text for each.\<close>

definition spark_cells :: "float64 list \<Rightarrow> int \<Rightarrow> float64 \<Rightarrow> string list" where
  "spark_cells vals width ceil =
     (let vals = last_n (nat width) vals
      in replicate (nat width - length vals) '' '' @ map (spark_cell (chart_top ceil vals)) vals)"

definition sparkline :: "terminal \<Rightarrow> float64 list \<Rightarrow> int \<Rightarrow> float64 \<Rightarrow> string \<Rightarrow> string" where
  "sparkline t vals width ceil c =
     (if width \<le> 0 then [] else tm_Render t (fg c) (concat (spark_cells vals width ceil)))"

definition area_level :: "int \<Rightarrow> float64 \<Rightarrow> float64 \<Rightarrow> int" where
  "area_level rows peak v = (if 0 < peak \<and> 0 < v then max (round_away (v / peak * of_int (rows * 8))) 1 else 0)"

definition area_cell :: "int \<Rightarrow> int \<Rightarrow> string" where
  "area_cell base l =
     (let n = l - base
      in if 8 \<le> n then full_block else if n \<le> 0 then '' '' else sparkRunes ! nat (n - 1))"

definition area_row :: "float64 list \<Rightarrow> int \<Rightarrow> int \<Rightarrow> float64 \<Rightarrow> int \<Rightarrow> string list" where
  "area_row vals width rows ceil r =
     (let vals = last_n (nat width) vals; levels = map (area_level rows (chart_top ceil vals)) vals
      in replicate (nat width - length vals) '' '' @ map (area_cell ((rows - 1 - r) * 8)) levels)"

definition areaChart :: "terminal \<Rightarrow> float64 list \<Rightarrow> int \<Rightarrow> int \<Rightarrow> float64 \<Rightarrow> string \<Rightarrow> string" where
  "areaChart t vals width rows ceil c =
     Join (map (\<lambda>r. tm_Render t (fg c) (concat (area_row vals width rows ceil r))) [0..rows - 1]) [CHR 0x0A]"

definition bar_parts :: "string list" where
  "bar_parts = '' '' # map (\<lambda>i. rune3 0xE2 0x96 (0x90 - i)) [1..<8]"

text \<open>The filled cells of a gauge and the number of rest ones.\<close>

definition bar_cells :: "float64 \<Rightarrow> int \<Rightarrow> string list \<times> int" where
  "bar_cells q width =
     (let cells = min (max q 0) 1 * of_int width;
          full = \<lfloor>cells\<rfloor>
      in if full < width then (replicate (nat full) full_block @ [bar_parts ! nat \<lfloor>(cells - of_int full) * 8\<rfloor>], width - (full + 1))
         else (replicate (nat full) full_block, width - full))"

definition bar :: "terminal \<Rightarrow> float64 \<Rightarrow> int \<Rightarrow> string \<Rightarrow> string" where
  "bar t q width c =
     (if width \<le> 0 then []
      else let (cells, rest) = bar_cells q width
           in tm_Render t (fg c) (concat cells) @ tm_Render t stDim (Repeat middle_dot rest))"

section \<open>Fitting text\<close>

definition fit :: "terminal \<Rightarrow> string \<Rightarrow> int \<Rightarrow> string" where
  "fit t s w =
     (if w \<le> 0 then []
      else let s = tm_Truncate t s w ellipsis; pad = w - tm_Width t s
           in if 0 < pad then s @ spaces pad else s)"

definition fitRight :: "terminal \<Rightarrow> string \<Rightarrow> int \<Rightarrow> string" where
  "fitRight t s w =
     (if w \<le> 0 then []
      else let s = tm_Truncate t s w ellipsis; pad = w - tm_Width t s
           in if 0 < pad then spaces pad @ s else s)"

definition spread :: "terminal \<Rightarrow> string \<Rightarrow> string \<Rightarrow> int \<Rightarrow> string" where
  "spread t left right w =
     (let gap = w - tm_Width t left - tm_Width t right
      in if gap < 1 then fit t left (w - tm_Width t right - 1) @ '' '' @ right else left @ spaces gap @ right)"

section \<open>Charts fill their width\<close>

lemma length_spark_cells: "length (spark_cells vals width ceil) = nat width"
  by (simp add: spark_cells_def Let_def)

lemma length_area_row: "length (area_row vals width rows ceil r) = nat width"
  by (simp add: area_row_def Let_def)

lemma length_sparkRunes [simp]: "length sparkRunes = 8"
  by (simp add: sparkRunes_def)

lemma spark_cell_rune: "spark_cell peak v \<in> insert '' '' (set sparkRunes)"
proof -
  have "nat (min (max i 0) 7) < length sparkRunes" for i by simp
  then show ?thesis unfolding spark_cell_def by (simp only: insert_iff nth_mem if_splits) simp
qed

lemma area_cell_rune: "area_cell base l \<in> {'' '', full_block} \<union> set sparkRunes"
proof -
  have "nat (n - 1) < length sparkRunes" if "\<not> 8 \<le> n" "\<not> n \<le> 0" for n using that by simp
  then show ?thesis unfolding area_cell_def Let_def by (simp add: nth_mem)
qed

lemma length_bar_parts [simp]: "length bar_parts = 8"
  by (simp add: bar_parts_def)

lemma bar_cells_width:
  assumes "0 \<le> width" and "bar_cells q width = (cells, rest)"
  shows "0 \<le> rest \<and> int (length cells) + rest = width" and "set cells \<subseteq> insert full_block (set bar_parts)"
proof -
  let ?c = "min (max q 0) 1 * of_int width :: rat" and ?f = "\<lfloor>min (max q 0) 1 * (of_int width :: rat)\<rfloor>"
  have "0 \<le> ?c" using assms(1) by simp
  moreover have le: "?c \<le> of_int width" using assms(1) mult_right_mono[of "min (max q 0) 1" 1 "of_int width :: rat"] by simp
  ultimately have f: "0 \<le> ?f" "?f \<le> width" using le_floor_iff[of 0 ?c] floor_mono[OF le] by simp_all
  have "0 \<le> ?c - of_int ?f" "?c - of_int ?f < 1" by linarith+
  then have "0 \<le> (?c - of_int ?f) * 8" "(?c - of_int ?f) * 8 < 8" by simp_all
  then have "\<lfloor>(?c - of_int ?f) * 8\<rfloor> < 8" by (simp only: floor_less_iff of_int_numeral)
  then have i: "nat \<lfloor>(?c - of_int ?f) * 8\<rfloor> < length bar_parts" unfolding length_bar_parts by linarith
  show "0 \<le> rest \<and> int (length cells) + rest = width" using assms f by (auto simp: bar_cells_def Let_def simp del: zero_le_floor split: if_splits)
  show "set cells \<subseteq> insert full_block (set bar_parts)"
    using assms(2) nth_mem[OF i] by (auto simp: bar_cells_def Let_def split: if_splits)
qed

end
