(* ===== verification/Tui_Layout.thy ===== *)
theory Tui_Layout
  imports Tui_Text
begin

text \<open>
  The layout of tables (\<open>internal/tui/format.go\<close>, \<open>column\<close> and \<open>layout\<close>): which columns are
  hidden, how the spare cells are handed out, and the width of a row.
\<close>

section \<open>Columns\<close>

record column =
  co_title :: string
  co_width :: int
  co_right :: bool
  co_prio :: int
  co_flex :: int
  co_min :: int
  co_max :: int

definition column_need :: "column \<Rightarrow> int" where
  "column_need c =
     (if 0 < co_flex c \<and> 0 \<le> co_min c then co_min c + 1
      else if 0 < co_width c then co_width c + 1
      else 0)"

definition need :: "column list \<Rightarrow> int" where
  "need cols = sum_list (map column_need cols)"

definition column_visible :: "column \<Rightarrow> bool" where
  "column_visible c \<longleftrightarrow> 0 < co_width c \<or> (0 < co_flex c \<and> 0 \<le> co_min c)"

text \<open>The first of the columns with the lowest priority among those that may be hidden.\<close>

definition drop_step :: "column list \<Rightarrow> nat option \<Rightarrow> nat \<Rightarrow> nat option" where
  "drop_step cols d i =
     (if column_visible (cols ! i) \<and> 0 < co_prio (cols ! i) \<and>
         (case d of None \<Rightarrow> True | Some k \<Rightarrow> co_prio (cols ! i) < co_prio (cols ! k))
      then Some i else d)"

definition find_drop :: "column list \<Rightarrow> nat option" where
  "find_drop cols = foldl (drop_step cols) None [0..<length cols]"

definition hide :: "column \<Rightarrow> column" where
  "hide c = c\<lparr>co_width := 0, co_min := -1, co_flex := (if 0 < co_flex c then 0 else co_flex c)\<rparr>"

definition shown :: "column list \<Rightarrow> nat" where
  "shown cols = length (filter column_visible cols)"

lemma find_drop_Some:
  assumes "find_drop cols = Some i"
  shows "i < length cols \<and> column_visible (cols ! i) \<and> 0 < co_prio (cols ! i)"
proof -
  have "foldl (drop_step cols) None [0..<n] = Some i \<Longrightarrow>
      i < n \<and> column_visible (cols ! i) \<and> 0 < co_prio (cols ! i)" for n
    by (induction n arbitrary: i) (auto simp: drop_step_def less_Suc_eq split: if_splits)
  then show ?thesis using assms by (simp add: find_drop_def)
qed

lemma hide_invisible [simp]: "\<not> column_visible (hide c)" "column_need (hide c) = 0"
  by (auto simp: column_visible_def hide_def column_need_def)

lemma shown_hide: "i < length cols \<Longrightarrow> column_visible (cols ! i) \<Longrightarrow> shown (cols[i := hide (cols ! i)]) < shown cols"
proof (induction cols arbitrary: i)
  case (Cons c cols)
  then show ?case by (cases i) (auto simp: shown_def)
qed simp

text \<open>Every round of the loop hides one visible column.\<close>

function shrink :: "int \<Rightarrow> column list \<Rightarrow> column list" where
  "shrink w cols =
     (if w < need cols
      then (case find_drop cols of None \<Rightarrow> cols | Some i \<Rightarrow> shrink w (cols[i := hide (cols ! i)]))
      else cols)"
  by pat_completeness auto

termination shrink
  by (relation "measure (\<lambda>(w, cols). shown cols)") (auto simp: shown_hide dest: find_drop_Some)

declare shrink.simps [simp del]

section \<open>Spare cells\<close>

definition start_width :: "column \<Rightarrow> column" where
  "start_width c = (if 0 < co_flex c then c\<lparr>co_width := co_min c\<rparr> else c)"

text \<open>One pass: the columns, the cells given and the weights of the columns that can still grow.\<close>

definition grown :: "int \<Rightarrow> int \<Rightarrow> column \<Rightarrow> int" where
  "grown spare weights c =
     (if co_flex c = 0 \<or> (0 < co_max c \<and> co_max c \<le> co_width c) then 0
      else let add = (spare * co_flex c) sdiv weights
           in if 0 < co_max c then min add (co_max c - co_width c) else add)"

definition next_weight :: "int \<Rightarrow> int \<Rightarrow> column \<Rightarrow> int" where
  "next_weight spare weights c =
     (if co_flex c = 0 \<or> (0 < co_max c \<and> co_max c \<le> co_width c) then 0
      else if co_max c = 0 \<or> co_width c + grown spare weights c < co_max c then co_flex c
      else 0)"

definition grow :: "int \<Rightarrow> int \<Rightarrow> column \<Rightarrow> column" where
  "grow spare weights c = c\<lparr>co_width := co_width c + grown spare weights c\<rparr>"

fun hand_out :: "nat \<Rightarrow> int \<Rightarrow> int \<Rightarrow> column list \<Rightarrow> column list" where
  "hand_out 0 spare weights cols = cols"
| "hand_out (Suc pass) spare weights cols =
     (if 0 < spare \<and> 0 < weights
      then let given = sum_list (map (grown spare weights) cols)
           in if given = 0 then map (grow spare weights) cols
              else hand_out pass (spare - given) (sum_list (map (next_weight spare weights) cols)) (map (grow spare weights) cols)
      else cols)"

definition layout :: "column list \<Rightarrow> int \<Rightarrow> column list" where
  "layout cols w =
     (let cols = shrink w cols;
          spare = w - need cols;
          weights = sum_list (map co_flex cols)
      in hand_out 3 spare weights (map start_width cols))"

definition titles :: "column list \<Rightarrow> string list" where
  "titles cols = map co_title cols"

text \<open>\<open>renderRow\<close> of \<open>internal/tui/dashboard.go\<close>, which skips hidden columns.\<close>

definition render_cell :: "terminal \<Rightarrow> column \<times> string \<Rightarrow> string" where
  "render_cell t x =
     (let (c, s) = x
      in if co_width c = 0 then [] else (if co_right c then fitRight t s (co_width c) else fit t s (co_width c)) @ '' '')"

definition renderRow :: "terminal \<Rightarrow> column list \<Rightarrow> string list \<Rightarrow> string" where
  "renderRow t cols cells = concat (map (render_cell t) (zip cols cells))"

section \<open>Which columns are hidden\<close>

lemma find_drop_least:
  assumes "j < length cols" and "column_visible (cols ! j)" and "0 < co_prio (cols ! j)"
  shows "\<exists>i. find_drop cols = Some i \<and> co_prio (cols ! i) \<le> co_prio (cols ! j)"
proof -
  have "j < n \<Longrightarrow> \<exists>i. foldl (drop_step cols) None [0..<n] = Some i \<and> co_prio (cols ! i) \<le> co_prio (cols ! j)" for n
  proof (induction n)
    case (Suc n)
    show ?case
    proof (cases "j < n")
      case True
      then obtain i where i: "foldl (drop_step cols) None [0..<n] = Some i" "co_prio (cols ! i) \<le> co_prio (cols ! j)" using Suc.IH by blast
      have "foldl (drop_step cols) None [0..<Suc n] = drop_step cols (Some i) n" using i(1) by simp
      then show ?thesis using i(2) unfolding drop_step_def by auto
    next
      case False
      then have "j = n" using Suc.prems by simp
      then have "foldl (drop_step cols) None [0..<Suc n] = drop_step cols (foldl (drop_step cols) None [0..<n]) j" by simp
      then show ?thesis using assms unfolding drop_step_def by (auto split: option.splits)
    qed
  qed simp
  then show ?thesis using assms(1) by (simp add: find_drop_def)
qed

lemma shrink_invariant:
  assumes "P cols" and "\<And>cols i. P cols \<Longrightarrow> find_drop cols = Some i \<Longrightarrow> P (cols[i := hide (cols ! i)])"
  shows "P (shrink w cols)"
  using assms(1)
proof (induction w cols rule: shrink.induct)
  case (1 w cols)
  then show ?case using assms(2) by (subst shrink.simps) (auto split: option.splits)
qed

lemma shrink_enough: "need (shrink w cols) \<le> w \<or> find_drop (shrink w cols) = None"
proof (induction w cols rule: shrink.induct)
  case (1 w cols)
  then show ?case by (subst (1 2) shrink.simps) (auto split: option.splits)
qed

text \<open>A column is as it was or hidden, hidden only if its priority allows it, and after the less important ones.\<close>

definition shrunk :: "column list \<Rightarrow> column list \<Rightarrow> bool" where
  "shrunk cols cols' \<longleftrightarrow> length cols' = length cols \<and>
     (\<forall>i < length cols. cols' ! i = cols ! i \<or> (cols' ! i = hide (cols ! i) \<and> 0 < co_prio (cols ! i))) \<and>
     (\<forall>i < length cols. \<forall>j < length cols. cols' ! i \<noteq> cols ! i \<and> column_visible (cols' ! j) \<and> 0 < co_prio (cols ! j) \<longrightarrow>
        co_prio (cols ! i) \<le> co_prio (cols ! j))"

lemma shrunk_step:
  assumes "shrunk cols cols'" and "find_drop cols' = Some i"
  shows "shrunk cols (cols'[i := hide (cols' ! i)])"
proof -
  note i = find_drop_Some[OF assms(2)]
  have len: "length cols' = length cols" using assms(1) by (simp add: shrunk_def)
  have ci: "cols' ! i = cols ! i" using assms(1) i len hide_invisible by (metis shrunk_def)
  have prio: "co_prio (cols ! i) \<le> co_prio (cols ! j)" if "j < length cols" "column_visible (cols' ! j)" "0 < co_prio (cols ! j)" for j
  proof -
    have "cols' ! j = cols ! j" using assms(1) that hide_invisible by (metis shrunk_def)
    then show ?thesis using find_drop_least[of j cols'] that len assms(2) ci by auto
  qed
  have "\<forall>k < length cols. (cols'[i := hide (cols' ! i)]) ! k = cols ! k \<or>
      ((cols'[i := hide (cols' ! i)]) ! k = hide (cols ! k) \<and> 0 < co_prio (cols ! k))"
    using assms(1) i ci by (auto simp: shrunk_def nth_list_update)
  moreover have "co_prio (cols ! k) \<le> co_prio (cols ! j)"
    if kj: "k < length cols" "j < length cols" "(cols'[i := hide (cols' ! i)]) ! k \<noteq> cols ! k"
      "column_visible ((cols'[i := hide (cols' ! i)]) ! j)" "0 < co_prio (cols ! j)" for k j
  proof -
    have ne: "j \<noteq> i" using kj(4) i by auto
    then have vis: "column_visible (cols' ! j)" using kj(4) by simp
    show ?thesis
    proof (cases "k = i")
      case True
      then show ?thesis using prio[OF kj(2) vis kj(5)] by simp
    next
      case False
      then show ?thesis using assms(1) kj vis by (simp add: shrunk_def)
    qed
  qed
  ultimately show ?thesis using len by (simp add: shrunk_def)
qed

lemma shrunk_shrink: "shrunk cols (shrink w cols)"
  by (rule shrink_invariant) (auto simp: shrunk_step, simp add: shrunk_def)

text \<open>What the columns that are never hidden need at least.\<close>

definition fixed_need :: "column list \<Rightarrow> int" where
  "fixed_need cols = sum_list (map column_need (filter (\<lambda>c. co_prio c \<le> 0) cols))"

lemma sum_list_nth: "sum_list (map f xs) = (\<Sum>i < length xs. f (xs ! i))" for f :: "'a \<Rightarrow> int"
  by (simp add: sum_list_sum_nth atLeast0LessThan)

lemma need_shrink:
  assumes "fixed_need cols \<le> w"
  shows "need (shrink w cols) \<le> w"
proof (rule ccontr)
  let ?r = "shrink w cols"
  assume over: "\<not> need ?r \<le> w"
  then have none: "find_drop ?r = None" using shrink_enough by blast
  note sh = shrunk_shrink[of cols w]
  have one: "column_need (?r ! i) = (if co_prio (cols ! i) \<le> 0 then column_need (cols ! i) else 0)" if i: "i < length cols" for i
  proof (cases "co_prio (cols ! i) \<le> 0")
    case True
    then have "?r ! i = cols ! i" using sh i by (auto simp: shrunk_def)
    then show ?thesis using True by simp
  next
    case False
    have "co_prio (?r ! i) = co_prio (cols ! i)" using sh i by (auto simp: shrunk_def hide_def)
    then have "\<not> column_visible (?r ! i)" using find_drop_least[of i ?r] none sh i False by (auto simp: shrunk_def)
    then show ?thesis using False by (auto simp: column_visible_def column_need_def)
  qed
  have len: "length ?r = length cols" using sh by (simp add: shrunk_def)
  have "need ?r = (\<Sum>i < length cols. if co_prio (cols ! i) \<le> 0 then column_need (cols ! i) else 0)"
    unfolding need_def sum_list_nth len by (rule sum.cong) (simp_all add: one)
  also have "\<dots> = sum_list (map (\<lambda>c. if co_prio c \<le> 0 then column_need c else 0) cols)" unfolding sum_list_nth ..
  also have "\<dots> = fixed_need cols" unfolding fixed_need_def by (induction cols) simp_all
  finally show False using over assms by simp
qed

text \<open>One round of the loop, and the loop with a bound on its rounds.\<close>

fun shrink_rounds :: "nat \<Rightarrow> int \<Rightarrow> column list \<Rightarrow> column list option" where
  "shrink_rounds 0 w cols = None"
| "shrink_rounds (Suc n) w cols =
     (if w < need cols
      then (case find_drop cols of None \<Rightarrow> Some cols | Some i \<Rightarrow> shrink_rounds n w (cols[i := hide (cols ! i)]))
      else Some cols)"

lemma shrink_rounds_enough: "shown cols < n \<Longrightarrow> shrink_rounds n w cols = Some (shrink w cols)"
proof (induction n w cols rule: shrink_rounds.induct)
  case (2 n w cols)
  show ?case
  proof (cases "find_drop cols")
    case (Some i)
    then have "shown (cols[i := hide (cols ! i)]) < shown cols" using shown_hide find_drop_Some[OF Some] by simp
    then have "shown (cols[i := hide (cols ! i)]) < n" using 2(2) by simp
    then show ?thesis using 2(1) Some by (subst shrink.simps) simp
  qed (subst shrink.simps, simp)
qed simp

section \<open>The width of a table\<close>

definition column_ok :: "column \<Rightarrow> bool" where
  "column_ok c \<longleftrightarrow> 0 \<le> co_width c \<and> 0 \<le> co_flex c \<and> 0 \<le> co_max c \<and> (0 < co_flex c \<longrightarrow> 0 \<le> co_min c \<and> (0 < co_max c \<longrightarrow> co_min c \<le> co_max c))"

definition row_width :: "column list \<Rightarrow> int" where
  "row_width cols = sum_list (map (\<lambda>c. if co_width c = 0 then 0 else co_width c + 1) cols)"

text \<open>While cells are handed out, a column costs its width and a separator, also when it may still grow from nothing.\<close>

definition cost :: "column \<Rightarrow> int" where
  "cost c = (if 0 < co_flex c \<or> 0 < co_width c then co_width c + 1 else 0)"

definition growing :: "column \<Rightarrow> bool" where
  "growing c \<longleftrightarrow> co_flex c \<noteq> 0 \<and> \<not> (0 < co_max c \<and> co_max c \<le> co_width c)"

definition width_ok :: "column \<Rightarrow> bool" where
  "width_ok c \<longleftrightarrow> 0 \<le> co_width c \<and> 0 \<le> co_flex c \<and> 0 \<le> co_max c \<and> (0 < co_flex c \<and> 0 < co_max c \<longrightarrow> co_width c \<le> co_max c)"

lemma sdiv_pos: "0 \<le> a \<Longrightarrow> 0 < b \<Longrightarrow> a sdiv b = a div (b :: int)"
  by (cases "a = 0") (simp_all add: signed_divide_int_def)

lemma grown_bounds:
  assumes "width_ok c" and "0 < spare" and "0 < weights"
  shows "0 \<le> grown spare weights c" and "grown spare weights c * weights \<le> spare * (if growing c then co_flex c else 0)"
proof -
  have d: "spare * co_flex c div weights * weights \<le> spare * co_flex c"
    using minus_mod_eq_div_mult[of "spare * co_flex c" weights] pos_mod_sign[OF assms(3), of "spare * co_flex c"] by linarith
  have q: "0 \<le> spare * co_flex c div weights" using assms by (simp add: width_ok_def pos_imp_zdiv_nonneg_iff)
  have sd: "(spare * co_flex c) sdiv weights = spare * co_flex c div weights"
    using assms by (intro sdiv_pos) (simp_all add: width_ok_def)
  show "0 \<le> grown spare weights c" using q assms by (auto simp: grown_def Let_def sd width_ok_def)
  have "grown spare weights c \<le> (if growing c then spare * co_flex c div weights else 0)"
    by (auto simp: grown_def growing_def Let_def sd)
  then have "grown spare weights c * weights \<le> (if growing c then spare * co_flex c div weights else 0) * weights"
    using assms(3) by (simp add: mult_right_mono)
  then show "grown spare weights c * weights \<le> spare * (if growing c then co_flex c else 0)"
    using d by (auto split: if_splits)
qed

lemma sum_grown:
  assumes "list_all width_ok cols" and "0 < spare" and "0 < weights" and "sum_list (map co_flex (filter growing cols)) \<le> weights"
  shows "0 \<le> sum_list (map (grown spare weights) cols)" and "sum_list (map (grown spare weights) cols) \<le> spare"
proof -
  show "0 \<le> sum_list (map (grown spare weights) cols)"
    using assms(1) by (induction cols) (auto simp: grown_bounds(1)[OF _ assms(2,3)])
  have "sum_list (map (grown spare weights) cols) * weights \<le> spare * sum_list (map co_flex (filter growing cols))"
    using assms(1)
  proof (induction cols)
    case (Cons c cols)
    then show ?case using grown_bounds(2)[of c spare weights, OF _ assms(2,3)] by (auto simp: algebra_simps)
  qed simp
  also have "\<dots> \<le> spare * weights" using assms(2,4) by (simp add: mult_left_mono)
  finally show "sum_list (map (grown spare weights) cols) \<le> spare" using assms(3) by simp
qed

lemma grow_ok: "width_ok c \<Longrightarrow> 0 < spare \<Longrightarrow> 0 < weights \<Longrightarrow> width_ok (grow spare weights c)"
  using grown_bounds(1)[of c spare weights] by (auto simp: width_ok_def grow_def grown_def Let_def)

lemma cost_grow: "width_ok c \<Longrightarrow> cost (grow spare weights c) = cost c + grown spare weights c"
  by (auto simp: cost_def grow_def grown_def width_ok_def)

lemma next_weights:
  assumes "list_all width_ok cols"
  shows "sum_list (map co_flex (filter growing (map (grow spare weights) cols))) \<le> sum_list (map (next_weight spare weights) cols)"
  using assms
proof (induction cols)
  case (Cons c cols)
  moreover have "(if growing (grow spare weights c) then co_flex c else 0) \<le> next_weight spare weights c"
    using Cons.prems by (auto simp: growing_def grow_def next_weight_def grown_def width_ok_def)
  ultimately show ?case by (auto simp: grow_def split: if_splits)
qed simp

lemma hand_out_cost:
  assumes "list_all width_ok cols" and "0 \<le> spare" and "sum_list (map co_flex (filter growing cols)) \<le> weights"
  shows "list_all width_ok (hand_out n spare weights cols) \<and> sum_list (map cost (hand_out n spare weights cols)) \<le> sum_list (map cost cols) + spare"
  using assms
proof (induction n spare weights cols rule: hand_out.induct)
  case (2 n spare weights cols)
  let ?g = "map (grow spare weights) cols" and ?given = "sum_list (map (grown spare weights) cols)"
  show ?case
  proof (cases "0 < spare \<and> 0 < weights")
    case True
    have ok: "list_all width_ok ?g" using "2.prems"(1) True grow_ok by (auto simp: list_all_iff)
    note sums = sum_grown[OF "2.prems"(1) _ _ "2.prems"(3)]
    have c: "sum_list (map cost ?g) = sum_list (map cost cols) + ?given"
      using "2.prems"(1) by (induction cols) (auto simp: cost_grow)
    show ?thesis
    proof (cases "?given = 0")
      case False
      with "2.IH"[OF True refl False ok] True sums next_weights[OF "2.prems"(1)] c show ?thesis by (simp add: Let_def)
    qed (use True ok c "2.prems"(2) in \<open>simp add: Let_def\<close>)
  next
    case False
    then have "hand_out (Suc n) spare weights cols = cols" by auto
    then show ?thesis using "2.prems" by simp
  qed
qed simp

lemma column_ok_hide: "column_ok c \<Longrightarrow> column_ok (hide c)"
  by (auto simp: column_ok_def hide_def)

lemma column_ok_shrink: "list_all column_ok cols \<Longrightarrow> list_all column_ok (shrink w cols)"
  by (rule shrink_invariant)
    (auto simp: list_all_length nth_list_update column_ok_hide dest: find_drop_Some)

lemma start_width_facts:
  assumes "column_ok c"
  shows "width_ok (start_width c)" "cost (start_width c) = column_need c" "co_flex (start_width c) = co_flex c"
  using assms by (auto simp: column_ok_def start_width_def width_ok_def cost_def column_need_def)

lemma filter_flex_le: "list_all (\<lambda>c. 0 \<le> co_flex c) cols \<Longrightarrow> sum_list (map co_flex (filter P cols)) \<le> sum_list (map co_flex cols)"
  by (induction cols) auto

lemma layout_width:
  assumes "list_all column_ok cols" and "fixed_need cols \<le> w"
  shows "row_width (layout cols w) \<le> w" and "list_all width_ok (layout cols w)"
proof -
  let ?s = "shrink w cols"
  note ok = column_ok_shrink[OF assms(1), of w]
  have start: "list_all width_ok (map start_width ?s)" using ok by (auto simp: list_all_iff start_width_facts)
  have costs: "sum_list (map cost (map start_width ?s)) = need ?s"
    using ok unfolding need_def map_map by (intro arg_cong[where f = sum_list] map_cong) (auto simp: list_all_iff start_width_facts)
  have flex: "sum_list (map co_flex (map start_width ?s)) = sum_list (map co_flex ?s)"
    using ok unfolding map_map by (intro arg_cong[where f = sum_list] map_cong) (auto simp: list_all_iff start_width_facts)
  have "list_all (\<lambda>c. 0 \<le> co_flex c) (map start_width ?s)" using start by (auto simp: list_all_iff width_ok_def)
  from filter_flex_le[OF this, of growing] flex
  have weights: "sum_list (map co_flex (filter growing (map start_width ?s))) \<le> sum_list (map co_flex ?s)" by simp
  have spare: "0 \<le> w - need ?s" using need_shrink[OF assms(2)] by simp
  note out = hand_out_cost[OF start spare weights, of 3]
  then show ok': "list_all width_ok (layout cols w)" by (simp add: layout_def Let_def)
  have "row_width cs \<le> sum_list (map cost cs)" if "list_all width_ok cs" for cs
    using that by (induction cs) (auto simp: row_width_def cost_def width_ok_def)
  from this[OF ok'] out costs show "row_width (layout cols w) \<le> w" by (simp add: layout_def Let_def)
qed

section \<open>Text in cells\<close>

text \<open>
  What is assumed of the terminal libraries, for the complete texts of one line (\<open>tx\<close>): widths
  add up, blanks are as wide as they are many, and a text cut to a width fits it.
\<close>

definition terminal_ok :: "terminal \<Rightarrow> (string \<Rightarrow> bool) \<Rightarrow> bool" where
  "terminal_ok t tx \<longleftrightarrow>
     (\<forall>a b. tx a \<longrightarrow> tx b \<longrightarrow> tx (a @ b) \<and> tm_Width t (a @ b) = tm_Width t a + tm_Width t b) \<and>
     (\<forall>n. tx (spaces n) \<and> tm_Width t (spaces n) = max n 0) \<and>
     (\<forall>s w. tx s \<longrightarrow> tx (tm_Truncate t s w ellipsis) \<and> (0 \<le> w \<longrightarrow> tm_Width t (tm_Truncate t s w ellipsis) \<le> w))"

lemma terminal_okD:
  assumes "terminal_ok t tx"
  shows "tx a \<Longrightarrow> tx b \<Longrightarrow> tx (a @ b)" "tx a \<Longrightarrow> tx b \<Longrightarrow> tm_Width t (a @ b) = tm_Width t a + tm_Width t b"
    "tx (spaces n)" "tm_Width t (spaces n) = max n 0"
    "tx s \<Longrightarrow> tx (tm_Truncate t s w ellipsis)" "tx s \<Longrightarrow> 0 \<le> w \<Longrightarrow> tm_Width t (tm_Truncate t s w ellipsis) \<le> w"
  using assms by (simp_all add: terminal_ok_def)

lemma spaces_simps [simp]: "n \<le> 0 \<Longrightarrow> spaces n = []" "spaces 1 = '' ''"
  by (simp_all add: spaces_def)

lemma empty_text:
  assumes "terminal_ok t tx"
  shows "tx []" "tm_Width t [] = 0" "tx '' ''" "tm_Width t '' '' = 1"
  using terminal_okD(3)[OF assms, of 0] terminal_okD(4)[OF assms, of 0] terminal_okD(3)[OF assms, of 1] terminal_okD(4)[OF assms, of 1]
  by simp_all

lemma fit_width:
  assumes "terminal_ok t tx" and "tx s"
  shows "tx (fit t s w)" "tm_Width t (fit t s w) = max w 0"
proof -
  let ?s = "tm_Truncate t s w ellipsis"
  note d = terminal_okD[OF assms(1)]
  have "tm_Width t (?s @ spaces n) = tm_Width t ?s + max n 0" for n using d(2)[OF d(5)[OF assms(2)] d(3)] d(4) by simp
  then show "tx (fit t s w)" "tm_Width t (fit t s w) = max w 0"
    using d(1)[OF d(5)[OF assms(2)] d(3)] d(5)[OF assms(2)] d(6)[OF assms(2), of w] empty_text[OF assms(1)]
    by (auto simp: fit_def Let_def)
qed

lemma fitRight_width:
  assumes "terminal_ok t tx" and "tx s"
  shows "tx (fitRight t s w)" "tm_Width t (fitRight t s w) = max w 0"
proof -
  let ?s = "tm_Truncate t s w ellipsis"
  note d = terminal_okD[OF assms(1)]
  have "tm_Width t (spaces n @ ?s) = max n 0 + tm_Width t ?s" for n using d(2)[OF d(3) d(5)[OF assms(2)]] d(4) by simp
  then show "tx (fitRight t s w)" "tm_Width t (fitRight t s w) = max w 0"
    using d(1)[OF d(3) d(5)[OF assms(2)]] d(5)[OF assms(2)] d(6)[OF assms(2), of w] empty_text[OF assms(1)]
    by (auto simp: fitRight_def Let_def)
qed

lemma renderRow_width:
  assumes "terminal_ok t tx" and "list_all tx cells" and "length cells = length cols" and "list_all width_ok cols"
  shows "tx (renderRow t cols cells) \<and> tm_Width t (renderRow t cols cells) = row_width cols"
  using assms(3,2,4)
proof (induction cells cols rule: list_induct2)
  case Nil
  then show ?case using empty_text[OF assms(1)] by (simp add: renderRow_def row_width_def)
next
  case (Cons s cells c cols)
  note d = terminal_okD[OF assms(1)] and e = empty_text[OF assms(1)]
  let ?f = "if co_right c then fitRight t s (co_width c) else fit t s (co_width c)"
  have f: "tx ?f" "tm_Width t ?f = max (co_width c) 0"
    using fit_width[OF assms(1)] fitRight_width[OF assms(1)] Cons.prems by auto
  have "tx (?f @ '' '')" "tm_Width t (?f @ '' '') = max (co_width c) 0 + 1"
    using d(1)[OF f(1) e(3)] d(2)[OF f(1) e(3)] f(2) e(4) by simp_all
  then have cell: "tx (render_cell t (c, s))"
    "tm_Width t (render_cell t (c, s)) = (if co_width c = 0 then 0 else co_width c + 1)"
    using e Cons.prems by (auto simp: render_cell_def width_ok_def)
  have rest: "tx (renderRow t cols cells)" "tm_Width t (renderRow t cols cells) = row_width cols" using Cons by simp_all
  have "renderRow t (c # cols) (s # cells) = render_cell t (c, s) @ renderRow t cols cells" by (simp add: renderRow_def)
  then show ?case using d(1)[OF cell(1) rest(1)] d(2)[OF cell(1) rest(1)] cell(2) rest(2) by (simp add: row_width_def)
qed

end
