(* ===== verification/Tui.thy ===== *)
theory Tui
  imports Tui_Layout Probes "HOL-Library.Sorting_Algorithms"
begin

text \<open>
  \<open>internal/tui/model.go\<close>: the state of the terminal interface and what messages and keys do
  to it. What the interface reads is an argument of every message.
\<close>

section \<open>State\<close>

text \<open>The sources, with the order of the range loops behind them. A nil function is \<open>None\<close>.\<close>

record Sources =
  so_Store :: DomainStore
  so_Alerts :: Engine
  so_Config :: Config
  so_Probes :: "ProbeStatus list option"
  so_EBPF :: "(bool \<times> string) option"
  so_Kmsg :: "string option"
  so_Libvirt :: "string option"
  so_Log :: LogRingBuffer
  so_now :: gtime
  so_order :: "string range_order"

datatype tui_screen = scrDashboard | scrDetail | scrAlerts | scrStatus | scrLog

datatype sortKey = SortName | SortCPU | SortMem | SortNet | SortDisk | SortAlerts

fun sortNames :: "sortKey \<Rightarrow> string" where
  "sortNames SortName = ''name''"
| "sortNames SortCPU = ''cpu''"
| "sortNames SortMem = ''mem''"
| "sortNames SortNet = ''net''"
| "sortNames SortDisk = ''disk''"
| "sortNames SortAlerts = ''alerts''"

fun next_sort :: "sortKey \<Rightarrow> sortKey" where
  "next_sort SortName = SortCPU"
| "next_sort SortCPU = SortMem"
| "next_sort SortMem = SortNet"
| "next_sort SortNet = SortDisk"
| "next_sort SortDisk = SortAlerts"
| "next_sort SortAlerts = SortName"

record Model =
  u_width :: int
  u_height :: int
  u_screen :: tui_screen
  u_help :: bool
  u_now :: gtime
  u_host :: HostStat
  u_hostH :: HostHistory
  u_doms :: "DomainSnapshot list"
  u_visible :: "DomainSnapshot list"
  u_counts :: "(string, DomainCount) gomap"
  u_alerts :: "Alert list"
  u_cursor :: int
  u_selID :: string
  u_sort :: sortKey
  u_reverse :: bool
  u_filter :: string
  u_filtering :: bool
  u_tab :: int
  u_alertCursor :: int
  u_alertMin :: Severity
  u_scroll :: int

section \<open>The table of machines\<close>

definition matches_filter :: "string \<Rightarrow> DomainSnapshot \<Rightarrow> bool" where
  "matches_filter f d \<longleftrightarrow> f = [] \<or> Contains (ToLower (d_Name d)) f \<or> Contains (ToLower (d_Source d)) f"

fun view_key :: "sortKey \<Rightarrow> (string, DomainCount) gomap \<Rightarrow> DomainSnapshot \<Rightarrow> float64" where
  "view_key SortCPU counts d = CPUPercent d"
| "view_key SortMem counts d = float_of_uint64 (max (m_RssKiB (d_Mem d)) (m_BalloonKiB (d_Mem d)))"
| "view_key SortNet counts d = fst (NetRates d) + snd (NetRates d)"
| "view_key SortDisk counts d = fst (DiskRates d) + snd (DiskRates d)"
| "view_key SortAlerts counts d =
     (let c = mget \<lparr>dc_N = 0, dc_Worst = Info\<rparr> counts (d_ID d)
      in of_nat (sev_num (dc_Worst c)) * 1000000 + of_int (dc_N c))"
| "view_key SortName counts d = 0"

text \<open>Numeric keys put the biggest first.\<close>

definition view_order :: "Model \<Rightarrow> DomainSnapshot comparator" where
  "view_order m =
     (let c = (if u_sort m = SortName then key (\<lambda>d. ToLower (d_Name d)) default
               else reversed (key (view_key (u_sort m) (u_counts m)) default))
      in if u_reverse m then reversed c else c)"

definition view_of :: "Model \<Rightarrow> DomainSnapshot list" where
  "view_of m = Sorting_Algorithms.sort (view_order m) (filter (matches_filter (ToLower (u_filter m))) (u_doms m))"

definition syncSel :: "Model \<Rightarrow> Model" where
  "syncSel m =
     (if u_visible m = [] then m\<lparr>u_cursor := 0, u_selID := []\<rparr>
      else let c = min (max (u_cursor m) 0) (int (length (u_visible m)) - 1)
           in m\<lparr>u_cursor := c, u_selID := d_ID (u_visible m ! nat c)\<rparr>)"

definition find_cursor :: "string \<Rightarrow> DomainSnapshot list \<Rightarrow> int" where
  "find_cursor i ds = foldl (\<lambda>c (k, d). if d_ID d = i then int k else c) 0 (enumerate 0 ds)"

definition applyView :: "Model \<Rightarrow> Model" where
  "applyView m =
     (let m = m\<lparr>u_visible := view_of m\<rparr>
      in syncSel (m\<lparr>u_cursor := find_cursor (u_selID m) (u_visible m)\<rparr>))"

definition refresh :: "Sources \<Rightarrow> Model \<Rightarrow> Model" where
  "refresh src m =
     applyView (m\<lparr>u_now := so_now src, u_host := HostOf (so_Store src), u_hostH := StoreHostHistory (so_Store src),
       u_doms := Snapshot (so_order src) (so_Store src), u_counts := DomainCounts (so_order src) (so_order src) (so_Alerts src),
       u_alerts := Recent (so_order src) 0 (so_Alerts src) (so_Alerts src)\<rparr>)"

definition NewTui :: "Sources \<Rightarrow> string \<Rightarrow> Model" where
  "NewTui src flt =
     refresh src \<lparr>u_width = 120, u_height = 40, u_screen = scrDashboard, u_help = False, u_now = 0, u_host = zero_host,
       u_hostH = \<lparr>hoh_CPU = [], hoh_Mem = []\<rparr>, u_doms = [], u_visible = [], u_counts = [], u_alerts = [], u_cursor = 0, u_selID = [],
       u_sort = SortName, u_reverse = False, u_filter = flt, u_filtering = False, u_tab = 0, u_alertCursor = 0, u_alertMin = Info, u_scroll = 0\<rparr>"

definition selected :: "Model \<Rightarrow> DomainSnapshot option" where
  "selected m = List.find (\<lambda>d. d_ID d = u_selID m) (u_doms m)"

definition detailTabs :: "Model \<Rightarrow> string list" where
  "detailTabs m =
     [''Overview'', ''CPU'', ''Memory'', ''Network'', ''Disk'', ''KVM'', ''Alerts''] @
     (case selected m of Some d \<Rightarrow> if d_Migration d \<noteq> None then [''Migration''] else [] | None \<Rightarrow> [])"

definition filteredAlerts :: "Model \<Rightarrow> Alert list" where
  "filteredAlerts m = filter (\<lambda>a. u_alertMin m \<le> a_Severity a) (u_alerts m)"

definition domainAlerts :: "string \<Rightarrow> Model \<Rightarrow> Alert list" where
  "domainAlerts i m = filter (\<lambda>a. a_DomainID a = i) (u_alerts m)"

section \<open>Keys\<close>

datatype tea_cmd = NoCmd | Quit | NextTick duration

datatype tea_msg = WindowSizeMsg int int | TickMsg | KeyPressMsg string | MouseWheelUp | MouseWheelDown | OtherMsg

definition tui_back :: "Model \<Rightarrow> Model" where
  "tui_back m = m\<lparr>u_screen := scrDashboard, u_scroll := 0\<rparr>"

definition tui_open :: "tui_screen \<Rightarrow> Model \<Rightarrow> Model" where
  "tui_open s m = (if u_screen m = s then tui_back m else m\<lparr>u_screen := s, u_scroll := 0, u_alertCursor := 0\<rparr>)"

definition pageSize :: "Model \<Rightarrow> int" where
  "pageSize m = max (u_height m sdiv 2) 1"

definition move :: "int \<Rightarrow> Model \<Rightarrow> Model" where
  "move n m =
     (case u_screen m of
        scrDashboard \<Rightarrow> syncSel (m\<lparr>u_cursor := u_cursor m + n\<rparr>)
      | scrAlerts \<Rightarrow> m\<lparr>u_alertCursor := min (max (u_alertCursor m + n) 0) (max (int (length (filteredAlerts m)) - 1) 0)\<rparr>
      | _ \<Rightarrow> m\<lparr>u_scroll := max (u_scroll m + n) 0\<rparr>)"

text \<open>Of a text, the runes; a byte that continues one is in \<open>0x80..0xBF\<close>.\<close>

definition rune_start :: "char \<Rightarrow> bool" where
  "rune_start c \<longleftrightarrow> \<not> (0x80 \<le> (of_char c :: nat) \<and> (of_char c :: nat) < 0xC0)"

definition rune_count :: "string \<Rightarrow> nat" where
  "rune_count s = length (filter rune_start s)"

definition drop_last_rune :: "string \<Rightarrow> string" where
  "drop_last_rune s = rev (tl (dropWhile (\<lambda>c. \<not> rune_start c) (rev s)))"

definition filterKey :: "string \<Rightarrow> Model \<Rightarrow> Model" where
  "filterKey k m =
     applyView
       (if k = ''enter'' then m\<lparr>u_filtering := False\<rparr>
        else if k = ''esc'' then m\<lparr>u_filtering := False, u_filter := []\<rparr>
        else if k = ''backspace'' then (if u_filter m \<noteq> [] then m\<lparr>u_filter := drop_last_rune (u_filter m)\<rparr> else m)
        else if k = ''space'' then m\<lparr>u_filter := u_filter m @ '' ''\<rparr>
        else if rune_count k = 1 then m\<lparr>u_filter := u_filter m @ k\<rparr>
        else m)"

text \<open>The keys of every screen; quitting ends the handler.\<close>

definition global_key :: "string \<Rightarrow> Model \<Rightarrow> Model" where
  "global_key k m =
     (if k = ''q'' then tui_back m
      else if k \<in> set [''esc'', ''backspace''] then
        tui_back (if u_screen m = scrDashboard \<and> u_filter m \<noteq> [] then applyView (m\<lparr>u_filter := []\<rparr>) else m)
      else if k = ''?'' then m\<lparr>u_help := True\<rparr>
      else if k \<in> set [''up'', ''k''] then move (-1) m
      else if k \<in> set [''down'', ''j''] then move 1 m
      else if k \<in> set [''pgup'', ''ctrl+u''] then move (- pageSize m) m
      else if k \<in> set [''pgdown'', ''ctrl+d''] then move (pageSize m) m
      else if k \<in> set [''home'', ''g''] then move (- (2 ^ 30)) m
      else if k \<in> set [''end'', ''G''] then move (2 ^ 30) m
      else if k = ''a'' then tui_open scrAlerts m
      else if k = ''p'' then tui_open scrStatus m
      else if k = ''L'' then tui_open scrLog m
      else m)"

definition dashboard_key :: "string \<Rightarrow> Model \<Rightarrow> Model" where
  "dashboard_key k m =
     (if k \<in> set [''enter'', ''right'', ''l''] then (if u_selID m \<noteq> [] then m\<lparr>u_screen := scrDetail, u_tab := 0\<rparr> else m)
      else if k = ''/'' then m\<lparr>u_filtering := True\<rparr>
      else if k = ''s'' then applyView (m\<lparr>u_sort := next_sort (u_sort m)\<rparr>)
      else if k = ''r'' then applyView (m\<lparr>u_reverse := \<not> u_reverse m\<rparr>)
      else m)"

definition digit_tab :: "string \<Rightarrow> int option" where
  "digit_tab k = (case k of [c] \<Rightarrow> if 49 \<le> (of_char c :: nat) \<and> (of_char c :: nat) \<le> 57 then Some (int (of_char c) - 49) else None | _ \<Rightarrow> None)"

definition detail_key :: "string \<Rightarrow> Model \<Rightarrow> Model" where
  "detail_key k m =
     (let n = int (length (detailTabs m))
      in if k \<in> set [''right'', ''l'', ''tab''] then m\<lparr>u_tab := (u_tab m + 1) smod n\<rparr>
         else if k \<in> set [''left'', ''h'', ''shift+tab''] then m\<lparr>u_tab := (u_tab m + n - 1) smod n\<rparr>
         else case digit_tab k of
                Some i \<Rightarrow> if i < n then m\<lparr>u_tab := i\<rparr> else m
              | None \<Rightarrow> m)"

fun next_severity :: "Severity \<Rightarrow> Severity" where
  "next_severity Info = Warning"
| "next_severity Warning = Critical"
| "next_severity Critical = Info"

definition alerts_key :: "string \<Rightarrow> Model \<Rightarrow> Model" where
  "alerts_key k m =
     (if k = ''f'' then m\<lparr>u_alertMin := next_severity (u_alertMin m), u_alertCursor := 0\<rparr> else m)"

definition screen_key :: "string \<Rightarrow> Model \<Rightarrow> Model" where
  "screen_key k m =
     (case u_screen m of
        scrDashboard \<Rightarrow> dashboard_key k m
      | scrDetail \<Rightarrow> detail_key k m
      | scrAlerts \<Rightarrow> alerts_key k m
      | _ \<Rightarrow> m)"

definition key_press :: "string \<Rightarrow> Model \<Rightarrow> Model \<times> tea_cmd" where
  "key_press k m =
     (if k = ''ctrl+c'' then (m, Quit)
      else if u_filtering m then (filterKey k m, NoCmd)
      else if u_help m then (m\<lparr>u_help := False\<rparr>, NoCmd)
      else if k = ''q'' \<and> u_screen m = scrDashboard then (m, Quit)
      else (screen_key k (global_key k m), NoCmd))"

definition tick :: "Sources \<Rightarrow> tea_cmd" where
  "tick src = NextTick (cfg_Interval (so_Config src))"

definition Init :: "Sources \<Rightarrow> tea_cmd" where
  "Init src = tick src"

definition Update :: "Sources \<Rightarrow> tea_msg \<Rightarrow> Model \<Rightarrow> Model \<times> tea_cmd" where
  "Update src msg m =
     (case msg of
        WindowSizeMsg w h \<Rightarrow> (m\<lparr>u_width := w, u_height := h\<rparr>, NoCmd)
      | TickMsg \<Rightarrow> (refresh src m, tick src)
      | KeyPressMsg k \<Rightarrow> key_press k m
      | MouseWheelUp \<Rightarrow> (move (-1) m, NoCmd)
      | MouseWheelDown \<Rightarrow> (move 1 m, NoCmd)
      | OtherMsg \<Rightarrow> (m, NoCmd))"

section \<open>The selection\<close>

lemma find_cursor_loop:
  "foldl (\<lambda>c (k, d). if d_ID d = i then int k else c) c0 (enumerate n ds) =
    (case List.find (\<lambda>k. d_ID (ds ! k) = i) (rev [0..<length ds]) of Some k \<Rightarrow> int (n + k) | None \<Rightarrow> c0)"
proof (induction ds rule: rev_induct)
  case (snoc d ds)
  have "List.find (\<lambda>k. d_ID ((ds @ [d]) ! k) = i) (rev [0..<length ds]) = List.find (\<lambda>k. d_ID (ds ! k) = i) (rev [0..<length ds])"
    by (intro find_cong) (auto simp: nth_append)
  then show ?case using snoc by (simp add: enumerate_append_eq)
qed simp

lemma find_cursor_found:
  assumes "i \<in> d_ID ` set ds"
  shows "0 \<le> find_cursor i ds \<and> find_cursor i ds < int (length ds) \<and> d_ID (ds ! nat (find_cursor i ds)) = i"
proof -
  obtain k where k: "k < length ds" "d_ID (ds ! k) = i" using assms by (auto simp: in_set_conv_nth)
  then have "List.find (\<lambda>k. d_ID (ds ! k) = i) (rev [0..<length ds]) \<noteq> None" by (auto simp: find_None_iff)
  then obtain n where n: "List.find (\<lambda>k. d_ID (ds ! k) = i) (rev [0..<length ds]) = Some n" by blast
  then have "d_ID (ds ! n) = i \<and> n < length ds" by (auto simp: find_Some_iff rev_nth)
  then show ?thesis using n by (simp add: find_cursor_def find_cursor_loop)
qed

lemma find_cursor_missing: "i \<notin> d_ID ` set ds \<Longrightarrow> find_cursor i ds = 0"
proof -
  assume "i \<notin> d_ID ` set ds"
  then have "List.find (\<lambda>k. d_ID (ds ! k) = i) (rev [0..<length ds]) = None" unfolding find_None_iff using nth_mem by fastforce
  then show ?thesis by (simp add: find_cursor_def find_cursor_loop)
qed

definition sel_ok :: "Model \<Rightarrow> bool" where
  "sel_ok m \<longleftrightarrow>
     (if u_visible m = [] then u_cursor m = 0 \<and> u_selID m = []
      else 0 \<le> u_cursor m \<and> u_cursor m < int (length (u_visible m)) \<and> u_selID m = d_ID (u_visible m ! nat (u_cursor m)))"

definition ui_ok :: "Model \<Rightarrow> bool" where
  "ui_ok m \<longleftrightarrow> u_visible m = view_of m \<and> sel_ok m \<and> 0 \<le> u_scroll m \<and> 0 \<le> u_alertCursor m \<and> 0 \<le> u_tab m \<and> u_tab m < 8"

lemma sel_ok_syncSel: "sel_ok (syncSel m)"
proof (cases "u_visible m = []")
  case False
  then have "0 < int (length (u_visible m))" by simp
  then have "0 \<le> min (max (u_cursor m) 0) (int (length (u_visible m)) - 1) \<and>
      min (max (u_cursor m) 0) (int (length (u_visible m)) - 1) < int (length (u_visible m))" by linarith
  then show ?thesis using False by (simp add: sel_ok_def syncSel_def Let_def)
qed (simp add: sel_ok_def syncSel_def)

lemma syncSel_simps [simp]:
  "u_visible (syncSel m) = u_visible m" "u_doms (syncSel m) = u_doms m" "u_filter (syncSel m) = u_filter m" "u_sort (syncSel m) = u_sort m"
  "u_reverse (syncSel m) = u_reverse m" "u_counts (syncSel m) = u_counts m" "u_scroll (syncSel m) = u_scroll m"
  "u_alertCursor (syncSel m) = u_alertCursor m" "u_tab (syncSel m) = u_tab m" "u_screen (syncSel m) = u_screen m"
  by (simp_all add: syncSel_def Let_def)

lemma view_of_cong:
  "u_doms m = u_doms m' \<Longrightarrow> u_filter m = u_filter m' \<Longrightarrow> u_sort m = u_sort m' \<Longrightarrow> u_reverse m = u_reverse m' \<Longrightarrow>
   u_counts m = u_counts m' \<Longrightarrow> view_of m = view_of m'"
  by (simp add: view_of_def view_order_def)

lemma applyView_simps [simp]:
  "u_visible (applyView m) = view_of m" "u_doms (applyView m) = u_doms m" "u_filter (applyView m) = u_filter m" "u_sort (applyView m) = u_sort m"
  "u_reverse (applyView m) = u_reverse m" "u_counts (applyView m) = u_counts m" "u_scroll (applyView m) = u_scroll m"
  "u_alertCursor (applyView m) = u_alertCursor m" "u_tab (applyView m) = u_tab m" "u_screen (applyView m) = u_screen m"
  by (simp_all add: applyView_def Let_def)

lemma applyView_ok: "0 \<le> u_scroll m \<Longrightarrow> 0 \<le> u_alertCursor m \<Longrightarrow> 0 \<le> u_tab m \<Longrightarrow> u_tab m < 8 \<Longrightarrow> ui_ok (applyView m)"
proof -
  have "view_of (applyView m) = view_of m" by (rule view_of_cong) simp_all
  moreover have "sel_ok (applyView m)" by (simp add: applyView_def Let_def sel_ok_syncSel)
  ultimately show "0 \<le> u_scroll m \<Longrightarrow> 0 \<le> u_alertCursor m \<Longrightarrow> 0 \<le> u_tab m \<Longrightarrow> u_tab m < 8 \<Longrightarrow> ui_ok (applyView m)"
    by (simp add: ui_ok_def)
qed

text \<open>The selection stays on the machine as long as it is in the table, else it goes to the first row.\<close>

lemma applyView_selID:
  "u_selID (applyView m) =
    (if view_of m = [] then [] else if u_selID m \<in> d_ID ` set (view_of m) then u_selID m else d_ID (hd (view_of m)))"
proof (cases "view_of m = []")
  case False
  let ?c = "find_cursor (u_selID m) (view_of m)"
  have sel: "u_selID (applyView m) = d_ID (view_of m ! nat (min (max ?c 0) (int (length (view_of m)) - 1)))"
    using False by (simp add: applyView_def syncSel_def Let_def)
  show ?thesis
  proof (cases "u_selID m \<in> d_ID ` set (view_of m)")
    case True
    note f = find_cursor_found[OF True]
    then have "min (max ?c 0) (int (length (view_of m)) - 1) = ?c" by simp
    then show ?thesis using sel f True False by simp
  next
    case missing: False
    have "0 < length (view_of m)" using False by simp
    then show ?thesis using sel find_cursor_missing[OF missing] missing False by (simp add: hd_conv_nth)
  qed
qed (simp add: applyView_def syncSel_def Let_def)

section \<open>Every message keeps the state well formed\<close>

lemma ui_ok_frame:
  assumes "ui_ok m" and "u_visible m' = u_visible m" and "u_doms m' = u_doms m" and "u_filter m' = u_filter m" and "u_sort m' = u_sort m"
    and "u_reverse m' = u_reverse m" and "u_counts m' = u_counts m" and "u_cursor m' = u_cursor m" and "u_selID m' = u_selID m"
    and "0 \<le> u_scroll m'" and "0 \<le> u_alertCursor m'" and "0 \<le> u_tab m'" and "u_tab m' < 8"
  shows "ui_ok m'"
proof -
  have "view_of m' = view_of m" using assms by (intro view_of_cong) simp_all
  moreover have "sel_ok m' = sel_ok m" using assms by (simp add: sel_ok_def)
  ultimately show ?thesis using assms unfolding ui_ok_def by simp
qed

lemma ui_okD:
  assumes "ui_ok m"
  shows "u_visible m = view_of m" "sel_ok m" "0 \<le> u_scroll m" "0 \<le> u_alertCursor m" "0 \<le> u_tab m" "u_tab m < 8"
  using assms by (simp_all add: ui_ok_def)

lemma ui_ok_syncSel: "ui_ok m \<Longrightarrow> ui_ok (syncSel (m\<lparr>u_cursor := c\<rparr>))"
proof -
  assume m: "ui_ok m"
  have "view_of (syncSel (m\<lparr>u_cursor := c\<rparr>)) = view_of m" by (rule view_of_cong) simp_all
  then show ?thesis using ui_okD[OF m] sel_ok_syncSel by (simp add: ui_ok_def)
qed

lemma ui_ok_move: "ui_ok m \<Longrightarrow> ui_ok (move n m)"
proof -
  assume m: "ui_ok m"
  show ?thesis
  proof (cases "u_screen m")
    case scrDashboard
    then show ?thesis using ui_ok_syncSel[OF m] by (simp add: move_def)
  qed (use ui_okD[OF m] in \<open>auto simp: move_def intro!: ui_ok_frame[OF m]\<close>)
qed

lemma ui_ok_back: "ui_ok m \<Longrightarrow> ui_ok (tui_back m)"
proof -
  assume m: "ui_ok m"
  show ?thesis unfolding tui_back_def using ui_okD[OF m] by (intro ui_ok_frame[OF m]) simp_all
qed

lemma ui_ok_open: "ui_ok m \<Longrightarrow> ui_ok (tui_open s m)"
proof -
  assume m: "ui_ok m"
  have "ui_ok (m\<lparr>u_screen := s, u_scroll := 0, u_alertCursor := 0\<rparr>)" using ui_okD[OF m] by (intro ui_ok_frame[OF m]) simp_all
  then show ?thesis using ui_ok_back[OF m] by (simp add: tui_open_def)
qed

lemma ui_ok_applyView: "ui_ok m \<Longrightarrow> u_scroll m' = u_scroll m \<Longrightarrow> u_alertCursor m' = u_alertCursor m \<Longrightarrow> u_tab m' = u_tab m \<Longrightarrow> ui_ok (applyView m')"
  using ui_okD[of m] by (intro applyView_ok) simp_all

lemma ui_ok_filterKey: "ui_ok m \<Longrightarrow> ui_ok (filterKey k m)"
  unfolding filterKey_def by (rule ui_ok_applyView[of m]) simp_all

lemma ui_ok_global: "ui_ok m \<Longrightarrow> ui_ok (global_key k m)"
proof -
  assume m: "ui_ok m"
  have "ui_ok (applyView (m\<lparr>u_filter := []\<rparr>))" using ui_ok_applyView[OF m] by simp
  moreover have "ui_ok (m\<lparr>u_help := True\<rparr>)" using ui_ok_frame[OF m] ui_okD[OF m] by simp
  ultimately show ?thesis using m ui_ok_move ui_ok_back ui_ok_open unfolding global_key_def by simp
qed

lemma ui_ok_dashboard: "ui_ok m \<Longrightarrow> ui_ok (dashboard_key k m)"
proof -
  assume m: "ui_ok m"
  have "ui_ok (applyView (m\<lparr>u_sort := s\<rparr>))" "ui_ok (applyView (m\<lparr>u_reverse := r\<rparr>))" for s r
    using ui_ok_applyView[OF m] by simp_all
  moreover have "ui_ok (m\<lparr>u_screen := scrDetail, u_tab := 0\<rparr>)" "ui_ok (m\<lparr>u_filtering := True\<rparr>)"
    using ui_ok_frame[OF m] ui_okD[OF m] by simp_all
  ultimately show ?thesis using m unfolding dashboard_key_def by simp
qed

lemma length_detailTabs: "length (detailTabs m) \<in> {7, 8}"
  by (simp add: detailTabs_def split: option.splits)

lemma ui_ok_detail: "ui_ok m \<Longrightarrow> ui_ok (detail_key k m)"
proof -
  assume m: "ui_ok m"
  let ?n = "int (length (detailTabs m))"
  have n: "?n = 7 \<or> ?n = 8" using length_detailTabs[of m] by auto
  have smod: "0 \<le> a smod ?n \<and> a smod ?n < 8" if "0 \<le> a" for a
    using n that by (auto simp: signed_modulo_int_def signed_divide_int_def sgn_if)
  have "ui_ok (m\<lparr>u_tab := (u_tab m + 1) smod ?n\<rparr>)" "ui_ok (m\<lparr>u_tab := (u_tab m + ?n - 1) smod ?n\<rparr>)"
    using smod[of "u_tab m + 1"] smod[of "u_tab m + ?n - 1"] n ui_okD[OF m] by (auto intro!: ui_ok_frame[OF m])
  moreover have "ui_ok (m\<lparr>u_tab := i\<rparr>)" if "digit_tab k = Some i" "i < ?n" for i
    using that n ui_okD[OF m] by (intro ui_ok_frame[OF m]) (auto simp: digit_tab_def split: list.splits if_splits)
  ultimately show ?thesis using m unfolding detail_key_def Let_def by (simp split: option.splits)
qed

lemma ui_ok_key: "ui_ok m \<Longrightarrow> ui_ok (fst (key_press k m))"
proof -
  assume m: "ui_ok m"
  have "ui_ok (screen_key k m')" if m': "ui_ok m'" for m'
  proof -
    have "ui_ok (alerts_key k m')" using m' ui_okD[OF m'] by (auto simp: alerts_key_def intro!: ui_ok_frame[OF m'])
    then show ?thesis using m' ui_ok_dashboard ui_ok_detail by (cases "u_screen m'") (simp_all add: screen_key_def)
  qed
  moreover have "ui_ok (m\<lparr>u_help := False\<rparr>)" using ui_ok_frame[OF m] ui_okD[OF m] by simp
  ultimately show ?thesis using m ui_ok_filterKey ui_ok_global by (simp add: key_press_def)
qed

lemma ui_ok_refresh: "0 \<le> u_scroll m \<Longrightarrow> 0 \<le> u_alertCursor m \<Longrightarrow> 0 \<le> u_tab m \<Longrightarrow> u_tab m < 8 \<Longrightarrow> ui_ok (refresh src m)"
  unfolding refresh_def by (rule applyView_ok) simp_all

lemma ui_ok_NewTui: "ui_ok (NewTui src flt)"
  unfolding NewTui_def by (rule ui_ok_refresh) simp_all

lemma ui_ok_Update: "ui_ok m \<Longrightarrow> ui_ok (fst (Update src msg m))"
proof -
  assume m: "ui_ok m"
  have "ui_ok (m\<lparr>u_width := w, u_height := h\<rparr>)" for w h using ui_ok_frame[OF m] ui_okD[OF m] by simp
  then show ?thesis using m ui_okD[OF m] ui_ok_key ui_ok_move ui_ok_refresh
    by (cases msg) (simp_all add: Update_def)
qed

end
