(* ===== verification/Tui_Views.thy ===== *)
theory Tui_Views
  imports Tui "HOL-Library.Monad_Syntax"
begin

text \<open>
  \<open>internal/tui/dashboard.go\<close> and \<open>internal/tui/views.go\<close>: the screens as text. A slice out of
  range or a negative repetition panics; such a view is \<open>None\<close>. Drawing a screen also puts its
  cursor or scroll position back into range.
\<close>

section \<open>Shared pieces\<close>

abbreviation newline :: string where
  "newline \<equiv> [CHR 0x0A]"

definition pad_left :: "nat \<Rightarrow> string \<Rightarrow> string" where
  "pad_left n s = replicate (n - length s) (CHR '' '') @ s"

text \<open>\<open>time.Duration.String\<close>.\<close>

definition frac_string :: "nat \<Rightarrow> nat \<Rightarrow> string" where
  "frac_string p v =
     (let ds = show_nat (v mod 10 ^ p);
          ds = TrimRight (replicate (p - length ds) (CHR ''0'') @ ds) (CHR ''0'')
      in if ds = [] then [] else ''.'' @ ds)"

definition DurationString :: "duration \<Rightarrow> string" where
  "DurationString d =
     (let u = nat \<bar>d\<bar>;
          body = (if u = 0 then ''0s''
                  else if u < 1000 then show_nat u @ ''ns''
                  else if u < 10 ^ 6 then show_nat (u div 1000) @ frac_string 3 u @ micro @ ''s''
                  else if u < 10 ^ 9 then show_nat (u div 10 ^ 6) @ frac_string 6 u @ ''ms''
                  else let secs = u div 10 ^ 9; mins = secs div 60; hours = mins div 60
                       in (if 0 < hours then show_nat hours @ ''h'' else []) @ (if 0 < mins then show_nat (mins mod 60) @ ''m'' else []) @
                          show_nat (secs mod 60) @ frac_string 9 u @ ''s'')
      in if d < 0 then CHR ''-'' # body else body)"

definition wrap :: "terminal \<Rightarrow> string \<Rightarrow> int \<Rightarrow> string list" where
  "wrap t s w = Split (tm_Render t ((fg [])\<lparr>sy_Width := w\<rparr>) s) (CHR 0x0A)"

definition title_section :: "terminal \<Rightarrow> string \<Rightarrow> string" where
  "title_section t s = tm_Render t stTitle s"

text \<open>A panel of total width \<open>w\<close>.\<close>

definition box_top :: "terminal \<Rightarrow> int \<Rightarrow> string \<Rightarrow> string \<Rightarrow> style \<Rightarrow> string" where
  "box_top t w left right bs =
     (let b = tm_RoundedBorder t;
          inner = w - 2;
          l = tm_Render t stTitle (tm_Truncate t left (max (inner - 4) 0) (ellipsis @ '' ''));
          r = tm_Render t stMuted right;
          fill = inner - 1 - tm_Width t l - tm_Width t r - 1;
          (r, fill) = (if fill < 0 then ([], max (inner - 2 - tm_Width t l) 0) else (r, fill));
          line = tm_Render t bs (bo_TopLeft b @ bo_Top b) @ l @ tm_Render t bs (Repeat (bo_Top b) fill) @ r @
                 tm_Render t bs (bo_Top b @ bo_TopRight b)
      in if w < tm_Width t line then fit t line w else line)"

definition box :: "terminal \<Rightarrow> string \<Rightarrow> int \<Rightarrow> string \<Rightarrow> string \<Rightarrow> bool \<Rightarrow> string option" where
  "box t content w left right hot =
     (let b = tm_RoundedBorder t;
          bs = fg (if hot then colAccent else colBorder);
          inner = w - 2
      in if inner < 0 then None
         else Some (Join ([box_top t w left right bs] @
                map (\<lambda>line. tm_Render t bs (bo_Left b) @ '' '' @ fit t line (inner - 2) @ '' '' @ tm_Render t bs (bo_Right b)) (Split content (CHR 0x0A)) @
                [tm_Render t bs (bo_BottomLeft b @ Repeat (bo_Bottom b) inner @ bo_BottomRight b)]) newline))"

text \<open>A slice of a list; out of range it panics.\<close>

definition go_slice :: "'a list \<Rightarrow> int \<Rightarrow> int \<Rightarrow> 'a list option" where
  "go_slice xs a b = (if 0 \<le> a \<and> a \<le> b \<and> b \<le> int (length xs) then Some (take (nat (b - a)) (drop (nat a) xs)) else None)"

definition pad_lines :: "string list \<Rightarrow> int \<Rightarrow> string list" where
  "pad_lines lines rows = lines @ replicate (nat rows - length lines) []"

definition scrollLines :: "string list \<Rightarrow> int \<Rightarrow> int \<Rightarrow> (int \<times> string list) option" where
  "scrollLines lines scroll rows =
     (let scroll = min scroll (max (int (length lines) - rows) 0)
      in do {
           lines \<leftarrow> go_slice lines scroll (int (length lines));
           lines \<leftarrow> (if rows < int (length lines) then go_slice lines 0 rows else Some lines);
           Some (scroll, pad_lines lines rows)
         })"

text \<open>Key hints in the order of their importance; the last one is always kept.\<close>

definition hint :: "terminal \<Rightarrow> string \<times> string \<Rightarrow> string" where
  "hint t k = tm_Render t stKey (fst k) @ '' '' @ tm_Render t stMuted (snd k)"

fun footer_loop :: "terminal \<Rightarrow> int \<Rightarrow> string \<Rightarrow> string \<Rightarrow> string \<Rightarrow> (string \<times> string) list \<Rightarrow> string" where
  "footer_loop t w sep lst out [] = out"
| "footer_loop t w sep lst out (k # ks) =
     (if w < tm_Width t (out @ hint t k @ sep @ sep @ lst) then out
      else footer_loop t w sep lst (out @ hint t k @ sep) ks)"

definition viewFooter :: "terminal \<Rightarrow> Model \<Rightarrow> (string \<times> string) list \<Rightarrow> string" where
  "viewFooter t m keys =
     (if keys = [] then []
      else let sep = tm_Render t stDim (''  '' @ middle_dot @ ''  ''); lst = hint t (List.last keys)
           in fit t (footer_loop t (u_width m) sep lst '' '' (butlast keys) @ lst) (u_width m))"

section \<open>The header\<close>

definition badge :: "terminal \<Rightarrow> string \<Rightarrow> bool \<Rightarrow> string \<Rightarrow> string" where
  "badge t name ok det =
     (if ok then tm_Render t (fg colGreen) bullet else tm_Render t (fg colDim) circle) @ tm_Render t stMuted ('' '' @ name @ det)"

definition sourceBadges :: "terminal \<Rightarrow> Sources \<Rightarrow> string" where
  "sourceBadges t src =
     Join
       ((case so_EBPF src of
           None \<Rightarrow> []
         | Some (ok, _) \<Rightarrow>
             [badge t ''eBPF'' ok
                (case so_Probes src of
                   Some st \<Rightarrow> if ok then '' '' @ show_nat (length (filter (\<lambda>s. st_State s = Attached) st)) @ ''/'' @ show_nat (length st) else []
                 | None \<Rightarrow> [])]) @
        (case so_Kmsg src of None \<Rightarrow> [] | Some why \<Rightarrow> [badge t ''kmsg'' (why = []) []]) @
        (case so_Libvirt src of None \<Rightarrow> [] | Some sock \<Rightarrow> [badge t ''libvirt'' (sock \<noteq> []) []])) ''  ''"

definition disk_part :: "terminal \<Rightarrow> Level \<Rightarrow> HostDisk \<Rightarrow> string" where
  "disk_part t th d =
     tm_Render t stBase (hd_Name d) @ tm_Render t stMuted ('' '' @ fmtNum (hd_IOPS d) @ '' iops p99 '') @
     tm_Render t (fg (levelColor (hd_P99Us d) (Warn th) (Crit th))) (tui_fmtUs (hd_P99Us d)) @
     (if 0 < hd_Errors d then tm_Render t (fg colRed) ('' '' @ show_nat (unat (hd_Errors d)) @ '' err'') else [])"

definition diskLine :: "terminal \<Rightarrow> Sources \<Rightarrow> Model \<Rightarrow> string" where
  "diskLine t src m =
     (let parts = map (disk_part t (th_DiskP99Us (cfg_Thresholds (so_Config src))))
                    (filter (\<lambda>d. \<not> (hd_IOPS d < 1 / 2 \<and> hd_Errors d = 0)) (ho_Disks (u_host m)))
      in if parts = [] then []
         else fit t (tm_Render t stLabel '' DISK '' @ Join parts (tm_Render t stDim (''  '' @ rune3 0xE2 0x94 0x82 @ ''  ''))) (u_width m))"

definition psi_text :: "terminal \<Rightarrow> Thresholds \<Rightarrow> PSIStat \<Rightarrow> string" where
  "psi_text t th p =
     (let f = (\<lambda>name v l. tm_Render t stLabel name @ tm_Render t (fg (levelColor v (Warn l) (Crit l))) (show_fixed 1 v))
      in if psi_Available p
         then tm_Render t stLabel ''  PSI '' @ f ''cpu '' (psi_CPUSome p) (th_PSICPUSome th) @ f '' mem '' (psi_MemSome p) (th_PSIMemSome th) @
           f ''/'' (psi_MemFull p) (th_PSIMemFull th) @ f '' io '' (psi_IOSome p) (th_PSIIOFull th) @ f ''/'' (psi_IOFull p) (th_PSIIOFull th)
         else [])"

definition header_line1 :: "terminal \<Rightarrow> Sources \<Rightarrow> Model \<Rightarrow> string" where
  "header_line1 t src m =
     (let h = u_host m; w = u_width m;
          title = tm_Render t ((Bold (fg colBg))\<lparr>sy_Background := colAccent, sy_Padding := 1\<rparr>) ''hyperview'';
          status = sourceBadges t src @ (if 90 \<le> w then ''  '' @ tm_Render t stMuted (tm_Clock t (u_now m)) else []);
          ident = tm_Render t stBold ('' '' @ ho_Hostname h);
          dot = '' '' @ middle_dot @ '' '';
          details = tm_Render t stMuted (''  '' @ ho_Kernel h @ dot @ ho_Arch h @ dot @ show_int (ho_CPUs h) @ '' CPU '' @ middle_dot @ '' up '' @ fmtDuration (ho_Uptime h));
          ident = (if tm_Width t (title @ ident @ details @ status) + 2 \<le> w then ident @ details else ident)
      in tm_Render t ((fg [])\<lparr>sy_Background := colTitleBar, sy_Width := w\<rparr>) (spread t (title @ ident) (status @ '' '') w))"

definition load_text :: "terminal \<Rightarrow> HostStat \<Rightarrow> string" where
  "load_text t h =
     tm_Render t stLabel ''  LOAD '' @ tm_Render t stBase (show_fixed 2 (ho_Load1 h)) @
     (if 0 < ho_SwapTotalKiB h
      then let used = ho_SwapTotalKiB h - ho_SwapFreeKiB h
           in tm_Render t stLabel ''  SWAP '' @
              tm_Render t (fg (levelColor (float_of_uint64 used / float_of_uint64 (ho_SwapTotalKiB h) * 100) 25 60)) (fmtKiB used)
      else [])"

definition header_line2 :: "terminal \<Rightarrow> Sources \<Rightarrow> Model \<Rightarrow> string" where
  "header_line2 t src m =
     (let h = u_host m; w = u_width m;
          cpuC = levelColor (ho_CPUPercent h) 80 95;
          memPct = MemUsedPercent h;
          memC = levelColor memPct 85 95;
          load = load_text t h;
          psi = psi_text t (cfg_Thresholds (so_Config src)) (ho_PSI h);
          memTxt = '' '' @ fmtKiB (ho_MemTotalKiB h - ho_MemAvailKiB h) @ ''/'' @ fmtKiB (ho_MemTotalKiB h) @ '' '';
          fixedW = 2 * 12 + tm_Width t memTxt + tm_Width t load;
          psi = (if w - fixedW - tm_Width t psi < 2 * 8 then [] else psi);
          sparkW = min (max ((w - fixedW - tm_Width t psi) sdiv 2) 0) 30;
          sparkW = (if sparkW < 6 then 0 else sparkW);
          cpu = tm_Render t stLabel '' CPU '' @ tm_Render t (fg cpuC) (pad_left 5 (show_fixed 1 (ho_CPUPercent h)) @ ''%'') @
                (if 0 < sparkW then '' '' @ sparkline t (hoh_CPU (u_hostH m)) sparkW 100 cpuC else []);
          mem = tm_Render t stLabel ''  MEM '' @ tm_Render t (fg memC) (pad_left 5 (show_fixed 1 memPct) @ ''%'') @ tm_Render t stMuted memTxt @
                sparkline t (hoh_Mem (u_hostH m)) sparkW 100 memC
      in fit t (cpu @ mem @ load @ psi) w)"

definition viewHeader :: "terminal \<Rightarrow> Sources \<Rightarrow> Model \<Rightarrow> string" where
  "viewHeader t src m =
     (let disks = diskLine t src m
      in tm_JoinVertical t ([header_line1 t src m, header_line2 t src m] @ (if disks = [] then [] else [disks])))"

section \<open>The table of machines\<close>

definition mk_column :: "string \<Rightarrow> int \<Rightarrow> bool \<Rightarrow> int \<Rightarrow> int \<Rightarrow> int \<Rightarrow> int \<Rightarrow> column" where
  "mk_column title w right prio flex mn mx =
     \<lparr>co_title = title, co_width = w, co_right = right, co_prio = prio, co_flex = flex, co_min = mn, co_max = mx\<rparr>"

definition vm_table :: "column list" where
  "vm_table =
     [mk_column [] 2 False 0 0 0 0, mk_column ''NAME'' 0 False 0 4 10 40, mk_column ''SOURCE'' 8 False 1 0 0 0,
      mk_column ''STATE'' 0 False 0 6 8 16, mk_column ''vCPU'' 4 True 3 0 0 0, mk_column ''CPU'' 0 False 5 4 6 0,
      mk_column ''%'' 6 True 6 0 0 0, mk_column ''MEMORY'' 15 True 8 0 0 0,
      mk_column (''NET '' @ arrow_down @ ''/'' @ arrow_up) 17 True 4 0 0 0, mk_column ''DISK rd/wr'' 17 True 2 0 0 0,
      mk_column (rune3 0xE2 0x9A 0xA0) 4 True 0 0 0 0]"

definition vmColumns :: "int \<Rightarrow> column list" where
  "vmColumns w = layout vm_table w"

definition vm_state :: "DomainSnapshot \<Rightarrow> string" where
  "vm_state d = d_State d @ (if d_Reason d \<noteq> [] \<and> d_State d \<noteq> ''running'' then '' ('' @ d_Reason d @ '')'' else [])"

definition vm_cells :: "terminal \<Rightarrow> Sources \<Rightarrow> Model \<Rightarrow> column list \<Rightarrow> DomainSnapshot \<Rightarrow> bool \<Rightarrow> string list" where
  "vm_cells t src m cols d sel =
     (let cpu = CPUPercent d;
          nv = max (length (d_VCPUs d)) 1;
          cpuC = levelColor (cpu / of_nat nv) 80 95;
          used = m_RssKiB (d_Mem d);
          mem = (if 0 < used \<or> 0 < m_MaxKiB (d_Mem d)
                 then fmtKiB used @ tm_Render t stMuted (''/'' @ fmtKiB (max (m_MaxKiB (d_Mem d)) (m_BalloonKiB (d_Mem d)))) else en_dash);
          (rx, tx) = NetRates d;
          (rd, wr) = DiskRates d;
          alerts = (case map_of (u_counts m) (d_ID d) of
                      Some c \<Rightarrow> if 0 < dc_N c then tm_Render t (fg (severityColor (dc_Worst c))) (severityIcon (dc_Worst c) @ show_int (dc_N c)) else []
                    | None \<Rightarrow> []);
          running = Running d;
          n = show_nat (length (d_VCPUs d));
          stC = fg (stateColor (d_State d) (d_Reason d))
      in [(if sel then tm_Render t stAccent left_half else '' '') @ tm_Render t stC bullet,
          tm_Render t (if sel then Bold stAccent else stBold) (d_Name d),
          tm_Render t stMuted (d_Source d),
          tm_Render t stC (vm_state d),
          (if running then n else tm_Render t stDim n),
          (if running then sparkline t (dh_CPU (StoreHistory (d_ID d) (so_Store src))) (co_width (cols ! 5)) (of_nat nv * 100) cpuC else []),
          (if running then tm_Render t (fg cpuC) (show_fixed 1 cpu) else tm_Render t stDim en_dash),
          mem,
          (if running then tm_Render t (fg colRx) (fmtBytes rx) @ tm_Render t stMuted ''/'' @ tm_Render t (fg colTx) (fmtBytes tx) else tm_Render t stDim en_dash),
          (if running then tm_Render t stBase (fmtBytes rd) @ tm_Render t stMuted ''/'' @ tm_Render t stBase (fmtBytes wr) else tm_Render t stDim en_dash),
          alerts])"

definition vmRow :: "terminal \<Rightarrow> Sources \<Rightarrow> Model \<Rightarrow> column list \<Rightarrow> DomainSnapshot \<Rightarrow> bool \<Rightarrow> string" where
  "vmRow t src m cols d sel = renderRow t cols (vm_cells t src m cols d sel)"

text \<open>The rows of the window on the table, with their position.\<close>

definition vm_window :: "Model \<Rightarrow> int \<Rightarrow> (nat \<times> DomainSnapshot) list" where
  "vm_window m rows =
     (let start = (if rows \<le> u_cursor m then u_cursor m - rows + 1 else 0)
      in take (nat rows) (drop (nat start) (enumerate 0 (u_visible m))))"

definition viewVMTable :: "terminal \<Rightarrow> Sources \<Rightarrow> Model \<Rightarrow> int \<Rightarrow> int \<Rightarrow> string option" where
  "viewVMTable t src m w h =
     (let inner = w - 4;
          cols = vmColumns inner;
          msg = (if u_filter m \<noteq> [] then ''no VM matches '' @ rune3 0xE2 0x80 0x9C @ u_filter m @ rune3 0xE2 0x80 0x9D else ''no KVM guests found'');
          lines = [tm_Render t stHeadRow (renderRow t cols (titles cols))] @
                  map (\<lambda>(i, d). vmRow t src m cols d (int i = u_cursor m)) (vm_window m (h - 3)) @
                  (if u_visible m = [] then [[], tm_Center t inner (tm_Render t stMuted msg)] else []);
          title = '' Virtual machines ('' @ show_nat (length (u_visible m)) @ '') '' @
                  (if u_filter m \<noteq> [] \<or> u_filtering m
                   then tm_Render t stAccent (''filter: '' @ u_filter m @ (if u_filtering m then full_block else [])) @ '' '' else []);
          sortTitle = '' sort: '' @ sortNames (u_sort m) @ (if u_reverse m then '' '' @ arrow_up else []) @ '' ''
      in box t (Join (pad_lines lines (h - 2)) newline) w title sortTitle (u_screen m = scrDashboard))"

section \<open>Alerts\<close>

definition alert_where :: "Alert \<Rightarrow> string" where
  "alert_where a =
     (let s = a_DomainName a @ (if a_Subject a \<noteq> [] then (if a_DomainName a \<noteq> [] then ''/'' else []) @ a_Subject a else [])
      in if s = [] then ''host'' else s)"

definition alertLine :: "terminal \<Rightarrow> Alert \<Rightarrow> int \<Rightarrow> bool \<Rightarrow> string" where
  "alertLine t a w sel =
     (let c = severityColor (a_Severity a);
          head = (if sel then tm_Render t stAccent left_half else '' '') @ tm_Render t (fg c) (severityIcon (a_Severity a)) @ '' '';
          when' = tm_Render t stMuted (tm_Clock t (a_Last a));
          state = (if a_Active a then tm_Render t (Bold (fg c)) ''ACTIVE''
                   else if a_Resolved a \<noteq> 0 then tm_Render t (fg colGreen) ''solved''
                   else ''      '');
          (when', state, ruleW, whereW) =
            (if w < 110 then (if a_Active a then fit t state 8 else when', [], 18, 14) else (when', state, 22, 20));
          (ruleW, whereW) = (if w < 75 then (0, 12) else (ruleW, whereW));
          count = (if 1 < a_Count a then tm_Render t stMuted ('' '' @ rune2 0xC3 0x97 @ show_int (a_Count a)) else [])
      in fit t (head @ when' @ '' '' @ (if state \<noteq> [] then state @ '' '' else []) @
           (if 0 < ruleW then fit t (tm_Render t (fg c) (a_Rule a)) ruleW @ '' '' else []) @
           fit t (tm_Render t stBold (alert_where a)) whereW @ '' '' @ tm_Render t stBase (a_Message a) @ count) w)"

definition viewAlertPane :: "terminal \<Rightarrow> Model \<Rightarrow> int \<Rightarrow> int \<Rightarrow> string option" where
  "viewAlertPane t m w h =
     (let inner = w - 4;
          rows = h - 2;
          active = length (filter a_Active (u_alerts m));
          recent = length (filter (\<lambda>a. \<not> a_Active a) (u_alerts m));
          lines = map (\<lambda>a. alertLine t a inner False) (take (nat rows) (u_alerts m));
          lines = (if lines = [] then [tm_Render t (fg colGreen) (check_mark @ '' '') @
                     tm_Render t stMuted (''no alerts '' @ rune3 0xE2 0x80 0x94 @ '' all monitored subsystems look healthy'')] else lines);
          dot = '' '' @ middle_dot @ '' '';
          title = '' Alerts'' @ dot @ show_nat active @ '' active'' @ dot @ show_nat recent @ '' recent ''
      in box t (Join (pad_lines lines rows) newline) w title '' a: all alerts '' False)"

section \<open>Screens\<close>

definition viewDashboard :: "terminal \<Rightarrow> Sources \<Rightarrow> Model \<Rightarrow> string option" where
  "viewDashboard t src m =
     (let header = viewHeader t src m;
          footer = viewFooter t m [(''enter'', ''details''), (''/'', ''filter''), (''a'', ''alerts''), (''s'', ''sort:'' @ sortNames (u_sort m)),
                     (arrow_up @ arrow_down, ''select''), (''p'', ''probes''), (''q'', ''quit''), (''?'', ''help'')];
          avail = u_height m - tm_Height t header - tm_Height t footer;
          alertsH = min (max (int (length (u_alerts m)) + 2) 5) (max ((avail * 2) sdiv 5) 5);
          tableH = max (avail - alertsH) 4
      in do {
           table \<leftarrow> viewVMTable t src m (u_width m) tableH;
           pane \<leftarrow> viewAlertPane t m (u_width m) alertsH;
           Some (tm_JoinVertical t [header, table, pane, footer])
         })"

text \<open>Pairs of a label and a value, in aligned columns.\<close>

fun grid_rows :: "nat \<Rightarrow> 'a list \<Rightarrow> 'a list list" where
  "grid_rows n [] = []"
| "grid_rows n (x # xs) = (x # take n xs) # grid_rows n (drop n xs)"

definition kvGrid :: "terminal \<Rightarrow> (string \<times> string) list \<Rightarrow> int \<Rightarrow> int \<Rightarrow> string" where
  "kvGrid t pairs cols width =
     (let cols = max (min cols (width sdiv 34)) 1;
          colW = width sdiv cols;
          cell = (\<lambda>p. fit t (tm_Render t stLabel (fit t (fst p) 16) @ snd p) (colW - 2) @ ''  '')
      in Join (map (\<lambda>row. concat (map cell row)) (grid_rows (nat cols - 1) pairs)) newline)"

definition alert_details :: "terminal \<Rightarrow> Alert \<Rightarrow> int \<Rightarrow> string list" where
  "alert_details t a inner =
     (let c = severityColor (a_Severity a);
          status = (if a_Active a then tm_Render t (Bold (fg c)) ''active''
                    else if a_Resolved a \<noteq> 0 then tm_Render t (fg colGreen) (''resolved '' @ tm_Clock t (a_Resolved a))
                    else ''event'');
          dot = ''  '' @ middle_dot @ ''  ''
      in [tm_Render t (Bold (fg c)) (map (\<lambda>ch. if CHR ''a'' \<le> ch \<and> ch \<le> CHR ''z'' then char_of (of_char ch - (32 :: nat)) else ch) (SeverityString (a_Severity a))) @ ''  '' @
            tm_Render t stBold (a_Rule a) @ tm_Render t stMuted (dot @ CategoryString (a_Category a) @ dot @ ''source '' @ a_Source a),
          kvGrid t [(''VM'', tm_Render t stBase (orDash (a_DomainName a))), (''Subject'', tm_Render t stBase (orDash (a_Subject a))), (''Status'', status),
            (''First seen'', tm_Render t stBase (tm_Date t (a_First a))), (''Last seen'', tm_Render t stBase (tm_Clock t (a_Last a))),
            (''Occurrences'', tm_Render t stBase (show_int (a_Count a)))] 3 inner] @ wrap t (a_Message a) inner)"

definition viewAlerts :: "terminal \<Rightarrow> Sources \<Rightarrow> Model \<Rightarrow> (Model \<times> string) option" where
  "viewAlerts t src m =
     (let header = viewHeader t src m;
          footer = viewFooter t m [(arrow_up @ arrow_down, ''select''), (''f'', ''min severity: '' @ SeverityString (u_alertMin m)), (''esc'', ''back''), (''?'', ''help'')];
          bodyH = u_height m - tm_Height t header - tm_Height t footer;
          inner = u_width m - 4;
          as = filteredAlerts m;
          m = m\<lparr>u_alertCursor := min (u_alertCursor m) (max (int (length as) - 1) 0)\<rparr>;
          listH = max (bodyH - 7 - 2) 3;
          start = (if listH \<le> u_alertCursor m then u_alertCursor m - listH + 1 else 0);
          lines = map (\<lambda>(i, a). alertLine t a inner (int i = u_alertCursor m)) (take (nat listH) (drop (nat start) (enumerate 0 as)));
          lines = (if as = [] then [tm_Render t (fg colGreen) (check_mark @ '' '') @ tm_Render t stMuted ''no alerts at this severity''] else lines);
          det = (if as = [] then [] else alert_details t (as ! nat (u_alertCursor m)) inner)
      in do {
           lst \<leftarrow> box t (Join (pad_lines lines listH) newline) (u_width m) ('' Alerts ('' @ show_nat (length as) @ '') '') [] True;
           detail \<leftarrow> box t (Join (take 5 (pad_lines det 5)) newline) (u_width m) '' Details '' [] False;
           Some (m, tm_JoinVertical t [header, lst, detail, footer])
         })"

definition source_line :: "terminal \<Rightarrow> string \<Rightarrow> bool \<Rightarrow> string \<Rightarrow> string \<Rightarrow> string" where
  "source_line t name ok yes no =
     ''  '' @ fit t (tm_Render t stLabel name) 14 @
     (if ok then tm_Render t (fg colGreen) (bullet @ '' '') @ tm_Render t stBase yes
      else tm_Render t (fg colDim) (circle @ '' '') @ tm_Render t stMuted no)"

fun probe_color :: "ProbeState \<Rightarrow> string" where
  "probe_color Failed = colRed"
| "probe_color Unavailable = colDim"
| "probe_color Disabled = colDim"
| "probe_color Attached = colGreen"

definition status_columns :: "column list" where
  "status_columns = [mk_column ''FEATURE'' 11 False 1 0 0 0, mk_column ''PROBE'' 0 False 0 1 14 28, mk_column ''STATE'' 11 False 0 0 0 0,
     mk_column ''DETAIL'' 0 False 2 2 10 0]"

definition status_lines :: "terminal \<Rightarrow> Sources \<Rightarrow> Model \<Rightarrow> string list" where
  "status_lines t src m =
     (let inner = u_width m - 4; cols = layout status_columns (inner - 2); q = cfg_QMP (so_Config src)
      in [title_section t ''Data sources''] @
         (case so_Libvirt src of None \<Rightarrow> []
          | Some sock \<Rightarrow> [source_line t ''libvirt'' (sock \<noteq> []) (''connected '' @ sock) ''not connected (no libvirtd/virtqemud socket)'']) @
         [source_line t ''/proc scan'' True ''KVM processes from any hypervisor'' [],
          source_line t ''QMP'' (qmp_Enabled q) (''polling non-libvirt QEMU every '' @ DurationString (qmp_Interval q)) ''disabled (enable [qmp] in the config)''] @
         (case so_Kmsg src of None \<Rightarrow> [] | Some why \<Rightarrow> [source_line t ''kernel log'' (why = []) ''following /dev/kmsg'' why]) @
         [source_line t ''PSI'' (psi_Available (ho_PSI (u_host m))) ''/proc/pressure'' ''unavailable (kernel without CONFIG_PSI or psi=0)'',
          [], title_section t ''eBPF probes''] @
         (case so_EBPF src of
            Some (False, why) \<Rightarrow> [''  '' @ tm_Render t (fg colAmber) (triangle @ '' '') @ tm_Render t stBase (''disabled: '' @ why)]
          | _ \<Rightarrow> []) @
         (case so_Probes src of
            None \<Rightarrow> []
          | Some st \<Rightarrow>
              [''  '' @ tm_Render t stHeadRow (renderRow t cols (titles cols))] @
              map (\<lambda>s. ''  '' @ renderRow t cols [tm_Render t stBold (st_Feature s), tm_Render t stBase (st_Probe s),
                     tm_Render t (fg (probe_color (st_State s))) (ProbeStateString (st_State s)), tm_Render t stMuted (st_Err s)]) st))"

definition viewStatus :: "terminal \<Rightarrow> Sources \<Rightarrow> Model \<Rightarrow> (Model \<times> string) option" where
  "viewStatus t src m =
     (let header = viewHeader t src m;
          footer = viewFooter t m [(arrow_up @ arrow_down, ''scroll''), (''esc'', ''back''), (''?'', ''help'')];
          bodyH = u_height m - tm_Height t header - tm_Height t footer
      in do {
           sl \<leftarrow> scrollLines (status_lines t src m) (u_scroll m) (bodyH - 2);
           pane \<leftarrow> box t (Join (snd sl) newline) (u_width m) '' Status '' [] True;
           Some (m\<lparr>u_scroll := fst sl\<rparr>, tm_JoinVertical t [header, pane, footer])
         })"

text \<open>The window on the log: the newest line is at the bottom and scrolling moves back in time.\<close>

definition log_window :: "string list \<Rightarrow> int \<Rightarrow> int \<Rightarrow> (int \<times> string list) option" where
  "log_window lines scroll rows =
     (let n = int (length lines);
          e = max (n - scroll) (min rows n)
      in do {
           view \<leftarrow> go_slice lines (max (e - rows) 0) e;
           Some (n - e, pad_lines view rows)
         })"

definition viewLog :: "terminal \<Rightarrow> Sources \<Rightarrow> Model \<Rightarrow> (Model \<times> string) option" where
  "viewLog t src m =
     (let header = viewHeader t src m;
          footer = viewFooter t m [(arrow_up @ arrow_down, ''scroll''), (''esc'', ''back'')];
          bodyH = u_height m - tm_Height t header - tm_Height t footer;
          lines = map (\<lambda>l. tm_Render t stMuted (TrimRight l (CHR 0x0A))) (GetTail (so_Log src) 500)
      in do {
           sv \<leftarrow> log_window lines (u_scroll m) (bodyH - 2);
           pane \<leftarrow> box t (Join (snd sv) newline) (u_width m) '' Log '' [] True;
           Some (m\<lparr>u_scroll := fst sv\<rparr>, tm_JoinVertical t [header, pane, footer])
         })"

definition help_keys :: "(string \<times> string) list" where
  "help_keys =
     [(arrow_up @ '' '' @ arrow_down @ ''  j k'', ''move selection / scroll''), (''PgUp PgDn'', ''page up / down''), (''g G'', ''first / last''),
      (''enter '' @ arrow @ '' l'', ''open VM details''), (rune3 0xE2 0x86 0x90 @ '' '' @ arrow @ '' h l  1-9'', ''switch detail tab''),
      (''esc q'', ''back (q quits on the dashboard)''), (''/'', ''filter VMs by name or source''), (''s  r'', ''cycle sort column  /  reverse''),
      (''a'', ''alerts view''), (''f'', ''alerts: minimum severity''), (''p'', ''probe and data source status''), (''L'', ''internal log''),
      (''ctrl+c'', ''quit'')]"

definition viewHelp :: "terminal \<Rightarrow> string" where
  "viewHelp t =
     (let lines = map (\<lambda>k. tm_Render t stKey (fit t (fst k) 15) @ tm_Render t stBase (snd k)) help_keys @
            [[], tm_Render t stMuted ''Severity: '' @ tm_Render t (fg colRed) (cross @ '' critical  '') @
               tm_Render t (fg colAmber) (triangle @ '' warning  '') @ tm_Render t (fg colAccent) (bullet @ '' info'')]
      in tm_Render t (stBoxHot\<lparr>sy_Background := colPanel\<rparr>) (tm_Render t stTitle ''Keys'' @ newline @ newline @ Join lines newline))"

end
