(* ===== verification/Tui_Detail.thy ===== *)
theory Tui_Detail
  imports Tui_Views
begin

text \<open>
  \<open>internal/tui/detail.go\<close>: the tabs on one machine, and \<open>View\<close> of \<open>internal/tui/model.go\<close>,
  which draws the current screen and clips it to the window.
\<close>

section \<open>Pieces\<close>

definition chart_value_width :: "int \<Rightarrow> int" where
  "chart_value_width width = min 18 (max (width sdiv 5) 10)"

definition chart :: "terminal \<Rightarrow> string \<Rightarrow> float64 list \<Rightarrow> int \<Rightarrow> float64 \<Rightarrow> string \<Rightarrow> string \<Rightarrow> string" where
  "chart t label vals width ceil c value =
     (let valW = chart_value_width width
      in tm_Render t stLabel (fit t label 14) @ sparkline t vals (max (width - 16 - valW) 4) ceil c @ ''  '' @ tm_Render t (fg c) (fit t value valW))"

definition tallChart :: "terminal \<Rightarrow> string \<Rightarrow> float64 list \<Rightarrow> int \<Rightarrow> int \<Rightarrow> float64 \<Rightarrow> string \<Rightarrow> string \<Rightarrow> string" where
  "tallChart t label vals width rows ceil c value =
     (let graph = areaChart t vals (max (width - 16 - chart_value_width width) 4) rows ceil c
      in Join (map (\<lambda>(i, line). tm_Render t stLabel (fit t (if i = 0 then label else []) 14) @ line @ ''  '' @
                      (if i = 0 then tm_Render t (fg c) value else []))
                 (enumerate 0 (Split graph (CHR 0x0A)))) newline)"

text \<open>Names by decreasing value, then by name.\<close>

definition value_order :: "(string, float64) gomap \<Rightarrow> string comparator" where
  "value_order mp = key (\<lambda>k. (- mget 0 mp k, k)) (prod_lex default default)"

definition sortedByValue :: "string range_order \<Rightarrow> (string, float64) gomap \<Rightarrow> string list" where
  "sortedByValue ord mp = Sorting_Algorithms.sort (value_order mp) (ord (mkeys mp))"

definition errCount :: "terminal \<Rightarrow> uint64 \<Rightarrow> string" where
  "errCount t n = (if 0 < n then tm_Render t (fg colRed) (show_nat (unat n)) else tm_Render t stBase ''0'')"

definition ebpfHint :: "terminal \<Rightarrow> Sources \<Rightarrow> int \<Rightarrow> string" where
  "ebpfHint t src w =
     (let reason = (case so_EBPF src of
                      Some (False, why) \<Rightarrow> if why \<noteq> [] then ''eBPF disabled: '' @ why else ''eBPF probes are not loaded''
                    | _ \<Rightarrow> ''eBPF probes are not loaded'')
      in tm_Render t stMuted (Join (wrap t (reason @ '' '' @ rune3 0xE2 0x80 0x94 @
           '' KVM exits, run-queue latency and kernel drop reasons are unavailable.'') w) newline))"

abbreviation lvl :: "float64 \<Rightarrow> Level \<Rightarrow> style" where
  "lvl v l \<equiv> fg (levelColor v (Warn l) (Crit l))"

section \<open>Tabs\<close>

definition detailOverview :: "terminal \<Rightarrow> Sources \<Rightarrow> Model \<Rightarrow> DomainSnapshot \<Rightarrow> int \<Rightarrow> string" where
  "detailOverview t src m d w =
     (let (big, small) = (if 40 \<le> u_height m then (3, 2) else if 32 \<le> u_height m then (2, 1) else (1, 1));
          h = StoreHistory (d_ID d) (so_Store src);
          nv = max (length (d_VCPUs d)) 1;
          (rx, tx) = NetRates d;
          (rd, wr) = DiskRates d;
          memMax = max (m_MaxKiB (d_Mem d)) (m_BalloonKiB (d_Mem d));
          pairs = [(''UUID'', tm_Render t stBase (orDash (d_UUID d))), (''vCPUs'', tm_Render t stBase (show_nat (length (d_VCPUs d)))),
                   (''Memory'', tm_Render t stBase (fmtKiB memMax)), (''Host RSS'', tm_Render t stBase (fmtKiB (m_RssKiB (d_Mem d)))),
                   (''Interfaces'', tm_Render t stBase (show_nat (length (d_Ifaces d)))), (''Disks'', tm_Render t stBase (show_nat (length (d_Disks d))))];
          cpuC = levelColor (CPUPercent d / of_nat nv) 80 95;
          th = th_RunqP99Us (cfg_Thresholds (so_Config src));
          k = d_KVM d;
          as = domainAlerts (d_ID d) m
      in Join ([kvGrid t pairs 3 w, [],
           tallChart t ''CPU'' (dh_CPU h) w big (of_nat nv * 100) cpuC (show_fixed 1 (CPUPercent d) @ ''% of '' @ show_nat nv @ '' vCPU''),
           tallChart t (''Net '' @ arrow_down @ '' rx'') (dh_RX h) w small 0 colRx (fmtRate rx),
           tallChart t (''Net '' @ arrow_up @ '' tx'') (dh_TX h) w small 0 colTx (fmtRate tx),
           tallChart t ''Disk read'' (dh_DiskRd h) w small 0 colCyan (fmtRate rd),
           tallChart t ''Disk write'' (dh_DiskWr h) w small 0 colPurple (fmtRate wr)] @
          (if kvm_Available k
           then [tallChart t ''VM exits'' (dh_ExitRate h) w small 0 colAccent (fmtNum (kvm_ExitRate k) @ ''/s''),
                 tallChart t ''Run-queue p99'' (dh_RunqP99 h) w small 0 (levelColor (kvm_RunqP99Us k) (Warn th) (Crit th)) (tui_fmtUs (kvm_RunqP99Us k))]
           else []) @
          (if as \<noteq> [] then [[], title_section t ''Latest alerts''] @ map (\<lambda>a. alertLine t a w False) (take 5 as) else [])) newline)"

definition cpu_columns :: "column list" where
  "cpu_columns =
     [mk_column ''vCPU'' 5 False 0 0 0 0, mk_column ''TID'' 8 True 2 0 0 0, mk_column ''HOST CPU'' 9 True 1 0 0 0, mk_column ''USAGE'' 0 False 3 1 6 0,
      mk_column ''%'' 6 True 0 0 0 0, mk_column ''EXITS/s'' 9 True 6 0 0 0, mk_column ''HALTS/s'' 9 True 4 0 0 0, mk_column ''RUNQ avg'' 9 True 5 0 0 0,
      mk_column ''p99'' 9 True 0 0 0 0, mk_column ''max'' 9 True 7 0 0 0]"

definition cpu_row :: "terminal \<Rightarrow> Thresholds \<Rightarrow> column list \<Rightarrow> VCPUStat \<Rightarrow> string" where
  "cpu_row t th cols v =
     (let c = levelColor (v_CPUPercent v) 80 95;
          host = (if 0 \<le> v_HostCPU v \<and> 0 < v_TID v then show_int (v_HostCPU v) else en_dash)
      in renderRow t cols
           [tm_Render t stBold (show_int (v_Index v)), tm_Render t stMuted (show_int (v_TID v)), tm_Render t stBase host,
            bar t (v_CPUPercent v / 100) (co_width (cols ! 3)) c, tm_Render t (fg c) (show_fixed 1 (v_CPUPercent v)),
            tm_Render t (lvl (v_ExitRate v) (th_VCPUExitRate th)) (fmtNum (v_ExitRate v)),
            tm_Render t stBase (fmtNum (v_HaltWaitRate v)), tm_Render t stBase (tui_fmtUs (v_RunqAvgUs v)),
            tm_Render t (lvl (v_RunqP99Us v) (th_RunqP99Us th)) (tui_fmtUs (v_RunqP99Us v)), tm_Render t stMuted (tui_fmtUs (v_RunqMaxUs v))])"

definition detailCPU :: "terminal \<Rightarrow> Sources \<Rightarrow> DomainSnapshot \<Rightarrow> int \<Rightarrow> string" where
  "detailCPU t src d w =
     (let cols = layout cpu_columns w;
          h = StoreHistory (d_ID d) (so_Store src);
          nv = max (length (d_VCPUs d)) 1
      in Join ([tm_Render t stHeadRow (renderRow t cols (titles cols))] @
          map (cpu_row t (cfg_Thresholds (so_Config src)) cols) (d_VCPUs d) @
          (if d_VCPUs d = [] then [tm_Render t stMuted ''no vCPU threads found''] else []) @
          [[], chart t ''CPU'' (dh_CPU h) w (of_nat nv * 100) colGreen (show_fixed 1 (CPUPercent d) @ ''%'')] @
          (if kvm_Available (d_KVM d)
           then [chart t ''Run-queue p99'' (dh_RunqP99 h) w 0 colAmber (tui_fmtUs (kvm_RunqP99Us (d_KVM d))), []] @
                map (tm_Render t stMuted) (wrap t ''Run-queue delay is the time a runnable vCPU thread waited for a host CPU (steal time seen by the guest).'' w)
           else [[], ebpfHint t src w])) newline)"

definition gauge :: "terminal \<Rightarrow> uint64 \<Rightarrow> int \<Rightarrow> string \<Rightarrow> uint64 \<Rightarrow> string \<Rightarrow> string" where
  "gauge t allKiB w label v c =
     (if allKiB = 0 then tm_Render t stLabel (fit t label 16) @ tm_Render t stMuted en_dash
      else tm_Render t stLabel (fit t label 16) @ bar t (float_of_uint64 v / float_of_uint64 allKiB) (max (w - 40) 6) c @ ''  '' @
        tm_Render t (fg c) (fmtKiB v) @ tm_Render t stMuted ('' ('' @ show_fixed 0 (100 * float_of_uint64 v / float_of_uint64 allKiB) @ ''%)''))"

definition usable_color :: "Level \<Rightarrow> float64 \<Rightarrow> string" where
  "usable_color th freePct =
     (if 0 < Crit th \<and> freePct \<le> Crit th then colRed else if 0 < Warn th \<and> freePct \<le> Warn th then colAmber else colGreen)"

definition detailMemory :: "terminal \<Rightarrow> Sources \<Rightarrow> DomainSnapshot \<Rightarrow> int \<Rightarrow> string" where
  "detailMemory t src d w =
     (let mm = d_Mem d; th = cfg_Thresholds (so_Config src);
          allKiB = max (max (m_MaxKiB mm) (m_BalloonKiB mm)) (m_AvailableKiB mm)
      in Join ([title_section t ''Allocation'',
           kvGrid t [(''Configured'', tm_Render t stBase (fmtKiB (m_MaxKiB mm))), (''Balloon'', tm_Render t stBase (orDashKiB (m_BalloonKiB mm))),
             (''Guest total'', tm_Render t stBase (orDashKiB (m_AvailableKiB mm)))] 3 w, [],
           gauge t allKiB w ''Host RSS'' (m_RssKiB mm) colAccent] @
          (if 0 < m_AvailableKiB mm
           then [gauge t allKiB w ''Guest usable'' (m_UsableKiB mm)
                   (usable_color (th_GuestMemFreePct th) (100 * float_of_uint64 (m_UsableKiB mm) / float_of_uint64 (m_AvailableKiB mm))),
                 gauge t allKiB w ''Guest unused'' (m_UnusedKiB mm) colCyan]
           else [[], tm_Render t stMuted (Join (wrap t ''Guest memory statistics need the virtio balloon driver (libvirt guests).'' w) newline)]) @
          [[], title_section t ''Pressure'',
           kvGrid t [(''Guest swap in'', tm_Render t (lvl (m_SwapInRate mm) (th_GuestSwapInKiBs th)) (fmtKiBRate (m_SwapInRate mm))),
             (''Guest swap out'', tm_Render t stBase (fmtKiBRate (m_SwapOutRate mm))),
             (''Hugetlb fails'', tm_Render t stBase (show_nat (unat (m_HugetlbFail mm)))),
             (''Host major flt'', tm_Render t (lvl (m_MajorFltRate mm) (th_MajorFaultRate th)) (fmtNum (m_MajorFltRate mm) @ ''/s'')),
             (''Host minor flt'', tm_Render t stBase (fmtNum (m_MinorFltRate mm) @ ''/s''))] 3 w]) newline)"

definition net_columns :: "column list" where
  "net_columns =
     [mk_column ''IFACE'' 0 False 0 1 8 16, mk_column (arrow_down @ '' RX'') 10 True 0 0 0 0, mk_column (arrow_up @ '' TX'') 10 True 0 0 0 0,
      mk_column ''RX pps'' 8 True 2 0 0 0, mk_column ''TX pps'' 8 True 1 0 0 0, mk_column ''ERRORS'' 7 True 5 0 0 0, mk_column ''DROPS'' 8 True 3 0 0 0,
      mk_column ''DROP/s'' 7 True 6 0 0 0, mk_column ''KERN DROP/s'' 11 True 4 0 0 0]"

definition net_row :: "terminal \<Rightarrow> Level \<Rightarrow> column list \<Rightarrow> bool \<Rightarrow> IfaceStat \<Rightarrow> string" where
  "net_row t th cols avail i =
     renderRow t cols
       [tm_Render t stBold (i_Name i), tm_Render t (fg colRx) (fmtRate (i_RxBps i)), tm_Render t (fg colTx) (fmtRate (i_TxBps i)),
        tm_Render t stBase (fmtNum (i_RxPps i)), tm_Render t stBase (fmtNum (i_TxPps i)),
        tm_Render t (fg (if 0 < i_RxErrs i + i_TxErrs i then colAmber else colFg)) (show_nat (unat (i_RxErrs i + i_TxErrs i))),
        tm_Render t stBase (show_nat (unat (i_RxDrops i + i_TxDrops i))),
        tm_Render t (lvl (i_DropRate i) th) (fmtNum (i_DropRate i)),
        tm_Render t (lvl (i_KernelDropRate i) th) (if avail then fmtNum (i_KernelDropRate i) else en_dash)]"

definition drop_lines :: "terminal \<Rightarrow> string range_order \<Rightarrow> int \<Rightarrow> IfaceStat \<Rightarrow> string list" where
  "drop_lines t ord w i =
     map (\<lambda>r. ''  '' @ tm_Render t stBold (fit t (i_Name i) (min 14 (w sdiv 5))) @ '' '' @
            tm_Render t (fg colAmber) (fitRight t (fmtNum (mget 0 (i_DropReasons i) r) @ ''/s'') 9) @ '' '' @ tm_Render t stBase r)
       (sortedByValue ord (i_DropReasons i))"

definition detailNet :: "terminal \<Rightarrow> Sources \<Rightarrow> DomainSnapshot \<Rightarrow> int \<Rightarrow> string" where
  "detailNet t src d w =
     (if d_Ifaces d = [] then tm_Render t stMuted ''no network interfaces''
      else let cols = layout net_columns w;
               th = th_NetDropRate (cfg_Thresholds (so_Config src));
               reasons = concat (map (drop_lines t (so_order src) w) (d_Ifaces d));
               h = StoreHistory (d_ID d) (so_Store src);
               (rx, tx) = NetRates d
           in Join ([tm_Render t stHeadRow (renderRow t cols (titles cols))] @
               map (net_row t th cols (kvm_Available (d_KVM d))) (d_Ifaces d) @
               (if reasons \<noteq> [] then [[], title_section t ''Kernel drop reasons (eBPF)''] @ reasons else []) @
               [[], chart t (''Total '' @ arrow_down @ '' rx'') (dh_RX h) w 0 colRx (fmtRate rx),
                chart t (''Total '' @ arrow_up @ '' tx'') (dh_TX h) w 0 colTx (fmtRate tx)]) newline)"

definition disk_columns :: "column list" where
  "disk_columns =
     [mk_column ''DEVICE'' 0 False 0 1 8 20, mk_column ''READ'' 10 True 0 0 0 0, mk_column ''WRITE'' 10 True 0 0 0 0, mk_column ''R IOPS'' 8 True 2 0 0 0,
      mk_column ''W IOPS'' 8 True 1 0 0 0, mk_column ''ERRORS'' 7 True 3 0 0 0]"

definition disk_row :: "terminal \<Rightarrow> column list \<Rightarrow> DiskStat \<Rightarrow> string" where
  "disk_row t cols k =
     renderRow t cols
       [tm_Render t stBold (k_Dev k), tm_Render t (fg colCyan) (fmtRate (k_RdBps k)), tm_Render t (fg colPurple) (fmtRate (k_WrBps k)),
        tm_Render t stBase (fmtNum (k_RdIOPS k)), tm_Render t stBase (fmtNum (k_WrIOPS k)),
        (if 0 < k_ErrsTotal k then tm_Render t (fg colRed) (show_int (k_ErrsTotal k))
         else if k_ErrsTotal k = 0 then tm_Render t stBase ''0'' else tm_Render t stMuted ''n/a'')]"

definition detailDisk :: "terminal \<Rightarrow> Sources \<Rightarrow> DomainSnapshot \<Rightarrow> int \<Rightarrow> string" where
  "detailDisk t src d w =
     (let cols = layout disk_columns w;
          th = th_VMBlockP99Us (cfg_Thresholds (so_Config src));
          h = StoreHistory (d_ID d) (so_Store src);
          (rd, wr) = DiskRates d
      in Join ((if d_Disks d = [] then [tm_Render t stMuted ''no disks'']
                else [tm_Render t stHeadRow (renderRow t cols (titles cols))] @ map (disk_row t cols) (d_Disks d)) @
          (if kvm_Available (d_KVM d)
           then [[], title_section t ''Block latency of this VM's I/O (eBPF)'',
                 kvGrid t [(''Average'', tm_Render t stBase (tui_fmtUs (d_BlkLatAvgUs d))),
                   (''p99'', tm_Render t (lvl (d_BlkLatP99Us d) th) (tui_fmtUs (d_BlkLatP99Us d)))] 3 w]
           else []) @
          [[], chart t ''Read'' (dh_DiskRd h) w 0 colCyan (fmtRate rd), chart t ''Write'' (dh_DiskWr h) w 0 colPurple (fmtRate wr)]) newline)"

definition rate_line :: "terminal \<Rightarrow> int \<Rightarrow> int \<Rightarrow> (string, float64) gomap \<Rightarrow> float64 \<Rightarrow> string \<Rightarrow> string \<Rightarrow> string" where
  "rate_line t nameW barW mp peak c name =
     (let v = mget 0 mp name
      in ''  '' @ tm_Render t stBase (fit t name nameW) @ bar t (if 0 < peak then v / peak else 0) barW c @ '' '' @ fitRight t (fmtNum v @ ''/s'') 10)"

definition rateTable :: "terminal \<Rightarrow> string range_order \<Rightarrow> int \<Rightarrow> string \<Rightarrow> (string, float64) gomap \<Rightarrow> string \<Rightarrow> string list" where
  "rateTable t ord w title mp c =
     (let nameW = min 26 (max (w sdiv 3) 12);
          barW = max (w - nameW - 16) 4;
          keys = sortedByValue ord mp;
          peak = mget 0 mp (hd keys)
      in if mp = [] then []
         else [title_section t title] @ map (rate_line t nameW barW mp peak c) (take 12 keys) @
           (if 12 < length keys then [tm_Render t stMuted (''  '' @ ellipsis @ '' '' @ show_nat (length keys - 12) @ '' more'')] else []) @ [[]])"

definition detailKVM :: "terminal \<Rightarrow> Sources \<Rightarrow> DomainSnapshot \<Rightarrow> int \<Rightarrow> string" where
  "detailKVM t src d w =
     (let k = d_KVM d
      in if \<not> kvm_Available k then ebpfHint t src w
         else Join ([kvGrid t [(''Exits'', tm_Render t stBold (fmtNum (kvm_ExitRate k) @ ''/s'')),
                (''IRQ injections'', tm_Render t stBase (fmtNum (kvm_IRQRate k) @ ''/s'')), (''Exceptions'', tm_Render t stBase (fmtNum (kvm_ExceptionRate k) @ ''/s'')),
                (''Halt polls ok'', tm_Render t stBase (fmtNum (kvm_HaltPollRate k) @ ''/s'')), (''Halt sleeps'', tm_Render t stBase (fmtNum (kvm_HaltWaitRate k) @ ''/s'')),
                (''Emulation fails'', errCount t (kvm_EmulFailTotal k))] 3 w, []] @
              rateTable t (so_order src) w ''Exit reasons'' (kvm_ExitReasons k) colAccent @
              rateTable t (so_order src) w ''Returns to userspace (KVM_EXIT_*)'' (kvm_UserExits k) colPurple @
              [chart t ''Exits/s'' (dh_ExitRate (StoreHistory (d_ID d) (so_Store src))) w 0 colAccent (fmtNum (kvm_ExitRate k))]) newline)"

definition detailAlerts :: "terminal \<Rightarrow> Model \<Rightarrow> DomainSnapshot \<Rightarrow> int \<Rightarrow> string" where
  "detailAlerts t m d w =
     (let as = domainAlerts (d_ID d) m
      in if as = [] then tm_Render t (fg colGreen) (check_mark @ '' '') @ tm_Render t stMuted ''no alerts for this VM''
         else Join (map (\<lambda>a. alertLine t a w False) as) newline)"

definition migration_done :: "MigrationStat \<Rightarrow> float64" where
  "migration_done mg =
     (if 0 < mig_MemTotal mg
      then float_of_uint64 (mig_MemTotal mg - min (mig_MemRemaining mg) (mig_MemTotal mg)) / float_of_uint64 (mig_MemTotal mg) else 0)"

definition detailMigration :: "terminal \<Rightarrow> DomainSnapshot \<Rightarrow> int \<Rightarrow> string" where
  "detailMigration t d w =
     (case d_Migration d of
        None \<Rightarrow> tm_Render t stMuted ''no migration in progress''
      | Some mg \<Rightarrow>
          let q = migration_done mg;
              statusC = (if mig_Status mg = ''completed'' then colGreen
                         else if mig_Status mg \<in> set [''failed'', ''cancelled''] then colRed else colAccent)
          in Join [kvGrid t [(''Operation'', tm_Render t stBase (mig_Operation mg)), (''Status'', tm_Render t (Bold (fg statusC)) (mig_Status mg)),
                 (''Elapsed'', tm_Render t stBase (fmtMs (mig_ElapsedMs mg)))] 3 w, [],
               tm_Render t stLabel (fit t ''Memory'' 16) @ bar t q (max (w - 30) 6) statusC @ ''  '' @ show_fixed 1 (q * 100) @ ''%'', [],
               kvGrid t [(''Transferred'', tm_Render t stBase (fmtBytes (float_of_uint64 (mig_MemProcessed mg)))),
                 (''Remaining'', tm_Render t stBase (fmtBytes (float_of_uint64 (mig_MemRemaining mg)))),
                 (''Total'', tm_Render t stBase (fmtBytes (float_of_uint64 (mig_MemTotal mg)))),
                 (''Bandwidth'', tm_Render t stBase (fmtRate (float_of_uint64 (mig_Bps mg)))),
                 (''Dirty rate'', tm_Render t stBase (fmtNum (float_of_uint64 (mig_DirtyPageRate mg)) @ '' pages/s'')),
                 (''Exp. downtime'', tm_Render t stBase (fmtMs (mig_ExpectedDownMs mg)))] 3 w] newline)"

section \<open>The detail screen\<close>

definition tab_label :: "terminal \<Rightarrow> Model \<Rightarrow> DomainSnapshot \<Rightarrow> bool \<Rightarrow> nat \<times> string \<Rightarrow> string" where
  "tab_label t m d brief x =
     (let (i, tb) = x;
          label = (if brief \<and> int i \<noteq> u_tab m then show_nat (i + 1) else show_nat (i + 1) @ '' '' @ tb);
          c = mget \<lparr>dc_N = 0, dc_Worst = Info\<rparr> (u_counts m) (d_ID d);
          label = label @ (if tb = ''Alerts'' \<and> 0 < dc_N c
                    then tm_Render t (fg (severityColor (dc_Worst c))) ('' '' @ severityIcon (dc_Worst c) @ show_int (dc_N c)) else [])
      in tm_Render t (if int i = u_tab m then stTabOn else stTabOff) label)"

definition tabBar :: "terminal \<Rightarrow> Model \<Rightarrow> DomainSnapshot \<Rightarrow> string list \<Rightarrow> bool \<Rightarrow> string" where
  "tabBar t m d tabs brief = '' '' @ concat (map (tab_label t m d brief) (enumerate 0 tabs))"

definition detail_content :: "terminal \<Rightarrow> Sources \<Rightarrow> Model \<Rightarrow> DomainSnapshot \<Rightarrow> string \<Rightarrow> int \<Rightarrow> string" where
  "detail_content t src m d tb inner =
     (if tb = ''Overview'' then detailOverview t src m d inner
      else if tb = ''CPU'' then detailCPU t src d inner
      else if tb = ''Memory'' then detailMemory t src d inner
      else if tb = ''Network'' then detailNet t src d inner
      else if tb = ''Disk'' then detailDisk t src d inner
      else if tb = ''KVM'' then detailKVM t src d inner
      else if tb = ''Alerts'' then detailAlerts t m d inner
      else if tb = ''Migration'' then detailMigration t d inner
      else [])"

definition viewDetail :: "terminal \<Rightarrow> Sources \<Rightarrow> Model \<Rightarrow> DomainSnapshot \<Rightarrow> (Model \<times> string) option" where
  "viewDetail t src m d =
     (let header = viewHeader t src m;
          tabs = detailTabs m;
          m = m\<lparr>u_tab := min (u_tab m) (int (length tabs) - 1)\<rparr>;
          state = tm_Render t (fg (stateColor (d_State d) (d_Reason d))) (bullet @ '' '' @ d_State d) @
                  (if d_Reason d \<noteq> [] then tm_Render t stMuted ('' ('' @ d_Reason d @ '')'') else []);
          tabLine = tabBar t m d tabs False @ ''  '' @ state;
          tabLine = (if u_width m < tm_Width t tabLine then tabBar t m d tabs True @ ''  '' @ state else tabLine);
          footer = viewFooter t m [(rune3 0xE2 0x86 0x90 @ arrow @ ''/1-9'', ''tab''), (''esc'', ''back''), (arrow_up @ arrow_down, ''scroll''),
                     (''a'', ''alerts''), (''p'', ''probes''), (''?'', ''help'')];
          bodyH = u_height m - tm_Height t header - tm_Height t footer - 1;
          content = detail_content t src m d (tabs ! nat (u_tab m)) (u_width m - 4)
      in do {
           sl \<leftarrow> scrollLines (Split content (CHR 0x0A)) (u_scroll m) (bodyH - 2);
           panel \<leftarrow> box t (Join (snd sl) newline) (u_width m) ('' '' @ d_Name d @ '' '') ('' '' @ d_Source d @ '' '' @ middle_dot @ '' pid '' @ show_int (d_PID d) @ '' '') True;
           Some (m\<lparr>u_scroll := fst sl\<rparr>, tm_JoinVertical t [header, fit t tabLine (u_width m), panel, footer])
         })"

section \<open>View\<close>

definition canvas_lines :: "terminal \<Rightarrow> Model \<Rightarrow> string \<Rightarrow> string list option" where
  "canvas_lines t m body =
     (let lines = Split body (CHR 0x0A)
      in map_option (map (\<lambda>l. fit t l (u_width m))) (if u_height m < int (length lines) then go_slice lines 0 (u_height m) else Some lines))"

definition canvas :: "terminal \<Rightarrow> Model \<Rightarrow> string \<Rightarrow> string option" where
  "canvas t m body =
     map_option (\<lambda>lines. tm_Render t ((fg colFg)\<lparr>sy_Background := colBg, sy_Width := u_width m, sy_Height := u_height m\<rparr>) (Join lines newline))
       (canvas_lines t m body)"

definition overlay :: "terminal \<Rightarrow> Model \<Rightarrow> string \<Rightarrow> string \<Rightarrow> string" where
  "overlay t m body boxed =
     (let lines = pad_lines (Split body (CHR 0x0A)) (u_height m);
          boxLines = Split boxed (CHR 0x0A);
          bw = tm_Width t boxed;
          x = max ((u_width m - bw) sdiv 2) 0;
          y = max ((u_height m - int (length boxLines)) sdiv 2) 0
      in Join (map (\<lambda>(i, l). if y \<le> int i \<and> int i < y + int (length boxLines)
                    then let l = fit t l (u_width m)
                         in tm_Truncate t l x [] @ boxLines ! nat (int i - y) @ tm_TruncateLeft t l (x + bw) []
                    else l) (enumerate 0 lines)) newline)"

definition view_body :: "terminal \<Rightarrow> Sources \<Rightarrow> Model \<Rightarrow> (Model \<times> string) option" where
  "view_body t src m =
     (case u_screen m of
        scrDetail \<Rightarrow>
          (case selected m of
             Some d \<Rightarrow> viewDetail t src m d
           | None \<Rightarrow> let m = m\<lparr>u_screen := scrDashboard\<rparr> in map_option (Pair m) (viewDashboard t src m))
      | scrAlerts \<Rightarrow> viewAlerts t src m
      | scrStatus \<Rightarrow> viewStatus t src m
      | scrLog \<Rightarrow> viewLog t src m
      | scrDashboard \<Rightarrow> map_option (Pair m) (viewDashboard t src m))"

text \<open>The model after drawing, and the content of the window.\<close>

definition View :: "terminal \<Rightarrow> Sources \<Rightarrow> Model \<Rightarrow> (Model \<times> string) option" where
  "View t src m =
     do {
       mb \<leftarrow> view_body t src m;
       let (m, body) = mb;
       c \<leftarrow> canvas t m (if u_help m then overlay t m body (viewHelp t) else body);
       Some (m, c)
     }"

end
