(* ===== verification/Tui_Properties.thy ===== *)
theory Tui_Properties
  imports Tui_Detail
begin

text \<open>
  The properties of the terminal interface: its state along every run, the table of machines
  and its selection, and that what is drawn fits the window.
\<close>

section \<open>Panics\<close>

lemma box_panics: "box t content w left right hot = None \<longleftrightarrow> w < 2"
  by (simp add: box_def Let_def)

lemma go_slice_None: "go_slice xs a b = None \<longleftrightarrow> \<not> (0 \<le> a \<and> a \<le> b \<and> b \<le> int (length xs))"
  by (simp add: go_slice_def)

lemma scrollLines_panics:
  assumes "0 \<le> scroll"
  shows "scrollLines lines scroll rows = None \<longleftrightarrow> rows < 0"
proof (cases "rows < 0")
  case True
  then show ?thesis by (auto simp: scrollLines_def Let_def bind_eq_None_conv go_slice_def split: if_splits)
next
  case False
  then have "min scroll (max (int (length lines) - rows) 0) \<le> int (length lines)" by linarith
  then show ?thesis using False assms by (auto simp: scrollLines_def Let_def bind_eq_None_conv go_slice_def split: if_splits)
qed

lemma scrollLines_scroll: "scrollLines lines scroll rows = Some (s, ls) \<Longrightarrow> 0 \<le> scroll \<Longrightarrow> 0 \<le> s"
  by (auto simp: scrollLines_def Let_def bind_eq_Some_conv go_slice_def split: if_splits)

lemma log_window_panics:
  assumes "0 \<le> scroll"
  shows "log_window lines scroll rows = None \<longleftrightarrow> rows < 0"
  using assms by (auto simp: log_window_def Let_def bind_eq_None_conv go_slice_def split: if_splits)

lemma log_window_scroll: "log_window lines scroll rows = Some (s, ls) \<Longrightarrow> 0 \<le> scroll \<Longrightarrow> 0 \<le> s"
  by (auto simp: log_window_def Let_def bind_eq_Some_conv go_slice_def split: if_splits)

text \<open>The rows a screen with a scrolled text leaves for it.\<close>

definition text_rows :: "terminal \<Rightarrow> Sources \<Rightarrow> Model \<Rightarrow> int" where
  "text_rows t src m =
     (let rest = (\<lambda>keys. u_height m - tm_Height t (viewHeader t src m) - tm_Height t (viewFooter t m keys) - 2)
      in case u_screen m of
           scrStatus \<Rightarrow> rest [(arrow_up @ arrow_down, ''scroll''), (''esc'', ''back''), (''?'', ''help'')]
         | scrLog \<Rightarrow> rest [(arrow_up @ arrow_down, ''scroll''), (''esc'', ''back'')]
         | scrDetail \<Rightarrow> if selected m = None then 0 else rest [(rune3 0xE2 0x86 0x90 @ arrow @ ''/1-9'', ''tab''), (''esc'', ''back''),
             (arrow_up @ arrow_down, ''scroll''), (''a'', ''alerts''), (''p'', ''probes''), (''?'', ''help'')] - 1
         | _ \<Rightarrow> 0)"

lemma viewDashboard_panics: "viewDashboard t src m = None \<longleftrightarrow> u_width m < 2"
  by (auto simp: viewDashboard_def viewVMTable_def viewAlertPane_def Let_def bind_eq_None_conv box_panics)

lemma viewAlerts_panics: "viewAlerts t src m = None \<longleftrightarrow> u_width m < 2"
  by (auto simp: viewAlerts_def Let_def bind_eq_None_conv box_panics)

lemma viewStatus_panics: "0 \<le> u_scroll m \<Longrightarrow> u_screen m = scrStatus \<Longrightarrow> viewStatus t src m = None \<longleftrightarrow> u_width m < 2 \<or> text_rows t src m < 0"
  by (auto simp: viewStatus_def text_rows_def Let_def bind_eq_None_conv box_panics scrollLines_panics)

lemma viewLog_panics: "0 \<le> u_scroll m \<Longrightarrow> u_screen m = scrLog \<Longrightarrow> viewLog t src m = None \<longleftrightarrow> u_width m < 2 \<or> text_rows t src m < 0"
  by (auto simp: viewLog_def text_rows_def Let_def bind_eq_None_conv box_panics log_window_panics)

lemma viewFooter_tab [simp]: "viewFooter t (m\<lparr>u_tab := x\<rparr>) keys = viewFooter t m keys"
  by (simp add: viewFooter_def)

lemma viewDetail_panics:
  assumes "0 \<le> u_scroll m" and "u_screen m = scrDetail" and "selected m = Some d"
  shows "viewDetail t src m d = None \<longleftrightarrow> u_width m < 2 \<or> text_rows t src m < 0"
  using assms by (auto simp: viewDetail_def text_rows_def Let_def bind_eq_None_conv box_panics scrollLines_panics)

lemma view_body_panics:
  assumes "0 \<le> u_scroll m"
  shows "view_body t src m = None \<longleftrightarrow> u_width m < 2 \<or> text_rows t src m < 0"
proof (cases "u_screen m")
  case scrDashboard
  then show ?thesis by (simp add: view_body_def viewDashboard_panics text_rows_def)
next
  case scrDetail
  then show ?thesis using assms viewDetail_panics[OF assms scrDetail] unfolding view_body_def
    by (cases "selected m") (simp_all add: viewDashboard_panics Let_def text_rows_def)
next
  case scrAlerts
  then show ?thesis by (simp add: view_body_def viewAlerts_panics text_rows_def)
next
  case scrStatus
  then show ?thesis using assms by (simp add: view_body_def viewStatus_panics)
next
  case scrLog
  then show ?thesis using assms by (simp add: view_body_def viewLog_panics)
qed

lemma Split_not_Nil [simp]: "Split s c \<noteq> []"
  by (cases s) (auto split: list.splits)

lemma canvas_panics: "canvas t m body = None \<longleftrightarrow> u_height m < 0"
proof -
  have "0 < int (length (Split body (CHR 0x0A)))" by simp
  then show ?thesis by (auto simp: canvas_def canvas_lines_def Let_def go_slice_None)
qed

section \<open>Drawing keeps the state well formed\<close>

text \<open>Drawing changes no more than the screen and the positions on it.\<close>

definition drawn :: "Model \<Rightarrow> Model \<Rightarrow> bool" where
  "drawn m m' \<longleftrightarrow>
     m' = m\<lparr>u_screen := u_screen m', u_tab := u_tab m', u_alertCursor := u_alertCursor m', u_scroll := u_scroll m'\<rparr> \<and>
     0 \<le> u_tab m' \<and> u_tab m' \<le> u_tab m \<and> 0 \<le> u_alertCursor m' \<and> u_alertCursor m' \<le> u_alertCursor m \<and> 0 \<le> u_scroll m'"

lemma view_body_drawn:
  assumes "view_body t src m = Some (m', body)" and "0 \<le> u_scroll m" "0 \<le> u_alertCursor m" "0 \<le> u_tab m"
  shows "drawn m m'"
proof (cases "u_screen m")
  case scrDashboard
  then show ?thesis using assms by (auto simp: view_body_def drawn_def)
next
  case scrDetail
  show ?thesis
  proof (cases "selected m")
    case None
    then show ?thesis using assms scrDetail by (auto simp: view_body_def drawn_def Let_def)
  next
    case (Some d)
    have "1 \<le> int (length (detailTabs m))" by (simp add: detailTabs_def)
    then show ?thesis using assms scrDetail Some
      by (auto simp: view_body_def viewDetail_def drawn_def Let_def bind_eq_Some_conv scrollLines_scroll)
  qed
next
  case scrAlerts
  then show ?thesis using assms by (auto simp: view_body_def viewAlerts_def drawn_def Let_def bind_eq_Some_conv)
next
  case scrStatus
  then show ?thesis using assms by (auto simp: view_body_def viewStatus_def drawn_def Let_def bind_eq_Some_conv scrollLines_scroll)
next
  case scrLog
  then show ?thesis using assms by (auto simp: view_body_def viewLog_def drawn_def Let_def bind_eq_Some_conv log_window_scroll)
qed

lemma View_Some:
  "View t src m = Some (m', c) \<longleftrightarrow>
    (\<exists>body. view_body t src m = Some (m', body) \<and> canvas t m' (if u_help m' then overlay t m' body (viewHelp t) else body) = Some c)"
  by (auto simp: View_def bind_eq_Some_conv split: prod.splits)

lemma ui_ok_drawn: "ui_ok m \<Longrightarrow> drawn m m' \<Longrightarrow> ui_ok m'"
proof -
  assume m: "ui_ok m" and d: "drawn m m'"
  have eq: "m' = m\<lparr>u_screen := u_screen m', u_tab := u_tab m', u_alertCursor := u_alertCursor m', u_scroll := u_scroll m'\<rparr>"
    using d by (simp only: drawn_def)
  show ?thesis
    by (rule ui_ok_frame[OF m]; (subst eq, simp; fail)?) (use d ui_okD[OF m] in \<open>simp_all add: drawn_def\<close>)
qed

section \<open>The state\<close>

text \<open>The states of the interface: it starts, gets a message or draws itself.\<close>

inductive ui_reachable :: "terminal \<Rightarrow> Model \<Rightarrow> bool" for t where
  start: "ui_reachable t (NewTui src flt)"
| update: "ui_reachable t m \<Longrightarrow> ui_reachable t (fst (Update src msg m))"
| draw: "ui_reachable t m \<Longrightarrow> View t src m = Some (m', c) \<Longrightarrow> ui_reachable t m'"

lemma ui_ok_reachable: "ui_reachable t m \<Longrightarrow> ui_ok m"
proof (induction rule: ui_reachable.induct)
  case (start src flt)
  show ?case by (rule ui_ok_NewTui)
next
  case (update m src msg)
  then show ?case by (intro ui_ok_Update)
next
  case (draw m src m' c)
  then obtain body where "view_body t src m = Some (m', body)" unfolding View_Some by blast
  then show ?case using ui_ok_drawn view_body_drawn ui_okD(3-5) draw.IH by blast
qed

text \<open>Which of two rows may stand above the other.\<close>

definition row_before :: "Model \<Rightarrow> DomainSnapshot \<Rightarrow> DomainSnapshot \<Rightarrow> bool" where
  "row_before m a b \<longleftrightarrow>
     (let (a, b) = (if u_reverse m then (b, a) else (a, b))
      in if u_sort m = SortName then ToLower (d_Name a) \<le> ToLower (d_Name b)
         else view_key (u_sort m) (u_counts m) b \<le> view_key (u_sort m) (u_counts m) a)"

lemma sorted_pairs: "Sorting_Algorithms.sorted c xs \<Longrightarrow> sorted_wrt (\<lambda>a b. compare c a b \<noteq> Greater) xs"
proof (induction rule: sorted_induct)
  case (Cons x xs)
  then show ?case by (simp add: compare.greater_iff_sym_less)
qed simp

lemma view_order_row: "compare (view_order m) a b \<noteq> Greater \<longleftrightarrow> row_before m a b"
  by (cases "u_reverse m"; cases "u_sort m = SortName") (simp_all add: view_order_def row_before_def not_less)

lemma view_order_equiv: "compare (view_order m) a b = Equiv \<longleftrightarrow> row_before m a b \<and> row_before m b a"
  by (cases "u_reverse m"; cases "u_sort m = SortName") (auto simp: view_order_def row_before_def)

text \<open>
  C32: In every state the interface can be in, the cursor is on a row of the table and the
  selected machine is the one of that row (no machine if the table is empty), the table is the
  one for the machines, filter and order in force, and scroll positions and tab are in range.
\<close>

theorem ui_invariant:
  assumes "ui_reachable t m"
  shows "u_visible m = view_of m \<and>
    (if u_visible m = [] then u_cursor m = 0 \<and> u_selID m = []
     else 0 \<le> u_cursor m \<and> u_cursor m < int (length (u_visible m)) \<and> u_selID m = d_ID (u_visible m ! nat (u_cursor m)) \<and> selected m \<noteq> None) \<and>
    0 \<le> u_scroll m \<and> 0 \<le> u_alertCursor m \<and> 0 \<le> u_tab m \<and> u_tab m < 8"
proof -
  note ok = ui_okD[OF ui_ok_reachable[OF assms]]
  have "selected m \<noteq> None" if "u_visible m \<noteq> []"
  proof -
    have "nat (u_cursor m) < length (u_visible m)" "u_selID m = d_ID (u_visible m ! nat (u_cursor m))" using ok(2) that by (auto simp: sel_ok_def)
    then have "u_selID m \<in> d_ID ` set (u_visible m)" by simp
    then have "u_selID m \<in> d_ID ` set (u_doms m)" unfolding ok(1) view_of_def by auto
    then show ?thesis by (auto simp: selected_def find_None_iff)
  qed
  then show ?thesis using ok by (auto simp: sel_ok_def)
qed

text \<open>Two machines, and a terminal whose cells are the bytes of a text.\<close>

definition plain_terminal :: terminal where
  "plain_terminal = \<lparr>tm_Width = (\<lambda>s. int (length s)), tm_Truncate = (\<lambda>s w tail. take (nat w) s), tm_TruncateLeft = (\<lambda>s w tail. drop (nat w) s),
     tm_Render = (\<lambda>_ s. s), tm_Height = (\<lambda>s. 1 + int (count_list s (CHR 0x0A))), tm_JoinVertical = (\<lambda>ls. Join ls newline), tm_Center = (\<lambda>w s. s),
     tm_RoundedBorder = \<lparr>bo_Top = ''-'', bo_Bottom = ''-'', bo_Left = ''|'', bo_Right = ''|'', bo_TopLeft = ''+'', bo_TopRight = ''+'',
       bo_BottomLeft = ''+'', bo_BottomRight = ''+''\<rparr>, tm_Clock = (\<lambda>_. ''12:00:00''), tm_Date = (\<lambda>_. ''2026-01-01 12:00:00'')\<rparr>"

definition ex_machines :: DomainStore where
  "ex_machines = Upsert ''i2'' (\<lambda>d. d\<lparr>d_Name := ''db''\<rparr>) (Upsert ''i1'' (\<lambda>d. d\<lparr>d_Name := ''web''\<rparr>) NewDomainStore)"

definition ex_sources :: Sources where
  "ex_sources = \<lparr>so_Store = ex_machines, so_Alerts = NewEngine DefaultAlerts, so_Config = Default, so_Probes = None, so_EBPF = None, so_Kmsg = None,
     so_Libvirt = None, so_Log = GlobalLogRing, so_now = 0, so_order = id\<rparr>"

definition ex_ui :: Model where
  "ex_ui = NewTui ex_sources []"

lemma ex_ui_reachable: "ui_reachable plain_terminal ex_ui"
  unfolding ex_ui_def by (rule ui_reachable.start)

lemma ex_ui_rows: "map d_ID (u_visible ex_ui) = [''i2'', ''i1'']"
  by code_simp

lemma ex_ui_visible: "u_visible ex_ui \<noteq> []"
  using ex_ui_rows by auto

theorem ui_invariant_witness: "u_visible ex_ui \<noteq> [] \<and> 0 \<le> u_cursor ex_ui \<and> u_selID ex_ui = d_ID (u_visible ex_ui ! nat (u_cursor ex_ui)) \<and> selected ex_ui \<noteq> None"
  using ui_invariant[OF ex_ui_reachable] ex_ui_visible by (simp split: if_splits)

text \<open>
  C33: The table lists exactly the machines whose name or source contains the filter, whatever
  the case of the letters, ordered by the chosen column; machines that are equal there keep
  the order of the store.
\<close>

theorem table_correct:
  assumes "ui_reachable t m"
  shows "mset (u_visible m) = mset (filter (matches_filter (ToLower (u_filter m))) (u_doms m)) \<and>
    sorted_wrt (row_before m) (u_visible m) \<and>
    filter (\<lambda>x. row_before m d x \<and> row_before m x d) (u_visible m) =
      filter (\<lambda>x. row_before m d x \<and> row_before m x d) (filter (matches_filter (ToLower (u_filter m))) (u_doms m))"
proof -
  let ?s = "filter (matches_filter (ToLower (u_filter m))) (u_doms m)"
  have vis: "u_visible m = Sorting_Algorithms.sort (view_order m) ?s"
    using ui_okD(1)[OF ui_ok_reachable[OF assms]] by (simp add: view_of_def)
  have "sorted_wrt (row_before m) (u_visible m)" unfolding vis view_order_row[symmetric] by (rule sorted_pairs) simp
  then show ?thesis using stable_sort[of "view_order m" d ?s] unfolding vis view_order_equiv by simp
qed

text \<open>With the filter ``W'' one of the two machines is left.\<close>

theorem table_correct_witness:
  "mset (u_visible (NewTui ex_sources ''W'')) = mset (filter (matches_filter (ToLower ''W'')) (u_doms (NewTui ex_sources ''W''))) \<and>
   map d_ID (u_visible (NewTui ex_sources ''W'')) = [''i1'']"
proof -
  have "u_filter (NewTui ex_sources ''W'') = ''W''" by (simp add: NewTui_def refresh_def)
  moreover have "map d_ID (u_visible (NewTui ex_sources ''W'')) = [''i1'']" by code_simp
  ultimately show ?thesis using table_correct[OF ui_reachable.start[of plain_terminal ex_sources "''W''"], of zero_snapshot] by simp
qed

text \<open>
  C34: When the interface reads the machines anew, the selection stays on its machine as long
  as that is in the table and else moves to the first row. The screen stays: the details of a
  machine that went away become those of the first row.
\<close>

theorem selection_follows:
  assumes "Update src TickMsg m = (m', cmd)"
  shows "u_screen m' = u_screen m \<and>
    (if u_visible m' = [] then u_selID m' = []
     else if u_selID m \<in> d_ID ` set (u_visible m') then u_selID m' = u_selID m
     else u_selID m' = d_ID (hd (u_visible m'))) \<and>
    (u_visible m' \<noteq> [] \<longrightarrow> (\<exists>d \<in> set (Snapshot (so_order src) (so_Store src)). selected m' = Some d \<and> d_ID d = u_selID m'))"
proof -
  obtain n where m': "m' = applyView n" and n: "u_selID n = u_selID m" "u_screen n = u_screen m" "u_doms n = Snapshot (so_order src) (so_Store src)"
    using assms by (auto simp: Update_def refresh_def)
  have sel: "if u_visible m' = [] then u_selID m' = []
     else if u_selID m \<in> d_ID ` set (u_visible m') then u_selID m' = u_selID m
     else u_selID m' = d_ID (hd (u_visible m'))"
    by (simp add: m' applyView_selID n)
  have "\<exists>d \<in> set (Snapshot (so_order src) (so_Store src)). selected m' = Some d \<and> d_ID d = u_selID m'" if ne: "u_visible m' \<noteq> []"
  proof -
    have "u_selID m' \<in> d_ID ` set (u_visible m')" using sel ne by (auto split: if_splits)
    moreover have "set (u_visible m') \<subseteq> set (u_doms m')" by (auto simp: m' view_of_def)
    ultimately have "\<exists>d \<in> set (u_doms m'). d_ID d = u_selID m'" by auto
    then obtain d where "selected m' = Some d" by (fastforce simp: selected_def find_None_iff)
    then have "d \<in> set (u_doms m')" "d_ID d = u_selID m'" unfolding selected_def find_Some_iff by auto
    then show ?thesis using \<open>selected m' = Some d\<close> n(3) by (auto simp: m')
  qed
  then show ?thesis using sel by (simp add: m' n(2))
qed

text \<open>The details of one of two machines are shown when it goes away: those of the other appear.\<close>

definition ex_left :: Sources where
  "ex_left = ex_sources\<lparr>so_Store := Upsert ''i1'' (\<lambda>d. d\<lparr>d_Name := ''web''\<rparr>) NewDomainStore\<rparr>"

definition ex_detail :: Model where
  "ex_detail = fst (Update ex_sources (KeyPressMsg ''enter'') ex_ui)"

theorem selection_follows_witness:
  "u_screen ex_detail = scrDetail \<and> u_selID ex_detail = ''i2'' \<and>
   (\<exists>m'. fst (Update ex_left TickMsg ex_detail) = m' \<and> u_screen m' = scrDetail \<and> u_selID m' = ''i1'')"
proof -
  have vis: "map d_ID (u_visible (fst (Update ex_left TickMsg ex_detail))) = [''i1'']" by code_simp
  have old: "u_screen ex_detail = scrDetail" "u_selID ex_detail = ''i2''" by code_simp+
  have ids: "d_ID ` set (u_visible (fst (Update ex_left TickMsg ex_detail))) = {''i1''}"
    "u_visible (fst (Update ex_left TickMsg ex_detail)) \<noteq> []" "d_ID (hd (u_visible (fst (Update ex_left TickMsg ex_detail)))) = ''i1''"
    using vis by (auto simp: image_set simp del: set_map)
  show ?thesis using selection_follows[OF prod.collapse[symmetric], of ex_left ex_detail] ids old by simp
qed

text \<open>
  The part of the table that is drawn always contains the selected row, at its position,
  and has at most as many rows as there are.
\<close>

lemma selected_row_shown:
  assumes "ui_reachable t m" and "u_visible m \<noteq> []" and "1 \<le> rows"
  shows "(nat (u_cursor m), u_visible m ! nat (u_cursor m)) \<in> set (vm_window m rows) \<and> d_ID (u_visible m ! nat (u_cursor m)) = u_selID m \<and>
    int (length (vm_window m rows)) \<le> rows \<and>
    (\<exists>k. map fst (vm_window m rows) = [k..<k + length (vm_window m rows)]) \<and> (\<forall>(i, d) \<in> set (vm_window m rows). i < length (u_visible m) \<and> d = u_visible m ! i)"
proof -
  have sel: "0 \<le> u_cursor m" "u_cursor m < int (length (u_visible m))" "u_selID m = d_ID (u_visible m ! nat (u_cursor m))"
    using ui_okD(2)[OF ui_ok_reachable[OF assms(1)]] assms(2) by (auto simp: sel_ok_def)
  let ?e = "enumerate 0 (u_visible m)" and ?c = "nat (u_cursor m)"
  obtain s where s: "s = nat (if rows \<le> u_cursor m then u_cursor m - rows + 1 else 0)" by simp
  have w: "vm_window m rows = take (nat rows) (drop s ?e)" by (simp add: vm_window_def Let_def s)
  have i: "s \<le> ?c" "?c - s < nat rows" "?c < length (u_visible m)" using sel assms(3) by (auto simp: s)
  have "take (nat rows) (drop s ?e) ! (?c - s) = (?c, u_visible m ! ?c)" using i by (simp add: nth_enumerate_eq)
  moreover have "?c - s < length (take (nat rows) (drop s ?e))" using i by simp
  ultimately have "(?c, u_visible m ! ?c) \<in> set (vm_window m rows)" unfolding w by (metis nth_mem)
  moreover have "map fst (vm_window m rows) = [s..<s + length (vm_window m rows)]"
    unfolding w by (rule nth_equalityI) (auto simp: nth_enumerate_eq)
  moreover have "set (vm_window m rows) \<subseteq> set ?e" unfolding w by (meson order_trans set_drop_subset set_take_subset)
  then have "\<forall>(i, d) \<in> set (vm_window m rows). i < length (u_visible m) \<and> d = u_visible m ! i" by (auto simp: in_set_enumerate_eq)
  moreover have "int (length (vm_window m rows)) \<le> rows" using assms(3) by (simp add: w)
  ultimately show ?thesis using sel(3) by auto
qed

section \<open>What is drawn\<close>

text \<open>
  C38: The loop that hides columns ends: it stops by itself after at most one round for each
  column that is visible, however narrow the space, and then the table fits or no column that
  may be hidden is left.
\<close>

theorem shrink_terminates:
  "shrink_rounds (Suc (shown cols)) w cols = Some (shrink w cols) \<and> shown cols \<le> length cols \<and>
   (need (shrink w cols) \<le> w \<or> (\<forall>i < length cols. column_visible (shrink w cols ! i) \<longrightarrow> co_prio (shrink w cols ! i) \<le> 0))"
proof -
  have "find_drop (shrink w cols) = None \<Longrightarrow> i < length cols \<Longrightarrow> column_visible (shrink w cols ! i) \<Longrightarrow> co_prio (shrink w cols ! i) \<le> 0" for i
    using find_drop_least[of i "shrink w cols"] shrunk_shrink[of cols w] by (fastforce simp: shrunk_def)
  then show ?thesis using shrink_rounds_enough[of cols "Suc (shown cols)" w] shrink_enough[of w cols]
    by (auto simp: shown_def)
qed

theorem shrink_terminates_witness: "shrink_rounds 12 20 vm_table = Some (shrink 20 vm_table) \<and> 20 < need (shrink 20 vm_table)"
proof -
  have "shown vm_table = 11" by code_simp
  moreover have "shrink_rounds 12 20 vm_table \<noteq> None \<and> 20 < need (the (shrink_rounds 12 20 vm_table))" by code_simp
  ultimately show ?thesis using shrink_terminates[of vm_table 20] by (simp add: numeral_eq_Suc)
qed

text \<open>
  C39: When the space is at least what the columns that must stay need (\<open>fixed_need cols \<le> w\<close>;
  without it the rows are wider than the space), laying out a table hides columns only where
  their priority allows it and the less important ones first, keeps every column that must
  stay, and the row it makes is no wider than the space, whatever the contents of the cells.
  The columns have widths, weights and limits that are not negative, and the terminal library
  adds up widths and cuts texts to the width asked for.
\<close>

theorem layout_fits:
  assumes "list_all column_ok cols" and "fixed_need cols \<le> w" and "terminal_ok t tx" and "list_all tx cells" and "length cells = length cols"
  shows "length (layout cols w) = length cols \<and> tm_Width t (renderRow t (layout cols w) cells) = row_width (layout cols w) \<and>
    row_width (layout cols w) \<le> w \<and> shrunk cols (shrink w cols) \<and> need (shrink w cols) \<le> w"
proof -
  have len: "length (hand_out n a b cs) = length cs" for n a b cs by (induction n arbitrary: a b cs) (simp_all add: Let_def)
  have l: "length (layout cols w) = length cols" using shrunk_shrink[of cols w] by (simp add: layout_def len Let_def shrunk_def)
  then show ?thesis using layout_width[OF assms(1,2)] renderRow_width[OF assms(3,4)] need_shrink[OF assms(2)] shrunk_shrink assms(5) by simp
qed

lemma plain_terminal_ok: "terminal_ok plain_terminal (\<lambda>_. True)"
  by (auto simp: terminal_ok_def plain_terminal_def spaces_def Repeat_def)

theorem layout_fits_witness:
  "row_width (layout vm_table 60) \<le> 60 \<and> tm_Width plain_terminal (renderRow plain_terminal (layout vm_table 60) (replicate 11 ''some text'')) \<le> 60 \<and>
   shrink 60 vm_table \<noteq> vm_table"
proof -
  have "list_all column_ok vm_table" "fixed_need vm_table \<le> 60" "length vm_table = 11" by code_simp+
  moreover have "need vm_table = 108" by code_simp
  ultimately show ?thesis
    using layout_fits[OF _ _ plain_terminal_ok, of vm_table 60 "replicate 11 ''some text''"] by (auto simp: list_all_iff)
qed

text \<open>
  What is given to the renderer has at most as many lines as the window, each exactly as
  wide as the window.
\<close>

lemma canvas_fits:
  assumes "terminal_ok t tx" and "list_all tx (Split body (CHR 0x0A))" and "0 \<le> u_width m" and "0 \<le> u_height m"
  shows "\<exists>lines. canvas_lines t m body = Some lines \<and> int (length lines) \<le> u_height m \<and>
    list_all (\<lambda>l. tm_Width t l = u_width m) lines \<and>
    length lines = min (nat (u_height m)) (length (Split body (CHR 0x0A)))"
proof -
  let ?l = "Split body (CHR 0x0A)" and ?f = "\<lambda>l. fit t l (u_width m)"
  have "list_all (\<lambda>l. tm_Width t l = u_width m) (map ?f ls)" if "set ls \<subseteq> set ?l" for ls
    using fit_width(2)[OF assms(1)] assms(2,3) that by (auto simp: list_all_iff subset_iff)
  then show ?thesis using assms(4) set_take_subset[of "nat (u_height m)" ?l]
    by (auto simp: canvas_lines_def go_slice_def Let_def)
qed

text \<open>
  C37: Drawing fails exactly if the window is narrower than two cells, or if the details of a
  machine, the status or the log are on the screen and the lines around their text leave a
  negative number of rows for it.
\<close>

theorem View_panics:
  assumes "ui_reachable t m" and "0 \<le> u_height m"
  shows "View t src m = None \<longleftrightarrow> u_width m < 2 \<or> text_rows t src m < 0"
proof -
  have scroll: "0 \<le> u_scroll m" "0 \<le> u_alertCursor m" "0 \<le> u_tab m" using ui_okD[OF ui_ok_reachable[OF assms(1)]] by simp_all
  have "u_height m' = u_height m" if "view_body t src m = Some (m', body)" for m' body
  proof -
    have eq: "m' = m\<lparr>u_screen := u_screen m', u_tab := u_tab m', u_alertCursor := u_alertCursor m', u_scroll := u_scroll m'\<rparr>"
      using view_body_drawn[OF that scroll] by (simp only: drawn_def)
    show ?thesis by (subst eq) simp
  qed
  then have "\<exists>k. canvas t m' c = Some k" if "view_body t src m = Some (m', body)" for m' body c
    using that assms(2) canvas_panics[of t m' c] by (metis not_less not_None_eq)
  then have "View t src m = None \<longleftrightarrow> view_body t src m = None"
    unfolding not_Some_eq[symmetric] split_paired_All View_Some by meson
  then show ?thesis using view_body_panics[OF scroll(1)] by simp
qed

text \<open>Four lines are too few for the status screen, 24 are enough.\<close>

definition ex_status :: "int \<Rightarrow> Model" where
  "ex_status h = fst (Update ex_sources (KeyPressMsg ''p'') (fst (Update ex_sources (WindowSizeMsg 80 h) ex_ui)))"

theorem View_panics_witness: "View plain_terminal ex_sources (ex_status 4) = None \<and> View plain_terminal ex_sources (ex_status 24) \<noteq> None"
proof -
  have r: "ui_reachable plain_terminal (ex_status h)" for h
    unfolding ex_status_def by (intro ui_reachable.update ex_ui_reachable)
  have "u_height (ex_status 4) = 4" "u_width (ex_status 4) = 80" "text_rows plain_terminal ex_sources (ex_status 4) = -1"
    "u_height (ex_status 24) = 24" "u_width (ex_status 24) = 80" "text_rows plain_terminal ex_sources (ex_status 24) = 19" by code_simp+
  then show ?thesis using View_panics[OF r[of 4], of ex_sources] View_panics[OF r[of 24], of ex_sources] by simp
qed

end
