(* ===== verification/Metrics.thy ===== *)
theory Metrics
  imports Probes Detect
begin

text \<open>
  \<open>internal/metrics/metrics.go\<close>: what the endpoint exposes at a scrape. A metric is its
  descriptor, kind, value and label values; turning metrics into text is the client library's.
\<close>

section \<open>Descriptors\<close>

definition DefaultListen :: string where
  "DefaultListen = '':9850''"

definition metrics_ns :: string where
  "metrics_ns = ''hyperview''"

record desc =
  de_name :: string
  de_help :: string
  de_labels :: "string list"

definition newDesc :: "string \<Rightarrow> string \<Rightarrow> string list \<Rightarrow> desc" where
  "newDesc name help labels = \<lparr>de_name = metrics_ns @ ''_'' @ name, de_help = help, de_labels = labels\<rparr>"

definition vmLabels :: "string list" where
  "vmLabels = [''domain'', ''id'', ''source'']"

definition withVM :: "string list \<Rightarrow> string list" where
  "withVM extra = vmLabels @ extra"

definition dBuildInfo :: desc where "dBuildInfo = newDesc ''build_info'' ''Build information.'' [''version'']"
definition dEBPF :: desc where "dEBPF = newDesc ''ebpf_enabled'' ''1 when eBPF probes are loaded.'' []"
definition dKmsg :: desc where "dKmsg = newDesc ''kmsg_following'' ''1 when the kernel log is being followed.'' []"
definition dProbe :: desc where "dProbe = newDesc ''probe_attached'' ''1 when the eBPF probe is attached.'' [''feature'', ''probe'', ''state'']"
definition dHostCPU :: desc where "dHostCPU = newDesc ''host_cpu_usage_percent'' ''Host CPU utilization over the last interval.'' []"
definition dHostCPUs :: desc where "dHostCPUs = newDesc ''host_cpus'' ''Online host CPUs.'' []"
definition dHostLoad :: desc where "dHostLoad = newDesc ''host_load1'' ''Host 1-minute load average.'' []"
definition dHostMem :: desc where "dHostMem = newDesc ''host_memory_bytes'' ''Host memory.'' [''kind'']"
definition dHostPSI :: desc where "dHostPSI = newDesc ''host_pressure_avg10_percent'' ''Pressure stall information, avg10.'' [''resource'', ''kind'']"
definition dHostUptime :: desc where "dHostUptime = newDesc ''host_uptime_seconds'' ''Host uptime.'' []"
definition dDiskIOPS :: desc where "dDiskIOPS = newDesc ''host_disk_iops'' ''Completed block requests per second (eBPF).'' [''device'']"
definition dDiskLat :: desc where "dDiskLat = newDesc ''host_disk_request_latency_seconds'' ''Block request latency over the last window (eBPF).'' [''device'', ''stat'']"
definition dDiskErrors :: desc where "dDiskErrors = newDesc ''host_disk_errors_total'' ''Failed block requests since the probes were loaded (eBPF).'' [''device'']"
definition dVMInfo :: desc where "dVMInfo = newDesc ''vm_info'' ''VM metadata; always 1.'' (withVM [''uuid'', ''pid'', ''state'', ''reason''])"
definition dVMRunning :: desc where "dVMRunning = newDesc ''vm_running'' ''1 when the VM is running.'' vmLabels"
definition dVMVCPUs :: desc where "dVMVCPUs = newDesc ''vm_vcpus'' ''Number of vCPUs.'' vmLabels"
definition dVMCPU :: desc where "dVMCPU = newDesc ''vm_cpu_usage_percent'' ''VM CPU usage, 100 per fully used vCPU.'' vmLabels"
definition dVMMem :: desc where "dVMMem = newDesc ''vm_memory_bytes'' ''VM memory by kind (max, balloon, guest_available, guest_usable, guest_unused, host_rss).'' (withVM [''kind''])"
definition dVMSwap :: desc where "dVMSwap = newDesc ''vm_guest_swap_bytes_per_second'' ''Guest swap traffic.'' (withVM [''direction''])"
definition dVMFaults :: desc where "dVMFaults = newDesc ''vm_host_page_faults_per_second'' ''Page faults of the hypervisor process.'' (withVM [''type''])"
definition dVMHugeFail :: desc where "dVMHugeFail = newDesc ''vm_hugetlb_failures_total'' ''Guest hugetlb allocation failures.'' vmLabels"
definition dNetBytes :: desc where "dNetBytes = newDesc ''vm_network_bytes_per_second'' (''Interface throughput from the guest'' @ [CHR 0x27] @ ''s point of view.'') (withVM [''interface'', ''direction''])"
definition dNetPkts :: desc where "dNetPkts = newDesc ''vm_network_packets_per_second'' ''Interface packet rate.'' (withVM [''interface'', ''direction''])"
definition dNetErrs :: desc where "dNetErrs = newDesc ''vm_network_errors_total'' ''Interface errors.'' (withVM [''interface'', ''direction''])"
definition dNetDrops :: desc where "dNetDrops = newDesc ''vm_network_drops_total'' ''Interface drops reported by the hypervisor.'' (withVM [''interface'', ''direction''])"
definition dNetKDrops :: desc where "dNetKDrops = newDesc ''vm_network_kernel_drops_per_second'' ''Packets dropped by the host kernel on the interface (eBPF).'' (withVM [''interface'', ''reason''])"
definition dDiskBytes :: desc where "dDiskBytes = newDesc ''vm_disk_bytes_per_second'' ''Disk throughput.'' (withVM [''device'', ''direction''])"
definition dDiskOps :: desc where "dDiskOps = newDesc ''vm_disk_iops'' ''Disk operations per second.'' (withVM [''device'', ''direction''])"
definition dVMDiskErrs :: desc where "dVMDiskErrs = newDesc ''vm_disk_errors_total'' ''Failed disk operations reported by the hypervisor.'' (withVM [''device''])"
definition dVMBlkLat :: desc where "dVMBlkLat = newDesc ''vm_block_latency_seconds'' ''Latency of block requests issued by the hypervisor process (eBPF).'' (withVM [''stat''])"
definition dExits :: desc where "dExits = newDesc ''vm_kvm_exits_per_second'' ''VM exits by reason (eBPF).'' (withVM [''reason''])"
definition dUExits :: desc where "dUExits = newDesc ''vm_kvm_userspace_exits_per_second'' ''KVM_RUN returns to userspace by KVM_EXIT reason (eBPF).'' (withVM [''reason''])"
definition dKVMRates :: desc where "dKVMRates = newDesc ''vm_kvm_events_per_second'' ''KVM event rates (eBPF).'' (withVM [''event''])"
definition dEmulFail :: desc where "dEmulFail = newDesc ''vm_kvm_emulation_failures_total'' ''Instruction emulation failures (eBPF).'' vmLabels"
definition dVCPUCPU :: desc where "dVCPUCPU = newDesc ''vcpu_cpu_usage_percent'' ''vCPU thread CPU usage.'' (withVM [''vcpu''])"
definition dVCPUExits :: desc where "dVCPUExits = newDesc ''vcpu_kvm_exits_per_second'' ''VM exits per vCPU (eBPF).'' (withVM [''vcpu''])"
definition dVCPURunq :: desc where "dVCPURunq = newDesc ''vcpu_runqueue_latency_seconds'' ''Scheduler run-queue delay of the vCPU thread (eBPF).'' (withVM [''vcpu'', ''stat''])"
definition dMigration :: desc where "dMigration = newDesc ''vm_migration_info'' ''Migration job; always 1 while one is reported.'' (withVM [''operation'', ''status''])"
definition dMigBytes :: desc where "dMigBytes = newDesc ''vm_migration_memory_bytes'' ''Migration memory progress.'' (withVM [''kind''])"
definition dMigRate :: desc where "dMigRate = newDesc ''vm_migration_bandwidth_bytes_per_second'' ''Migration bandwidth.'' vmLabels"
definition dMigDirty :: desc where "dMigDirty = newDesc ''vm_migration_dirty_pages_per_second'' ''Guest page dirtying rate during migration.'' vmLabels"
definition dMigDowntime :: desc where "dMigDowntime = newDesc ''vm_migration_expected_downtime_seconds'' ''Expected downtime of the migration switchover.'' vmLabels"
definition dAlerts :: desc where "dAlerts = newDesc ''alerts_active'' ''Active condition alerts.'' [''severity'', ''category'', ''rule'']"
definition dAlertsTotal :: desc where "dAlertsTotal = newDesc ''alerts_raised_total'' ''Alerts raised since start.'' [''severity'', ''category'', ''rule'']"

section \<open>Metrics\<close>

datatype metric_kind = GaugeValue | CounterValue

record metric =
  mt_desc :: desc
  mt_kind :: metric_kind
  mt_value :: float64
  mt_labels :: "string list"

definition gauge_metric :: "desc \<Rightarrow> float64 \<Rightarrow> string list \<Rightarrow> metric" where
  "gauge_metric d v ls = \<lparr>mt_desc = d, mt_kind = GaugeValue, mt_value = v, mt_labels = ls\<rparr>"

definition counter_metric :: "desc \<Rightarrow> float64 \<Rightarrow> string list \<Rightarrow> metric" where
  "counter_metric d v ls = \<lparr>mt_desc = d, mt_kind = CounterValue, mt_value = v, mt_labels = ls\<rparr>"

definition b2f :: "bool \<Rightarrow> float64" where
  "b2f b = (if b then 1 else 0)"

definition kib :: "uint64 \<Rightarrow> float64" where
  "kib v = float_of_uint64 v * 1024"

definition us :: "float64 \<Rightarrow> float64" where
  "us v = v / 1000000"

text \<open>What the collector reads; a nil function or pointer is \<open>None\<close>.\<close>

record MetricSources =
  ms_Store :: DomainStore
  ms_Alerts :: "Engine option"
  ms_Probes :: "ProbeStatus list option"
  ms_EBPF :: "(bool \<times> string) option"
  ms_Kmsg :: "string option"
  ms_Version :: string

section \<open>The host\<close>

definition source_metrics :: "MetricSources \<Rightarrow> metric list" where
  "source_metrics src =
     [gauge_metric dBuildInfo 1 [ms_Version src]] @
     (case ms_EBPF src of None \<Rightarrow> [] | Some (ok, _) \<Rightarrow> [gauge_metric dEBPF (b2f ok) []]) @
     (case ms_Kmsg src of None \<Rightarrow> [] | Some why \<Rightarrow> [gauge_metric dKmsg (b2f (why = [])) []]) @
     (case ms_Probes src of
        None \<Rightarrow> []
      | Some ps \<Rightarrow> map (\<lambda>p. gauge_metric dProbe (b2f (st_State p = Attached)) [st_Feature p, st_Probe p, ProbeStateString (st_State p)]) ps)"

definition disk_metrics :: "HostDisk \<Rightarrow> metric list" where
  "disk_metrics d =
     [gauge_metric dDiskIOPS (hd_IOPS d) [hd_Name d],
      gauge_metric dDiskLat (us (hd_AvgUs d)) [hd_Name d, ''avg''],
      gauge_metric dDiskLat (us (hd_P99Us d)) [hd_Name d, ''p99''],
      gauge_metric dDiskLat (us (hd_MaxUs d)) [hd_Name d, ''max''],
      counter_metric dDiskErrors (float_of_uint64 (hd_Errors d)) [hd_Name d]]"

definition host_gauges :: "HostStat \<Rightarrow> metric list" where
  "host_gauges h =
     [gauge_metric dHostCPU (ho_CPUPercent h) [],
      gauge_metric dHostCPUs (of_int (ho_CPUs h)) [],
      gauge_metric dHostLoad (ho_Load1 h) [],
      gauge_metric dHostUptime (seconds (ho_Uptime h)) [],
      gauge_metric dHostMem (kib (ho_MemTotalKiB h)) [''total''],
      gauge_metric dHostMem (kib (ho_MemAvailKiB h)) [''available''],
      gauge_metric dHostMem (kib (ho_SwapTotalKiB h)) [''swap_total''],
      gauge_metric dHostMem (kib (ho_SwapFreeKiB h)) [''swap_free'']] @
     (if psi_Available (ho_PSI h)
      then [gauge_metric dHostPSI (psi_CPUSome (ho_PSI h)) [''cpu'', ''some''],
            gauge_metric dHostPSI (psi_MemSome (ho_PSI h)) [''memory'', ''some''],
            gauge_metric dHostPSI (psi_MemFull (ho_PSI h)) [''memory'', ''full''],
            gauge_metric dHostPSI (psi_IOSome (ho_PSI h)) [''io'', ''some''],
            gauge_metric dHostPSI (psi_IOFull (ho_PSI h)) [''io'', ''full'']]
      else [])"

definition host_metrics :: "HostStat \<Rightarrow> metric list" where
  "host_metrics h = host_gauges h @ concat (map disk_metrics (ho_Disks h))"

section \<open>Machines\<close>

definition vm_labels :: "DomainSnapshot \<Rightarrow> string list" where
  "vm_labels d = [d_Name d, d_ID d, d_Source d]"

definition vm_metrics :: "DomainSnapshot \<Rightarrow> metric list" where
  "vm_metrics d =
     [gauge_metric dVMInfo 1 (vm_labels d @ [d_UUID d, show_int (d_PID d), d_State d, d_Reason d]),
      gauge_metric dVMRunning (b2f (Running d)) (vm_labels d),
      gauge_metric dVMVCPUs (of_nat (length (d_VCPUs d))) (vm_labels d),
      gauge_metric dVMCPU (CPUPercent d) (vm_labels d)]"

definition mem_metrics :: "DomainSnapshot \<Rightarrow> metric list" where
  "mem_metrics d =
     (let m = d_Mem d
      in map (\<lambda>(kind, v). gauge_metric dVMMem (kib v) (vm_labels d @ [kind]))
           (filter (\<lambda>(kind, v). 0 < v)
             [(''max'', m_MaxKiB m), (''balloon'', m_BalloonKiB m), (''guest_available'', m_AvailableKiB m),
              (''guest_usable'', m_UsableKiB m), (''guest_unused'', m_UnusedKiB m), (''host_rss'', m_RssKiB m)]) @
         [gauge_metric dVMSwap (m_SwapInRate m * 1024) (vm_labels d @ [''in'']),
          gauge_metric dVMSwap (m_SwapOutRate m * 1024) (vm_labels d @ [''out'']),
          gauge_metric dVMFaults (m_MajorFltRate m) (vm_labels d @ [''major'']),
          gauge_metric dVMFaults (m_MinorFltRate m) (vm_labels d @ [''minor'']),
          counter_metric dVMHugeFail (float_of_uint64 (m_HugetlbFail m)) (vm_labels d)])"

definition iface_metrics :: "string range_order \<Rightarrow> DomainSnapshot \<Rightarrow> IfaceStat \<Rightarrow> metric list" where
  "iface_metrics ord d i =
     (let rx = vm_labels d @ [i_Name i, ''rx'']; tx = vm_labels d @ [i_Name i, ''tx'']
      in [gauge_metric dNetBytes (i_RxBps i) rx, gauge_metric dNetBytes (i_TxBps i) tx,
          gauge_metric dNetPkts (i_RxPps i) rx, gauge_metric dNetPkts (i_TxPps i) tx,
          counter_metric dNetErrs (float_of_uint64 (i_RxErrs i)) rx, counter_metric dNetErrs (float_of_uint64 (i_TxErrs i)) tx,
          counter_metric dNetDrops (float_of_uint64 (i_RxDrops i)) rx, counter_metric dNetDrops (float_of_uint64 (i_TxDrops i)) tx] @
         map (\<lambda>r. gauge_metric dNetKDrops (mget 0 (i_DropReasons i) r) (vm_labels d @ [i_Name i, r])) (ord (mkeys (i_DropReasons i))))"

definition vmdisk_metrics :: "DomainSnapshot \<Rightarrow> DiskStat \<Rightarrow> metric list" where
  "vmdisk_metrics d k =
     [gauge_metric dDiskBytes (k_RdBps k) (vm_labels d @ [k_Dev k, ''read'']),
      gauge_metric dDiskBytes (k_WrBps k) (vm_labels d @ [k_Dev k, ''write'']),
      gauge_metric dDiskOps (k_RdIOPS k) (vm_labels d @ [k_Dev k, ''read'']),
      gauge_metric dDiskOps (k_WrIOPS k) (vm_labels d @ [k_Dev k, ''write''])] @
     (if 0 \<le> k_ErrsTotal k then [counter_metric dVMDiskErrs (of_int (k_ErrsTotal k)) (vm_labels d @ [k_Dev k])] else [])"

definition kvm_metrics :: "string range_order \<Rightarrow> DomainSnapshot \<Rightarrow> metric list" where
  "kvm_metrics ord d =
     (let k = d_KVM d
      in if kvm_Available k
         then [gauge_metric dVMBlkLat (us (d_BlkLatAvgUs d)) (vm_labels d @ [''avg'']),
               gauge_metric dVMBlkLat (us (d_BlkLatP99Us d)) (vm_labels d @ [''p99''])] @
              map (\<lambda>r. gauge_metric dExits (mget 0 (kvm_ExitReasons k) r) (vm_labels d @ [r])) (ord (mkeys (kvm_ExitReasons k))) @
              map (\<lambda>r. gauge_metric dUExits (mget 0 (kvm_UserExits k) r) (vm_labels d @ [r])) (ord (mkeys (kvm_UserExits k))) @
              [gauge_metric dKVMRates (kvm_IRQRate k) (vm_labels d @ [''irq_injection'']),
               gauge_metric dKVMRates (kvm_ExceptionRate k) (vm_labels d @ [''exception_injection'']),
               gauge_metric dKVMRates (kvm_HaltPollRate k) (vm_labels d @ [''halt_poll_success'']),
               gauge_metric dKVMRates (kvm_HaltWaitRate k) (vm_labels d @ [''halt_wait'']),
               counter_metric dEmulFail (float_of_uint64 (kvm_EmulFailTotal k)) (vm_labels d)]
         else [])"

definition vcpu_metrics :: "DomainSnapshot \<Rightarrow> VCPUStat \<Rightarrow> metric list" where
  "vcpu_metrics d v =
     (let idx = show_int (v_Index v)
      in [gauge_metric dVCPUCPU (v_CPUPercent v) (vm_labels d @ [idx])] @
         (if kvm_Available (d_KVM d)
          then [gauge_metric dVCPUExits (v_ExitRate v) (vm_labels d @ [idx]),
                gauge_metric dVCPURunq (us (v_RunqAvgUs v)) (vm_labels d @ [idx, ''avg'']),
                gauge_metric dVCPURunq (us (v_RunqP99Us v)) (vm_labels d @ [idx, ''p99'']),
                gauge_metric dVCPURunq (us (v_RunqMaxUs v)) (vm_labels d @ [idx, ''max''])]
          else []))"

definition migration_metrics :: "DomainSnapshot \<Rightarrow> metric list" where
  "migration_metrics d =
     (case d_Migration d of
        None \<Rightarrow> []
      | Some mg \<Rightarrow>
          [gauge_metric dMigration 1 (vm_labels d @ [mig_Operation mg, mig_Status mg]),
           gauge_metric dMigBytes (float_of_uint64 (mig_MemTotal mg)) (vm_labels d @ [''total'']),
           gauge_metric dMigBytes (float_of_uint64 (mig_MemProcessed mg)) (vm_labels d @ [''processed'']),
           gauge_metric dMigBytes (float_of_uint64 (mig_MemRemaining mg)) (vm_labels d @ [''remaining'']),
           gauge_metric dMigRate (float_of_uint64 (mig_Bps mg)) (vm_labels d),
           gauge_metric dMigDirty (float_of_uint64 (mig_DirtyPageRate mg)) (vm_labels d),
           gauge_metric dMigDowntime (float_of_uint64 (mig_ExpectedDownMs mg) / 1000) (vm_labels d)])"

definition collectVM :: "string range_order \<Rightarrow> DomainSnapshot \<Rightarrow> metric list" where
  "collectVM ord d =
     vm_metrics d @ mem_metrics d @ concat (map (iface_metrics ord d) (d_Ifaces d)) @ concat (map (vmdisk_metrics d) (d_Disks d)) @
     kvm_metrics ord d @ concat (map (vcpu_metrics d) (d_VCPUs d)) @ migration_metrics d"

section \<open>Alerts\<close>

type_synonym alertKey = "string \<times> string \<times> string"

definition alert_key :: "Alert \<Rightarrow> alertKey" where
  "alert_key a = (SeverityString (a_Severity a), CategoryString (a_Category a), a_Rule a)"

definition count_key :: "(alertKey, float64) gomap \<Rightarrow> Alert \<Rightarrow> (alertKey, float64) gomap" where
  "count_key m a = AList.update (alert_key a) (mget 0 m (alert_key a) + 1) m"

text \<open>The collector counts the raises it is told of as a subscriber.\<close>

record MetricsCollector =
  mc_raised :: "(alertKey, float64) gomap"

definition NewMetricsCollector :: "nat \<Rightarrow> Engine \<Rightarrow> MetricsCollector \<times> Engine" where
  "NewMetricsCollector fn e = (\<lparr>mc_raised = []\<rparr>, Subscribe fn e)"

definition on_notice :: "MetricsCollector \<Rightarrow> notice \<Rightarrow> MetricsCollector" where
  "on_notice c n = (if snd n \<noteq> Raised then c else c\<lparr>mc_raised := count_key (mc_raised c) (fst n)\<rparr>)"

definition key_metrics :: "(desc \<Rightarrow> float64 \<Rightarrow> string list \<Rightarrow> metric) \<Rightarrow> desc \<Rightarrow> alertKey range_order \<Rightarrow> (alertKey, float64) gomap \<Rightarrow> metric list" where
  "key_metrics mk d ord m = map (\<lambda>k. case k of (sv, ct, rl) \<Rightarrow> mk d (mget 0 m k) [sv, ct, rl]) (ord (mkeys m))"

definition alert_metrics :: "string range_order \<Rightarrow> alertKey range_order \<Rightarrow> MetricSources \<Rightarrow> MetricsCollector \<Rightarrow> metric list" where
  "alert_metrics ord ordk src c =
     (case ms_Alerts src of
        None \<Rightarrow> []
      | Some e \<Rightarrow> key_metrics gauge_metric dAlerts ordk (foldl count_key [] (Active ord e)) @
                  key_metrics counter_metric dAlertsTotal ordk (mc_raised c))"

definition MetricsCollect :: "string range_order \<Rightarrow> alertKey range_order \<Rightarrow> MetricSources \<Rightarrow> MetricsCollector \<Rightarrow> metric list" where
  "MetricsCollect ord ordk src c =
     source_metrics src @ host_metrics (HostOf (ms_Store src)) @ concat (map (collectVM ord) (Snapshot ord (ms_Store src))) @
     alert_metrics ord ordk src c"

section \<open>Serving\<close>

datatype http_response = MetricsPage | StartPage | NotFound

definition handle_path :: "string \<Rightarrow> http_response" where
  "handle_path path = (if path = ''/metrics'' then MetricsPage else if path \<noteq> ''/'' then NotFound else StartPage)"

text \<open>\<open>Serve\<close> with the results of listening and serving; \<open>None\<close> is no error.\<close>

definition ErrServerClosed :: string where
  "ErrServerClosed = ''http: Server closed''"

definition Serve :: "string option \<Rightarrow> string option \<Rightarrow> string option" where
  "Serve listen serve =
     (case listen of
        Some err \<Rightarrow> Some err
      | None \<Rightarrow> (case serve of Some err \<Rightarrow> if err = ErrServerClosed then None else Some err | None \<Rightarrow> None))"

end
