(* ===== verification/Metrics_Facts.thy ===== *)
theory Metrics_Facts
  imports Metrics Detect_Facts Domain_Loop
begin

text \<open>
  The shape of the exposed metrics: every metric has the kind of its descriptor and a value for
  each of its labels, and no two of a scrape have the same name and label values.
\<close>

section \<open>The schema\<close>

definition metric_schema :: "(desc \<times> metric_kind) list" where
  "metric_schema =
    [(dBuildInfo, GaugeValue), (dEBPF, GaugeValue), (dKmsg, GaugeValue), (dProbe, GaugeValue), (dHostCPU, GaugeValue),
     (dHostCPUs, GaugeValue), (dHostLoad, GaugeValue), (dHostMem, GaugeValue), (dHostPSI, GaugeValue), (dHostUptime, GaugeValue),
     (dDiskIOPS, GaugeValue), (dDiskLat, GaugeValue), (dDiskErrors, CounterValue), (dVMInfo, GaugeValue), (dVMRunning, GaugeValue),
     (dVMVCPUs, GaugeValue), (dVMCPU, GaugeValue), (dVMMem, GaugeValue), (dVMSwap, GaugeValue), (dVMFaults, GaugeValue),
     (dVMHugeFail, CounterValue), (dNetBytes, GaugeValue), (dNetPkts, GaugeValue), (dNetErrs, CounterValue), (dNetDrops, CounterValue),
     (dNetKDrops, GaugeValue), (dDiskBytes, GaugeValue), (dDiskOps, GaugeValue), (dVMDiskErrs, CounterValue), (dVMBlkLat, GaugeValue),
     (dExits, GaugeValue), (dUExits, GaugeValue), (dKVMRates, GaugeValue), (dEmulFail, CounterValue), (dVCPUCPU, GaugeValue),
     (dVCPUExits, GaugeValue), (dVCPURunq, GaugeValue), (dMigration, GaugeValue), (dMigBytes, GaugeValue), (dMigRate, GaugeValue),
     (dMigDirty, GaugeValue), (dMigDowntime, GaugeValue), (dAlerts, GaugeValue), (dAlertsTotal, CounterValue)]"

definition desc_names :: "string list" where
  "desc_names = map (de_name \<circ> fst) metric_schema"

definition name_no :: "string \<Rightarrow> nat" where
  "name_no n = length (takeWhile (\<lambda>x. x \<noteq> n) desc_names)"

definition desc_no :: "desc \<Rightarrow> nat" where
  "desc_no d = name_no (de_name d)"

lemma desc_no [simp]:
  "desc_no dBuildInfo = 0" "desc_no dEBPF = 1" "desc_no dKmsg = 2" "desc_no dProbe = 3"
  "desc_no dHostCPU = 4" "desc_no dHostCPUs = 5" "desc_no dHostLoad = 6" "desc_no dHostMem = 7"
  "desc_no dHostPSI = 8" "desc_no dHostUptime = 9" "desc_no dDiskIOPS = 10" "desc_no dDiskLat = 11"
  "desc_no dDiskErrors = 12" "desc_no dVMInfo = 13" "desc_no dVMRunning = 14" "desc_no dVMVCPUs = 15"
  "desc_no dVMCPU = 16" "desc_no dVMMem = 17" "desc_no dVMSwap = 18" "desc_no dVMFaults = 19"
  "desc_no dVMHugeFail = 20" "desc_no dNetBytes = 21" "desc_no dNetPkts = 22" "desc_no dNetErrs = 23"
  "desc_no dNetDrops = 24" "desc_no dNetKDrops = 25" "desc_no dDiskBytes = 26" "desc_no dDiskOps = 27"
  "desc_no dVMDiskErrs = 28" "desc_no dVMBlkLat = 29" "desc_no dExits = 30" "desc_no dUExits = 31"
  "desc_no dKVMRates = 32" "desc_no dEmulFail = 33" "desc_no dVCPUCPU = 34" "desc_no dVCPUExits = 35"
  "desc_no dVCPURunq = 36" "desc_no dMigration = 37" "desc_no dMigBytes = 38" "desc_no dMigRate = 39"
  "desc_no dMigDirty = 40" "desc_no dMigDowntime = 41" "desc_no dAlerts = 42" "desc_no dAlertsTotal = 43"
  by code_simp+

lemma desc_labels [simp]:
  "length (de_labels dBuildInfo) = 1" "length (de_labels dEBPF) = 0" "length (de_labels dKmsg) = 0" "length (de_labels dProbe) = 3"
  "length (de_labels dHostCPU) = 0" "length (de_labels dHostCPUs) = 0" "length (de_labels dHostLoad) = 0" "length (de_labels dHostMem) = 1"
  "length (de_labels dHostPSI) = 2" "length (de_labels dHostUptime) = 0" "length (de_labels dDiskIOPS) = 1" "length (de_labels dDiskLat) = 2"
  "length (de_labels dDiskErrors) = 1" "length (de_labels dVMInfo) = 7" "length (de_labels dVMRunning) = 3" "length (de_labels dVMVCPUs) = 3"
  "length (de_labels dVMCPU) = 3" "length (de_labels dVMMem) = 4" "length (de_labels dVMSwap) = 4" "length (de_labels dVMFaults) = 4"
  "length (de_labels dVMHugeFail) = 3" "length (de_labels dNetBytes) = 5" "length (de_labels dNetPkts) = 5" "length (de_labels dNetErrs) = 5"
  "length (de_labels dNetDrops) = 5" "length (de_labels dNetKDrops) = 5" "length (de_labels dDiskBytes) = 5" "length (de_labels dDiskOps) = 5"
  "length (de_labels dVMDiskErrs) = 4" "length (de_labels dVMBlkLat) = 4" "length (de_labels dExits) = 4" "length (de_labels dUExits) = 4"
  "length (de_labels dKVMRates) = 4" "length (de_labels dEmulFail) = 3" "length (de_labels dVCPUCPU) = 4" "length (de_labels dVCPUExits) = 4"
  "length (de_labels dVCPURunq) = 5" "length (de_labels dMigration) = 5" "length (de_labels dMigBytes) = 4" "length (de_labels dMigRate) = 3"
  "length (de_labels dMigDirty) = 3" "length (de_labels dMigDowntime) = 3" "length (de_labels dAlerts) = 3" "length (de_labels dAlertsTotal) = 3"
  by code_simp+

lemma distinct_desc_names: "distinct desc_names"
  by code_simp

section \<open>Well-formed metrics\<close>

definition metric_ok :: "metric \<Rightarrow> bool" where
  "metric_ok m \<longleftrightarrow> (mt_desc m, mt_kind m) \<in> set metric_schema \<and> length (mt_labels m) = length (de_labels (mt_desc m))"

lemma metric_ok_gauge: "metric_ok (gauge_metric d v ls) \<longleftrightarrow> (d, GaugeValue) \<in> set metric_schema \<and> length ls = length (de_labels d)"
  by (simp add: metric_ok_def gauge_metric_def)

lemma metric_ok_counter: "metric_ok (counter_metric d v ls) \<longleftrightarrow> (d, CounterValue) \<in> set metric_schema \<and> length ls = length (de_labels d)"
  by (simp add: metric_ok_def counter_metric_def)

lemma schema_gauges [simp]:
  "(dBuildInfo, GaugeValue) \<in> set metric_schema" "(dEBPF, GaugeValue) \<in> set metric_schema" "(dKmsg, GaugeValue) \<in> set metric_schema"
  "(dProbe, GaugeValue) \<in> set metric_schema" "(dHostCPU, GaugeValue) \<in> set metric_schema" "(dHostCPUs, GaugeValue) \<in> set metric_schema"
  "(dHostLoad, GaugeValue) \<in> set metric_schema" "(dHostMem, GaugeValue) \<in> set metric_schema" "(dHostPSI, GaugeValue) \<in> set metric_schema"
  "(dHostUptime, GaugeValue) \<in> set metric_schema" "(dDiskIOPS, GaugeValue) \<in> set metric_schema" "(dDiskLat, GaugeValue) \<in> set metric_schema"
  "(dVMInfo, GaugeValue) \<in> set metric_schema" "(dVMRunning, GaugeValue) \<in> set metric_schema" "(dVMVCPUs, GaugeValue) \<in> set metric_schema"
  "(dVMCPU, GaugeValue) \<in> set metric_schema" "(dVMMem, GaugeValue) \<in> set metric_schema" "(dVMSwap, GaugeValue) \<in> set metric_schema"
  "(dVMFaults, GaugeValue) \<in> set metric_schema" "(dNetBytes, GaugeValue) \<in> set metric_schema" "(dNetPkts, GaugeValue) \<in> set metric_schema"
  "(dNetKDrops, GaugeValue) \<in> set metric_schema" "(dDiskBytes, GaugeValue) \<in> set metric_schema" "(dDiskOps, GaugeValue) \<in> set metric_schema"
  "(dVMBlkLat, GaugeValue) \<in> set metric_schema" "(dExits, GaugeValue) \<in> set metric_schema" "(dUExits, GaugeValue) \<in> set metric_schema"
  "(dKVMRates, GaugeValue) \<in> set metric_schema" "(dVCPUCPU, GaugeValue) \<in> set metric_schema" "(dVCPUExits, GaugeValue) \<in> set metric_schema"
  "(dVCPURunq, GaugeValue) \<in> set metric_schema" "(dMigration, GaugeValue) \<in> set metric_schema" "(dMigBytes, GaugeValue) \<in> set metric_schema"
  "(dMigRate, GaugeValue) \<in> set metric_schema" "(dMigDirty, GaugeValue) \<in> set metric_schema" "(dMigDowntime, GaugeValue) \<in> set metric_schema"
  "(dAlerts, GaugeValue) \<in> set metric_schema"
  by (simp_all add: metric_schema_def)

lemma schema_counters [simp]:
  "(dDiskErrors, CounterValue) \<in> set metric_schema" "(dVMHugeFail, CounterValue) \<in> set metric_schema" "(dNetErrs, CounterValue) \<in> set metric_schema"
  "(dNetDrops, CounterValue) \<in> set metric_schema" "(dVMDiskErrs, CounterValue) \<in> set metric_schema" "(dEmulFail, CounterValue) \<in> set metric_schema"
  "(dAlertsTotal, CounterValue) \<in> set metric_schema"
  by (simp_all add: metric_schema_def)

lemma list_all_concat_map: "list_all P (concat (map f xs)) \<longleftrightarrow> list_all (\<lambda>x. list_all P (f x)) xs"
  by (induction xs) auto

lemma list_all_map_True: "(\<And>x. P (f x)) \<Longrightarrow> list_all P (map f xs)"
  by (induction xs) auto

lemma list_all_True: "list_all (\<lambda>x. True) xs"
  by (induction xs) auto

lemmas metric_ok_simps = metric_ok_gauge metric_ok_counter vm_labels_def list_all_concat_map list_all_map_True list_all_True
  case_prod_beta Let_def

lemma metrics_ok [simp]:
  "list_all metric_ok (source_metrics src)" "list_all metric_ok (host_metrics h)" "list_all metric_ok (vm_metrics d)"
  "list_all metric_ok (mem_metrics d)" "list_all metric_ok (iface_metrics ord d i)" "list_all metric_ok (vmdisk_metrics d k)"
  "list_all metric_ok (kvm_metrics ord d)" "list_all metric_ok (vcpu_metrics d v)" "list_all metric_ok (migration_metrics d)"
  "list_all metric_ok (alert_metrics ord ordk src c)"
  by (simp_all add: source_metrics_def host_metrics_def host_gauges_def disk_metrics_def vm_metrics_def mem_metrics_def iface_metrics_def vmdisk_metrics_def
      kvm_metrics_def vcpu_metrics_def migration_metrics_def alert_metrics_def key_metrics_def metric_ok_simps split: option.split)

lemma ok_MetricsCollect: "list_all metric_ok (MetricsCollect ord ordk src c)"
  by (simp add: MetricsCollect_def collectVM_def list_all_concat_map list_all_True)

section \<open>No metric twice\<close>

definition metric_id :: "metric \<Rightarrow> string \<times> string list" where
  "metric_id m = (de_name (mt_desc m), mt_labels m)"

text \<open>The same with the position of the descriptor for its name.\<close>

definition metric_no :: "metric \<Rightarrow> nat \<times> string list" where
  "metric_no m = (desc_no (mt_desc m), mt_labels m)"

lemma metric_no_simps [simp]:
  "metric_no (gauge_metric d v ls) = (desc_no d, ls)" "metric_no (counter_metric d v ls) = (desc_no d, ls)"
  by (simp_all add: metric_no_def gauge_metric_def counter_metric_def)

lemma distinct_metric_id: "distinct (map metric_no ms) \<Longrightarrow> distinct (map metric_id ms)"
proof -
  have "metric_no = (\<lambda>(n, ls). (name_no n, ls)) \<circ> metric_id" by (auto simp: metric_no_def metric_id_def desc_no_def)
  then show "distinct (map metric_no ms) \<Longrightarrow> distinct (map metric_id ms)" by (metis distinct_map map_map)
qed

lemma distinct_concat_key:
  assumes "\<And>x. x \<in> set xs \<Longrightarrow> distinct (map f (g x))" and "\<And>x m. x \<in> set xs \<Longrightarrow> m \<in> set (g x) \<Longrightarrow> key (f m) = k x" and "distinct (map k xs)"
  shows "distinct (map f (concat (map g xs)))"
  using assms
proof (induction xs)
  case (Cons x xs)
  have "f ` set (g x) \<inter> f ` set (g y) = {}" if "y \<in> set xs" for y
  proof -
    have "k x \<noteq> k y" using Cons.prems(3) that by auto
    moreover have "key a = k x" if "a \<in> f ` set (g x)" for a using Cons.prems(2)[of x] that by auto
    moreover have "key a = k y" if "a \<in> f ` set (g y)" for a using Cons.prems(2)[of y] \<open>y \<in> set xs\<close> that by auto
    ultimately show ?thesis by fastforce
  qed
  then show ?case using Cons by (auto simp: image_Int)
qed simp

lemma distinct_concat_keyD:
  assumes "distinct (map f (concat (map g xs)))" and "\<And>x. \<exists>m \<in> set (g x). f m = c (k x)"
  shows "distinct (map k xs)"
  using assms(1)
proof (induction xs)
  case (Cons x xs)
  have "k x \<noteq> k y" if "y \<in> set xs" for y
  proof
    assume eq: "k x = k y"
    obtain m where "m \<in> set (g x)" "f m = c (k x)" using assms(2) by blast
    moreover obtain n where "n \<in> set (g y)" "f n = c (k x)" using assms(2)[of y] eq by auto
    ultimately have "c (k x) \<in> f ` set (g x) \<inter> f ` (\<Union>y \<in> set xs. set (g y))" using that by (auto simp: image_iff) metis+
    then show False using Cons.prems by auto
  qed
  then show ?case using Cons by auto
qed simp

text \<open>What a snapshot has to be for its metrics to differ.\<close>

definition snapshot_ok :: "DomainSnapshot \<Rightarrow> bool" where
  "snapshot_ok d \<longleftrightarrow> distinct (map i_Name (d_Ifaces d)) \<and> distinct (map k_Dev (d_Disks d)) \<and> distinct (map v_Index (d_VCPUs d)) \<and>
     wf_map (kvm_ExitReasons (d_KVM d)) \<and> wf_map (kvm_UserExits (d_KVM d)) \<and> list_all (\<lambda>i. wf_map (i_DropReasons i)) (d_Ifaces d)"

lemma distinct_keys: "is_order ord \<Longrightarrow> wf_map m \<Longrightarrow> distinct (map (\<lambda>r. (n, xs @ [r])) (ord (mkeys m)))"
  by (simp add: distinct_map is_order_distinct distinct_mkeys inj_on_def)

lemma distinct_iface: "is_order ord \<Longrightarrow> wf_map (i_DropReasons i) \<Longrightarrow> distinct (map metric_no (iface_metrics ord d i))"
  using distinct_keys[of ord "i_DropReasons i" "25 :: nat" "vm_labels d @ [i_Name i]"]
  by (simp add: iface_metrics_def Let_def comp_def image_iff)

lemma distinct_kvm:
  assumes "is_order ord" and "wf_map (kvm_ExitReasons (d_KVM d))" and "wf_map (kvm_UserExits (d_KVM d))"
  shows "distinct (map metric_no (kvm_metrics ord d))"
proof (cases "kvm_Available (d_KVM d)")
  case True
  note dk = distinct_keys[OF assms(1,2), of "30 :: nat" "vm_labels d"] distinct_keys[OF assms(1,3), of "31 :: nat" "vm_labels d"]
  have "A \<inter> B = {}" if "\<forall>a \<in> A. fst a = (30 :: nat)" "\<forall>b \<in> B. fst b = (31 :: nat)" for A B :: "(nat \<times> string list) set" using that by fastforce
  then show ?thesis using True dk by (simp add: kvm_metrics_def Let_def comp_def image_iff)
qed (simp add: kvm_metrics_def)

lemma distinct_vm: "distinct (map metric_no (vm_metrics d))"
  by (simp add: vm_metrics_def)

lemma distinct_vmdisk: "distinct (map metric_no (vmdisk_metrics d k))"
  by (simp add: vmdisk_metrics_def)

lemma distinct_vcpu: "distinct (map metric_no (vcpu_metrics d v))"
  by (cases "kvm_Available (d_KVM d)") (simp_all add: vcpu_metrics_def Let_def)

lemma distinct_migration: "distinct (map metric_no (migration_metrics d))"
  by (simp add: migration_metrics_def split: option.splits)

lemma distinct_mem: "distinct (map metric_no (mem_metrics d))"
  by (simp add: mem_metrics_def Let_def)

text \<open>Each part of a scrape has its own descriptors.\<close>

abbreviation nos :: "metric list \<Rightarrow> nat set" where
  "nos ms \<equiv> (desc_no \<circ> mt_desc) ` set ms"

definition part :: "nat \<Rightarrow> nat \<Rightarrow> metric list \<Rightarrow> bool" where
  "part a b ms \<longleftrightarrow> distinct (map metric_no ms) \<and> nos ms \<subseteq> {a..<b}"

lemma part_append:
  assumes "part a b as" and "part b c bs" and "a \<le> b" "b \<le> c"
  shows "part a c (as @ bs)"
proof -
  have "z \<notin> metric_no ` set bs" if z: "z \<in> metric_no ` set as" for z
  proof
    assume "z \<in> metric_no ` set bs"
    then obtain y where y: "y \<in> set bs" "z = metric_no y" by (rule imageE)
    obtain x where xy: "x \<in> set as" "z = metric_no x" using z by (rule imageE)
    have "desc_no (mt_desc x) < b" "b \<le> desc_no (mt_desc y)" using assms(1,2) xy(1) y(1) unfolding part_def by auto
    then show False using xy(2) y(2) by (simp add: metric_no_def)
  qed
  then have "metric_no ` set as \<inter> metric_no ` set bs = {}" by (simp only: disjoint_iff) simp
  moreover have "nos (as @ bs) \<subseteq> {a..<c}"
  proof -
    have "nos (as @ bs) = nos as \<union> nos bs" by (simp add: image_Un)
    moreover have "{a..<b} \<union> {b..<c} = {a..<c}" using assms(3,4) by auto
    ultimately show ?thesis using Un_mono[of "nos as" "{a..<b}" "nos bs" "{b..<c}"] assms(1,2) by (simp only: part_def)
  qed
  ultimately show ?thesis using assms(1,2) by (simp add: part_def)
qed

lemma desc_metric [simp]: "mt_desc (gauge_metric d v ls) = d" "mt_desc (counter_metric d v ls) = d"
  by (simp_all add: gauge_metric_def counter_metric_def)

lemma nos_concat: "(\<And>x. nos (f x) \<subseteq> A) \<Longrightarrow> nos (concat (map f xs)) \<subseteq> A"
  by (auto simp: image_subset_iff)

lemma nos_parts:
  "nos (source_metrics src) \<subseteq> {0..<4}" "nos (disk_metrics hdk) \<subseteq> {10..<13}" "nos (vm_metrics d) \<subseteq> {13..<17}" "nos (mem_metrics d) \<subseteq> {17..<21}"
  "nos (iface_metrics ord d i) \<subseteq> {21..<26}" "nos (vmdisk_metrics d k) \<subseteq> {26..<29}" "nos (kvm_metrics ord d) \<subseteq> {29..<34}"
  "nos (vcpu_metrics d v) \<subseteq> {34..<37}" "nos (migration_metrics d) \<subseteq> {37..<42}"
  "nos (key_metrics gauge_metric dAlerts ordk ks) \<subseteq> {42..<43}" "nos (key_metrics counter_metric dAlertsTotal ordk ks) \<subseteq> {43..<44}"
  by (auto simp: source_metrics_def disk_metrics_def vm_metrics_def mem_metrics_def iface_metrics_def vmdisk_metrics_def kvm_metrics_def
      vcpu_metrics_def migration_metrics_def key_metrics_def Let_def split: option.splits if_splits)

lemma label_id: "list_all (\<lambda>m. snd (metric_no m) ! 1 = d_ID d) (collectVM ord d)"
  by (simp add: collectVM_def vm_metrics_def mem_metrics_def iface_metrics_def vmdisk_metrics_def kvm_metrics_def vcpu_metrics_def
      migration_metrics_def metric_ok_simps split: option.split)

lemma distinct_ifaces:
  assumes "is_order ord" and "snapshot_ok d"
  shows "distinct (map metric_no (concat (map (iface_metrics ord d) (d_Ifaces d))))"
proof (rule distinct_concat_key[where key = "\<lambda>x. snd x ! 3" and k = i_Name])
  show "distinct (map metric_no (iface_metrics ord d i))" if "i \<in> set (d_Ifaces d)" for i
    using assms that by (intro distinct_iface) (auto simp: snapshot_ok_def list_all_iff)
  show "snd (metric_no m) ! 3 = i_Name i" if "m \<in> set (iface_metrics ord d i)" for i m
    using that by (auto simp: iface_metrics_def Let_def vm_labels_def)
qed (use assms in \<open>simp add: snapshot_ok_def\<close>)

lemma distinct_vmdisks: "snapshot_ok d \<Longrightarrow> distinct (map metric_no (concat (map (vmdisk_metrics d) (d_Disks d))))"
proof (rule distinct_concat_key[where key = "\<lambda>x. snd x ! 3" and k = k_Dev])
  show "snd (metric_no m) ! 3 = k_Dev k" if "m \<in> set (vmdisk_metrics d k)" for k m
    using that by (auto simp: vmdisk_metrics_def vm_labels_def split: if_splits)
qed (simp_all add: snapshot_ok_def distinct_vmdisk)

lemma distinct_vcpus:
  assumes "snapshot_ok d"
  shows "distinct (map metric_no (concat (map (vcpu_metrics d) (d_VCPUs d))))"
proof (rule distinct_concat_key[where key = "\<lambda>x. snd x ! 3" and k = "show_int \<circ> v_Index"])
  show "snd (metric_no m) ! 3 = (show_int \<circ> v_Index) v" if "m \<in> set (vcpu_metrics d v)" for v m
    using that by (auto simp: vcpu_metrics_def Let_def vm_labels_def split: if_splits)
  have "inj show_int" by (rule injI) (rule show_int_inj)
  then show "distinct (map (show_int \<circ> v_Index) (d_VCPUs d))"
    using assms inj_on_subset[of show_int UNIV "v_Index ` set (d_VCPUs d)"] by (simp add: snapshot_ok_def distinct_map flip: map_map)
qed (simp add: distinct_vcpu)

lemma part_collectVM:
  assumes "is_order ord" and "snapshot_ok d"
  shows "part 13 42 (collectVM ord d)"
proof -
  have i: "part 21 26 (concat (map (iface_metrics ord d) (d_Ifaces d)))"
    unfolding part_def by (rule conjI[OF distinct_ifaces[OF assms] nos_concat[OF nos_parts(5)]])
  have k: "part 26 29 (concat (map (vmdisk_metrics d) (d_Disks d)))"
    unfolding part_def by (rule conjI[OF distinct_vmdisks[OF assms(2)] nos_concat[OF nos_parts(6)]])
  have v: "part 34 37 (concat (map (vcpu_metrics d) (d_VCPUs d)))"
    unfolding part_def by (rule conjI[OF distinct_vcpus[OF assms(2)] nos_concat[OF nos_parts(8)]])
  have q: "part 29 34 (kvm_metrics ord d)" using distinct_kvm[OF assms(1)] nos_parts(7) assms(2) by (simp add: part_def snapshot_ok_def)
  have r: "part 13 17 (vm_metrics d)" "part 17 21 (mem_metrics d)" "part 37 42 (migration_metrics d)"
    using nos_parts by (simp_all add: part_def distinct_vm distinct_mem distinct_migration)
  show ?thesis unfolding collectVM_def
    by (intro part_append[OF r(1)] part_append[OF r(2)] part_append[OF i] part_append[OF k] part_append[OF q] part_append[OF v] r(3)) simp_all
qed

text \<open>The parts that describe the host, the sources and the alerts.\<close>

lemma part_host: "distinct (map hd_Name (ho_Disks h)) \<Longrightarrow> part 4 13 (host_metrics h)"
proof -
  assume names: "distinct (map hd_Name (ho_Disks h))"
  let ?d = "concat (map disk_metrics (ho_Disks h))"
  have "distinct (map metric_no ?d)"
  proof (rule distinct_concat_key[where key = "\<lambda>x. snd x ! 0" and k = hd_Name])
    show "snd (metric_no m) ! 0 = hd_Name d" if "m \<in> set (disk_metrics d)" for d m using that by (auto simp: disk_metrics_def)
  qed (simp_all add: names disk_metrics_def)
  then have disks: "part 10 13 ?d" unfolding part_def by (rule conjI[OF _ nos_concat[OF nos_parts(2)]])
  have "part 4 10 (host_gauges h)"
    by (cases "psi_Available (ho_PSI h)") (simp_all add: host_gauges_def part_def)
  from part_append[OF this disks] show ?thesis by (simp add: host_metrics_def)
qed

text \<open>What tells the probes of a scrape apart: the feature, the probe and its state.\<close>

definition probe_labels :: "MetricSources \<Rightarrow> (string \<times> string \<times> string) list" where
  "probe_labels src = (case ms_Probes src of None \<Rightarrow> [] | Some ps \<Rightarrow> map (\<lambda>p. (st_Feature p, st_Probe p, ProbeStateString (st_State p))) ps)"

lemma distinct_source: "distinct (map metric_no (source_metrics src)) \<longleftrightarrow> distinct (probe_labels src)"
proof -
  have "distinct (map (\<lambda>p. (3 :: nat, [st_Feature p, st_Probe p, ProbeStateString (st_State p)])) ps) \<longleftrightarrow>
      distinct (map (\<lambda>p. (st_Feature p, st_Probe p, ProbeStateString (st_State p))) ps)" for ps
    by (induction ps) auto
  then show ?thesis by (auto simp: source_metrics_def probe_labels_def comp_def split: option.splits)
qed

lemma part_source: "distinct (probe_labels src) \<Longrightarrow> part 0 4 (source_metrics src)"
  using nos_parts(1)[of src] by (simp add: part_def distinct_source)

lemma part_keys:
  assumes "is_order ordk" and "wf_map m"
  shows "part 42 43 (key_metrics gauge_metric dAlerts ordk m)" "part 43 44 (key_metrics counter_metric dAlertsTotal ordk m)"
proof -
  have d: "distinct (ordk (mkeys m))" using assms by (simp add: is_order_distinct distinct_mkeys)
  have "distinct (map (\<lambda>k. case k of (sv, ct, rl) \<Rightarrow> (n, [sv, ct, rl])) (ordk (mkeys m)))" for n :: nat
    using d by (auto simp: distinct_map inj_on_def split: prod.splits)
  then show "part 42 43 (key_metrics gauge_metric dAlerts ordk m)" "part 43 44 (key_metrics counter_metric dAlertsTotal ordk m)"
    using nos_parts(10,11)[of ordk m] by (simp_all add: part_def key_metrics_def comp_def case_prod_beta)
qed

section \<open>Counting alerts\<close>

lemma mget_count_key: "mget 0 (foldl count_key m as) k = mget 0 m k + of_nat (length (filter (\<lambda>a. alert_key a = k) as))"
  by (induction "as" arbitrary: m) (simp_all add: count_key_def mget_def map_of_update)

lemma keys_update: "set (mkeys (AList.update k v m)) = insert k (set (mkeys m))"
  by (auto simp: in_mkeys_iff gomap_simps split: if_splits)

lemma keys_count_key: "set (mkeys (foldl count_key m as)) = set (mkeys m) \<union> alert_key ` set as"
  by (induction "as" arbitrary: m) (simp_all add: count_key_def keys_update)

lemma wf_count_key: "wf_map m \<Longrightarrow> wf_map (foldl count_key m as)"
  by (induction "as" arbitrary: m) (simp_all add: count_key_def)

lemma raised_count: "mc_raised (foldl on_notice c ns) = foldl count_key (mc_raised c) (map fst (filter (\<lambda>n. snd n = Raised) ns))"
  by (induction ns arbitrary: c) (simp_all add: on_notice_def)

end
