(* ===== verification/Endpoint_Properties.thy ===== *)
theory Endpoint_Properties
  imports Metrics_Facts Scan
begin

text \<open>The properties of the metrics endpoint.\<close>

section \<open>Duplicates\<close>

lemma distinct_metric_no: "list_all metric_ok ms \<Longrightarrow> distinct (map metric_id ms) \<longleftrightarrow> distinct (map metric_no ms)"
proof
  assume ok: "list_all metric_ok ms" and d: "distinct (map metric_id ms)"
  have name: "desc_names ! desc_no (mt_desc m) = de_name (mt_desc m)" if "m \<in> set ms" for m
  proof -
    have "de_name (mt_desc m) \<in> set desc_names" using ok that by (force simp: list_all_iff metric_ok_def desc_names_def)
    then show ?thesis unfolding desc_no_def name_no_def by (metis (mono_tags, lifting) nth_length_takeWhile takeWhile_eq_all_conv length_takeWhile_le le_neq_implies_less takeWhile_eq_take take_all_iff)
  qed
  have "map metric_id ms = map ((\<lambda>(n, ls). (desc_names ! n, ls)) \<circ> metric_no) ms"
    by (rule map_cong) (simp_all add: metric_id_def metric_no_def name)
  then show "distinct (map metric_no ms)" using d by (metis distinct_map map_map)
qed (rule distinct_metric_id)

text \<open>The names a snapshot has to keep apart; its maps are copies.\<close>

definition names_differ :: "DomainSnapshot \<Rightarrow> bool" where
  "names_differ d \<longleftrightarrow> distinct (map i_Name (d_Ifaces d)) \<and> distinct (map k_Dev (d_Disks d)) \<and> distinct (map v_Index (d_VCPUs d))"

lemma collectVM_names:
  assumes "distinct (map metric_no (collectVM ord d))"
  shows "names_differ d"
proof -
  have "\<exists>m \<in> set (iface_metrics ord d i). metric_no m = (21, vm_labels d @ [i_Name i, ''rx''])" for i by (simp add: iface_metrics_def Let_def)
  then have "distinct (map i_Name (d_Ifaces d))"
    using assms distinct_concat_keyD[of metric_no "iface_metrics ord d" "d_Ifaces d" "\<lambda>n. (21, vm_labels d @ [n, ''rx''])" i_Name]
    by (simp add: collectVM_def)
  moreover have "\<exists>m \<in> set (vmdisk_metrics d k). metric_no m = (26, vm_labels d @ [k_Dev k, ''read''])" for k by (simp add: vmdisk_metrics_def)
  then have "distinct (map k_Dev (d_Disks d))"
    using assms distinct_concat_keyD[of metric_no "vmdisk_metrics d" "d_Disks d" "\<lambda>n. (26, vm_labels d @ [n, ''read''])" k_Dev]
    by (simp add: collectVM_def)
  moreover have "\<exists>m \<in> set (vcpu_metrics d v). metric_no m = (34, vm_labels d @ [show_int (v_Index v)])" for v by (simp add: vcpu_metrics_def Let_def)
  then have "distinct (map v_Index (d_VCPUs d))"
    using assms distinct_concat_keyD[of metric_no "vcpu_metrics d" "d_VCPUs d" "\<lambda>i. (34, vm_labels d @ [show_int i])" v_Index]
    by (simp add: collectVM_def)
  ultimately show ?thesis by (simp add: names_differ_def)
qed

lemma host_names:
  assumes "distinct (map metric_no (host_metrics h))"
  shows "distinct (map hd_Name (ho_Disks h))"
proof -
  have "\<exists>m \<in> set (disk_metrics k). metric_no m = (10, [hd_Name k])" for k by (simp add: disk_metrics_def)
  then show ?thesis using assms distinct_concat_keyD[of metric_no disk_metrics "ho_Disks h" "\<lambda>n. (10, [n])" hd_Name] by (simp add: host_metrics_def)
qed

lemma wf_cloneMap: "wf_map (cloneMap m)"
proof -
  have "wf_map (foldl (\<lambda>c (k, v). AList.update k v c) c m)" if "wf_map c" for c
    using that by (induction m arbitrary: c) auto
  then show ?thesis by (simp add: cloneMap_def)
qed

lemma snapshot_names:
  assumes "is_order ord" and "d \<in> set (Snapshot ord s)"
  shows "snapshot_ok d \<longleftrightarrow> names_differ d"
proof -
  obtain x where "d = clone x" using assms in_Snapshot_iff by blast
  then show ?thesis by (auto simp: names_differ_def snapshot_ok_def clone_def wf_cloneMap list_all_iff)
qed

lemma part_machines:
  assumes "is_order ord" and "distinct (map d_ID ds)" and "\<forall>d \<in> set ds. snapshot_ok d"
  shows "part 13 42 (concat (map (collectVM ord) ds))"
proof -
  have "distinct (map metric_no (concat (map (collectVM ord) ds)))"
  proof (rule distinct_concat_key[where key = "\<lambda>x. snd x ! 1" and k = d_ID])
    show "distinct (map metric_no (collectVM ord d))" if "d \<in> set ds" for d
      using part_collectVM[OF assms(1)] assms(3) that by (simp add: part_def)
    show "snd (metric_no m) ! 1 = d_ID d" if "m \<in> set (collectVM ord d)" for d m
      using label_id[of d ord] that by (simp add: list_all_iff)
  qed (rule assms(2))
  moreover have "nos (collectVM ord d) \<subseteq> {13..<42}" if "d \<in> set ds" for d
    using part_collectVM[OF assms(1)] assms(3) that by (simp add: part_def)
  then have "nos (concat (map (collectVM ord) ds)) \<subseteq> {13..<42}" by fastforce
  ultimately show ?thesis by (simp add: part_def)
qed

lemma raised_wf: "wf_map (mc_raised (foldl on_notice (fst (NewMetricsCollector fn e)) ns))"
  by (simp add: raised_count NewMetricsCollector_def wf_count_key)

lemma part_alerts: "is_order ordk \<Longrightarrow> wf_map (mc_raised c) \<Longrightarrow> part 42 44 (alert_metrics ord ordk src c)"
  by (auto simp: alert_metrics_def wf_count_key part_keys intro!: part_append[where b = 43] split: option.splits)
    (simp add: part_def)

lemma scrape_distinct:
  assumes ord: "is_order ord" "is_order ordk" and ids: "ids_ok (ms_Store src)" and wf: "wf_map (mc_raised c)"
  shows "distinct (map metric_no (MetricsCollect ord ordk src c)) \<longleftrightarrow>
    (\<forall>d \<in> set (Snapshot ord (ms_Store src)). names_differ d) \<and> distinct (map hd_Name (ho_Disks (HostOf (ms_Store src)))) \<and> distinct (probe_labels src)"
proof
  assume all: "distinct (map metric_no (MetricsCollect ord ordk src c))"
  then have d: "distinct (concat (map (map metric_no \<circ> collectVM ord) (Snapshot ord (ms_Store src))))"
    by (simp add: MetricsCollect_def map_concat)
  have "\<forall>d \<in> set (Snapshot ord (ms_Store src)). names_differ d"
  proof
    fix x assume "x \<in> set (Snapshot ord (ms_Store src))"
    then have "distinct (map metric_no (collectVM ord x))" using d by (auto simp: distinct_concat_iff)
    then show "names_differ x" by (rule collectVM_names)
  qed
  moreover have "distinct (map metric_no (source_metrics src))" "distinct (map metric_no (host_metrics (HostOf (ms_Store src))))"
    using all by (simp_all add: MetricsCollect_def)
  ultimately show "(\<forall>d \<in> set (Snapshot ord (ms_Store src)). names_differ d) \<and> distinct (map hd_Name (ho_Disks (HostOf (ms_Store src)))) \<and>
      distinct (probe_labels src)" using host_names by (simp add: distinct_source)
next
  assume names: "(\<forall>d \<in> set (Snapshot ord (ms_Store src)). names_differ d) \<and> distinct (map hd_Name (ho_Disks (HostOf (ms_Store src)))) \<and>
      distinct (probe_labels src)"
  then have "\<forall>d \<in> set (Snapshot ord (ms_Store src)). snapshot_ok d" using snapshot_names[OF ord(1)] by blast
  then have vms: "part 13 42 (concat (map (collectVM ord) (Snapshot ord (ms_Store src))))"
    by (rule part_machines[OF ord(1) distinct_Snapshot_ids[OF ord(1) ids]])
  have "part 0 44 (MetricsCollect ord ordk src c)" unfolding MetricsCollect_def
    by (intro part_append[OF part_source] part_append[OF part_host] part_append[OF vms] part_alerts ord(2) wf) (use names in simp_all)
  then show "distinct (map metric_no (MetricsCollect ord ordk src c))" by (simp add: part_def)
qed

section \<open>The scrape\<close>

text \<open>
  C35: Every metric of a scrape has the kind and the number of labels its descriptor has, and
  descriptors have different names. No two metrics have the same name and labels, which the
  client library refuses, exactly if each machine has interfaces of different names, disks of
  different devices and vCPUs of different numbers, no two disks of the host have the same
  name, and no two probes have the same feature, name and state.
\<close>

theorem scrape_valid:
  assumes "is_order ord" and "is_order ordk" and "ids_ok (ms_Store src)"
    and "c = foldl on_notice (fst (NewMetricsCollector fn e)) ns"
  shows "(\<forall>m \<in> set (MetricsCollect ord ordk src c).
      (mt_desc m, mt_kind m) \<in> set metric_schema \<and> length (mt_labels m) = length (de_labels (mt_desc m))) \<and>
    distinct (map (de_name \<circ> fst) metric_schema) \<and>
    (distinct (map metric_id (MetricsCollect ord ordk src c)) \<longleftrightarrow>
      (\<forall>d \<in> set (Snapshot ord (ms_Store src)). distinct (map i_Name (d_Ifaces d)) \<and> distinct (map k_Dev (d_Disks d)) \<and> distinct (map v_Index (d_VCPUs d))) \<and>
      distinct (map hd_Name (ho_Disks (HostOf (ms_Store src)))) \<and>
      distinct (case ms_Probes src of None \<Rightarrow> [] | Some ps \<Rightarrow> map (\<lambda>p. (st_Feature p, st_Probe p, ProbeStateString (st_State p))) ps))"
proof -
  note ok = ok_MetricsCollect[of ord ordk src c]
  have "wf_map (mc_raised c)" unfolding assms(4) by (rule raised_wf)
  from scrape_distinct[OF assms(1-3) this] show ?thesis
    using ok distinct_desc_names unfolding distinct_metric_no[OF ok]
    by (simp add: desc_names_def list_all_iff metric_ok_def names_differ_def probe_labels_def)
qed

text \<open>A machine with one tap device, opened once or, with two queues, twice.\<close>

definition ex_tap_iface :: IfaceStat where
  "ex_tap_iface = \<lparr>i_Name = ''tap7'', i_Ifindex = 0, i_RxBps = 0, i_TxBps = 0, i_RxPps = 0, i_TxPps = 0, i_RxErrs = 0, i_TxErrs = 0,
     i_RxDrops = 0, i_TxDrops = 0, i_DropRate = 0, i_KernelDropRate = 0, i_DropReasons = []\<rparr>"

definition ex_scrape :: "nat \<Rightarrow> MetricSources" where
  "ex_scrape queues = \<lparr>ms_Store = Upsert ''i1'' (\<lambda>d. d\<lparr>d_Ifaces := replicate queues ex_tap_iface\<rparr>) NewDomainStore,
     ms_Alerts = None, ms_Probes = None, ms_EBPF = None, ms_Kmsg = None, ms_Version = ''dev''\<rparr>"

lemma ex_scrape_ok:
  "ids_ok (ms_Store (ex_scrape n))" "\<forall>d \<in> set (Snapshot id (ms_Store (ex_scrape n))). d_Disks d = [] \<and> d_VCPUs d = [] \<and> map i_Name (d_Ifaces d) = replicate n ''tap7''"
  "Snapshot id (ms_Store (ex_scrape n)) \<noteq> []" "ho_Disks (HostOf (ms_Store (ex_scrape n))) = []" "ms_Probes (ex_scrape n) = None"
  by (simp_all add: ex_scrape_def ids_ok_Upsert ids_ok_new)
    (simp_all add: Snapshot_def Upsert_def NewDomainStore_def HostOf_def zero_host_def mkeys_def newEntry_def zero_snapshot_def map_filter_simps clone_def
      ex_tap_iface_def Let_def)

theorem scrape_valid_witness:
  "distinct (map metric_id (MetricsCollect id id (ex_scrape 1) (fst (NewMetricsCollector 0 (NewEngine DefaultAlerts))))) \<and>
   \<not> distinct (map metric_id (MetricsCollect id id (ex_scrape 2) (fst (NewMetricsCollector 0 (NewEngine DefaultAlerts)))))"
proof -
  have ord: "is_order id" by (simp add: is_order_def)
  have "distinct (map metric_id (MetricsCollect id id (ex_scrape n) (fst (NewMetricsCollector 0 (NewEngine DefaultAlerts))))) \<longleftrightarrow>
      distinct (replicate n ''tap7'')" for n
  proof -
    obtain d ds where "Snapshot id (ms_Store (ex_scrape n)) = d # ds" using ex_scrape_ok(3)[of n] neq_Nil_conv by metis
    then have "(\<forall>d \<in> set (Snapshot id (ms_Store (ex_scrape n))). distinct (map i_Name (d_Ifaces d)) \<and> distinct (map k_Dev (d_Disks d)) \<and>
        distinct (map v_Index (d_VCPUs d))) \<longleftrightarrow> distinct (replicate n ''tap7'')"
      using ex_scrape_ok(2)[of n] by auto
    then show ?thesis using scrape_valid[OF ord ord ex_scrape_ok(1), of _ 0 "NewEngine DefaultAlerts" "[]" n] ex_scrape_ok(4,5)[of n] by simp
  qed
  then show ?thesis by (simp add: numeral_2_eq_2)
qed

text \<open>
  A process that opens a tap device once per queue has it that often among its taps, and as
  many interfaces of that name are reported for it.
\<close>

lemma inspect_taps:
  assumes "inspect fs rt pid = Some p" and "pf_ReadDir fs (path_join [rt, show_int pid, ''fd'']) = Some fds"
  shows "kp_Taps p = filter (\<lambda>tap. tap \<noteq> []) (map (\<lambda>fd. tapFromFdinfo fs (path_join [path_join [rt, show_int pid], ''fdinfo'', fd]))
    (filter (\<lambda>fd. pf_Readlink fs (path_join [path_join [rt, show_int pid, ''fd''], fd]) = Some ''/dev/net/tun'') fds))"
proof -
  have "kp_Taps (parse_args as q) = kp_Taps q" for "as" q by (induction "as" q rule: parse_args.induct) simp_all
  then have "kp_Taps (parseHypervisorCmdline q) = kp_Taps q" for q by (simp add: parseHypervisorCmdline_def Let_def)
  then show ?thesis using assms by (auto simp: inspect_def Let_def split: if_splits option.splits)
qed

lemma tapStats_names: "map i_Name (fst (run_state (tapStats fs sysNet ident now taps) r)) = taps"
proof -
  have "i_Name (fst (run_state (tapStat fs sysNet ident now tap) r)) = tap" for tap r
    by (simp add: tapStat_def Let_def State_Monad.bind_def split_beta)
  then show ?thesis unfolding tapStats_def by (induction taps arbitrary: r) (simp_all add: State_Monad.bind_def split_beta)
qed

section \<open>Alerts\<close>

lemma mem_key_metrics:
  assumes "is_order ordk"
  shows "gauge_metric d v [sv, ct, rl] \<in> set (key_metrics gauge_metric d ordk m) \<longleftrightarrow> (sv, ct, rl) \<in> set (mkeys m) \<and> v = mget 0 m (sv, ct, rl)"
    "counter_metric d v [sv, ct, rl] \<in> set (key_metrics counter_metric d ordk m) \<longleftrightarrow> (sv, ct, rl) \<in> set (mkeys m) \<and> v = mget 0 m (sv, ct, rl)"
  by (force simp: key_metrics_def is_order_set[OF assms] gauge_metric_def counter_metric_def image_iff)+

lemma low_numbers:
  "list_all (\<lambda>m. desc_no (mt_desc m) < 42) (source_metrics src @ host_metrics h @ concat (map (collectVM ord) ds))"
  by (simp add: source_metrics_def host_metrics_def host_gauges_def disk_metrics_def collectVM_def vm_metrics_def mem_metrics_def iface_metrics_def
      vmdisk_metrics_def kvm_metrics_def vcpu_metrics_def migration_metrics_def metric_ok_simps split: option.split)

lemma alert_part:
  assumes "42 \<le> desc_no (mt_desc m)"
  shows "m \<in> set (MetricsCollect ord ordk src c) \<longleftrightarrow> m \<in> set (alert_metrics ord ordk src c)"
proof -
  let ?low = "source_metrics src @ host_metrics (HostOf (ms_Store src)) @ concat (map (collectVM ord) (Snapshot ord (ms_Store src)))"
  have "m \<notin> set ?low" using low_numbers[of src "HostOf (ms_Store src)" ord "Snapshot ord (ms_Store src)"] assms
    unfolding list_all_iff by (meson not_less)
  moreover have "MetricsCollect ord ordk src c = ?low @ alert_metrics ord ordk src c" by (simp add: MetricsCollect_def)
  ultimately show ?thesis by (simp only: set_append Un_iff simp_thms)
qed

text \<open>
  C36: The scrape reports for every severity, category and rule with an active alert how many
  alerts are active, and for every one with an announced raise how many raises were announced
  since the collector subscribed, and nothing for the others.
\<close>

theorem alerts_counted:
  assumes "is_order ordk" and "ms_Alerts src = Some e" and "c = foldl on_notice (fst (NewMetricsCollector fn e0)) ns"
  shows "(gauge_metric dAlerts v [sv, ct, rl] \<in> set (MetricsCollect ord ordk src c) \<longleftrightarrow>
      0 < v \<and> v = of_nat (length (filter (\<lambda>a. alert_key a = (sv, ct, rl)) (Active ord e)))) \<and>
    (counter_metric dAlertsTotal v [sv, ct, rl] \<in> set (MetricsCollect ord ordk src c) \<longleftrightarrow>
      0 < v \<and> v = of_nat (length (filter (\<lambda>n. snd n = Raised \<and> alert_key (fst n) = (sv, ct, rl)) ns)))"
proof -
  have r: "mc_raised c = foldl count_key [] (map fst (filter (\<lambda>n. snd n = Raised) ns))"
    unfolding assms(3) raised_count by (simp add: NewMetricsCollector_def)
  have other: "gauge_metric dAlerts v ls \<notin> set (key_metrics counter_metric d ordk m)" "counter_metric dAlertsTotal v ls \<notin> set (key_metrics gauge_metric d ordk m)"
    for ls d m by (auto simp: key_metrics_def gauge_metric_def counter_metric_def split: prod.splits)
  have pos: "k \<in> alert_key ` set as \<and> v = of_nat (length (filter (\<lambda>a. alert_key a = k) as)) \<longleftrightarrow>
      0 < v \<and> v = of_nat (length (filter (\<lambda>a. alert_key a = k) as))" for k "as"
    by (auto simp: filter_empty_conv)
  have len: "length (filter (\<lambda>a. alert_key a = k) (map fst (filter (\<lambda>n. snd n = Raised) ns))) =
      length (filter (\<lambda>n. snd n = Raised \<and> alert_key (fst n) = k) ns)" for k
    by (simp add: filter_map comp_def conj_commute)
  have count: "set (mkeys (foldl count_key [] as)) = alert_key ` set as"
    "mget 0 (foldl count_key [] as) k = of_nat (length (filter (\<lambda>a. alert_key a = k) as))" for "as" k
    by (simp_all add: keys_count_key mget_count_key) (simp add: mkeys_def)
  let ?act = "key_metrics gauge_metric dAlerts ordk (foldl count_key [] (Active ord e))" and ?tot = "key_metrics counter_metric dAlertsTotal ordk (mc_raised c)"
  have mem: "m \<in> set (MetricsCollect ord ordk src c) \<longleftrightarrow> m \<in> set ?act \<or> m \<in> set ?tot" if "42 \<le> desc_no (mt_desc m)" for m
    unfolding alert_part[OF that] by (simp add: alert_metrics_def assms(2))
  have "gauge_metric dAlerts v [sv, ct, rl] \<in> set (MetricsCollect ord ordk src c) \<longleftrightarrow> gauge_metric dAlerts v [sv, ct, rl] \<in> set ?act"
    "counter_metric dAlertsTotal v [sv, ct, rl] \<in> set (MetricsCollect ord ordk src c) \<longleftrightarrow> counter_metric dAlertsTotal v [sv, ct, rl] \<in> set ?tot"
    using mem other by simp_all
  then show ?thesis
    unfolding mem_key_metrics[OF assms(1)] r count pos unfolding len by (rule conjI)
qed

text \<open>Two notices of a raise and one of its end.\<close>

theorem alerts_counted_witness:
  "counter_metric dAlertsTotal 2 [''critical'', ''io'', ''io.disk_errors''] \<in> set (MetricsCollect id id ((ex_scrape 1)\<lparr>ms_Alerts := Some (NewEngine DefaultAlerts)\<rparr>)
    (foldl on_notice (fst (NewMetricsCollector 0 (NewEngine DefaultAlerts)))
      (map (Pair (zero_alert\<lparr>a_Rule := ''io.disk_errors'', a_Severity := Critical, a_Category := CatIO\<rparr>)) [Raised, Cleared, Raised])))"
proof -
  have "alert_key (zero_alert\<lparr>a_Rule := ''io.disk_errors'', a_Severity := Critical, a_Category := CatIO\<rparr>) = (''critical'', ''io'', ''io.disk_errors'')"
    by (simp add: alert_key_def)
  then show ?thesis
    using alerts_counted[of id "(ex_scrape 1)\<lparr>ms_Alerts := Some (NewEngine DefaultAlerts)\<rparr>" "NewEngine DefaultAlerts" _ 0 "NewEngine DefaultAlerts"
      "map (Pair (zero_alert\<lparr>a_Rule := ''io.disk_errors'', a_Severity := Critical, a_Category := CatIO\<rparr>)) [Raised, Cleared, Raised]"
      2 "''critical''" "''io''" "''io.disk_errors''" id]
    by (simp add: is_order_def)
qed

end
