(* ===== verification/Hyperview.thy ===== *)
theory Hyperview
  imports Metrics Libvirt Scan Qmp Host_Stats Proc Ebpf Kmsg_Rules Sink
begin

text \<open>
  \<open>cmd/hyperview/main.go\<close>: flags, the configuration in force, and the runtime that puts the
  collectors, the poller, the detector and the engine together. What the host answers to the
  collectors during a tick is an argument of the tick.
\<close>

section \<open>Flags and configuration\<close>

definition listen_set :: "string \<Rightarrow> string" where
  "listen_set s = (if s = ''true'' then DefaultListen else if s = ''false'' then [] else s)"

text \<open>\<open>--listen\<close> may be given several times; each call of \<open>Set\<close> replaces the address.\<close>

record flags =
  fl_config :: string
  fl_interval :: duration
  fl_logLevel :: string
  fl_domain :: string
  fl_headless :: bool
  fl_listen :: "string list"

definition listen_addr :: "flags \<Rightarrow> string" where
  "listen_addr fl = foldl (\<lambda>_ s. listen_set s) [] (fl_listen fl)"

definition override :: "flags \<Rightarrow> Config \<Rightarrow> Config" where
  "override fl cfg =
     (let cfg = (if 0 < fl_interval fl then cfg\<lparr>cfg_Interval := fl_interval fl\<rparr> else cfg);
          cfg = (if fl_logLevel fl \<noteq> [] then cfg\<lparr>cfg_LogLevel := fl_logLevel fl\<rparr> else cfg)
      in if listen_addr fl \<noteq> [] then cfg\<lparr>cfg_Listen := listen_addr fl\<rparr> else cfg)"

datatype start_error = BadConfig config_error | UnknownFeature string

definition configure :: "(string \<Rightarrow> Config \<Rightarrow> toml_result) \<Rightarrow> flags \<Rightarrow> start_error + Config" where
  "configure decode fl =
     (case Load decode (fl_config fl) of
        (_, Some err) \<Rightarrow> Inl (BadConfig err)
      | (cfg, None) \<Rightarrow>
          let cfg = override fl cfg
          in (case List.find (\<lambda>f. f \<notin> set AllFeatures) (Config.Probes.Disabled (cfg_Probes cfg)) of
                Some f \<Rightarrow> Inl (UnknownFeature f)
              | None \<Rightarrow> Inr cfg))"

section \<open>Logging\<close>

text \<open>\<open>slog.Level.UnmarshalText\<close>: a name and an optional signed offset.\<close>

definition slog_level :: "string \<Rightarrow> int option" where
  "slog_level s =
     (let name = takeWhile (\<lambda>c. c \<notin> set ''+-'') s; rest = dropWhile (\<lambda>c. c \<notin> set ''+-'') s; low = ToLower name
      in case (if low = ''debug'' then Some (-4) else if low = ''info'' then Some 0 else if low = ''warn'' then Some 4
               else if low = ''error'' then Some 8 else None) of
           None \<Rightarrow> None
         | Some l \<Rightarrow> if rest = [] then Some l else (case Atoi rest of Inl _ \<Rightarrow> None | Inr n \<Rightarrow> Some (l + n)))"

datatype log_output = LogJournal | LogStderr | LogFileAndRing string | LogRing

definition log_dir :: "string \<Rightarrow> string option \<Rightarrow> string" where
  "log_dir temp home =
     (case home of Some h \<Rightarrow> path_join [h, ''.local'', ''share'', ''hyperview''] | None \<Rightarrow> path_join [temp, ''hyperview''])"

text \<open>The level and where records go; \<open>opened\<close> tells whether the log file of a directory could be opened.\<close>

definition setupLogging :: "bool \<Rightarrow> string \<Rightarrow> string option \<Rightarrow> (string \<Rightarrow> bool) \<Rightarrow> string \<Rightarrow> bool \<Rightarrow> int \<times> log_output" where
  "setupLogging journald temp home opened levelName headless =
     (let level = (case slog_level levelName of Some l \<Rightarrow> l | None \<Rightarrow> 0);
          dir = log_dir temp home
      in (level, if headless then (if journald then LogJournal else LogStderr)
                 else if opened dir then LogFileAndRing (path_join [dir, ''hyperview.log'']) else LogRing))"

section \<open>What the host answers\<close>

text \<open>
  For each collector its own readings. The polls of QEMU monitors that ended since the last
  tick come first, with their answers; \<open>hx_answer\<close> is the answer to the polls a tick waits for.
\<close>

record host_answers =
  hx_libvirt :: "procfs \<times> daemon \<times> gtime"
  hx_scan :: "procfs \<times> gtime"
  hx_ended :: "(target \<times> (string + qmpResult)) list"
  hx_answer :: "target \<Rightarrow> string + qmpResult"
  hx_qmp :: gtime
  hx_host :: host_readings
  hx_proc :: "proc_fs \<times> gtime"
  hx_ebpf :: "ebpf_env \<times> (bpf_maps \<Rightarrow> bpf_maps) \<times> gtime"
  hx_clock :: gtime
  hx_pids :: "int range_order"
  hx_order :: "string range_order"

section \<open>The runtime\<close>

text \<open>
  The state behind the poller; \<open>rw_notices\<close> are the calls of subscribers made so far, whichever
  goroutine made them.
\<close>

record runtime =
  rw_host :: host_answers
  rw_index :: ProcessIndex
  rw_libvirt :: LibvirtCollector
  rw_scan :: ScanCollector
  rw_qmp :: QMPCollector
  rw_hostColl :: HostCollector
  rw_proc :: ProcCollector
  rw_ebpf :: EBPFCollector
  rw_probes :: "LoadedProbes option"
  rw_loadErr :: "load_error option"
  rw_detector :: Detector
  rw_engine :: Engine
  rw_notices :: "(nat \<times> notice) list"
  rw_kmsgState :: string
  rw_blkNames :: "(uint32, string) gomap"

definition libvirt_source :: "runtime Discoverer" where
  "libvirt_source = \<lparr>co_Name = ''libvirt'',
     co_Collect = (\<lambda>w s.
       let (fs, dm, now) = hx_libvirt (rw_host w);
           ((lc, i, s), err) = LibvirtCollect fs (hx_pids (rw_host w)) dm now (rw_libvirt w, Some (rw_index w), s)
       in (w\<lparr>rw_libvirt := lc, rw_index := (case i of Some i \<Rightarrow> i | None \<Rightarrow> rw_index w)\<rparr>, s, err)),
     co_Close = (\<lambda>w. w\<lparr>rw_libvirt := disconnect (rw_libvirt w)\<rparr>),
     di_Alive = (\<lambda>w. lc_alive (rw_libvirt w))\<rparr>"

definition scan_source :: "runtime Discoverer" where
  "scan_source = \<lparr>co_Name = ''kvmscan'',
     co_Collect = (\<lambda>w s.
       let (fs, now) = hx_scan (rw_host w);
           (sc, i, s) = ScanCollect fs (hx_pids (rw_host w)) (PIDs (rw_libvirt w)) now (rw_scan w, rw_index w, s)
       in (w\<lparr>rw_scan := sc, rw_index := i\<rparr>, s, None)),
     co_Close = (\<lambda>w. w), di_Alive = (\<lambda>w. sc_alive (rw_scan w))\<rparr>"

definition qmp_source :: "runtime Collector" where
  "qmp_source = \<lparr>co_Name = ''qmp'',
     co_Collect = (\<lambda>w s.
       let h = rw_host w;
           ts = qmp_targets (hx_pids h) (hx_order h) (rw_index w) s;
           qc = foldl (\<lambda>c (t, answer). poll t answer c) (rw_qmp w) (hx_ended h);
           (qc, first) = claim_first ts qc;
           qc = foldl (\<lambda>c t. poll t (hx_answer h t) c) qc first;
           (qc, s, started) = collect_apply (hx_qmp h) ts qc s
       in (w\<lparr>rw_qmp := qc\<rparr>, s, None)),
     co_Close = (\<lambda>w. w)\<rparr>"

definition host_source :: "runtime Collector" where
  "host_source = \<lparr>co_Name = ''host'',
     co_Collect = (\<lambda>w s. let (hc, s) = HostCollect (hx_host (rw_host w)) (rw_hostColl w, s) in (w\<lparr>rw_hostColl := hc\<rparr>, s, None)),
     co_Close = (\<lambda>w. w)\<rparr>"

definition proc_source :: "runtime Collector" where
  "proc_source = \<lparr>co_Name = ''proc'',
     co_Collect = (\<lambda>w s.
       let (fs, now) = hx_proc (rw_host w); (pc, s) = ProcCollect fs (hx_order (rw_host w)) now (rw_proc w, s)
       in (w\<lparr>rw_proc := pc\<rparr>, s, None)),
     co_Close = (\<lambda>w. w)\<rparr>"

definition ebpf_source :: "runtime Collector" where
  "ebpf_source = \<lparr>co_Name = ''ebpf'',
     co_Collect = (\<lambda>w s.
       let (e, kern, now) = hx_ebpf (rw_host w); (ec, po, s) = EBPFCollect e kern now (rw_ebpf w, rw_probes w, s)
       in (w\<lparr>rw_ebpf := ec, rw_probes := po\<rparr>, s, None)),
     co_Close = (\<lambda>w. w\<lparr>rw_probes := EBPFClose (rw_probes w)\<rparr>)\<rparr>"

text \<open>
  \<open>NewHostCollector\<close>: the name of the host and what \<open>uname\<close> says, if it answers. It and
  \<open>NewProcCollector\<close> fail if \<open>/proc\<close> cannot be opened.
\<close>

definition NewHostCollector :: "bool \<Rightarrow> string \<Rightarrow> string \<Rightarrow> (string \<times> string) option \<Rightarrow> HostCollector option" where
  "NewHostCollector procOK goarch hostname uname =
     (if procOK
      then let (krn, arch) = (case uname of Some u \<Rightarrow> u | None \<Rightarrow> ([], goarch))
           in Some \<lparr>hc_prevBusy = 0, hc_prevAll = 0, hc_hostname = hostname, hc_kernel = krn, hc_arch = arch\<rparr>
      else None)"

record machine =
  mx_procOK :: bool
  mx_goarch :: string
  mx_hostname :: string
  mx_uname :: "(string \<times> string) option"
  mx_bpf :: bpf_host

definition build :: "machine \<Rightarrow> host_answers \<Rightarrow> Config \<Rightarrow> runtime \<times> runtime Poller" where
  "build mx h cfg =
     (let p = NewPoller NewDomainStore;
          p = Register (IsDiscoverer libvirt_source) p;
          p = Register (IsDiscoverer scan_source) p;
          p = (if qmp_Enabled (cfg_QMP cfg) then Register (IsCollector qmp_source) p else p);
          hc = NewHostCollector (mx_procOK mx) (mx_goarch mx) (mx_hostname mx) (mx_uname mx);
          p = (if hc \<noteq> None then Register (IsCollector host_source) p else p);
          p = (if mx_procOK mx then Register (IsCollector proc_source) p else p);
          (ec, po, err) = OpenEBPF (mx_bpf mx) (ProbeDisabled cfg);
          p = Register (IsCollector ebpf_source) p
      in (\<lparr>rw_host = h, rw_index = NewProcessIndex (5 * second), rw_libvirt = NewLibvirtCollector [], rw_scan = NewScanCollector,
           rw_qmp = NewQMPCollector (qmp_Interval (cfg_QMP cfg)) (qmp_Timeout (cfg_QMP cfg)),
           rw_hostColl = (case hc of Some hc \<Rightarrow> hc | None \<Rightarrow> \<lparr>hc_prevBusy = 0, hc_prevAll = 0, hc_hostname = [], hc_kernel = [], hc_arch = []\<rparr>),
           rw_proc = NewProcCollector, rw_ebpf = ec, rw_probes = po, rw_loadErr = err,
           rw_detector = NewDetector (cfg_Thresholds cfg), rw_engine = NewEngine (cfg_Alerts cfg), rw_notices = [],
           rw_kmsgState = ''disabled in config'', rw_blkNames = []\<rparr>, p))"

section \<open>Event sources and detection\<close>

text \<open>
  \<open>Raise\<close> and \<open>Evaluate\<close> release the engine's mutex and call the subscribers afterwards: a call
  of the engine gives the deliveries that the caller has still to make.
\<close>

type_synonym deliveries = "(nat \<times> notice) list"

definition deliver :: "deliveries \<Rightarrow> runtime \<Rightarrow> runtime" where
  "deliver ds w = w\<lparr>rw_notices := rw_notices w @ ds\<rparr>"

definition raise_call :: "gtime \<Rightarrow> Alert \<Rightarrow> runtime \<Rightarrow> runtime \<times> deliveries" where
  "raise_call clock a w = (let (e, ds) = Raise clock a (rw_engine w) in (w\<lparr>rw_engine := e\<rparr>, ds))"

text \<open>The hook of the detector on its own, with no other goroutine in between.\<close>

definition detect_hook :: "gtime \<Rightarrow> DomainStore \<Rightarrow> runtime \<Rightarrow> runtime" where
  "detect_hook now s w =
     (let ord = hx_order (rw_host w);
          ((d, e), ds) = DetectorRun ord ord ord now (hx_clock (rw_host w)) (HostOf s) (Snapshot ord s) (rw_detector w, rw_engine w)
      in deliver ds (w\<lparr>rw_detector := d, rw_engine := e\<rparr>))"

definition on_kernel_event :: "(string \<Rightarrow> string option) \<Rightarrow> gtime \<Rightarrow> KernelEvent \<Rightarrow> runtime \<Rightarrow> runtime \<times> deliveries" where
  "on_kernel_event read clock ev w =
     (let (names, a, ok) = FromProbeEvent read (rw_blkNames w) (ke_Event ev) (ke_DomainID ev) (ke_DomainName ev);
          w = w\<lparr>rw_blkNames := names\<rparr>
      in if ok then raise_call clock a w else (w, []))"

definition kmsg_lookup :: "procfs \<Rightarrow> string range_order \<Rightarrow> DomainStore \<Rightarrow> PIDLookup" where
  "kmsg_lookup fs ord s pid = (let (d, ok) = DomainByPID fs ord s pid in (d_ID d, d_Name d, ok))"

text \<open>The reader of the kernel log is given by what \<open>kmsg.Open\<close> returned: the time of boot, or the error.\<close>

definition open_kmsg :: "Config \<Rightarrow> string + gtime \<Rightarrow> runtime \<Rightarrow> runtime" where
  "open_kmsg cfg reader w =
     (if kmsg_Enabled (cfg_Kmsg cfg)
      then w\<lparr>rw_kmsgState := (case reader of Inr boot \<Rightarrow> [] | Inl e \<Rightarrow> e)\<rparr> else w)"

definition stop_kmsg :: "follow_end \<Rightarrow> runtime \<Rightarrow> runtime" where
  "stop_kmsg r w = (case r of FollowFailed e \<Rightarrow> w\<lparr>rw_kmsgState := ''stopped: '' @ e\<rparr> | _ \<Rightarrow> w)"

text \<open>\<open>run\<close> up to its goroutines: the hook of the detector is registered.\<close>

definition start_run :: "Config \<Rightarrow> string + gtime \<Rightarrow> runtime \<times> runtime Poller \<Rightarrow> runtime \<times> runtime Poller" where
  "start_run cfg reader x = (let (w, p) = x in (open_kmsg cfg reader w, AfterTick detect_hook p))"

definition tick_once :: "host_answers \<Rightarrow> gtime \<Rightarrow> gtime \<Rightarrow> runtime \<times> runtime Poller \<Rightarrow> runtime \<times> runtime Poller" where
  "tick_once h start now x =
     (let (w, p) = x; (w, p, gone) = Tick (hx_order h) start now (w\<lparr>rw_host := h\<rparr>) p in (w, p))"

section \<open>Subscribers\<close>

datatype alert_sink = SinkJournal | SinkJSON | SinkLog

text \<open>Who is told of the notices: the metrics collector first if there is an endpoint, then the sink of the mode.\<close>

definition headlessSink :: "bool \<Rightarrow> bool \<Rightarrow> alert_sink" where
  "headlessSink journald opened = (if journald \<and> opened then SinkJournal else SinkJSON)"

definition mode_sink :: "flags \<Rightarrow> bool \<Rightarrow> bool \<Rightarrow> alert_sink" where
  "mode_sink fl journald opened = (if fl_headless fl then headlessSink journald opened else SinkLog)"

definition metrics_subscriber :: nat where
  "metrics_subscriber = 0"

definition sink_subscriber :: nat where
  "sink_subscriber = 1"

definition subscribers :: "Config \<Rightarrow> nat list" where
  "subscribers cfg = (if cfg_Listen cfg \<noteq> [] then [metrics_subscriber] else []) @ [sink_subscriber]"

definition subscribe_all :: "Config \<Rightarrow> runtime \<Rightarrow> runtime" where
  "subscribe_all cfg w = w\<lparr>rw_engine := foldl (\<lambda>e n. Subscribe n e) (rw_engine w) (subscribers cfg)\<rparr>"

definition inactive_probes :: "runtime \<Rightarrow> ProbeStatus list" where
  "inactive_probes w =
     (if fst (Enabled (rw_loadErr w)) then filter (\<lambda>st. st_State st \<noteq> Attached) (EBPFStatus (rw_probes w)) else [])"

text \<open>The program until its goroutines run.\<close>

definition start_program :: "machine \<Rightarrow> host_answers \<Rightarrow> Config \<Rightarrow> string + gtime \<Rightarrow> runtime \<times> runtime Poller" where
  "start_program mx h cfg reader =
     (let (w, p) = build mx h cfg in start_run cfg reader (subscribe_all cfg w, p))"

definition close_program :: "runtime \<times> runtime Poller \<Rightarrow> runtime" where
  "close_program x = (let (w, p) = x in ClosePoller w p)"

end
