(* ===== verification/Collection.thy ===== *)
theory Collection
  imports Poller Domain_Loop
begin

text \<open>
  The contract between the poller and the collectors registered with it, and what a tick
  makes of the store when all of them keep it.
\<close>

section \<open>Identities in the store\<close>

lemma domain_ids_latest: "i \<in> domain_ids s \<longleftrightarrow> latest_of s i \<noteq> None"
  by (simp add: domain_ids_def latest_of_def in_mkeys_iff)

lemma domain_ids_Upsert [simp]: "domain_ids (Upsert i f s) = insert i (domain_ids s)"
  by (auto simp: domain_ids_latest latest_of_Upsert split: if_splits)

lemma domain_ids_Mutate [simp]: "domain_ids (fst (Mutate i f s)) = domain_ids s"
  by (auto simp: domain_ids_latest latest_of_Mutate split: if_splits)

lemma domain_ids_MutateHost [simp]: "domain_ids (MutateHost f s) = domain_ids s"
  by (auto simp: domain_ids_latest)

lemma ids_ok_MutateHost [simp]: "ids_ok (MutateHost f s) \<longleftrightarrow> ids_ok s"
  by (simp add: ids_ok_def) (simp add: MutateHost_def)

lemma map_of_commit: "map_of (map (\<lambda>(i, e). (i, f e)) xs) k = map_option f (map_of xs k)"
  by (induction xs) auto

lemma ids_ok_Commit: "ids_ok s \<Longrightarrow> ids_ok (Commit now s)"
proof -
  assume s: "ids_ok s"
  have "map fst (map (\<lambda>(i, e). (i, commit_entry now e)) xs) = map fst xs" for xs :: "(string \<times> domainEntry) list" by (induction xs) auto
  then have wf: "wf_map (st_domains (Commit now s))" using s by (simp add: ids_ok_def wf_map_def Commit_def del: map_map)
  have e: "d_ID (en_latest (commit_entry now e)) = d_ID (en_latest e)" for e by (simp add: commit_entry_def Let_def split_beta)
  have "d_ID d = i" if l: "latest_of (Commit now s) i = Some d" for i d
  proof -
    have "map_of (st_domains (Commit now s)) i = map_option (commit_entry now) (map_of (st_domains s) i)" by (simp add: Commit_def map_of_commit)
    then obtain x where x: "map_of (st_domains s) i = Some x" "d = en_latest (commit_entry now x)" using l by (auto simp: latest_of_def)
    then have "latest_of s i = Some (en_latest x)" by (simp add: latest_of_def)
    then have "d_ID (en_latest x) = i" using s unfolding ids_ok_def by blast
    then show ?thesis unfolding x(2) e .
  qed
  then show ?thesis using wf by (simp add: ids_ok_def)
qed

lemma ids_ok_Retain: "ids_ok s \<Longrightarrow> is_order ord \<Longrightarrow> ids_ok (fst (Retain ord keep s))"
proof -
  assume s: "ids_ok s" and ord: "is_order ord"
  then have wf: "wf_map (st_domains s)" by (simp add: ids_ok_def)
  have "latest_of (fst (Retain ord keep s)) i = Some d \<Longrightarrow> latest_of s i = Some d" for i d
    unfolding latest_of_def Retain_eq(1)[OF wf ord] map_of_mfilter[OF wf] by (simp split: option.splits if_splits)
  then show ?thesis using s wf unfolding ids_ok_def Retain_eq(1)[OF wf ord] by blast
qed

section \<open>The contract\<close>

text \<open>Whatever a discoverer last reported and is still in its grace period is in the store.\<close>

definition tracked :: "'w Discoverer list \<Rightarrow> gtime \<Rightarrow> (string, aliveSet) gomap \<Rightarrow> DomainStore \<Rightarrow> bool" where
  "tracked ds t la s \<longleftrightarrow> (\<forall>d \<in> set ds. in_grace t la (co_Name d) \<subseteq> domain_ids s)"

lemma in_grace_mono: "t \<le> t' \<Longrightarrow> in_grace t' la n \<subseteq> in_grace t la n"
  using time_sub_mono[of t t'] by (auto simp: in_grace_def split: option.splits if_splits intro: order_trans)

text \<open>
  Discoverers have different names, forget no domain and have written every domain they say
  is alive; the other collectors neither add nor remove one. All keep identities.
\<close>

locale collection =
  fixes ds :: "'w Discoverer list" and cs :: "'w Collector list"
  assumes names: "distinct (map co_Name ds)"
    and discovers: "d \<in> set ds \<Longrightarrow> co_Collect d w s = (w', s', err) \<Longrightarrow>
      domain_ids s \<subseteq> domain_ids s' \<and> (err = None \<longrightarrow> set (di_Alive d w') \<subseteq> domain_ids s') \<and>
      (wf_map (st_domains s) \<longrightarrow> wf_map (st_domains s')) \<and> (ids_ok s \<longrightarrow> ids_ok s')"
    and collects: "c \<in> set cs \<Longrightarrow> co_Collect c w s = (w', s', err) \<Longrightarrow> domain_ids s' = domain_ids s \<and> (ids_ok s \<longrightarrow> ids_ok s')"
begin

lemma contract: "\<forall>d \<in> set ds. keeps_wf d" "\<forall>c \<in> set cs. keeps_ids c"
  using discovers collects unfolding keeps_wf_def keeps_ids_def by (metis prod.collapse)+

lemma tracked_discover:
  assumes "d \<in> set ds" and "discover start (w, s, la, al) d = (w', s', la', al')" and "tracked ds start la s"
  shows "tracked ds start la' s'" "ids_ok s \<Longrightarrow> ids_ok s'"
proof -
  obtain w1 s1 err where c: "co_Collect d w s = (w1, s1, err)" by (metis prod_cases3)
  then have w: "w' = w1" "s' = s1" using assms(2) by (auto simp: discover_def Let_def)
  note k = discovers[OF assms(1) c]
  show "ids_ok s \<Longrightarrow> ids_ok s'" using k w by simp
  have "in_grace start la' (co_Name x) \<subseteq> domain_ids s'" if "x \<in> set ds" for x
  proof (cases "co_Name x = co_Name d \<and> err = None")
    case True
    then have "map_of la' (co_Name x) = Some \<lparr>as_ids = di_Alive d w', as_at = start\<rparr>" using discover_alive(2)[OF assms(2)] c by simp
    then show ?thesis using k True w by (auto simp: in_grace_def split: if_splits)
  next
    case False
    then have "map_of la' (co_Name x) = map_of la (co_Name x)" using discover_alive(2)[OF assms(2)] c by auto
    then show ?thesis using assms(3) that k w by (auto simp: tracked_def in_grace_def)
  qed
  then show "tracked ds start la' s'" by (simp add: tracked_def)
qed

lemma tracked_discover_all:
  assumes "set xs \<subseteq> set ds" and "foldl (discover start) (w, s, la, al) xs = (w', s', la', al')" and "tracked ds start la s"
  shows "tracked ds start la' s' \<and> (ids_ok s \<longrightarrow> ids_ok s')"
  using assms
proof (induction xs arbitrary: w s la al)
  case (Cons x xs)
  obtain w1 s1 la1 al1 where one: "discover start (w, s, la, al) x = (w1, s1, la1, al1)" by (metis prod_cases4)
  then have "tracked ds start la1 s1" "ids_ok s \<Longrightarrow> ids_ok s1" using tracked_discover Cons.prems by auto
  then show ?case using Cons one by auto
qed simp

lemma ids_ok_collect_all: "set xs \<subseteq> set cs \<Longrightarrow> ids_ok s \<Longrightarrow> ids_ok (snd (foldl collect_one (w, s) xs))"
proof (induction xs arbitrary: w s)
  case (Cons x xs)
  obtain w1 s1 err where c: "co_Collect x w s = (w1, s1, err)" by (metis prod_cases3)
  then show ?case using collects[OF _ c] Cons by (simp add: collect_one_def)
qed simp

text \<open>A tick leaves exactly the domains some discoverer reported within the grace period.\<close>

lemma tick:
  assumes "Tick ord start now w p = (w', p', gone)" and "is_order ord" and "po_discoverers p = ds" and "set (po_collectors p) \<subseteq> set cs"
    and "ids_ok (po_store p)" and "tracked ds t (po_lastAlive p) (po_store p)" and "t \<le> start"
  shows "ids_ok (po_store p')" and "domain_ids (po_store p') = (\<Union>d \<in> set ds. in_grace start (po_lastAlive p') (co_Name d))"
    and "tracked ds start (po_lastAlive p') (po_store p')"
proof -
  obtain w1 s1 la1 al1 where f: "foldl (discover start) (w, po_store p, po_lastAlive p, []) (po_discoverers p) = (w1, s1, la1, al1)"
    by (metis prod_cases4)
  have "tracked ds start (po_lastAlive p) (po_store p)" using assms(6) in_grace_mono[OF assms(7)] unfolding tracked_def by blast
  from tracked_discover_all[OF _ f this] have s1: "tracked ds start la1 s1" "ids_ok s1" using assms(3,5) by auto
  have "\<forall>d \<in> set (po_discoverers p). keeps_wf d" "\<forall>c \<in> set (po_collectors p). keeps_ids c" using contract assms(3,4) by auto
  note t = Tick_domains[OF assms(1,2) f _ _ this]
  have n: "distinct (map co_Name (po_discoverers p))" "wf_map (st_domains (po_store p))" using names assms(3,5) by (simp_all add: ids_ok_def)
  show d: "domain_ids (po_store p') = (\<Union>d \<in> set ds. in_grace start (po_lastAlive p') (co_Name d))"
    using t(1,3)[OF n] s1(1) assms(3) by (auto simp: tracked_def)
  show "tracked ds start (po_lastAlive p') (po_store p')" using d by (auto simp: tracked_def)
  have "po_store p' = Commit now (snd (foldl collect_one (w1, fst (Retain ord al1 s1)) (po_collectors p)))"
    using assms(1) f by (auto simp: Tick_def Let_def split: prod.splits)
  then show "ids_ok (po_store p')" using ids_ok_Commit ids_ok_collect_all[OF assms(4)] ids_ok_Retain[OF s1(2) assms(2)] by simp
qed

end

end
