(* ===== verification/Hyperview_Facts.thy ===== *)
theory Hyperview_Facts
  imports Hyperview Collection
begin

text \<open>The collectors of the program meet the contract of the poller.\<close>

section \<open>What each collector does to the store\<close>

text \<open>A loop whose steps keep a property of the store keeps it.\<close>

lemma foldl_keeps: "(\<And>a x. P a \<Longrightarrow> P (f a x)) \<Longrightarrow> P a \<Longrightarrow> P (foldl f a xs)"
  by (induction xs arbitrary: a) auto

abbreviation grows :: "DomainStore \<Rightarrow> DomainStore \<Rightarrow> bool" where
  "grows s s' \<equiv> domain_ids s \<subseteq> domain_ids s' \<and> (wf_map (st_domains s) \<longrightarrow> wf_map (st_domains s')) \<and> (ids_ok s \<longrightarrow> ids_ok s')"

abbreviation updates :: "DomainStore \<Rightarrow> DomainStore \<Rightarrow> bool" where
  "updates s s' \<equiv> domain_ids s' = domain_ids s \<and> (ids_ok s \<longrightarrow> ids_ok s')"

lemma grows_Upsert: "(\<And>d. d_ID (f d) = d_ID d) \<Longrightarrow> grows s0 s \<Longrightarrow> grows s0 (Upsert i f s)"
  using ids_ok_Upsert[of s f i] by (auto simp: wf_Upsert)

lemma updates_Mutate: "(\<And>d. d_ID (f d) = d_ID d) \<Longrightarrow> updates s0 s \<Longrightarrow> updates s0 (fst (Mutate i f s))"
  using ids_ok_Mutate[of s f i] by simp

lemma d_ID_updates [simp]:
  "d_ID (mergeLibvirt n d) = d_ID d" "d_ID (scan_update p ifs ks d) = d_ID d" "d_ID (proc_update rss minor major own vt d) = d_ID d"
  "d_ID (ebpf_update drops kvm stats avg p99 d) = d_ID d" "d_ID (apply_result r d) = d_ID d"
  by (simp_all add: mergeLibvirt_def scan_update_def proc_update_def ebpf_update_def apply_result_def Let_def split: option.splits)

definition loop_grows :: "DomainStore \<Rightarrow> libvirt_loop \<Rightarrow> bool" where
  "loop_grows s0 acc \<longleftrightarrow> grows s0 (ll_store acc) \<and> set (ll_alive acc) \<subseteq> domain_ids (ll_store acc)"

lemma libvirt_domain_grows: "loop_grows s0 acc \<Longrightarrow> loop_grows s0 (libvirt_domain fs ord dm now ix acc d)"
proof (cases "lv_GetState dm d = None")
  case True
  then show "loop_grows s0 acc \<Longrightarrow> ?thesis" by (simp add: libvirt_domain_silent loop_grows_def)
next
  case False
  obtain snap where s: "ll_store (libvirt_domain fs ord dm now ix acc d) = Upsert (uuid_of d) (mergeLibvirt snap) (ll_store acc)"
    "ll_alive (libvirt_domain fs ord dm now ix acc d) = ll_alive acc @ [uuid_of d]"
    using libvirt_domain_known[OF False, of fs ord ix now acc] by metis
  assume "loop_grows s0 acc"
  then show ?thesis unfolding loop_grows_def s using grows_Upsert[of "mergeLibvirt snap" s0 "ll_store acc" "uuid_of d"] by auto
qed

lemma libvirt_domains_grows:
  "loop_grows s0 acc \<Longrightarrow> loop_grows s0 (fst (libvirt_domains fs ord dm now ix n acc ds))"
  by (induction fs ord dm now ix n acc ds rule: libvirt_domains.induct) (auto simp: libvirt_domain_grows split: option.splits)

lemma libvirt_domains_start:
  "libvirt_domains fs ord dm now ix n \<lparr>ll_lc = l, ll_alive = [], ll_pids = [], ll_seen = [], ll_store = s\<rparr> ds = (acc, e) \<Longrightarrow> loop_grows s acc"
  using libvirt_domains_grows[of s "\<lparr>ll_lc = l, ll_alive = [], ll_pids = [], ll_seen = [], ll_store = s\<rparr>" fs ord dm now ix n ds]
  by (simp add: loop_grows_def)

lemma LibvirtCollect_grows:
  assumes "LibvirtCollect fs ord dm now (lc, ix, s) = ((lc', ix', s'), err)"
  shows "grows s s' \<and> (err = None \<longrightarrow> set (lc_alive lc') \<subseteq> domain_ids s')"
  using assms unfolding LibvirtCollect_def
  by (auto simp: Let_def loop_grows_def split: prod.splits option.splits sum.splits dest!: libvirt_domains_start)

lemma ScanCollect_grows:
  assumes "ScanCollect fs ord claimed now (sc, i, s) = (sc', i', s')"
  shows "grows s s' \<and> set (sc_alive sc') \<subseteq> domain_ids s'"
proof -
  let ?P = "\<lambda>(c, x). grows s x \<and> set (sc_alive c) \<subseteq> domain_ids x"
  have "?P (scan_process fs now claimed acc p)" if "?P acc" for acc p
  proof -
    obtain c x where acc: "acc = (c, x)" by (cases acc)
    obtain ifs ks r where r: "run_state (scan_stats fs (sc_sysNet c) now p) (sc_rates c) = ((ifs, ks), r)" by (metis prod.collapse)
    show ?thesis using that grows_Upsert[of "scan_update p ifs ks" s x "scan_id p"] by (auto simp: acc scan_process_def r)
  qed
  then have "?P (foldl (scan_process fs now claimed) (sc\<lparr>sc_alive := []\<rparr>, s) (All ord (Refresh fs now i)))" by (rule foldl_keeps) simp_all
  then show ?thesis using assms by (auto simp: ScanCollect_def Let_def split: prod.splits)
qed

lemma proc_domain_updates: "updates s0 (snd acc) \<Longrightarrow> updates s0 (snd (proc_domain fs now acc x))"
  using updates_Mutate[of "proc_update _ _ _ _ _", OF d_ID_updates(3)]
  by (cases "proc_stat fs x") (simp_all add: proc_domain_def split_beta Let_def del: domain_ids_Mutate)

lemma ProcCollect_updates:
  assumes "ProcCollect fs ord now (pc, s) = (pc', s')"
  shows "updates s s'"
proof -
  have "updates s (snd (foldl (proc_domain fs now) ((pc, []), s) (Snapshot ord s)))" using proc_domain_updates by (rule foldl_keeps) simp_all
  then show ?thesis using assms by (auto simp: ProcCollect_def Let_def split: prod.splits)
qed

lemma HostCollect_updates: "HostCollect hr (hc, s) = (hc', s') \<Longrightarrow> updates s s'"
  by (auto simp: HostCollect_def Let_def split: prod.splits)

lemma apply_target_updates: "updates s0 (fst (snd acc)) \<Longrightarrow> updates s0 (fst (snd (apply_target now acc t)))"
  using updates_Mutate[of "apply_result _", OF d_ID_updates(5)]
  by (cases "map_of (qc_results (fst acc)) (fst t)") (simp_all add: apply_target_def split_beta Let_def del: domain_ids_Mutate)

lemma collect_apply_updates:
  assumes "collect_apply now ts c s = (c', s', started)"
  shows "updates s s'"
proof -
  have "updates s (fst (snd (foldl (apply_target now) (c, s, []) ts)))" using apply_target_updates by (rule foldl_keeps) simp_all
  then show ?thesis using assms by (auto simp: collect_apply_def split: prod.splits)
qed

lemma ebpf_domain_updates: "updates s0 (snd acc) \<Longrightarrow> updates s0 (snd (ebpf_domain arch p now drops acc d))"
  using updates_Mutate[of "ebpf_update _ _ _ _ _", OF d_ID_updates(4)] by (simp add: ebpf_domain_def split_beta Let_def del: domain_ids_Mutate)

lemma collectHostDisks_updates: "updates s0 (snd acc) \<Longrightarrow> updates s0 (snd (collectHostDisks rf ord p now acc))"
  by (simp add: collectHostDisks_def split_beta Let_def)

lemma EBPFCollect_updates:
  assumes "EBPFCollect e kern now (ec, po, s) = (ec', po', s')"
  shows "updates s s'"
proof (cases po)
  case None
  then show ?thesis using assms by (simp add: EBPFCollect_def)
next
  case (Some p)
  have "updates s (snd (foldl (ebpf_domain a q now dr) (c, s) ds))" for a q dr c ds using ebpf_domain_updates by (rule foldl_keeps) simp_all
  note k = collectHostDisks_updates[OF this]
  have "s' = snd (snd (EBPFCollect e kern now (ec, po, s)))" by (simp add: assms)
  then show ?thesis using k unfolding Some EBPFCollect_def split_beta Let_def by simp
qed

section \<open>The sources of the program\<close>

lemma source_names [simp]:
  "co_Name libvirt_source = ''libvirt''" "co_Name scan_source = ''kvmscan''"
  by (simp_all add: libvirt_source_def scan_source_def)

interpretation sources: collection "[libvirt_source, scan_source]" "[qmp_source, host_source, proc_source, ebpf_source]"
proof (unfold_locales, goal_cases)
  case 1
  show ?case by simp
next
  case (2 d w s w' s' err)
  consider "d = libvirt_source" | "d = scan_source" using 2(1) by auto
  then show ?case
  proof cases
    case 1
    show ?thesis using 2(2) unfolding 1
      by (auto simp: libvirt_source_def Let_def split: prod.splits dest!: LibvirtCollect_grows)
  next
    case x: 2
    show ?thesis using 2(2) unfolding x
      by (auto simp: scan_source_def Let_def split: prod.splits dest!: ScanCollect_grows)
  qed
next
  case (3 c w s w' s' err)
  consider "c = qmp_source" | "c = host_source" | "c = proc_source" | "c = ebpf_source" using 3(1) by auto
  then show ?case
  proof cases
    case 1
    then show ?thesis using 3(2) by (auto simp: qmp_source_def Let_def split: prod.splits dest!: collect_apply_updates)
  next
    case 2
    then show ?thesis using 3(2) by (auto simp: host_source_def Let_def split: prod.splits dest!: HostCollect_updates)
  next
    case x: 3
    then show ?thesis using 3(2) by (auto simp: proc_source_def Let_def split: prod.splits dest!: ProcCollect_updates)
  next
    case 4
    then show ?thesis using 3(2) by (auto simp: ebpf_source_def Let_def split: prod.splits dest!: EBPFCollect_updates)
  qed
qed

end
