(* ===== verification/Program.thy ===== *)
theory Program
  imports Hyperview_Facts Engine_Run
begin

text \<open>
  Executions of the whole program. A tick of the poller first collects, which leaves the
  alert engine alone, and then the detector calls the engine: once \<open>Evaluate\<close>, then \<open>Raise\<close>
  for each event. Between any two of these calls the readers of kernel events and of the
  kernel log may raise alerts of their own, since only the engine's mutex orders the calls.
  A goroutine delivers the notices of a call after the mutex is released, one by one, and
  before it goes on; the deliveries of different goroutines may overtake each other.
\<close>

section \<open>Steps\<close>

datatype detector_call = PendEvaluate gtime "Sample list" | PendRaise Alert

text \<open>A tick without its hooks, and the calls the hook makes on what was committed.\<close>

definition collect_tick :: "host_answers \<Rightarrow> gtime \<Rightarrow> gtime \<Rightarrow> runtime \<Rightarrow> runtime Poller \<Rightarrow> runtime \<times> runtime Poller" where
  "collect_tick h start now w p =
     (let (w, p', gone) = Tick (hx_order h) start now (w\<lparr>rw_host := h\<rparr>) (p\<lparr>po_afterTick := []\<rparr>)
      in (w, p'\<lparr>po_afterTick := po_afterTick p\<rparr>))"

definition detector_calls :: "gtime \<Rightarrow> DomainStore \<Rightarrow> runtime \<Rightarrow> detector_call list" where
  "detector_calls now s w =
     (let ord = hx_order (rw_host w); doms = Snapshot ord s
      in PendEvaluate now (run_samples ord (rw_detector w) (HostOf s) doms) # map PendRaise (run_events ord (rw_detector w) doms))"

definition detector_seen :: "DomainStore \<Rightarrow> runtime \<Rightarrow> runtime" where
  "detector_seen s w = w\<lparr>rw_detector := (rw_detector w)\<lparr>dt_prev := current_domains (Snapshot (hx_order (rw_host w)) s), dt_primed := True\<rparr>\<rparr>"

definition evaluate_call :: "gtime \<Rightarrow> Sample list \<Rightarrow> runtime \<Rightarrow> runtime \<times> deliveries" where
  "evaluate_call now ss w =
     (let ord = hx_order (rw_host w); (e, ds) = Evaluate ord ord now ss (rw_engine w) in (w\<lparr>rw_engine := e\<rparr>, ds))"

fun detector_call_in :: "gtime \<Rightarrow> detector_call \<Rightarrow> runtime \<Rightarrow> runtime \<times> deliveries" where
  "detector_call_in clock (PendEvaluate now ss) w = evaluate_call now ss w"
| "detector_call_in clock (PendRaise a) w = raise_call clock a w"

fun call_of :: "gtime \<Rightarrow> detector_call \<Rightarrow> call" where
  "call_of clock (PendEvaluate now ss) = CallEvaluate now ss"
| "call_of clock (PendRaise a) = CallRaise clock a"

fun notices_of :: "gtime \<Rightarrow> detector_call \<Rightarrow> runtime \<Rightarrow> notice list" where
  "notices_of clock (PendEvaluate now ss) w = snd (eval_tick (hx_order (rw_host w)) (hx_order (rw_host w)) now ss (rw_engine w))"
| "notices_of clock (PendRaise a) w = snd (raise_event clock a (rw_engine w))"

text \<open>A call whose notices are delivered at once.\<close>

definition call_now :: "gtime \<Rightarrow> runtime \<Rightarrow> detector_call \<Rightarrow> runtime" where
  "call_now clock w c = (let (w, ds) = detector_call_in clock c w in deliver ds w)"

lemma raise_fold:
  "foldl (call_now clock) (deliver ns (w\<lparr>rw_engine := e\<rparr>)) (map PendRaise as) =
   (let (e', ns') = foldl (\<lambda>(e, ns) a. let (e, ms) = Raise clock a e in (e, ns @ ms)) (e, ns) as in deliver ns' (w\<lparr>rw_engine := e'\<rparr>))"
  by (induction "as" arbitrary: e ns) (auto simp: call_now_def raise_call_def deliver_def Let_def split: prod.splits)

text \<open>The hook is the sequence of its calls, so a tick is the collection followed by them.\<close>

lemma detect_hook_calls:
  "detect_hook now s w = foldl (call_now (hx_clock (rw_host w))) (detector_seen s w) (detector_calls now s w)"
proof -
  obtain e ns where e: "Evaluate (hx_order (rw_host w)) (hx_order (rw_host w)) now
      (run_samples (hx_order (rw_host w)) (rw_detector w) (HostOf s) (Snapshot (hx_order (rw_host w)) s)) (rw_engine w) = (e, ns)" by (metis prod.collapse)
  have "call_now (hx_clock (rw_host w)) (detector_seen s w) (hd (detector_calls now s w)) = deliver ns ((detector_seen s w)\<lparr>rw_engine := e\<rparr>)"
    by (simp add: call_now_def detector_calls_def detector_seen_def evaluate_call_def Let_def e)
  then show ?thesis
    using raise_fold[of "hx_clock (rw_host w)" ns e "detector_seen s w"]
    by (simp add: detect_hook_def detector_calls_def detector_seen_def DetectorRun_def Let_def e split: prod.splits)
qed

lemma tick_once_calls:
  assumes "po_afterTick p = [detect_hook]" and "collect_tick h start now w p = (w1, p1)"
  shows "tick_once h start now (w, p) =
    (foldl (call_now (hx_clock (rw_host w1))) (detector_seen (po_store p1) w1) (detector_calls now (po_store p1) w1), p1)"
proof -
  obtain w2 s2 la al where d: "foldl (discover start) (w\<lparr>rw_host := h\<rparr>, po_store p, po_lastAlive p, []) (po_discoverers p) = (w2, s2, la, al)"
    by (metis prod_cases4)
  obtain s3 gone where r: "Retain (hx_order h) al s2 = (s3, gone)" by (cases "Retain (hx_order h) al s2")
  obtain w3 s4 where c: "foldl collect_one (w2, s3) (po_collectors p) = (w3, s4)" by (metis prod.collapse)
  have "w1 = w3" "p1 = p\<lparr>po_store := Commit now s4, po_lastAlive := la\<rparr>" using assms(2) by (simp_all add: collect_tick_def Tick_def Let_def d r c)
  moreover have "tick_once h start now (w, p) = (detect_hook now (Commit now s4) w3, p\<lparr>po_store := Commit now s4, po_lastAlive := la\<rparr>)"
    by (simp add: tick_once_def Tick_def Let_def d r c assms(1))
  ultimately show ?thesis by (simp add: detect_hook_calls)
qed

section \<open>Reports\<close>

text \<open>
  What the discoverers answer at a tick, each in its turn: when the tick started, the name, and
  the domains it lists, or none if it fails. The log of reports is kept beside the program
  to say what its store has to hold.
\<close>

type_synonym report = "gtime \<times> string \<times> string list option"

fun reports :: "gtime \<Rightarrow> runtime \<Rightarrow> DomainStore \<Rightarrow> runtime Discoverer list \<Rightarrow> report list" where
  "reports start w s [] = []"
| "reports start w s (d # ds) =
     (let (w, s, err) = co_Collect d w s
      in (start, co_Name d, if err = None then Some (di_Alive d w) else None) # reports start w s ds)"

definition tick_reports :: "host_answers \<Rightarrow> gtime \<Rightarrow> runtime \<Rightarrow> runtime Poller \<Rightarrow> report list" where
  "tick_reports h start w p = reports start (w\<lparr>rw_host := h\<rparr>) (po_store p) (po_discoverers p)"

text \<open>The last report of a discoverer that did not fail.\<close>

fun last_report :: "string \<Rightarrow> report list \<Rightarrow> (gtime \<times> string list) option" where
  "last_report n [] = None"
| "last_report n ((t, m, r) # rs) =
     (case last_report n rs of
        Some x \<Rightarrow> Some x
      | None \<Rightarrow> (case r of Some ids \<Rightarrow> if m = n then Some (t, ids) else None | None \<Rightarrow> None))"

section \<open>Executions\<close>

datatype goroutine = MainRoutine | Ticker | EventReader | LogReader

text \<open>
  \<open>program mx cfg t rs ls w p q out\<close>: the program was started on a machine and reached the
  runtime \<open>w\<close> with the poller \<open>p\<close>; \<open>t\<close> are the clock readings of its last tick, \<open>rs\<close> the reports
  of the discoverers so far, \<open>ls\<close> the calls of the engine so far with the goroutine that
  made them and their notices, \<open>q\<close> the calls the detector has still to make, and \<open>out\<close> the
  deliveries each goroutine has still to make. Ticks do not overlap, the clock does not run
  backwards and a tick takes time.
\<close>

inductive program :: "machine \<Rightarrow> Config \<Rightarrow> gtime \<times> gtime \<Rightarrow> report list \<Rightarrow> (goroutine \<times> call \<times> notice list) list \<Rightarrow> runtime \<Rightarrow>
    runtime Poller \<Rightarrow> detector_call list \<Rightarrow> (goroutine \<Rightarrow> deliveries) \<Rightarrow> bool"
  for mx :: machine and cfg :: Config where
  started:
    "start_program mx h cfg reader = (w, p) \<Longrightarrow>
     program mx cfg (t, t) [] (map (\<lambda>n. (MainRoutine, CallSubscribe n, [])) (subscribers cfg)) w p [] (\<lambda>_. [])"
| collected:
    "program mx cfg (t0, t1) rs ls w p [] out \<Longrightarrow> out Ticker = [] \<Longrightarrow> t1 \<le> start \<Longrightarrow> start < now \<Longrightarrow> is_order (hx_order h) \<Longrightarrow>
     collect_tick h start now w p = (w', p') \<Longrightarrow>
     program mx cfg (start, now) (rs @ tick_reports h start w p) ls (detector_seen (po_store p') w') p' (detector_calls now (po_store p') w') out"
| detected:
    "program mx cfg t rs ls w p (c # q) out \<Longrightarrow> out Ticker = [] \<Longrightarrow> detector_call_in clock c w = (w', ds) \<Longrightarrow>
     program mx cfg t rs (ls @ [(Ticker, call_of clock c, notices_of clock c w)]) w' p q (out(Ticker := ds))"
| kernel_event:
    "program mx cfg t rs ls w p q out \<Longrightarrow> out EventReader = [] \<Longrightarrow> ev = attribute (rw_ebpf w) raw \<Longrightarrow> rw_probes w \<noteq> None \<Longrightarrow>
     FromProbeEvent read (rw_blkNames w) (ke_Event ev) (ke_DomainID ev) (ke_DomainName ev) = (names, a, True) \<Longrightarrow>
     on_kernel_event read clock ev w = (w', ds) \<Longrightarrow>
     program mx cfg t rs (ls @ [(EventReader, CallRaise clock a, snd (raise_event clock a (rw_engine w)))]) w' p q (out(EventReader := ds))"
| ignored_event:
    "program mx cfg t rs ls w p q out \<Longrightarrow> out EventReader = [] \<Longrightarrow> ev = attribute (rw_ebpf w) raw \<Longrightarrow> rw_probes w \<noteq> None \<Longrightarrow>
     FromProbeEvent read (rw_blkNames w) (ke_Event ev) (ke_DomainID ev) (ke_DomainName ev) = (names, a, False) \<Longrightarrow>
     on_kernel_event read clock ev w = (w', ds) \<Longrightarrow> program mx cfg t rs ls w' p q (out(EventReader := ds))"
| kmsg_alert:
    "program mx cfg t rs ls w p q out \<Longrightarrow> out LogReader = [] \<Longrightarrow> rw_kmsgState w = [] \<Longrightarrow>
     FromKmsg r (Some (kmsg_lookup fs ord (po_store p))) = Some a \<Longrightarrow> raise_call clock a w = (w', ds) \<Longrightarrow>
     program mx cfg t rs (ls @ [(LogReader, CallRaise clock a, snd (raise_event clock a (rw_engine w)))]) w' p q (out(LogReader := ds))"
| kmsg_stopped:
    "program mx cfg t rs ls w p q out \<Longrightarrow> out LogReader = [] \<Longrightarrow> rw_kmsgState w = [] \<Longrightarrow> program mx cfg t rs ls (stop_kmsg r w) p q out"
| delivered:
    "program mx cfg t rs ls w p q out \<Longrightarrow> out g = d # ds \<Longrightarrow> program mx cfg t rs ls (deliver [d] w) p q (out(g := ds))"

end
