(* ===== verification/Program_Facts.thy ===== *)
theory Program_Facts
  imports Program Detect_Facts
begin

text \<open>What every execution of the program keeps: the poller with its sources, the calls of the engine, the notices.\<close>

section \<open>Subscribers stay\<close>

lemma e_subs_raise: "raise_event now a e = (e', ns) \<Longrightarrow> e_subs e' = e_subs e"
  by (auto simp: raise_event_def new_event_def repeat_event_def pushHistory_def set_alert_def Let_def split: if_splits option.splits)

lemma e_subs_sample: "e_subs (fst (eval_sample now acc s)) = e_subs (fst acc)"
proof -
  obtain e ns where acc: "acc = (e, ns)" by (cases acc)
  obtain e2 st2 n where "step ((case map_of (e_conds e) (sample_key s) of None \<Rightarrow> zero_cond | Some st \<Rightarrow> st)\<lparr>c_lastSampled := now\<rparr>)
      s (sample_key s) now e = (e2, st2, n)" by (metis prod_cases3)
  then show ?thesis using step_frame(5) by (auto simp: acc eval_sample_def Let_def)
qed

lemma e_subs_sweep: "e_subs (fst (sweep_cond now acc k)) = e_subs (fst acc)"
  by (cases acc) (simp add: sweep_cond_def resolve_def pushHistory_def set_alert_def Let_def split: option.split)

lemma e_subs_expire: "e_subs (fst (expire_event now acc k)) = e_subs (fst acc)"
  by (cases acc) (simp add: expire_event_def Let_def split: option.split)

lemma e_subs_foldl: "(\<And>acc x. e_subs (fst (f acc x)) = e_subs (fst acc)) \<Longrightarrow> e_subs (fst (foldl f acc xs)) = e_subs (fst acc)"
  by (induction xs arbitrary: acc) simp_all

lemma e_subs_eval: "eval_tick ordc orde now ss e = (e', ns) \<Longrightarrow> e_subs e' = e_subs e"
  using e_subs_foldl[of "eval_sample now", OF e_subs_sample] e_subs_foldl[of "sweep_cond now", OF e_subs_sweep]
    e_subs_foldl[of "expire_event now", OF e_subs_expire]
  by (simp add: eval_tick_def expireEvents_def split_beta) (metis fst_conv)

section \<open>Collection leaves the engine alone\<close>

definition alert_part :: "runtime \<Rightarrow> Engine \<times> (nat \<times> notice) list \<times> Detector \<times> host_answers" where
  "alert_part w = (rw_engine w, rw_notices w, rw_detector w, rw_host w)"

lemma source_alert_part:
  "d \<in> {libvirt_source, scan_source} \<Longrightarrow> alert_part (fst (co_Collect d w s)) = alert_part w"
  "c \<in> {qmp_source, host_source, proc_source, ebpf_source} \<Longrightarrow> alert_part (fst (co_Collect c w s)) = alert_part w"
  by (auto simp: alert_part_def libvirt_source_def scan_source_def qmp_source_def host_source_def proc_source_def ebpf_source_def split_beta Let_def)

lemma discover_alert_part:
  "set ds \<subseteq> {libvirt_source, scan_source} \<Longrightarrow> alert_part (fst (foldl (discover start) (w, x) ds)) = alert_part w"
proof (induction ds arbitrary: w x)
  case (Cons d ds)
  obtain w1 x1 where "discover start (w, x) d = (w1, x1)" by (metis prod.collapse)
  moreover from this have "alert_part w1 = alert_part w"
    using source_alert_part(1)[of d w] Cons.prems by (cases x) (auto simp: discover_def Let_def split_beta)
  ultimately show ?case using Cons by simp
qed simp

lemma collect_alert_part:
  "set cs \<subseteq> {qmp_source, host_source, proc_source, ebpf_source} \<Longrightarrow> alert_part (fst (foldl collect_one (w, s) cs)) = alert_part w"
proof (induction cs arbitrary: w s)
  case (Cons c cs)
  obtain w1 s1 where "collect_one (w, s) c = (w1, s1)" by (metis prod.collapse)
  moreover from this have "alert_part w1 = alert_part w"
    using source_alert_part(2)[of c w] Cons.prems by (auto simp: collect_one_def Let_def split_beta)
  ultimately show ?case using Cons by simp
qed simp

text \<open>The sources registered, and what is collected.\<close>

definition wired :: "runtime Poller \<Rightarrow> bool" where
  "wired p \<longleftrightarrow> po_discoverers p = [libvirt_source, scan_source] \<and>
     set (po_collectors p) \<subseteq> {qmp_source, host_source, proc_source, ebpf_source} \<and> po_afterTick p = [detect_hook]"

lemma collect_tick_parts:
  assumes "collect_tick h start now w p = (w', p')" and "wired p"
  shows "alert_part w' = alert_part (w\<lparr>rw_host := h\<rparr>)" "wired p'"
proof -
  obtain w2 s2 la al where d: "foldl (discover start) (w\<lparr>rw_host := h\<rparr>, po_store p, po_lastAlive p, []) (po_discoverers p) = (w2, s2, la, al)"
    by (metis prod_cases4)
  obtain s3 gone where r: "Retain (hx_order h) al s2 = (s3, gone)" by (cases "Retain (hx_order h) al s2")
  obtain w3 s4 where c: "foldl collect_one (w2, s3) (po_collectors p) = (w3, s4)" by (metis prod.collapse)
  have e: "w' = w3" "p' = p\<lparr>po_store := Commit now s4, po_lastAlive := la\<rparr>" using assms(1) by (simp_all add: collect_tick_def Tick_def Let_def d r c)
  show "wired p'" using assms(2) by (simp add: e wired_def)
  show "alert_part w' = alert_part (w\<lparr>rw_host := h\<rparr>)"
    using discover_alert_part[of "po_discoverers p" start "w\<lparr>rw_host := h\<rparr>" "(po_store p, po_lastAlive p, [])"]
      collect_alert_part[of "po_collectors p" w2 s3] assms(2) by (simp add: e wired_def d c)
qed

section \<open>The poller of the program\<close>

definition pollable :: "gtime \<Rightarrow> runtime Poller \<Rightarrow> bool" where
  "pollable t p \<longleftrightarrow> wired p \<and> ids_ok (po_store p) \<and>
     domain_ids (po_store p) = in_grace t (po_lastAlive p) ''libvirt'' \<union> in_grace t (po_lastAlive p) ''kvmscan''"

lemma wired_start: "start_program mx h cfg reader = (w, p) \<Longrightarrow> wired p \<and> po_store p = NewDomainStore \<and> po_lastAlive p = []"
  by (auto simp: start_program_def build_def start_run_def NewPoller_def AfterTick_def wired_def Let_def split: prod.splits if_splits)

lemma pollable_collect:
  assumes "pollable t p" and "collect_tick h start now w p = (w', p')" and "t \<le> start" and "is_order (hx_order h)"
  shows "pollable start p'"
proof -
  obtain w2 p2 gone where t: "Tick (hx_order h) start now (w\<lparr>rw_host := h\<rparr>) (p\<lparr>po_afterTick := []\<rparr>) = (w2, p2, gone)" by (metis prod_cases3)
  then have p': "po_store p' = po_store p2" "po_lastAlive p' = po_lastAlive p2" using assms(2) by (auto simp: collect_tick_def)
  let ?p = "p\<lparr>po_afterTick := []\<rparr>"
  have pre: "po_discoverers ?p = [libvirt_source, scan_source]" "set (po_collectors ?p) \<subseteq> set [qmp_source, host_source, proc_source, ebpf_source]"
    "ids_ok (po_store ?p)" "tracked [libvirt_source, scan_source] t (po_lastAlive ?p) (po_store ?p)"
    using assms(1) by (simp_all add: pollable_def wired_def tracked_def)
  show ?thesis
    using sources.tick(1,2)[OF t assms(4) pre assms(3)] collect_tick_parts(2)[OF assms(2)] assms(1) by (simp add: pollable_def p')
qed

lemma program_poller: "program mx cfg t rs ls w p q out \<Longrightarrow> fst t \<le> snd t \<and> pollable (fst t) p"
proof (induction rule: program.induct)
  case (started h reader w p t)
  then show ?case using wired_start by (simp add: pollable_def in_grace_def ids_ok_def domain_ids_def NewDomainStore_def latest_of_def mkeys_def)
next
  case (collected t0 t1 rs ls w p out start now h w' p')
  then have "t0 \<le> start" "pollable t0 p" by simp_all
  then show ?case using pollable_collect[OF _ collected.hyps(6) _ collected.hyps(5)] collected.hyps(4) by simp
qed simp_all

section \<open>The reports of the discoverers\<close>

lemma last_report_append: "last_report n (rs @ rs') = (case last_report n rs' of Some x \<Rightarrow> Some x | None \<Rightarrow> last_report n rs)"
  by (induction n rs rule: last_report.induct) (auto split: option.splits)

text \<open>The poller remembers the last report of each discoverer that did not fail.\<close>

definition remembered :: "report list \<Rightarrow> (string, aliveSet) gomap \<Rightarrow> bool" where
  "remembered rs la \<longleftrightarrow> (\<forall>n. map_of la n = map_option (\<lambda>(t, ids). \<lparr>as_ids = ids, as_at = t\<rparr>) (last_report n rs))"

lemma remembered_discover:
  "remembered rs la \<Longrightarrow> foldl (discover start) (w, s, la, al) ds = (w', s', la', al') \<Longrightarrow> remembered (rs @ reports start w s ds) la'"
proof (induction ds arbitrary: w s la al rs)
  case (Cons d ds)
  obtain w1 s1 la1 al1 where d: "discover start (w, s, la, al) d = (w1, s1, la1, al1)" by (metis prod_cases4)
  obtain err where c: "co_Collect d w s = (w1, s1, err)" using d by (auto simp: discover_def Let_def split: prod.splits)
  let ?r = "(start, co_Name d, if err = None then Some (di_Alive d w1) else None)"
  have "remembered (rs @ [?r]) la1"
    using Cons.prems(1) discover_alive(2)[OF d] by (auto simp: remembered_def last_report_append c)
  from Cons.IH[OF this, of w1 s1 al1] Cons.prems(2) show ?case by (simp add: d c)
qed simp

lemma remembered_tick:
  assumes "remembered rs (po_lastAlive p)" and "collect_tick h start now w p = (w', p')"
  shows "remembered (rs @ tick_reports h start w p) (po_lastAlive p')"
proof -
  obtain w2 s2 la al where d: "foldl (discover start) (w\<lparr>rw_host := h\<rparr>, po_store p, po_lastAlive p, []) (po_discoverers p) = (w2, s2, la, al)"
    by (metis prod_cases4)
  have "po_lastAlive p' = la" using assms(2) by (auto simp: collect_tick_def Tick_def Let_def d split: prod.splits)
  then show ?thesis using remembered_discover[OF assms(1) d] by (simp add: tick_reports_def)
qed

lemma program_reports: "program mx cfg t rs ls w p q out \<Longrightarrow> remembered rs (po_lastAlive p)"
proof (induction rule: program.induct)
  case (started h reader w p t)
  then show ?case using wired_start by (simp add: remembered_def)
qed (simp_all add: remembered_tick)

section \<open>The calls of the engine\<close>

lemma notify_append: "notify e (ns @ ms) = notify e ns @ notify e ms"
  by (simp add: notify_def)

lemma notify_cong: "e_subs e = e_subs e' \<Longrightarrow> notify e = notify e'"
  by (rule ext) (simp add: notify_def)

text \<open>A call of the engine: its deliveries are those of its notices, and nothing else of the runtime changes.\<close>

definition called :: "runtime \<Rightarrow> call \<times> notice list \<Rightarrow> runtime \<Rightarrow> deliveries \<Rightarrow> bool" where
  "called w l w' ds \<longleftrightarrow> engine_step (rw_engine w) l (rw_engine w') \<and> e_subs (rw_engine w') = e_subs (rw_engine w) \<and>
     ds = notify (rw_engine w') (snd l) \<and> rw_notices w' = rw_notices w \<and> rw_detector w' = rw_detector w \<and> rw_host w' = rw_host w"

lemma called_host: "called w l w' ds \<Longrightarrow> rw_host w' = rw_host w"
  by (simp add: called_def)

lemma called_raise:
  assumes "raise_call clock a w = (w', ds)"
  shows "called w (CallRaise clock a, snd (raise_event clock a (rw_engine w))) w' ds"
proof -
  have "engine_step (rw_engine w) (CallRaise clock a, snd (raise_event clock a (rw_engine w))) (fst (raise_event clock a (rw_engine w)))"
    by (rule step_raise) simp
  then show ?thesis using assms by (auto simp: called_def raise_call_def Raise_def Let_def split: prod.splits dest: e_subs_raise)
qed

lemma called_detector:
  assumes "detector_call_in clock c w = (w', ds)" and "is_order (hx_order (rw_host w))"
  shows "called w (call_of clock c, notices_of clock c w) w' ds"
proof (cases c)
  case (PendEvaluate now ss)
  let ?o = "hx_order (rw_host w)"
  have "engine_step (rw_engine w) (CallEvaluate now ss, snd (eval_tick ?o ?o now ss (rw_engine w))) (fst (eval_tick ?o ?o now ss (rw_engine w)))"
    by (rule step_evaluate[OF assms(2,2)]) simp
  then show ?thesis using assms(1)
    by (auto simp: PendEvaluate called_def evaluate_call_def Evaluate_def Let_def split: prod.splits dest: e_subs_eval)
qed (use called_raise assms(1) in simp)

lemma called_event:
  assumes "on_kernel_event read clock ev w = (w', ds)"
    and "FromProbeEvent read (rw_blkNames w) (ke_Event ev) (ke_DomainID ev) (ke_DomainName ev) = (names, a, True)"
  shows "called w (CallRaise clock a, snd (raise_event clock a (rw_engine w))) w' ds"
  using called_raise[of clock a "w\<lparr>rw_blkNames := names\<rparr>" w' ds] assms by (simp add: on_kernel_event_def called_def)

lemma ignored_frame:
  assumes "on_kernel_event read clock ev w = (w', ds)"
    and "FromProbeEvent read (rw_blkNames w) (ke_Event ev) (ke_DomainID ev) (ke_DomainName ev) = (names, a, False)"
  shows "alert_part w' = alert_part w" "ds = []"
  using assms by (auto simp: on_kernel_event_def alert_part_def)

lemma stop_kmsg_frame: "alert_part (stop_kmsg r w) = alert_part w"
  by (simp add: stop_kmsg_def alert_part_def split: follow_end.split)

section \<open>Calls and deliveries\<close>

text \<open>
  The engine is in an execution of its own, and the deliveries made (\<open>D\<close>, with the goroutine
  that made each), followed by those outstanding, are for every goroutine the deliveries of the notices of its calls.
\<close>

definition notices_by :: "goroutine \<Rightarrow> (goroutine \<times> call \<times> notice list) list \<Rightarrow> notice list" where
  "notices_by g ls = concat (map (\<lambda>l. snd (snd l)) (filter (\<lambda>l. fst l = g) ls))"

definition by_routine :: "goroutine \<Rightarrow> (goroutine \<times> 'a) list \<Rightarrow> 'a list" where
  "by_routine g D = map snd (filter (\<lambda>x. fst x = g) D)"

definition calls_ok :: "Config \<Rightarrow> (goroutine \<times> call \<times> notice list) list \<Rightarrow> runtime \<Rightarrow> (goroutine \<Rightarrow> deliveries) \<Rightarrow> bool" where
  "calls_ok cfg ls w out \<longleftrightarrow> engine_run (cfg_Alerts cfg) (map snd ls) (rw_engine w) \<and> e_subs (rw_engine w) = subscribers cfg \<and>
     (\<exists>D. map snd D = rw_notices w \<and> (\<forall>g. by_routine g D @ out g = notify (rw_engine w) (notices_by g ls)))"

lemma calls_ok_cong: "calls_ok cfg ls w out \<Longrightarrow> alert_part w' = alert_part w \<Longrightarrow> calls_ok cfg ls w' out"
  by (simp add: calls_ok_def alert_part_def)

lemma calls_ok_call:
  assumes "calls_ok cfg ls w out" and "out g = []" and "called w l w' ds"
  shows "calls_ok cfg (ls @ [(g, l)]) w' (out(g := ds))"
proof -
  obtain D where D: "map snd D = rw_notices w" "\<And>g. by_routine g D @ out g = notify (rw_engine w) (notices_by g ls)"
    using assms(1) by (auto simp: calls_ok_def)
  have step: "engine_step (rw_engine w) l (rw_engine w')" "e_subs (rw_engine w') = e_subs (rw_engine w)" "ds = notify (rw_engine w') (snd l)"
    "rw_notices w' = rw_notices w" using assms(3) by (simp_all add: called_def)
  have "by_routine k D @ (out(g := ds)) k = notify (rw_engine w') (notices_by k (ls @ [(g, l)]))" for k
    using D(2)[of k] assms(2) notify_cong[OF step(2)] by (cases "k = g") (simp_all add: notices_by_def notify_append step(3))
  moreover have "engine_run (cfg_Alerts cfg) (map snd (ls @ [(g, l)])) (rw_engine w')"
    using assms(1) run_snoc[of engine_step "NewEngine (cfg_Alerts cfg)" "map snd ls" "rw_engine w" l] step(1) by (simp add: calls_ok_def)
  ultimately show ?thesis using assms(1) D(1) step(2,4) unfolding calls_ok_def by metis
qed

lemma calls_ok_deliver:
  assumes "calls_ok cfg ls w out" and "out g = d # ds"
  shows "calls_ok cfg ls (deliver [d] w) (out(g := ds))"
proof -
  obtain D where D: "map snd D = rw_notices w" "\<And>g. by_routine g D @ out g = notify (rw_engine w) (notices_by g ls)"
    using assms(1) by (auto simp: calls_ok_def)
  have "by_routine k (D @ [(g, d)]) @ (out(g := ds)) k = notify (rw_engine w) (notices_by k ls)" for k
    using D(2)[of k] assms(2) by (cases "k = g") (simp_all add: by_routine_def)
  moreover have "map snd (D @ [(g, d)]) = rw_notices (deliver [d] w)" "rw_engine (deliver [d] w) = rw_engine w" by (simp_all add: D(1) deliver_def)
  ultimately show ?thesis using assms(1) unfolding calls_ok_def by metis
qed

lemma subscribe_run:
  "engine_run cfg (map (\<lambda>n. (CallSubscribe n, [])) ns) (foldl (\<lambda>e n. Subscribe n e) (NewEngine cfg) ns)"
proof (induction ns rule: rev_induct)
  case (snoc n ns)
  then show ?case by (simp add: run_snoc step_subscribe)
qed (simp add: run_Nil)

lemma e_subs_subscribe: "e_subs (foldl (\<lambda>e n. Subscribe n e) e ns) = e_subs e @ ns"
  by (induction ns arbitrary: e) (simp_all add: Subscribe_def)

lemma calls_ok_start:
  assumes "start_program mx h cfg reader = (w, p)"
  shows "calls_ok cfg (map (\<lambda>n. (MainRoutine, CallSubscribe n, [])) (subscribers cfg)) w (\<lambda>_. [])"
proof -
  have e: "rw_engine w = foldl (\<lambda>e n. Subscribe n e) (NewEngine (cfg_Alerts cfg)) (subscribers cfg)" "rw_notices w = []"
    using assms by (auto simp: start_program_def build_def start_run_def open_kmsg_def subscribe_all_def Let_def split: prod.splits if_splits)
  have "e_subs (NewEngine (cfg_Alerts cfg)) = []" by (simp add: NewEngine_def)
  moreover have "notices_by g (map (\<lambda>n. (MainRoutine, CallSubscribe n, [])) ns) = []" for g ns
    by (induction ns) (simp_all add: notices_by_def)
  ultimately show ?thesis using subscribe_run e_subs_subscribe by (simp add: calls_ok_def e notify_def comp_def by_routine_def)
qed

lemma program_calls_ok: "program mx cfg t rs ls w p q out \<Longrightarrow> calls_ok cfg ls w out \<and> (q \<noteq> [] \<longrightarrow> is_order (hx_order (rw_host w)))"
proof (induction rule: program.induct)
  case (collected t0 t1 rs ls w p out start now h w' p')
  have "wired p" using program_poller[OF collected(1)] by (simp add: pollable_def)
  then have part: "alert_part w' = alert_part (w\<lparr>rw_host := h\<rparr>)" using collect_tick_parts(1)[OF collected(6)] by simp
  have "calls_ok cfg ls (detector_seen (po_store p') w') out"
    using collected.IH part by (simp add: calls_ok_def alert_part_def detector_seen_def)
  then show ?case using part collected.hyps(5) by (simp add: alert_part_def detector_seen_def)
next
  case (detected t rs ls w p c q out clock w' ds)
  then have c: "called w (call_of clock c, notices_of clock c w) w' ds" by (intro called_detector) simp_all
  show ?case using calls_ok_call[OF conjunct1[OF detected.IH] detected.hyps(2) c] detected.IH called_host[OF c] by (simp add: fun_upd_def)
next
  case (kernel_event t rs ls w p q out ev raw read names a clock w' ds)
  note c = called_event[OF kernel_event.hyps(6,5)]
  show ?case using calls_ok_call[OF conjunct1[OF kernel_event.IH] kernel_event.hyps(2) c] kernel_event.IH called_host[OF c] by (simp add: fun_upd_def)
next
  case (ignored_event t rs ls w p q out ev raw read names a clock w' ds)
  have "out(EventReader := ds) = out" using ignored_frame(2)[OF ignored_event.hyps(6,5)] ignored_event.hyps(2) by auto
  then show ?case using ignored_event.IH ignored_frame(1)[OF ignored_event.hyps(6,5)] calls_ok_cong by (auto simp: alert_part_def)
next
  case (kmsg_alert t rs ls w p q out r fs ord a clock w' ds)
  note c = called_raise[OF kmsg_alert.hyps(5)]
  show ?case using calls_ok_call[OF conjunct1[OF kmsg_alert.IH] kmsg_alert.hyps(2) c] kmsg_alert.IH called_host[OF c] by (simp add: fun_upd_def)
next
  case (kmsg_stopped t rs ls w p q out r)
  then show ?case using stop_kmsg_frame[of r w] calls_ok_cong by (auto simp: alert_part_def)
next
  case (delivered t rs ls w p q out g d ds)
  show ?case using calls_ok_deliver[OF conjunct1[OF delivered.IH] delivered.hyps(2)] delivered.IH by (simp add: deliver_def fun_upd_def)
qed (simp add: calls_ok_start)

section \<open>Ticks in order\<close>

definition pend_times :: "detector_call list \<Rightarrow> gtime list" where
  "pend_times q = tick_times (map (\<lambda>c. (call_of 0 c, [])) q)"

lemma tick_times_raises: "tick_times (map (\<lambda>a. (CallRaise k (f a), g a)) as) = []" "pend_times (map PendRaise as) = []"
  by (induction "as") (simp_all add: pend_times_def)

lemma tick_times_subscribe: "tick_times (map snd (map (\<lambda>n. (g, CallSubscribe n, [])) ns)) = []"
  by (induction ns) simp_all

lemma pend_times_calls: "pend_times (detector_calls now s w) = [now]"
  using tick_times_raises(2) by (simp add: detector_calls_def Let_def pend_times_def)

lemma program_times:
  "program mx cfg t rs ls w p q out \<Longrightarrow>
   sorted_wrt (<) (tick_times (map snd ls) @ pend_times q) \<and> (\<forall>x \<in> set (tick_times (map snd ls) @ pend_times q). x \<le> snd t)"
proof (induction rule: program.induct)
  case (collected t0 t1 rs ls w p out start now h w' p')
  then have t: "\<forall>x \<in> set (tick_times (map snd ls)). x < now" "sorted_wrt (<) (tick_times (map snd ls))" by (force simp: pend_times_def)+
  then show ?case unfolding pend_times_calls by (simp add: sorted_wrt_append order.strict_implies_order)
next
  case (detected t rs ls w p c q out clock w' ds)
  then show ?case by (cases c) (simp_all add: pend_times_def)
next
  case (started h reader w p t)
  then show ?case unfolding tick_times_subscribe by (simp add: pend_times_def)
qed (simp_all add: pend_times_def)

section \<open>What the detector remembers\<close>

lemma Snapshot_ids: "is_order ord \<Longrightarrow> ids_ok s \<Longrightarrow> d_ID ` set (Snapshot ord s) = domain_ids s"
proof -
  assume ord: "is_order ord" and s: "ids_ok s"
  then have i: "latest_of s i = Some d \<Longrightarrow> d_ID (clone d) = i" for i d unfolding ids_ok_def by (simp add: clone_def)
  show ?thesis
  proof (rule set_eqI, rule iffI)
    fix x assume "x \<in> d_ID ` set (Snapshot ord s)"
    then obtain j d where "latest_of s j = Some d" "x = d_ID (clone d)" using in_Snapshot_iff[OF ord] by auto
    then show "x \<in> domain_ids s" using i by (simp add: domain_ids_latest)
  next
    fix x assume "x \<in> domain_ids s"
    then obtain d where d: "latest_of s x = Some d" by (auto simp: domain_ids_latest)
    then have "clone d \<in> set (Snapshot ord s)" using in_Snapshot_iff[OF ord] by blast
    then show "x \<in> d_ID ` set (Snapshot ord s)" using i[OF d] by (rule rev_image_eqI[OF _ sym])
  qed
qed

lemma keys_current_domains: "set (mkeys (current_domains doms)) = d_ID ` set doms"
  using current_None_iff[of doms] by (auto simp: in_mkeys_iff)

lemma program_detector:
  "program mx cfg t rs ls w p q out \<Longrightarrow> dt_primed (rw_detector w) \<longrightarrow> set (mkeys (dt_prev (rw_detector w))) = domain_ids (po_store p)"
proof (induction rule: program.induct)
  case (started h reader w p t)
  then have "rw_detector w = NewDetector (cfg_Thresholds cfg)"
    by (auto simp: start_program_def build_def start_run_def open_kmsg_def subscribe_all_def Let_def split: prod.splits if_splits)
  then show ?case by (simp add: NewDetector_def)
next
  case (collected t0 t1 rs ls w p out start now h w' p')
  have pol: "pollable t0 p" "t0 \<le> t1" using program_poller[OF collected(1)] by simp_all
  then have "rw_host w' = h" using collect_tick_parts(1)[OF collected(6)] by (simp add: pollable_def alert_part_def)
  moreover have "ids_ok (po_store p')"
    using pollable_collect[OF pol(1) collected(6) _ collected(5)] pol(2) collected(3) by (simp add: pollable_def)
  ultimately show ?case using Snapshot_ids[OF collected(5)] by (simp add: detector_seen_def keys_current_domains)
next
  case (detected t rs ls w p c q out clock w' ds)
  then have "called w (call_of clock c, notices_of clock c w) w' ds"
    using called_detector program_calls_ok[OF detected.hyps(1)] by blast
  then show ?case using detected.IH by (simp add: called_def)
next
  case (kernel_event t rs ls w p q out ev raw read names a clock w' ds)
  then show ?case using called_event[OF kernel_event.hyps(6,5)] by (simp add: called_def)
next
  case (ignored_event t rs ls w p q out ev raw read names a clock w' ds)
  then show ?case using ignored_frame(1)[OF ignored_event.hyps(6,5)] by (simp add: alert_part_def)
next
  case (kmsg_alert t rs ls w p q out r fs ord a clock w' ds)
  then show ?case using called_raise[OF kmsg_alert.hyps(5)] by (simp add: called_def)
next
  case (kmsg_stopped t rs ls w p q out r)
  then show ?case using stop_kmsg_frame[of r w] by (simp add: alert_part_def)
qed (simp_all add: deliver_def)

end
