(* ===== verification/Program_Properties.thy ===== *)
theory Program_Properties
  imports Program_Facts Collect_Properties Host_Properties
begin

text \<open>Properties of the whole program: its configuration, its ticks, its alerts and the domains it knows.\<close>

section \<open>A tick that reaches libvirt\<close>

lemma collect_tick_libvirt:
  assumes "collect_tick h start now w p = (w', p')" and "wired p" and "hx_libvirt h = (fs, dm, lnow)" and "snd (connect dm (rw_libvirt w)) = None"
    and "lv_ListAllDomains dm = Inr ds" and "\<forall>n. lv_ctxErr dm n = None" and "distinct (map uuid_of ds)"
  shows "map_of (po_lastAlive p') ''libvirt'' = Some \<lparr>as_ids = map uuid_of (reported dm ds), as_at = start\<rparr>"
proof -
  let ?w = "w\<lparr>rw_host := h\<rparr>"
  obtain lc i s err where l: "LibvirtCollect fs (hx_pids h) dm lnow (rw_libvirt w, Some (rw_index w), po_store p) = ((lc, i, s), err)"
    by (metis prod.collapse)
  note ok = LibvirtCollect_ok[OF assms(4-7) l]
  obtain w1 s1 la1 al1 where d1: "discover start (?w, po_store p, po_lastAlive p, []) libvirt_source = (w1, s1, la1, al1)" by (metis prod_cases4)
  have c: "co_Collect libvirt_source ?w (po_store p) = (?w\<lparr>rw_libvirt := lc, rw_index := the i\<rparr>, s, None)"
    using ok(1,2) by (simp add: libvirt_source_def l assms(3))
  then have w1: "w1 = ?w\<lparr>rw_libvirt := lc, rw_index := the i\<rparr>" using d1 by (auto simp: discover_def Let_def)
  have la1: "map_of la1 ''libvirt'' = Some \<lparr>as_ids = map uuid_of (reported dm ds), as_at = start\<rparr>"
    unfolding discover_alive(2)[OF d1] c w1 using ok(3) by (simp add: libvirt_source_def)
  obtain w2 s2 la2 al2 where d2: "discover start (w1, s1, la1, al1) scan_source = (w2, s2, la2, al2)" by (metis prod_cases4)
  then have "map_of la2 ''libvirt'' = map_of la1 ''libvirt''" by (simp add: discover_alive(2)[OF d2])
  moreover have "po_lastAlive p' = la2"
    using assms(1,2) by (auto simp: collect_tick_def Tick_def Let_def wired_def d1 d2 split: prod.splits)
  ultimately show ?thesis using la1 by simp
qed

section \<open>Notices\<close>

definition told :: "nat \<Rightarrow> deliveries \<Rightarrow> notice list" where
  "told n ds = map snd (filter (\<lambda>x. fst x = n) ds)"

lemma told_append: "told n (xs @ ys) = told n xs @ told n ys"
  by (simp add: told_def)

lemma told_notify:
  assumes "distinct (e_subs e)" and "n \<in> set (e_subs e)"
  shows "told n (notify e ns) = ns"
proof -
  have one: "filter (\<lambda>fn. fn = n) xs = [n]" if "distinct xs" "n \<in> set xs" for xs
    using that by (induction xs) (auto simp: filter_empty_conv)
  show ?thesis
    by (induction ns) (simp_all add: told_def notify_def filter_map comp_def one[OF assms])
qed

lemma distinct_subscribers: "distinct (subscribers cfg)"
  by (simp add: subscribers_def metrics_subscriber_def sink_subscriber_def)

definition routines :: "goroutine list" where
  "routines = [MainRoutine, Ticker, EventReader, LogReader]"

lemma mset_told_routines: "mset (told n (map snd D)) = mset (concat (map (\<lambda>g. told n (by_routine g D)) routines))"
proof (induction D)
  case (Cons x D)
  then show ?case by (cases "fst x") (simp_all add: told_def by_routine_def routines_def)
qed (simp add: told_def by_routine_def routines_def)

lemma mset_notices_routines: "mset (concat (map (\<lambda>l. snd (snd l)) ls)) = mset (concat (map (\<lambda>g. notices_by g ls) routines))"
proof (induction ls)
  case (Cons l ls)
  then show ?case by (cases "fst l") (simp_all add: notices_by_def routines_def)
qed (simp add: notices_by_def routines_def)

lemma mset_concat_append: "mset (concat (map f gs)) + mset (concat (map h gs)) = mset (concat (map (\<lambda>g. f g @ h g) gs))"
  by (induction gs) simp_all

text \<open>
  C12: In every execution of the program, whatever the interleaving of its ticks with kernel
  events and records of the kernel log, the calls of the alert engine form an execution of
  the engine as configured, with ticks in the order of time, so all that holds of such
  executions holds of the program. Each subscriber, the sink and the metrics endpoint if
  there is one, is told every notice of these calls exactly once: what it has been told and
  what goroutines have still to tell it are the notices of all calls so far. What a
  goroutine tells a subscriber it tells in the order of its own calls; the notices are
  delivered after the mutex is released, so between goroutines there is no order.
\<close>

theorem program_refines_engine:
  assumes "program mx cfg t rs ls w p q out"
  shows "engine_run (cfg_Alerts cfg) (map snd ls) (rw_engine w) \<and> sorted_wrt (<) (tick_times (map snd ls)) \<and>
    set (e_subs (rw_engine w)) = {sink_subscriber} \<union> (if cfg_Listen cfg = [] then {} else {metrics_subscriber}) \<and>
    (\<forall>n \<in> set (e_subs (rw_engine w)).
      mset (told n (rw_notices w)) + mset (concat (map (\<lambda>g. told n (out g)) routines)) = mset (concat (map (\<lambda>l. snd (snd l)) ls))) \<and>
    (\<exists>D. map snd D = rw_notices w \<and>
      (\<forall>n \<in> set (e_subs (rw_engine w)). \<forall>g. told n (by_routine g D) @ told n (out g) = notices_by g ls))"
proof -
  obtain D where e: "engine_run (cfg_Alerts cfg) (map snd ls) (rw_engine w)" "e_subs (rw_engine w) = subscribers cfg"
    and D: "map snd D = rw_notices w" "\<And>g. by_routine g D @ out g = notify (rw_engine w) (notices_by g ls)"
    using program_calls_ok[OF assms] by (auto simp: calls_ok_def)
  have "sorted_wrt (<) (tick_times (map snd ls))" using program_times[OF assms] by (simp add: sorted_wrt_append)
  moreover have each: "told n (by_routine g D) @ told n (out g) = notices_by g ls" if "n \<in> set (e_subs (rw_engine w))" for n g
    using told_notify[of "rw_engine w" n "notices_by g ls"] distinct_subscribers that by (simp add: e(2) D(2) flip: told_append)
  moreover have "mset (told n (rw_notices w)) + mset (concat (map (\<lambda>g. told n (out g)) routines)) = mset (concat (map (\<lambda>l. snd (snd l)) ls))"
    if "n \<in> set (e_subs (rw_engine w))" for n
    unfolding mset_notices_routines mset_told_routines[of n D, unfolded D(1)] mset_concat_append each[OF that] ..
  ultimately show ?thesis using e D(1) by (auto simp: subscribers_def)
qed

text \<open>
  A host without eBPF and \<open>/proc\<close> where libvirt runs one machine; after the first tick the
  kernel reports that it killed the machine's process for want of memory.
\<close>

definition ex_answers :: host_answers where
  "ex_answers = \<lparr>hx_libvirt = (ex_files, ex_daemon, second), hx_scan = (ex_files, second), hx_ended = [], hx_answer = (\<lambda>_. Inl []),
     hx_qmp = second, hx_host = \<lparr>hr_NumCPU = 1, hr_Stat = None, hr_Meminfo = None, hr_Load1 = None, hr_Uptime = None, hr_PSI = (\<lambda>_. None)\<rparr>,
     hx_proc = (ex_proc, second), hx_ebpf = (ex_env, id, second), hx_clock = 2 * second, hx_pids = id, hx_order = id\<rparr>"

definition ex_machine :: machine where
  "ex_machine = \<lparr>mx_procOK = False, mx_goarch = ''amd64'', mx_hostname = ''node'', mx_uname = None,
     mx_bpf = ex_host\<lparr>bh_RemoveMemlock := Some \<lparr>be_msg = ''permission denied'', be_EPERM = True, be_EACCES = False, be_NotExist = False, be_btfNotFound = False,
       be_NotSupported = False, be_Verifier = None\<rparr>\<rparr>\<rparr>"

definition ex_started :: "runtime \<times> runtime Poller" where
  "ex_started = start_program ex_machine ex_answers Default (Inr 0)"

definition ex_collected :: "runtime \<times> runtime Poller" where
  "ex_collected = collect_tick ex_answers second (2 * second) (fst ex_started) (snd ex_started)"

lemma ex_program:
  "program ex_machine Default (0, 0) [] [(MainRoutine, CallSubscribe sink_subscriber, [])] (fst ex_started) (snd ex_started) [] (\<lambda>_. [])"
  "program ex_machine Default (second, 2 * second) (tick_reports ex_answers second (fst ex_started) (snd ex_started))
     [(MainRoutine, CallSubscribe sink_subscriber, [])] (detector_seen (po_store (snd ex_collected)) (fst ex_collected)) (snd ex_collected)
     (detector_calls (2 * second) (po_store (snd ex_collected)) (fst ex_collected)) (\<lambda>_. [])"
proof -
  have s: "subscribers Default = [sink_subscriber]" by (simp add: subscribers_def Default_def)
  show p: "program ex_machine Default (0, 0) [] [(MainRoutine, CallSubscribe sink_subscriber, [])] (fst ex_started) (snd ex_started) [] (\<lambda>_. [])"
    using started[of ex_machine ex_answers Default "Inr 0" "fst ex_started" "snd ex_started" 0] by (simp add: ex_started_def s)
  show "program ex_machine Default (second, 2 * second) (tick_reports ex_answers second (fst ex_started) (snd ex_started))
     [(MainRoutine, CallSubscribe sink_subscriber, [])] (detector_seen (po_store (snd ex_collected)) (fst ex_collected)) (snd ex_collected)
     (detector_calls (2 * second) (po_store (snd ex_collected)) (fst ex_collected)) (\<lambda>_. [])"
    using collected[OF p, of second "2 * second" ex_answers "fst ex_collected" "snd ex_collected"]
    by (simp add: ex_collected_def ex_answers_def second_def is_order_def)
qed

lemma ex_collected_alive: "map_of (po_lastAlive (snd ex_collected)) ''libvirt'' = Some \<lparr>as_ids = [uuid_of ex_domain], as_at = second\<rparr>"
proof -
  have "rw_libvirt (fst ex_started) = NewLibvirtCollector []"
    by (simp add: ex_started_def start_program_def build_def start_run_def open_kmsg_def subscribe_all_def Let_def split_beta)
  moreover have "wired (snd ex_started)" using wired_start[of ex_machine ex_answers Default "Inr 0" "fst ex_started" "snd ex_started"] by (simp add: ex_started_def)
  moreover have "hx_libvirt ex_answers = (ex_files, ex_daemon, second)" "reported ex_daemon [ex_domain] = [ex_domain]"
    by (simp_all add: ex_answers_def reported_def ex_daemon_ok(5))
  ultimately show ?thesis
    using collect_tick_libvirt[of ex_answers second "2 * second" "fst ex_started" "snd ex_started" "fst ex_collected" "snd ex_collected"] ex_daemon_ok
    by (simp add: ex_collected_def)
qed

definition ex_record :: Record where
  "ex_record = \<lparr>rec_Priority = 2, rec_Facility = 0, rec_Seq = 1, rec_Time = second, rec_Message = ''x'', rec_Fields = []\<rparr>"

definition ex_critical :: Alert where
  "ex_critical = zero_alert\<lparr>a_Rule := ''kernel.critical'', a_Severity := Warning, a_Category := CatKernel, a_Source := ''kmsg'',
     a_Message := ''x'', a_Last := second, a_Key := ''kernel.critical|x''\<rparr>"

lemma ex_critical: "FromKmsg ex_record lk = Some ex_critical"
proof -
  have "list_all (\<lambda>kr. FindSubmatch (kr_re kr) ''x'' = None) kmsgRules" by code_simp
  moreover have "list_all (\<lambda>kr. FindSubmatch (kr_re kr) ''x'' = None) krs \<Longrightarrow>
      try_rules ex_record lk ''x'' krs = try_rules ex_record lk ''x'' []" for krs by (induction krs) auto
  moreover have "TrimSpace ''x'' = ''x''" "firstWords ''x'' 3 = ''x''" by code_simp+
  ultimately show ?thesis by (simp add: FromKmsg_def ex_record_def ex_critical_def)
qed

text \<open>A goroutine may make all its deliveries in a row.\<close>

lemma program_delivers:
  "program mx cfg t rs ls w p q out \<Longrightarrow> out g = ds \<Longrightarrow> program mx cfg t rs ls (deliver ds w) p q (out(g := []))"
proof (induction ds arbitrary: w out)
  case Nil
  then have "out(g := []) = out" by auto
  then show ?case using Nil.prems(1) by (simp add: deliver_def)
next
  case (Cons d ds)
  have "deliver (d # ds) w = deliver ds (deliver [d] w)" by (simp add: deliver_def)
  moreover have "program mx cfg t rs ls (deliver ds (deliver [d] w)) p q ((out(g := ds))(g := []))"
    by (rule Cons.IH[OF delivered[OF Cons.prems]]) simp
  ultimately show ?case unfolding fun_upd_upd by (simp only:)
qed

theorem program_refines_engine_witness:
  "\<exists>a w ds. raise_call 0 ex_critical (fst ex_started) = (w, ds) \<and> told sink_subscriber (rw_notices (deliver ds w)) = [(a, Raised)] \<and> a_Message a = ''x''"
proof -
  have e: "rw_engine (fst ex_started) = Subscribe sink_subscriber (NewEngine DefaultAlerts)" "rw_kmsgState (fst ex_started) = []"
    by (simp_all add: ex_started_def start_program_def build_def start_run_def open_kmsg_def subscribe_all_def subscribers_def Let_def split_beta Default_def)
  obtain w ds where w: "raise_call 0 ex_critical (fst ex_started) = (w, ds)" by (metis prod.collapse)
  obtain a where a: "snd (raise_event 0 ex_critical (rw_engine (fst ex_started))) = [(a, Raised)]" "a_Message a = ''x''"
    by (simp add: e raise_event_def new_event_def complete_event_def is_muted_def Subscribe_def NewEngine_def DefaultAlerts_def ex_critical_def mget_def zero_alert_def Let_def)
  have "program ex_machine Default (0, 0) [] ([(MainRoutine, CallSubscribe sink_subscriber, [])] @ [(LogReader, CallRaise 0 ex_critical, [(a, Raised)])])
      w (snd ex_started) [] ((\<lambda>_. [])(LogReader := ds))"
    using program.kmsg_alert[OF ex_program(1) _ e(2) ex_critical w] by (simp add: a)
  moreover have "((\<lambda>_. [])(LogReader := ds))(LogReader := []) = (\<lambda>_. [] :: deliveries)" by auto
  ultimately have run: "program ex_machine Default (0, 0) [] ([(MainRoutine, CallSubscribe sink_subscriber, [])] @ [(LogReader, CallRaise 0 ex_critical, [(a, Raised)])])
      (deliver ds w) (snd ex_started) [] (\<lambda>_. [])" using program_delivers[of _ _ _ _ _ _ _ _ "(\<lambda>_. [])(LogReader := ds)" LogReader ds] by fastforce
  have "mset (told sink_subscriber (rw_notices (deliver ds w))) = {#(a, Raised)#}"
    using program_refines_engine[OF run] by (auto simp: Default_def routines_def told_def)
  then show ?thesis using w a(2) by auto
qed

text \<open>
  C13: In every execution the store holds exactly the domains that one of the two discoverers
  of the program, libvirt and the process scanner, listed the last time it answered without
  an error, if that was at most ten seconds before the start of the last tick; and it holds
  each domain under its own identity. So a domain that a discoverer stops listing goes with
  its next answer, a discoverer that fails keeps the domains it listed last until the ten
  seconds are over, and no other collector adds or removes a domain.
\<close>

theorem program_domains:
  assumes "program mx cfg t rs ls w p q out"
  shows "(i \<in> domain_ids (po_store p) \<longleftrightarrow>
      (\<exists>n tm ids. n \<in> {''libvirt'', ''kvmscan''} \<and> last_report n rs = Some (tm, ids) \<and> i \<in> set ids \<and> time_sub (fst t) tm \<le> discoveryGrace)) \<and>
    (\<forall>d. latest_of (po_store p) i = Some d \<longrightarrow> d_ID d = i)"
proof -
  have "map_of (po_lastAlive p) n = map_option (\<lambda>(t, ids). \<lparr>as_ids = ids, as_at = t\<rparr>) (last_report n rs)" for n
    using program_reports[OF assms] by (simp add: remembered_def)
  then have "in_grace (fst t) (po_lastAlive p) n = {i. \<exists>tm ids. last_report n rs = Some (tm, ids) \<and> i \<in> set ids \<and> time_sub (fst t) tm \<le> discoveryGrace}" for n
    by (auto simp: in_grace_def split: option.splits)
  then show ?thesis using program_poller[OF assms] by (auto simp: pollable_def ids_ok_def)
qed

theorem program_domains_witness: "uuid_of ex_domain \<in> domain_ids (po_store (snd ex_collected))"
proof -
  have "map_option (\<lambda>(t, ids). \<lparr>as_ids = ids, as_at = t\<rparr>) (last_report ''libvirt'' (tick_reports ex_answers second (fst ex_started) (snd ex_started))) =
      Some \<lparr>as_ids = [uuid_of ex_domain], as_at = second\<rparr>"
    using program_reports[OF ex_program(2)] ex_collected_alive by (simp add: remembered_def)
  then have "last_report ''libvirt'' (tick_reports ex_answers second (fst ex_started) (snd ex_started)) = Some (second, [uuid_of ex_domain])" by auto
  moreover have "time_sub second second \<le> discoveryGrace" by (simp add: time_sub_def discoveryGrace_def second_def min_duration_def max_duration_def)
  ultimately show ?thesis using program_domains[OF ex_program(2), of "uuid_of ex_domain"] by auto
qed

section \<open>A tick\<close>

lemma program_detects:
  "program mx cfg t rs ls w p q out \<Longrightarrow> out Ticker = [] \<Longrightarrow>
   \<exists>ms. map fst ms = map (call_of clock) q \<and> program mx cfg t rs (ls @ map (Pair Ticker) ms) (foldl (call_now clock) w q) p [] out"
proof (induction q arbitrary: ls w)
  case (Cons c q)
  obtain w' ds where c: "detector_call_in clock c w = (w', ds)" by (metis prod.collapse)
  have out: "out(Ticker := []) = out" using Cons.prems(2) by auto
  have "program mx cfg t rs (ls @ [(Ticker, call_of clock c, notices_of clock c w)]) (deliver ds w') p q out"
    using program_delivers[OF detected[OF Cons.prems c], of Ticker ds] by (simp add: out)
  from Cons.IH[OF this Cons.prems(2)] obtain ms where "map fst ms = map (call_of clock) q"
    "program mx cfg t rs ((ls @ [(Ticker, call_of clock c, notices_of clock c w)]) @ map (Pair Ticker) ms)
       (foldl (call_now clock) (deliver ds w') q) p [] out" by blast
  moreover have "call_now clock w c = deliver ds w'" by (simp add: call_now_def c)
  ultimately show ?case by (intro exI[of _ "(call_of clock c, notices_of clock c w) # ms"]) simp
qed auto

text \<open>
  C14: A tick of the running program, seen from its engine, is one evaluation of the samples
  the detector takes of the store just committed, followed by one raise for each event it
  finds, and nothing else of a tick reaches the engine. From the second tick on a machine is
  announced as appeared exactly if it is in the store now and was not after the tick before,
  and as disappeared exactly if it was and is not any more. The tick starts when the
  deliveries of the tick before are made; what other goroutines have still to deliver
  does not matter.
\<close>

theorem program_tick:
  assumes "program mx cfg (t0, t1) rs ls w p [] out" and "out Ticker = []" and "t1 \<le> start" and "start < now" and "is_order (hx_order h)"
    and "tick_once h start now (w, p) = (w', p')"
  shows "\<exists>ms evs. program mx cfg (start, now) (rs @ tick_reports h start w p) (ls @ map (Pair Ticker) ms) w' p' [] out \<and>
    map fst ms = CallEvaluate now (run_samples (hx_order h) (rw_detector w) (HostOf (po_store p')) (Snapshot (hx_order h) (po_store p'))) #
      map (CallRaise (hx_clock h)) evs \<and>
    evs = run_events (hx_order h) (rw_detector w) (Snapshot (hx_order h) (po_store p')) \<and>
    (dt_primed (rw_detector w) \<longrightarrow>
      alerts_of_rule ''vm.appeared'' evs = domain_ids (po_store p') - domain_ids (po_store p) \<and>
      alerts_of_rule ''vm.disappeared'' evs = domain_ids (po_store p) - domain_ids (po_store p')) \<and>
    rw_detector w' = \<lparr>dt_th = dt_th (rw_detector w), dt_prev = current_domains (Snapshot (hx_order h) (po_store p')), dt_primed = True\<rparr>"
proof -
  obtain w1 p1 where c: "collect_tick h start now w p = (w1, p1)" by (metis prod.collapse)
  have wired: "wired p" using program_poller[OF assms(1)] by (simp add: pollable_def)
  then have part: "alert_part w1 = alert_part (w\<lparr>rw_host := h\<rparr>)" using collect_tick_parts(1)[OF c] by simp
  then have w1: "rw_host w1 = h" "rw_detector w1 = rw_detector w" by (simp_all add: alert_part_def)
  have t: "p' = p1" "w' = foldl (call_now (hx_clock h)) (detector_seen (po_store p1) w1) (detector_calls now (po_store p1) w1)"
    using tick_once_calls[OF _ c] assms(6) wired w1 by (simp_all add: wired_def)
  obtain ms where ms: "map fst ms = map (call_of (hx_clock h)) (detector_calls now (po_store p1) w1)"
    "program mx cfg (start, now) (rs @ tick_reports h start w p) (ls @ map (Pair Ticker) ms) w' p1 [] out"
    using program_detects[OF collected[OF assms(1-5) c] assms(2)] t(2) by blast
  have one: "rw_detector (call_now k v c) = rw_detector v" for k v c
    by (cases c) (simp_all add: call_now_def deliver_def evaluate_call_def raise_call_def split_beta Let_def)
  have det: "rw_detector (foldl (call_now k) v cs) = rw_detector v" for k v cs
    by (induction cs arbitrary: v) (simp_all add: one)
  have "ids_ok (po_store p')" using program_poller[OF ms(2)] by (simp add: pollable_def t(1))
  then have ids: "d_ID ` set (Snapshot (hx_order h) (po_store p')) = domain_ids (po_store p')" by (rule Snapshot_ids[OF assms(5)])
  have "dt_primed (rw_detector w) \<longrightarrow>
      alerts_of_rule ''vm.appeared'' (run_events (hx_order h) (rw_detector w) (Snapshot (hx_order h) (po_store p'))) = domain_ids (po_store p') - domain_ids (po_store p) \<and>
      alerts_of_rule ''vm.disappeared'' (run_events (hx_order h) (rw_detector w) (Snapshot (hx_order h) (po_store p'))) = domain_ids (po_store p) - domain_ids (po_store p')"
    using run_appeared[OF assms(5), of "rw_detector w"] run_disappeared[OF assms(5), of "rw_detector w"] program_detector[OF assms(1)] by (simp add: ids)
  moreover have "rw_detector w' = \<lparr>dt_th = dt_th (rw_detector w), dt_prev = current_domains (Snapshot (hx_order h) (po_store p')), dt_primed = True\<rparr>"
    unfolding t(2) det by (simp add: detector_seen_def w1 t(1))
  moreover have "map fst ms = CallEvaluate now (run_samples (hx_order h) (rw_detector w) (HostOf (po_store p')) (Snapshot (hx_order h) (po_store p'))) #
      map (CallRaise (hx_clock h)) (run_events (hx_order h) (rw_detector w) (Snapshot (hx_order h) (po_store p')))"
    unfolding ms(1) by (simp add: detector_calls_def w1 Let_def t(1) comp_def)
  moreover have "program mx cfg (start, now) (rs @ tick_reports h start w p) (ls @ map (Pair Ticker) ms) w' p' [] out" using ms(2) t(1) by simp
  ultimately show ?thesis by (intro exI[of _ ms] exI[of _ "run_events (hx_order h) (rw_detector w) (Snapshot (hx_order h) (po_store p'))"] conjI refl)
qed

theorem program_tick_witness:
  "\<exists>ms. program ex_machine Default (second, 2 * second) (tick_reports ex_answers second (fst ex_started) (snd ex_started))
     ([(MainRoutine, CallSubscribe sink_subscriber, [])] @ map (Pair Ticker) ms)
     (fst (tick_once ex_answers second (2 * second) ex_started)) (snd (tick_once ex_answers second (2 * second) ex_started)) [] (\<lambda>_. []) \<and> ms \<noteq> []"
proof -
  have "0 \<le> second" "second < 2 * second" "is_order (hx_order ex_answers)" by (simp_all add: second_def ex_answers_def is_order_def)
  from program_tick[OF ex_program(1) refl this, of "fst (tick_once ex_answers second (2 * second) ex_started)"
    "snd (tick_once ex_answers second (2 * second) ex_started)"]
  obtain ms where "program ex_machine Default (second, 2 * second) ([] @ tick_reports ex_answers second (fst ex_started) (snd ex_started))
     ([(MainRoutine, CallSubscribe sink_subscriber, [])] @ map (Pair Ticker) ms)
     (fst (tick_once ex_answers second (2 * second) ex_started)) (snd (tick_once ex_answers second (2 * second) ex_started)) [] (\<lambda>_. [])"
    "length (map fst ms) \<noteq> 0"
    unfolding prod.collapse by auto
  then show ?thesis by (intro exI[of _ ms]) auto
qed

section \<open>Configuration\<close>

text \<open>
  C40: The program starts exactly if the configuration can be read (no file is needed unless
  one is named; a file has no unknown key, an interval of at least 100 milliseconds, a
  history of at least one alert and a clear ratio that is above zero and at most one, or
  is no number: \<open>nan\<close>, which the format of the file has, passes both comparisons) and disables
  only features that exist. The program then runs with such settings; but the interval flag
  replaces the interval by any positive one, since the flag is applied after the check.
\<close>

theorem configure_result:
  assumes "\<And>f c c'. decode f c = TomlNotExist c' \<Longrightarrow> c' = c"
  shows "((\<exists>cfg. configure decode fl = Inr cfg) \<longleftrightarrow>
      (case decode (if fl_config fl = [] then DefaultPath else fl_config fl) Default of
         TomlNotExist c \<Rightarrow> fl_config fl = [] | TomlError e c \<Rightarrow> False
       | TomlDecoded c ks \<Rightarrow> ks = [] \<and> config_ok c \<and> set (Config.Probes.Disabled (cfg_Probes c)) \<subseteq> set AllFeatures)) \<and>
    (configure decode fl = Inr cfg \<longrightarrow>
      1 \<le> History (cfg_Alerts cfg) \<and>
      (special_less (Finite 0) (ClearRatio (cfg_Alerts cfg)) \<and> special_le (ClearRatio (cfg_Alerts cfg)) (Finite 1) \<or> ClearRatio (cfg_Alerts cfg) = NaN) \<and>
      set (Config.Probes.Disabled (cfg_Probes cfg)) \<subseteq> set AllFeatures \<and>
      (if 0 < fl_interval fl then cfg_Interval cfg = fl_interval fl else 100 * millisecond \<le> cfg_Interval cfg))"
proof -
  have keep: "cfg_Probes (override fl c) = cfg_Probes c" "cfg_Alerts (override fl c) = cfg_Alerts c"
    "cfg_Interval (override fl c) = (if 0 < fl_interval fl then fl_interval fl else cfg_Interval c)" for c
    by (simp_all add: override_def Let_def)
  have inr: "configure decode fl = Inr r \<longleftrightarrow> snd (Load decode (fl_config fl)) = None \<and> r = override fl (fst (Load decode (fl_config fl))) \<and>
      set (Config.Probes.Disabled (cfg_Probes (fst (Load decode (fl_config fl))))) \<subseteq> set AllFeatures" for r
    by (auto simp: configure_def Let_def keep find_None_iff find_Some_iff subset_eq split: prod.splits option.splits)
  note load = load_errors[OF assms, where path = "fl_config fl"]
  have dec: "fst (Load decode (fl_config fl)) = c" if "decode (if fl_config fl = [] then DefaultPath else fl_config fl) Default = TomlDecoded c []" for c
    using that by (cases "fl_config fl = []") (simp_all add: Load_def Let_def)
  have std: "Config.Probes.Disabled (cfg_Probes (fst (Load decode (fl_config fl)))) = []"
    if "decode (if fl_config fl = [] then DefaultPath else fl_config fl) Default = TomlNotExist c" for c
    using that assms[OF that] by (cases "fl_config fl = []") (simp_all add: Load_def Let_def Default_def)
  have "(\<exists>cfg. configure decode fl = Inr cfg) \<longleftrightarrow>
      (case decode (if fl_config fl = [] then DefaultPath else fl_config fl) Default of
         TomlNotExist c \<Rightarrow> fl_config fl = [] | TomlError e c \<Rightarrow> False
       | TomlDecoded c ks \<Rightarrow> ks = [] \<and> config_ok c \<and> set (Config.Probes.Disabled (cfg_Probes c)) \<subseteq> set AllFeatures)"
    unfolding inr using load dec std
    by (cases "decode (if fl_config fl = [] then DefaultPath else fl_config fl) Default") auto
  moreover have "config_ok (fst (Load decode (fl_config fl)))" if "snd (Load decode (fl_config fl)) = None"
    using load_errors[of decode "fl_config fl"] assms that by blast
  ultimately show ?thesis unfolding inr by (auto simp: keep config_ok_def alerts_ok_def)
qed

definition ex_flags :: flags where
  "ex_flags = \<lparr>fl_config = [], fl_interval = 1, fl_logLevel = [], fl_domain = [], fl_headless = True, fl_listen = []\<rparr>"

text \<open>Without a configuration file the program starts with an interval of one nanosecond.\<close>

theorem configure_result_witness: "\<exists>cfg. configure (\<lambda>f c. TomlNotExist c) ex_flags = Inr cfg \<and> cfg_Interval cfg = 1"
  using configure_result[where decode = "\<lambda>f c. TomlNotExist c" and fl = ex_flags] by (force simp: ex_flags_def)

text \<open>With a clear ratio that is no number a condition, once raised, is never under its clear level.\<close>

lemma nan_ratio_never_clears: "\<not> clear s v NaN"
  by (simp add: clear_def Let_def)

end
