(* ===== verification/Spec2Isabelle.thy ===== *)
theory Spec2Isabelle
  imports Alert_Properties Metric_Properties Event_Properties Host_Properties
    Collect_Properties Tui_Properties Endpoint_Properties Program_Properties
begin

text \<open>
  A verification of hyperview, a monitor for the KVM virtual machines of one host.

  \<^bold>\<open>The program.\<close> Every tick of the poller (\<open>internal/collect/collector.go\<close>) runs the
  discoverers and collectors, which write the snapshots of the domains and of the host into
  the store (\<open>internal/store\<close>). Counters become rates in the rate tracker
  (\<open>internal/collect/rate.go\<close>) and latency histograms become windows and percentiles
  (\<open>internal/probe/hist.go\<close>). After the tick the detector (\<open>internal/alert/detect.go\<close>) turns
  the snapshots into condition samples and events for the alert engine
  (\<open>internal/alert/alert.go\<close>), which the kernel log (\<open>internal/kmsg\<close>, \<open>internal/alert/kmsg.go\<close>)
  and the eBPF events (\<open>internal/probe/decode.go\<close>, \<open>internal/alert/kernel.go\<close>) feed as well.
  The engine announces transitions to its subscribers, among them the sinks of the headless
  mode (\<open>internal/sink\<close>). The terminal interface (\<open>internal/tui\<close>) reads the store, the engine
  and the states of the sources every tick and draws them; the metrics endpoint
  (\<open>internal/metrics\<close>) reads the same at every scrape. \<open>cmd/hyperview/main.go\<close> reads flags and
  configuration, puts the components together and starts them.

  \<^bold>\<open>The theories.\<close>
  \<^item> \<open>Prelude\<close>: time, Go maps, the order of a range loop, the last elements of a list.
    \<open>Go_Strings\<close>: what the program uses of \<open>strings\<close>, \<open>strconv\<close> and \<open>fmt\<close>. \<open>Regex\<close>: regular
    expressions with a backtracking matcher, proved to decide their declarative meaning.
  \<^item> \<open>Bounded_Log\<close>, \<open>Ring\<close>: the contract of a bounded history and the two ring buffers
    (\<open>internal/store/ring.go\<close>, \<open>internal/tui/logring.go\<close>) that meet it.
  \<^item> \<open>Config\<close>: \<open>internal/config/config.go\<close>.
  \<^item> \<open>Engine\<close>: the alert engine, one definition per critical section. \<open>Hysteresis\<close> is the
    abstract machine of one condition; \<open>Engine_Inv\<close>, \<open>Engine_Eval\<close>, \<open>Engine_Run\<close>,
    \<open>Engine_Conditions\<close> and \<open>Engine_Events\<close> prove the invariant, the effect of a tick, the
    refinement of the machine by the engine in every execution, and the accounting of events.
    \<open>Alert_Properties\<close> states the properties.
  \<^item> \<open>Store\<close>, \<open>Poller\<close>, \<open>Rate\<close>, \<open>Hist\<close>: the metrics pipeline; \<open>Store\<close> holds its abstract
    specification, a store with unbounded logs, \<open>Hist\<close> the recording side of the histograms,
    which is the BPF program's. \<open>Metric_Properties\<close> states the properties.
  \<^item> \<open>Decode\<close>, \<open>Kernel\<close>, \<open>Kmsg\<close>, \<open>Kmsg_Rules\<close>, \<open>Detect\<close>, \<open>Detect_Facts\<close>, \<open>Sink\<close>: the sources
    and sinks of alerts. \<open>Event_Properties\<close> states the properties.
  \<^item> \<open>Discover\<close>, \<open>Qmp\<close>: processes on the host and the QEMU monitor, with its background
    polls as a step relation. \<open>Scan\<close>, \<open>Host_Stats\<close>: the process scanner and the statistics
    of the host. \<open>Host_Properties\<close> states the properties.
  \<^item> \<open>Domain_Loop\<close>: the contract of a collector that walks over a snapshot of the store and
    changes one domain after the other, and what such a loop leaves. \<open>Rate_Monad\<close>: the rate
    tracker as a state monad. \<open>Proc\<close>, \<open>Libvirt\<close>, \<open>Ebpf\<close>: the collectors of
    \<open>internal/collect/proc.go\<close>, \<open>libvirt.go\<close> and \<open>ebpf.go\<close>. \<open>Tracefs\<close>, \<open>Probes\<close>: the layout
    of tracepoints, the loading of the probes, the maps shared with the BPF programs and the
    channel of kernel events (\<open>internal/probe\<close>). \<open>Collect_Properties\<close> states the properties.
  \<^item> \<open>Tui_Text\<close>: the theme, the numbers and the charts (\<open>theme.go\<close>, \<open>format.go\<close>);
    \<open>Tui_Layout\<close>: the layout of tables, with the proof that its loop ends and its rows fit;
    \<open>Tui\<close>: the state of the interface, its messages and keys (\<open>model.go\<close>), with its invariant;
    \<open>Tui_Views\<close>, \<open>Tui_Detail\<close>: the screens (\<open>dashboard.go\<close>, \<open>views.go\<close>, \<open>detail.go\<close>), where a
    slice out of range is no result. \<open>Tui_Properties\<close> states the properties.
  \<^item> \<open>Metrics\<close>: the descriptors, the metrics of a scrape and the server of the endpoint.
    \<open>Metrics_Facts\<close> gives every metric its place in the scrape, from which follows which
    metrics have the same identity. \<open>Endpoint_Properties\<close> states the properties.
  \<^item> \<open>Collection\<close>: the contract between the poller and its collectors, and what a tick makes
    of the store when all keep it. \<open>Hyperview\<close>: flags, configuration, logging and the runtime
    of \<open>main.go\<close>; \<open>Hyperview_Facts\<close> shows that the six collectors of the program meet the
    contract. \<open>Program\<close>: the executions of the whole program, in which ticks, kernel events,
    records of the kernel log and the deliveries of notices interleave; \<open>Program_Facts\<close> their
    invariants.
    \<open>Program_Properties\<close> states the properties.

  \<^bold>\<open>Correspondence.\<close> A struct is a record whose fields carry a prefix (\<open>a_\<close> for \<open>Alert\<close>,
  \<open>d_\<close> for \<open>DomainSnapshot\<close>); a method is a function from the state to the new state and the
  result. A \<open>float64\<close> is a rational, computed exactly: rounding, infinities and NaN are not
  modelled, except for the clear ratio of the configuration, which a user may set to any of
  them (\<open>special_float\<close>); sums of rates are described as folds in the order of the loop, and the
  percentiles are those of the exact product of rank and count, which for the 0.99 that the
  program uses is the one \<open>float64\<close> gives. An instant is a number of nanoseconds whose zero is Go's zero time; differences
  saturate as in Go. \<open>uint64\<close> and \<open>uint32\<close> are words and wrap; \<open>int\<close> and \<open>int64\<close> are integers.
  Strings are lists of bytes, with ASCII letter case and white space. A Go map is an
  association list with distinct keys; a nil map is the empty one. Where a loop ranges over
  a map the order is an argument, any rearrangement of the keys, and the properties hold for
  all of them. Pointers to alerts, which the engine shares between its tables, live in an
  explicit heap. A mutex makes each critical section one step. A call of the engine returns
  the deliveries that \<open>notify\<close> makes after the mutex is released; in the executions of the
  program each delivery is a step of the goroutine that called. What is not in the repository is an argument
  of the definitions that use it: the TOML, JSON and XML decoders, the eBPF, BTF, procfs and
  libvirt libraries, the terminal libraries (the width of a text, cutting and styling it), the
  files of \<open>/proc\<close> and \<open>/sys\<close>, and the clock.

  \<^bold>\<open>Bounds and fuel.\<close> All definitions are total. The reader of a journal datagram has fuel,
  its length, which is shown to be enough; every other loop is recursion on its data, with a
  measure where it is not structural. The loop that hides the columns of a table is also given
  with a bound on its rounds, which is shown to suffice.

  \<^bold>\<open>Not modelled.\<close> The BPF programs, which are C compiled ahead, and the generated code that
  loads them (\<open>internal/bpf\<close>); opening and closing of files, sockets and devices beyond whether
  it succeeds; the registry, the text format and the HTTP server behind the endpoint; signals
  and the exit of the process. In the executions of the whole program a collection is one
  step: the polls of QEMU monitors that overlap with it are the subject of \<open>Qmp\<close>, where each
  critical section is a step of its own. The files of \<open>/proc\<close> and \<open>/sys\<close> do not change during
  one call that reads them, and reading a file either fails as a whole or gives all of it: the
  limit of 64 kB on a line that a scanner has, and errors in the middle of a file, are left out.
\<close>

end
